(* ===== verification/Prelude.thy ===== *)
theory Prelude
  imports Main "HOL-Library.Word" "HOL-Library.Char_ord"
begin

text \<open>
  Shared ground of the development: names for the machine integers of the C code, the C
  operations on \<open>int\<close> that differ from HOL's, bytes and the little-endian layout of the wire
  structs, C strings, and the generic locale \<open>inv_machine\<close> that lifts a one-step
  invariant to runs.

  Conventions. C \<open>int\<close> is HOL \<open>int\<close>: signed overflow is undefined in C, and the range
  invariants of the components show that the values stay far from it. \<open>uint8_t\<close>,
  \<open>uint16_t\<close>, \<open>uint32_t\<close> and \<open>uint64_t\<close> are words and wrap. An \<open>int\<close> that the code
  uses only as a flag is \<open>bool\<close>. \<open>char\<close> arrays are \<open>char list\<close> (HOL's \<open>char\<close> is one
  byte).
\<close>

section \<open>Machine integers\<close>

type_synonym u8 = "8 word"
type_synonym u16 = "16 word"
type_synonym u32 = "32 word"
type_synonym u64 = "64 word"

named_theorems c_arith \<open>facts about C integer operations\<close>
named_theorems codec \<open>definitions of the wire codecs\<close>

text \<open>C division and remainder truncate towards zero.\<close>

definition c_div :: "int \<Rightarrow> int \<Rightarrow> int" where
  "c_div a b = sgn a * sgn b * (\<bar>a\<bar> div \<bar>b\<bar>)"

definition c_mod :: "int \<Rightarrow> int \<Rightarrow> int" where
  "c_mod a b = a - c_div a b * b"

lemma c_div_nonneg [c_arith]: "0 \<le> a \<Longrightarrow> 0 < b \<Longrightarrow> c_div a b = a div b"
  by (cases "a = 0") (simp_all add: c_div_def)

lemma c_mod_nonneg [c_arith]: "0 \<le> a \<Longrightarrow> 0 < b \<Longrightarrow> c_mod a b = a mod b"
  by (simp add: c_mod_def c_div_nonneg minus_div_mult_eq_mod)

lemma c_mod_bounds: "0 < b \<Longrightarrow> - b < c_mod a b \<and> c_mod a b < b"
proof (cases "0 \<le> a")
  case True
  moreover assume "0 < b"
  moreover have "0 \<le> a mod b" "a mod b < b" using \<open>0 < b\<close> by simp_all
  ultimately show ?thesis by (simp add: c_mod_nonneg)
next
  case False
  assume b: "0 < b"
  have "(- a) mod b = (- a) - (- a) div b * b"
    by (simp add: minus_div_mult_eq_mod)
  with False b have eq: "c_mod a b = - ((- a) mod b)"
    by (simp add: c_mod_def c_div_def)
  have "0 \<le> (- a) mod b" "(- a) mod b < b" using b by simp_all
  with eq show ?thesis by simp
qed

text \<open>Assigning an \<open>int\<close> to an unsigned field keeps the low bits.\<close>

definition to_u8 :: "int \<Rightarrow> u8" where
  "to_u8 i = word_of_int i"

definition to_u16 :: "int \<Rightarrow> u16" where
  "to_u16 i = word_of_int i"

definition flag8 :: "bool \<Rightarrow> u8" where
  "flag8 b = (if b then 1 else 0)"

lemma unat_to_u8 [c_arith]: "0 \<le> i \<Longrightarrow> i < 256 \<Longrightarrow> unat (to_u8 i) = nat i"
  by (simp add: to_u8_def unat_eq_nat_uint uint_word_of_int)

lemma unat_to_u16 [c_arith]: "0 \<le> i \<Longrightarrow> i < 65536 \<Longrightarrow> unat (to_u16 i) = nat i"
  by (simp add: to_u16_def unat_eq_nat_uint uint_word_of_int)

lemma unat_flag8 [simp]: "unat (flag8 b) = (if b then 1 else 0)"
  by (simp add: flag8_def)

lemma flag8_le_1 [simp]: "flag8 b \<le> 1"
  by (simp add: flag8_def)

section \<open>Bytes and C strings\<close>

abbreviation NUL :: char where
  "NUL \<equiv> CHR 0x00"

definition char_u8 :: "char \<Rightarrow> u8" where
  "char_u8 c = word_of_nat (of_char c)"

definition u8_char :: "u8 \<Rightarrow> char" where
  "u8_char b = char_of (unat b)"

lemma unat_u8_lt: "unat (b :: u8) < 256"
  using unsigned_less [of b, where ?'a = nat] by simp

lemma unat_u16_lt: "unat (w :: u16) < 65536"
  using unsigned_less [of w, where ?'a = nat] by simp

lemma char_u8_u8_char [simp]: "char_u8 (u8_char b) = b"
  using unat_u8_lt [of b] by (simp add: char_u8_def u8_char_def)

lemma u8_char_char_u8 [simp]: "u8_char (char_u8 c) = c"
proof -
  have "(of_char c :: nat) < 256" by simp
  then show ?thesis by (simp add: char_u8_def u8_char_def unat_of_nat take_bit_eq_mod)
qed

text \<open>Little-endian 16-bit fields, the layout of both supported targets.\<close>

definition put16 :: "u16 \<Rightarrow> char list" where
  [codec]: "put16 w = [u8_char (word_of_nat (unat w mod 256)), u8_char (word_of_nat (unat w div 256))]"

definition le16 :: "char \<Rightarrow> char \<Rightarrow> u16" where
  "le16 lo hi = word_of_nat (unat (char_u8 lo) + 256 * unat (char_u8 hi))"

definition get8 :: "char list \<Rightarrow> nat \<Rightarrow> u8" where
  [codec]: "get8 d i = char_u8 (d ! i)"

definition get16 :: "char list \<Rightarrow> nat \<Rightarrow> u16" where
  [codec]: "get16 d i = le16 (d ! i) (d ! Suc i)"

lemma le16_split [simp]:
  "le16 (u8_char (word_of_nat (unat w mod 256))) (u8_char (word_of_nat (unat w div 256))) = w"
proof -
  have lo: "unat (word_of_nat (unat w mod 256) :: u8) = unat w mod 256"
    by (simp add: unat_of_nat)
  have "unat w div 256 < 256" using unat_u16_lt [of w] by simp
  then have hi: "unat (word_of_nat (unat w div 256) :: u8) = unat w div 256"
    by (simp add: unat_of_nat)
  show ?thesis by (simp only: le16_def char_u8_u8_char lo hi) simp
qed

lemma length_put16 [simp]: "length (put16 w) = 2"
  by (simp add: put16_def)

text \<open>The C string in a character buffer ends at the first NUL.\<close>

definition cstr :: "char list \<Rightarrow> string" where
  "cstr d = takeWhile (\<lambda>c. c \<noteq> NUL) d"

text \<open>\<open>memchr(d, 0, sizeof d) != NULL\<close>\<close>

definition has_nul :: "char list \<Rightarrow> bool" where
  "has_nul d = (NUL \<in> set d)"

text \<open>\<open>strncpy(dst, src, sizeof(dst) - 1)\<close> and \<open>snprintf(dst, sizeof(dst), "%s", src)\<close>
  as the string \<open>dst\<close> then holds, for a destination of \<open>Suc n\<close> zero-initialised bytes.\<close>

definition copy_text :: "nat \<Rightarrow> char list \<Rightarrow> string" where
  "copy_text n src = take n (cstr src)"

lemma length_copy_text: "length (copy_text n src) \<le> n"
  by (simp add: copy_text_def)

lemma cstr_no_nul: "NUL \<notin> set (cstr d)"
  by (auto simp: cstr_def dest: set_takeWhileD)

lemma cstr_append_nul: "NUL \<notin> set t \<Longrightarrow> cstr (t @ NUL # r) = t"
  by (induction t) (auto simp: cstr_def)

section \<open>Lists\<close>

lemma nth_update_if: "j < length xs \<Longrightarrow> xs[i := x] ! j = (if i = j then x else xs ! j)"
  by (simp add: nth_list_update)

lemma find_SomeD: "find P xs = Some x \<Longrightarrow> x \<in> set xs \<and> P x"
  by (auto simp: find_Some_iff in_set_conv_nth)

section \<open>Decimal numbers\<close>

text \<open>\<open>printf("%u")\<close>, least significant digit last.\<close>

definition digit_char :: "nat \<Rightarrow> char" where
  "digit_char n = char_of (48 + n mod 10)"

fun show_nat :: "nat \<Rightarrow> string" where
  "show_nat n = (if n < 10 then [digit_char n] else show_nat (n div 10) @ [digit_char n])"

declare show_nat.simps [simp del]

lemma of_char_digit [simp]: "(of_char (digit_char n) :: nat) = 48 + n mod 10"
proof -
  have "48 + n mod 10 < 256" using mod_less_divisor [of 10 n] by linarith
  then show ?thesis by (simp add: digit_char_def)
qed

lemma show_nat_not_Nil [simp]: "show_nat n \<noteq> []"
  by (subst show_nat.simps) simp

lemma show_nat_digits: "c \<in> set (show_nat n) \<Longrightarrow> \<exists>k. c = digit_char k"
  by (induction n rule: show_nat.induct) (subst (asm) (2) show_nat.simps, auto split: if_splits)

text \<open>\<open>printf("%d")\<close>\<close>

definition show_int :: "int \<Rightarrow> string" where
  "show_int i = (if i < 0 then CHR ''-'' # show_nat (nat (- i)) else show_nat (nat i))"

section \<open>Terminal text\<close>

text \<open>The colours of \<^verbatim>\<open>common.h\<close>, and the line feed.\<close>

definition COLOR_RESET :: string where "COLOR_RESET = CHR 0x1B # ''[0m''"
definition COLOR_RED :: string where "COLOR_RED = CHR 0x1B # ''[31m''"
definition COLOR_GREEN :: string where "COLOR_GREEN = CHR 0x1B # ''[32m''"
definition COLOR_YELLOW :: string where "COLOR_YELLOW = CHR 0x1B # ''[33m''"
definition COLOR_CYAN :: string where "COLOR_CYAN = CHR 0x1B # ''[36m''"
definition COLOR_BOLD :: string where "COLOR_BOLD = CHR 0x1B # ''[1m''"

abbreviation (input) NL :: string where "NL \<equiv> [CHR 0x0A]"

section \<open>Parsing\<close>

text \<open>\<open>isspace\<close> in the C locale, and \<open>atoi\<close>.\<close>

definition is_space :: "char \<Rightarrow> bool" where
  "is_space c \<longleftrightarrow> c = CHR '' '' \<or> (CHR 0x09 \<le> c \<and> c \<le> CHR 0x0D)"

definition is_digit :: "char \<Rightarrow> bool" where
  "is_digit c \<longleftrightarrow> CHR ''0'' \<le> c \<and> c \<le> CHR ''9''"

definition digits_value :: "string \<Rightarrow> nat" where
  "digits_value ds = fold (\<lambda>c n. 10 * n + (of_char c - 48)) ds 0"

definition atoi :: "string \<Rightarrow> int" where
  "atoi text =
     (let t = dropWhile is_space text in
      if t \<noteq> [] \<and> hd t = CHR ''-'' then - int (digits_value (takeWhile is_digit (tl t)))
      else if t \<noteq> [] \<and> hd t = CHR ''+'' then int (digits_value (takeWhile is_digit (tl t)))
      else int (digits_value (takeWhile is_digit t)))"

text \<open>The digit loop that Local and Central both use for bounded decimal numbers: it stops before the
  value would pass the maximum, so it never overflows.\<close>

fun parse_digits :: "nat \<Rightarrow> nat \<Rightarrow> string \<Rightarrow> nat option" where
  "parse_digits maximum parsed [] = Some parsed"
| "parse_digits maximum parsed (c # cs) =
     (if \<not> (CHR ''0'' \<le> c \<and> c \<le> CHR ''9'') then None
      else
        let digit = of_char c - of_char CHR ''0'' in
        if maximum div 10 < parsed \<or> (parsed = maximum div 10 \<and> maximum mod 10 < digit) then None
        else parse_digits maximum (parsed * 10 + digit) cs)"

definition decimal_value :: "nat \<Rightarrow> string \<Rightarrow> nat" where
  "decimal_value v ds = fold (\<lambda>c n. 10 * n + (of_char c - 48)) ds v"

lemma decimal_value_simps [simp]:
  "decimal_value v [] = v" "decimal_value v (c # cs) = decimal_value (10 * v + (of_char c - 48)) cs"
  "decimal_value v (xs @ ys) = decimal_value (decimal_value v xs) ys"
  by (simp_all add: decimal_value_def)

lemma decimal_value_ge: "v \<le> decimal_value v ds"
proof (induction ds arbitrary: v)
  case (Cons c ds)
  have "v \<le> 10 * v + (of_char c - 48)" by simp
  also have "\<dots> \<le> decimal_value (10 * v + (of_char c - 48)) ds" by (rule Cons)
  finally show ?case by simp
qed simp

lemma digit_bound: "is_digit c \<Longrightarrow> (of_char c :: nat) - 48 < 10"
  by (auto simp: is_digit_def less_eq_char_def)

lemma overflow_test:
  assumes "d < 10"
  shows "m div 10 < v \<or> (v = m div 10 \<and> m mod 10 < d) \<longleftrightarrow> m < 10 * v + (d :: nat)"
proof -
  define q r where "q = m div 10" and "r = m mod 10"
  then have "m = 10 * q + r" "r < 10" by simp_all
  with assms show ?thesis
    by (cases rule: linorder_cases [of q v]) (auto simp: q_def [symmetric] r_def [symmetric])
qed

text \<open>The loop computes exactly the decimal value, when the text is all digits and the value fits.\<close>

lemma parse_digits_exact:
  "v \<le> maximum \<Longrightarrow> parse_digits maximum v ds =
     (if list_all is_digit ds \<and> decimal_value v ds \<le> maximum then Some (decimal_value v ds) else None)"
proof (induction ds arbitrary: v)
  case (Cons c ds)
  let ?d = "of_char c - 48 :: nat"
  show ?case
  proof (cases "is_digit c")
    case True
    have over: "maximum div 10 < v \<or> (v = maximum div 10 \<and> maximum mod 10 < ?d) \<longleftrightarrow> maximum < 10 * v + ?d"
      by (rule overflow_test [OF digit_bound [OF True]])
    show ?thesis
    proof (cases "maximum < 10 * v + ?d")
      case True
      with decimal_value_ge [of "10 * v + ?d" ds] over \<open>is_digit c\<close> show ?thesis
        by (auto simp: is_digit_def Let_def)
    next
      case False
      with Cons.IH [of "10 * v + ?d"] over \<open>is_digit c\<close> show ?thesis
        by (auto simp: is_digit_def Let_def mult.commute)
    qed
  qed (auto simp: is_digit_def)
qed simp

lemma is_digit_digit_char: "is_digit (digit_char n)"
  using mod_less_divisor [of 10 n] by (simp add: is_digit_def less_eq_char_def)

lemma show_nat_all_digits: "list_all is_digit (show_nat n)"
  using show_nat_digits is_digit_digit_char by (fastforce simp: list_all_iff)

lemma show_nat_value: "decimal_value 0 (show_nat n) = n"
proof (induction n rule: show_nat.induct)
  case (1 n)
  then show ?case by (subst show_nat.simps) auto
qed

lemma parse_show_nat: "n \<le> maximum \<Longrightarrow> parse_digits maximum 0 (show_nat n) = Some n"
  by (simp add: parse_digits_exact show_nat_all_digits show_nat_value)

lemma show_nat_is_digit: "c \<in> set (show_nat n) \<Longrightarrow> is_digit c"
  using show_nat_all_digits by (auto simp: list_all_iff)

lemma show_nat_no_space: "CHR '' '' \<notin> set (show_nat n)"
  using show_nat_is_digit [of "CHR '' ''" n] by (auto simp: is_digit_def less_eq_char_def)

lemma show_nat_no_nul: "NUL \<notin> set (show_nat n)"
  using show_nat_is_digit [of NUL n] by (auto simp: is_digit_def less_eq_char_def)

lemma show_nat_length: "n < 10 ^ Suc k \<Longrightarrow> length (show_nat n) \<le> Suc k"
proof (induction k arbitrary: n)
  case (Suc k)
  then have "n div 10 < 10 ^ Suc k" by (simp add: less_mult_imp_div_less)
  from Suc.IH [OF this] show ?case by (subst show_nat.simps) simp
qed (subst show_nat.simps, simp)

lemma fold_ok:
  assumes "\<And>k r. k \<in> set ks \<Longrightarrow> P r \<Longrightarrow> P (f k r)" "P r"
  shows "P (fold f ks r)"
  using assms by (induction ks arbitrary: r) auto

section \<open>Runs of a step function\<close>

text \<open>
  A component is a state and a step function on inputs. \<open>inv_machine\<close> is what a component
  promises to whoever drives it: an invariant that every step keeps. Its lemmas lift that
  to any sequence of inputs.
\<close>

locale inv_machine =
  fixes step :: "'i \<Rightarrow> 's \<Rightarrow> 's"
    and ok :: "'i \<Rightarrow> bool"
    and inv :: "'s \<Rightarrow> bool"
  assumes step_inv: "inv s \<Longrightarrow> ok i \<Longrightarrow> inv (step i s)"
begin

lemma run_inv: "inv s \<Longrightarrow> \<forall>i \<in> set is. ok i \<Longrightarrow> inv (fold step is s)"
  by (induction "is" arbitrary: s) (auto intro: step_inv)

lemma run_prefix_inv:
  "inv s \<Longrightarrow> \<forall>i \<in> set (xs @ ys). ok i \<Longrightarrow> inv (fold step xs s)"
  by (rule run_inv) auto

lemma funpow_inv: "inv s \<Longrightarrow> ok i \<Longrightarrow> inv ((step i ^^ n) s)"
  by (induction n) (auto intro: step_inv)

end

section \<open>Bounded queues\<close>

text \<open>
  A queue of limited size between two threads. \<open>list_step\<close> is the specification on lists: what does
  not fit is refused, and what was accepted leaves in the order it came. An implementation that
  satisfies the laws of \<open>bounded_fifo\<close> behaves like it under every interleaving of its clients.
\<close>

datatype 'a fifo_op = Fifo_Push 'a | Fifo_Pop

fun fifo_step :: "('a \<Rightarrow> 'q \<Rightarrow> 'q) \<Rightarrow> ('q \<Rightarrow> ('a \<times> 'q) option) \<Rightarrow> 'a fifo_op \<Rightarrow> 'q \<times> 'a list \<Rightarrow>
    'q \<times> 'a list" where
  "fifo_step push pop (Fifo_Push x) (q, out) = (push x q, out)"
| "fifo_step push pop Fifo_Pop (q, out) =
     (case pop q of None \<Rightarrow> (q, out) | Some (x, q') \<Rightarrow> (q', out @ [x]))"

fun list_step :: "nat \<Rightarrow> 'a fifo_op \<Rightarrow> 'a list \<times> 'a list \<Rightarrow> 'a list \<times> 'a list" where
  "list_step n (Fifo_Push x) (xs, out) = (if length xs < n then xs @ [x] else xs, out)"
| "list_step n Fifo_Pop (xs, out) = (case xs of [] \<Rightarrow> (xs, out) | x # r \<Rightarrow> (r, out @ [x]))"

locale bounded_fifo =
  fixes push :: "'a \<Rightarrow> 'q \<Rightarrow> 'q"
    and pop :: "'q \<Rightarrow> ('a \<times> 'q) option"
    and contents :: "'q \<Rightarrow> 'a list"
    and ok :: "'q \<Rightarrow> bool"
    and capacity :: nat
  assumes push_ok: "ok q \<Longrightarrow> ok (push x q)"
    and push_contents: "ok q \<Longrightarrow>
      contents (push x q) = (if length (contents q) < capacity then contents q @ [x] else contents q)"
    and pop_ok: "ok q \<Longrightarrow> pop q = Some (x, q') \<Longrightarrow> ok q'"
    and pop_contents: "ok q \<Longrightarrow>
      contents q = (case pop q of None \<Rightarrow> [] | Some (x, q') \<Rightarrow> x # contents q')"
begin

lemma step_refines:
  assumes "ok q"
  shows "ok (fst (fifo_step push pop a (q, out))) \<and>
    map_prod contents id (fifo_step push pop a (q, out)) = list_step capacity a (contents q, out)"
proof (cases a)
  case (Fifo_Push x)
  with assms show ?thesis by (simp add: push_ok push_contents)
next
  case Fifo_Pop
  with assms pop_contents [OF assms] show ?thesis
    by (cases "pop q") (auto simp: split_beta intro: pop_ok)
qed

lemma run_refines:
  assumes "ok q"
  shows "ok (fst (fold (fifo_step push pop) ops (q, out))) \<and>
    map_prod contents id (fold (fifo_step push pop) ops (q, out)) =
      fold (list_step capacity) ops (contents q, out)"
  using assms
proof (induction ops arbitrary: q out)
  case (Cons a ops)
  obtain q' out' where s: "fifo_step push pop a (q, out) = (q', out')" by fastforce
  with step_refines [OF Cons.prems, of a out]
  have "ok q'" "list_step capacity a (contents q, out) = (contents q', out')" by auto
  with s Cons.IH show ?case by simp
qed simp

end

end
