(* ===== verification/Protocol.thy ===== *)
theory Protocol
  imports Prelude
begin

text \<open>
  The shared message protocol of \<^verbatim>\<open>src/common/protocol.h\<close>: the enumerations with their
  numeric codes, the timing constants, the payload structs, and the byte layout in which a
  payload travels in the 64 data bytes of \<open>test_message_t\<close> (\<open>memcpy\<close> in and out). Every
  payload has an encoder, a decoder and a round-trip lemma: decoding what was copied into
  the data area gives the payload back, whatever the area held before.
\<close>

section \<open>Constants\<close>

abbreviation (input) NUM_INTERSECTIONS :: nat where "NUM_INTERSECTIONS \<equiv> 6"
abbreviation (input) NUM_CROSSINGS :: nat where "NUM_CROSSINGS \<equiv> 3"
abbreviation (input) GREEN_BASE_SEC :: int where "GREEN_BASE_SEC \<equiv> 20"
abbreviation (input) GREEN_MIN_SEC :: int where "GREEN_MIN_SEC \<equiv> 10"
abbreviation (input) GREEN_MAX_SEC :: int where "GREEN_MAX_SEC \<equiv> 30"
abbreviation (input) YELLOW_SEC :: int where "YELLOW_SEC \<equiv> 2"
abbreviation (input) PED_WALK_START_SEC :: int where "PED_WALK_START_SEC \<equiv> 1"
abbreviation (input) PED_WALK_END_SEC :: int where "PED_WALK_END_SEC \<equiv> 5"
abbreviation (input) COORDINATION_MAX_CYCLE_SEC :: nat where "COORDINATION_MAX_CYCLE_SEC \<equiv> 64"
abbreviation (input) SENSOR_CAR_THRESHOLD :: int where "SENSOR_CAR_THRESHOLD \<equiv> 5"
abbreviation (input) SENSOR_ADJUST_SEC :: int where "SENSOR_ADJUST_SEC \<equiv> 5"
abbreviation (input) HEARTBEAT_MISS_LIMIT :: nat where "HEARTBEAT_MISS_LIMIT \<equiv> 3"
abbreviation (input) RAILWAY_RECOVERY_SEC :: int where "RAILWAY_RECOVERY_SEC \<equiv> 2"
abbreviation (input) STATUS_TELEMETRY_VERSION :: u8 where "STATUS_TELEMETRY_VERSION \<equiv> 1"
abbreviation (input) CMD_PRIO_SCHEDULE :: u8 where "CMD_PRIO_SCHEDULE \<equiv> 1"
abbreviation (input) CMD_PRIO_OPERATOR :: u8 where "CMD_PRIO_OPERATOR \<equiv> 2"
abbreviation (input) INTERSECTION_ALL :: nat where "INTERSECTION_ALL \<equiv> 255"

section \<open>Enumerations\<close>

datatype msg_type = MSG_TEST | MSG_HEARTBEAT | MSG_MODE_COMMAND | MSG_STATUS_UPDATE
  | MSG_FAULT_ALERT | MSG_RAILWAY_PREEMPT | MSG_TRAIN_CLEAR | MSG_RAILWAY_STATUS
  | MSG_SENSOR_UPDATE | MSG_PED_REQUEST | MSG_COORDINATION_COMMAND | MSG_OVERRIDE_REQUEST
  | MSG_DISPLAY_UPDATE

primrec msg_code :: "msg_type \<Rightarrow> u16" where
  "msg_code MSG_TEST = 1"
| "msg_code MSG_HEARTBEAT = 2"
| "msg_code MSG_MODE_COMMAND = 3"
| "msg_code MSG_STATUS_UPDATE = 4"
| "msg_code MSG_FAULT_ALERT = 5"
| "msg_code MSG_RAILWAY_PREEMPT = 6"
| "msg_code MSG_TRAIN_CLEAR = 7"
| "msg_code MSG_RAILWAY_STATUS = 8"
| "msg_code MSG_SENSOR_UPDATE = 9"
| "msg_code MSG_PED_REQUEST = 10"
| "msg_code MSG_COORDINATION_COMMAND = 11"
| "msg_code MSG_OVERRIDE_REQUEST = 12"
| "msg_code MSG_DISPLAY_UPDATE = 13"

datatype controller_type = CONTROLLER_LOCAL | CONTROLLER_TRAIN | CONTROLLER_CENTRAL

primrec controller_code :: "controller_type \<Rightarrow> u16" where
  "controller_code CONTROLLER_LOCAL = 1"
| "controller_code CONTROLLER_TRAIN = 2"
| "controller_code CONTROLLER_CENTRAL = 3"

datatype traffic_light_mode = MODE_FIXED | MODE_SENSOR | MODE_RAILWAY | MODE_FAILSAFE

primrec mode_code :: "traffic_light_mode \<Rightarrow> u8" where
  "mode_code MODE_FIXED = 0"
| "mode_code MODE_SENSOR = 1"
| "mode_code MODE_RAILWAY = 2"
| "mode_code MODE_FAILSAFE = 3"

text \<open>A byte stored into an enumeration variable. The handlers store only bytes they have
  checked, so the last case is never reached from them.\<close>

definition mode_of :: "u8 \<Rightarrow> traffic_light_mode" where
  "mode_of b = (if b = 0 then MODE_FIXED else if b = 1 then MODE_SENSOR
                else if b = 2 then MODE_RAILWAY else MODE_FAILSAFE)"

datatype light_state = LIGHT_OFF | LIGHT_RED | LIGHT_YELLOW | LIGHT_GREEN

primrec light_code :: "light_state \<Rightarrow> u8" where
  "light_code LIGHT_OFF = 0"
| "light_code LIGHT_RED = 1"
| "light_code LIGHT_YELLOW = 2"
| "light_code LIGHT_GREEN = 3"

datatype phase_t = PHASE_NS_GREEN | PHASE_NS_YELLOW | PHASE_EW_GREEN | PHASE_EW_YELLOW
  | PHASE_RAILWAY_HOLD

primrec phase_code :: "phase_t \<Rightarrow> u8" where
  "phase_code PHASE_NS_GREEN = 0"
| "phase_code PHASE_NS_YELLOW = 1"
| "phase_code PHASE_EW_GREEN = 2"
| "phase_code PHASE_EW_YELLOW = 3"
| "phase_code PHASE_RAILWAY_HOLD = 4"

definition phase_of :: "u8 \<Rightarrow> phase_t" where
  "phase_of b = (if b = 0 then PHASE_NS_GREEN else if b = 1 then PHASE_NS_YELLOW
                 else if b = 2 then PHASE_EW_GREEN else if b = 3 then PHASE_EW_YELLOW
                 else PHASE_RAILWAY_HOLD)"

datatype direction_t = DIR_NS | DIR_EW

primrec direction_code :: "direction_t \<Rightarrow> u8" where
  "direction_code DIR_NS = 0"
| "direction_code DIR_EW = 1"

datatype fault_type = FAULT_NONE | FAULT_LIGHT | FAULT_SENSOR | FAULT_COMM | FAULT_GATE
  | FAULT_NOT_WORKING

primrec fault_code :: "fault_type \<Rightarrow> u8" where
  "fault_code FAULT_NONE = 0"
| "fault_code FAULT_LIGHT = 1"
| "fault_code FAULT_SENSOR = 2"
| "fault_code FAULT_COMM = 3"
| "fault_code FAULT_GATE = 4"
| "fault_code FAULT_NOT_WORKING = 5"

datatype fault_severity = SEV_LOW | SEV_MEDIUM | SEV_CRITICAL

primrec severity_code :: "fault_severity \<Rightarrow> u8" where
  "severity_code SEV_LOW = 1"
| "severity_code SEV_MEDIUM = 2"
| "severity_code SEV_CRITICAL = 3"

datatype train_state = TRAIN_NONE | TRAIN_APPROACHING | TRAIN_AT_CROSSING | TRAIN_CLEAR

primrec train_code :: "train_state \<Rightarrow> u8" where
  "train_code TRAIN_NONE = 0"
| "train_code TRAIN_APPROACHING = 1"
| "train_code TRAIN_AT_CROSSING = 2"
| "train_code TRAIN_CLEAR = 3"

datatype gate_state = GATE_OPEN | GATE_CLOSING | GATE_CLOSED | GATE_OPENING | GATE_FAULT

primrec gate_code :: "gate_state \<Rightarrow> u8" where
  "gate_code GATE_OPEN = 0"
| "gate_code GATE_CLOSING = 1"
| "gate_code GATE_CLOSED = 2"
| "gate_code GATE_OPENING = 3"
| "gate_code GATE_FAULT = 4"

datatype cmd_action = CMD_SET_MODE | CMD_TEMPORARY | CMD_REVERT

primrec action_code :: "cmd_action \<Rightarrow> u8" where
  "action_code CMD_SET_MODE = 0"
| "action_code CMD_TEMPORARY = 1"
| "action_code CMD_REVERT = 2"

text \<open>Severities are ordered as their codes, which is how the range checks compare them.\<close>

instantiation fault_severity :: linorder
begin

definition less_eq_fault_severity :: "fault_severity \<Rightarrow> fault_severity \<Rightarrow> bool" where
  "less_eq_fault_severity a b = (severity_code a \<le> severity_code b)"

definition less_fault_severity :: "fault_severity \<Rightarrow> fault_severity \<Rightarrow> bool" where
  "less_fault_severity a b = (severity_code a < severity_code b)"

instance
proof
  fix x y z :: fault_severity
  show "(x < y) = (x \<le> y \<and> \<not> y \<le> x)"
    by (auto simp: less_eq_fault_severity_def less_fault_severity_def)
  show "x \<le> x" by (simp add: less_eq_fault_severity_def)
  show "x \<le> y \<Longrightarrow> y \<le> z \<Longrightarrow> x \<le> z"
    by (auto simp: less_eq_fault_severity_def)
  show "x \<le> y \<Longrightarrow> y \<le> x \<Longrightarrow> x = y"
    by (cases x; cases y) (auto simp: less_eq_fault_severity_def word_le_nat_alt)
  show "x \<le> y \<or> y \<le> x" by (auto simp: less_eq_fault_severity_def)
qed

end

lemma severity_range: "SEV_LOW \<le> v \<and> v \<le> SEV_CRITICAL"
  by (cases v) (auto simp: less_eq_fault_severity_def)

text \<open>The codes identify the enumerators, and stay within the bounds the receivers check.\<close>

lemma code_inject [simp]:
  "msg_code a = msg_code b \<longleftrightarrow> a = b"
  "controller_code c = controller_code d \<longleftrightarrow> c = d"
  "mode_code m = mode_code n \<longleftrightarrow> m = n"
  "light_code l = light_code k \<longleftrightarrow> l = k"
  "phase_code p = phase_code q \<longleftrightarrow> p = q"
      apply (cases a; cases b; simp)
     apply (cases c; cases d; simp)
    apply (cases m; cases n; simp)
   apply (cases l; cases k; simp)
  apply (cases p; cases q; simp)
  done

lemma code_bounds [simp]:
  "mode_code m \<le> 3" "light_code l \<le> 3" "phase_code p \<le> 4" "fault_code f \<le> 5"
  "severity_code v \<le> 3" "train_code t \<le> 3" "gate_code g \<le> 4"
        apply (cases m; simp add: word_le_nat_alt)
       apply (cases l; simp add: word_le_nat_alt)
      apply (cases p; simp add: word_le_nat_alt)
     apply (cases f; simp add: word_le_nat_alt)
    apply (cases v; simp add: word_le_nat_alt)
   apply (cases t; simp add: word_le_nat_alt)
  apply (cases g; simp add: word_le_nat_alt)
  done

lemma mode_of_code [simp]: "mode_of (mode_code m) = m"
  by (cases m) (simp_all add: mode_of_def)

lemma phase_of_code [simp]: "phase_of (phase_code p) = p"
  by (cases p) (simp_all add: phase_of_def)

section \<open>Services\<close>

text \<open>The connection modes of \<^verbatim>\<open>connection.h\<close> and the service names of \<^verbatim>\<open>common.h\<close>.\<close>

datatype connection_mode = CONN_MODE_LOCAL | CONN_MODE_GLOBAL

definition LOCAL_SERVICE_NAME :: string where
  "LOCAL_SERVICE_NAME = ''traffic_local_controller''"

definition CENTRAL_SERVICE_NAME :: string where
  "CENTRAL_SERVICE_NAME = ''traffic_central_controller''"

definition TRAIN_SERVICE_NAME :: string where
  "TRAIN_SERVICE_NAME = ''traffic_train_controller''"

text \<open>Names of controllers, by code.\<close>

definition controller_name :: "u16 \<Rightarrow> string" where
  "controller_name t =
     (if t = controller_code CONTROLLER_LOCAL then ''local''
      else if t = controller_code CONTROLLER_TRAIN then ''train''
      else if t = controller_code CONTROLLER_CENTRAL then ''central'' else ''unknown'')"

section \<open>Envelope\<close>

record msg_header =
  hdr_type :: u16
  hdr_src :: u16
  hdr_dst :: u16
  hdr_reserved :: u16
  hdr_timestamp :: "char list"

record test_message =
  header :: msg_header
  data :: "char list"

text \<open>\<open>status\<close> is an \<open>int8_t\<close> that holds 0 or -1.\<close>

record reply =
  reply_status :: int
  reply_timestamp :: string
  reply_command_id :: u16

abbreviation (input) DATA_SIZE :: nat where "DATA_SIZE \<equiv> 64"
abbreviation (input) TIMESTAMP_SIZE :: nat where "TIMESTAMP_SIZE \<equiv> 32"

text \<open>\<open>memcpy(msg->data, &payload, sizeof payload)\<close>: the payload bytes over the front of
  the data area.\<close>

definition overlay :: "char list \<Rightarrow> char list \<Rightarrow> char list" where
  "overlay bs d = bs @ drop (length bs) d"

abbreviation zero_data :: "char list" where
  "zero_data \<equiv> replicate DATA_SIZE NUL"

lemma length_overlay [simp]: "length bs \<le> length d \<Longrightarrow> length (overlay bs d) = length d"
  by (simp add: overlay_def)

lemma nth_overlay: "i < length bs \<Longrightarrow> overlay bs d ! i = bs ! i"
  by (simp add: overlay_def nth_append)

lemma nth_overlay_beyond: "length bs \<le> i \<Longrightarrow> i < length d \<Longrightarrow> overlay bs d ! i = d ! i"
  by (simp add: overlay_def nth_append)

lemma overlay_overlay: "length bs = length cs \<Longrightarrow> overlay bs (overlay cs d) = overlay bs d"
  by (simp add: overlay_def)

section \<open>Payloads\<close>

subsection \<open>Heartbeat\<close>

record heartbeat_msg =
  hb_sender_id :: u8
  hb_healthy :: u8
  hb_sequence :: u16

definition encode_heartbeat :: "heartbeat_msg \<Rightarrow> char list" where
  [codec]: "encode_heartbeat m = [u8_char (hb_sender_id m), u8_char (hb_healthy m)] @ put16 (hb_sequence m)"

definition decode_heartbeat :: "char list \<Rightarrow> heartbeat_msg" where
  [codec]: "decode_heartbeat d = \<lparr>hb_sender_id = get8 d 0, hb_healthy = get8 d 1, hb_sequence = get16 d 2\<rparr>"

subsection \<open>Railway status\<close>

record railway_status_msg =
  rs_crossing_id :: u8
  rs_train_state :: u8
  rs_gate_state :: u8
  rs_fault :: u8
  rs_track_states :: u8
  rs_up_state :: u8
  rs_down_state :: u8
  rs_reserved :: u8

definition encode_railway_status :: "railway_status_msg \<Rightarrow> char list" where
  [codec]: "encode_railway_status m = map u8_char [rs_crossing_id m, rs_train_state m, rs_gate_state m,
     rs_fault m, rs_track_states m, rs_up_state m, rs_down_state m, rs_reserved m]"

definition decode_railway_status :: "char list \<Rightarrow> railway_status_msg" where
  [codec]: "decode_railway_status d = \<lparr>rs_crossing_id = get8 d 0, rs_train_state = get8 d 1,
     rs_gate_state = get8 d 2, rs_fault = get8 d 3, rs_track_states = get8 d 4,
     rs_up_state = get8 d 5, rs_down_state = get8 d 6, rs_reserved = get8 d 7\<rparr>"

subsection \<open>Intersection status\<close>

record status_msg =
  st_intersection_id :: u8
  st_mode :: u8
  st_phase :: u8
  st_ns_state :: u8
  st_ew_state :: u8
  st_pedestrian_ns :: u8
  st_pedestrian_ew :: u8
  st_railway_preempt :: u8
  st_time_remaining :: u16
  st_telemetry_version :: u8
  st_reserved :: u8
  st_status_sequence :: u16
  st_last_command_id :: u16
  st_sim_minute_of_day :: u16
  st_temporary_remaining :: u16
  st_coordination_offset_sec :: u16
  st_sensor_ns_count :: u8
  st_sensor_ew_count :: u8
  st_pedestrian_ns_request :: u8
  st_pedestrian_ew_request :: u8
  st_sim_running :: u8
  st_train_pending :: u8
  st_train_active :: u8
  st_train_recovery_remaining :: u8
  st_manual_mode_override :: u8
  st_manual_sensor_override :: u8
  st_coordination_pending :: u8
  st_fault_active :: u8
  st_fault_type :: u8
  st_fault_severity :: u8

definition encode_status :: "status_msg \<Rightarrow> char list" where
  [codec]: "encode_status m =
     map u8_char [st_intersection_id m, st_mode m, st_phase m, st_ns_state m, st_ew_state m,
       st_pedestrian_ns m, st_pedestrian_ew m, st_railway_preempt m]
     @ put16 (st_time_remaining m)
     @ map u8_char [st_telemetry_version m, st_reserved m]
     @ put16 (st_status_sequence m) @ put16 (st_last_command_id m)
     @ put16 (st_sim_minute_of_day m) @ put16 (st_temporary_remaining m)
     @ put16 (st_coordination_offset_sec m)
     @ map u8_char [st_sensor_ns_count m, st_sensor_ew_count m, st_pedestrian_ns_request m,
       st_pedestrian_ew_request m, st_sim_running m, st_train_pending m, st_train_active m,
       st_train_recovery_remaining m, st_manual_mode_override m, st_manual_sensor_override m,
       st_coordination_pending m, st_fault_active m, st_fault_type m, st_fault_severity m]"

definition decode_status :: "char list \<Rightarrow> status_msg" where
  [codec]: "decode_status d = \<lparr>st_intersection_id = get8 d 0, st_mode = get8 d 1, st_phase = get8 d 2,
     st_ns_state = get8 d 3, st_ew_state = get8 d 4, st_pedestrian_ns = get8 d 5,
     st_pedestrian_ew = get8 d 6, st_railway_preempt = get8 d 7,
     st_time_remaining = get16 d 8, st_telemetry_version = get8 d 10, st_reserved = get8 d 11,
     st_status_sequence = get16 d 12, st_last_command_id = get16 d 14,
     st_sim_minute_of_day = get16 d 16, st_temporary_remaining = get16 d 18,
     st_coordination_offset_sec = get16 d 20, st_sensor_ns_count = get8 d 22,
     st_sensor_ew_count = get8 d 23, st_pedestrian_ns_request = get8 d 24,
     st_pedestrian_ew_request = get8 d 25, st_sim_running = get8 d 26,
     st_train_pending = get8 d 27, st_train_active = get8 d 28,
     st_train_recovery_remaining = get8 d 29, st_manual_mode_override = get8 d 30,
     st_manual_sensor_override = get8 d 31, st_coordination_pending = get8 d 32,
     st_fault_active = get8 d 33, st_fault_type = get8 d 34, st_fault_severity = get8 d 35\<rparr>"

subsection \<open>Fault alert\<close>

text \<open>\<open>fm_description\<close> is the raw 32-byte field.\<close>

record fault_msg =
  fm_source_id :: u8
  fm_fault_type :: u8
  fm_severity :: u8
  fm_reserved :: u8
  fm_description :: "char list"

definition encode_fault :: "fault_msg \<Rightarrow> char list" where
  [codec]: "encode_fault m = map u8_char [fm_source_id m, fm_fault_type m, fm_severity m, fm_reserved m]
     @ fm_description m"

definition decode_fault :: "char list \<Rightarrow> fault_msg" where
  [codec]: "decode_fault d = \<lparr>fm_source_id = get8 d 0, fm_fault_type = get8 d 1, fm_severity = get8 d 2,
     fm_reserved = get8 d 3, fm_description = take 32 (drop 4 d)\<rparr>"

subsection \<open>Commands\<close>

record mode_cmd_msg =
  mc_intersection_id :: u8
  mc_new_mode :: u8
  mc_action :: u8
  mc_priority :: u8
  mc_duration_sec :: u16
  mc_command_id :: u16

definition encode_mode_cmd :: "mode_cmd_msg \<Rightarrow> char list" where
  [codec]: "encode_mode_cmd m = map u8_char [mc_intersection_id m, mc_new_mode m, mc_action m, mc_priority m]
     @ put16 (mc_duration_sec m) @ put16 (mc_command_id m)"

definition decode_mode_cmd :: "char list \<Rightarrow> mode_cmd_msg" where
  [codec]: "decode_mode_cmd d = \<lparr>mc_intersection_id = get8 d 0, mc_new_mode = get8 d 1,
     mc_action = get8 d 2, mc_priority = get8 d 3, mc_duration_sec = get16 d 4,
     mc_command_id = get16 d 6\<rparr>"

record coordination_command_msg =
  cc_intersection_id :: u8
  cc_mode :: u8
  cc_phase :: u8
  cc_reserved :: u8
  cc_cycle_offset_sec :: u16
  cc_command_id :: u16

definition encode_coordination :: "coordination_command_msg \<Rightarrow> char list" where
  [codec]: "encode_coordination m = map u8_char [cc_intersection_id m, cc_mode m, cc_phase m, cc_reserved m]
     @ put16 (cc_cycle_offset_sec m) @ put16 (cc_command_id m)"

definition decode_coordination :: "char list \<Rightarrow> coordination_command_msg" where
  [codec]: "decode_coordination d = \<lparr>cc_intersection_id = get8 d 0, cc_mode = get8 d 1,
     cc_phase = get8 d 2, cc_reserved = get8 d 3, cc_cycle_offset_sec = get16 d 4,
     cc_command_id = get16 d 6\<rparr>"

subsection \<open>Railway preemption, sensors, pedestrian buttons\<close>

record railway_msg =
  rm_intersection_id :: u8
  rm_active :: u8
  rm_eta_seconds :: u16

definition encode_railway :: "railway_msg \<Rightarrow> char list" where
  [codec]: "encode_railway m = [u8_char (rm_intersection_id m), u8_char (rm_active m)] @ put16 (rm_eta_seconds m)"

definition decode_railway :: "char list \<Rightarrow> railway_msg" where
  [codec]: "decode_railway d = \<lparr>rm_intersection_id = get8 d 0, rm_active = get8 d 1, rm_eta_seconds = get16 d 2\<rparr>"

record sensor_msg =
  se_intersection_id :: u8
  se_direction :: u8
  se_car_count :: u8
  se_reserved :: u8

definition encode_sensor :: "sensor_msg \<Rightarrow> char list" where
  [codec]: "encode_sensor m = map u8_char [se_intersection_id m, se_direction m, se_car_count m, se_reserved m]"

definition decode_sensor :: "char list \<Rightarrow> sensor_msg" where
  [codec]: "decode_sensor d = \<lparr>se_intersection_id = get8 d 0, se_direction = get8 d 1,
     se_car_count = get8 d 2, se_reserved = get8 d 3\<rparr>"

record ped_msg =
  pe_intersection_id :: u8
  pe_direction :: u8
  pe_pressed :: u8
  pe_reserved :: u8

definition encode_ped :: "ped_msg \<Rightarrow> char list" where
  [codec]: "encode_ped m = map u8_char [pe_intersection_id m, pe_direction m, pe_pressed m, pe_reserved m]"

definition decode_ped :: "char list \<Rightarrow> ped_msg" where
  [codec]: "decode_ped d = \<lparr>pe_intersection_id = get8 d 0, pe_direction = get8 d 1,
     pe_pressed = get8 d 2, pe_reserved = get8 d 3\<rparr>"

subsection \<open>Overrides and display updates, reserved in the protocol\<close>

record override_request_msg =
  or_source_id :: u8
  or_requested_mode :: u8
  or_reason :: u8
  or_reserved :: u8
  or_duration_sec :: u16
  or_request_id :: u16

definition encode_override :: "override_request_msg \<Rightarrow> char list" where
  [codec]: "encode_override m = map u8_char [or_source_id m, or_requested_mode m, or_reason m, or_reserved m]
     @ put16 (or_duration_sec m) @ put16 (or_request_id m)"

definition decode_override :: "char list \<Rightarrow> override_request_msg" where
  [codec]: "decode_override d = \<lparr>or_source_id = get8 d 0, or_requested_mode = get8 d 1, or_reason = get8 d 2,
     or_reserved = get8 d 3, or_duration_sec = get16 d 4, or_request_id = get16 d 6\<rparr>"

record display_update_msg =
  du_intersection_id :: u8
  du_mode :: u8
  du_phase :: u8
  du_ns_state :: u8
  du_ew_state :: u8
  du_pedestrian_ns :: u8
  du_pedestrian_ew :: u8
  du_railway_preempt :: u8
  du_time_remaining :: u16

definition encode_display_update :: "display_update_msg \<Rightarrow> char list" where
  [codec]: "encode_display_update m = map u8_char [du_intersection_id m, du_mode m, du_phase m, du_ns_state m, du_ew_state m,
     du_pedestrian_ns m, du_pedestrian_ew m, du_railway_preempt m] @ put16 (du_time_remaining m)"

definition decode_display_update :: "char list \<Rightarrow> display_update_msg" where
  [codec]: "decode_display_update d = \<lparr>du_intersection_id = get8 d 0, du_mode = get8 d 1, du_phase = get8 d 2,
     du_ns_state = get8 d 3, du_ew_state = get8 d 4, du_pedestrian_ns = get8 d 5, du_pedestrian_ew = get8 d 6,
     du_railway_preempt = get8 d 7, du_time_remaining = get16 d 8\<rparr>"

section \<open>Round trips\<close>

text \<open>
  What every payload codec promises to the code that copies it through the data area:
  the encoding fits, and decoding gives back exactly what was copied in.
\<close>

locale payload_codec =
  fixes enc :: "'m \<Rightarrow> char list"
    and dec :: "char list \<Rightarrow> 'm"
    and wf :: "'m \<Rightarrow> bool"
    and sz :: nat
  assumes enc_length: "wf m \<Longrightarrow> length (enc m) = sz"
    and size_fits: "sz \<le> DATA_SIZE"
    and dec_enc: "wf m \<Longrightarrow> dec (enc m @ r) = m"
begin

lemma dec_overlay: "wf m \<Longrightarrow> dec (overlay (enc m) d) = m"
  by (simp add: overlay_def dec_enc)

lemma enc_inject: "wf m \<Longrightarrow> wf n \<Longrightarrow> enc m = enc n \<Longrightarrow> m = n"
  by (metis append_Nil2 dec_enc)

lemma length_data: "wf m \<Longrightarrow> length d = DATA_SIZE \<Longrightarrow> length (overlay (enc m) d) = DATA_SIZE"
  using size_fits by (simp add: enc_length)

text \<open>Overwriting a field of a payload already in the data area.\<close>

lemma dec_replace:
  "wf m \<Longrightarrow> wf n \<Longrightarrow> overlay (enc n) (overlay (enc m) d) = overlay (enc n) d"
  by (simp add: overlay_overlay enc_length)

end

interpretation heartbeat_codec: payload_codec encode_heartbeat decode_heartbeat "\<lambda>_. True" 4
  by unfold_locales (simp_all add: codec)

interpretation railway_status_codec: payload_codec encode_railway_status decode_railway_status "\<lambda>_. True" 8
  by unfold_locales (simp_all add: codec)

interpretation status_codec: payload_codec encode_status decode_status "\<lambda>_. True" 36
  by unfold_locales (simp_all add: codec)

interpretation fault_codec: payload_codec encode_fault decode_fault "\<lambda>m. length (fm_description m) = 32" 36
  by unfold_locales (simp_all add: codec)

interpretation mode_cmd_codec: payload_codec encode_mode_cmd decode_mode_cmd "\<lambda>_. True" 8
  by unfold_locales (simp_all add: codec)

interpretation coordination_codec: payload_codec encode_coordination decode_coordination "\<lambda>_. True" 8
  by unfold_locales (simp_all add: codec)

interpretation railway_codec: payload_codec encode_railway decode_railway "\<lambda>_. True" 4
  by unfold_locales (simp_all add: codec)

interpretation sensor_codec: payload_codec encode_sensor decode_sensor "\<lambda>_. True" 4
  by unfold_locales (simp_all add: codec)

interpretation ped_codec: payload_codec encode_ped decode_ped "\<lambda>_. True" 4
  by unfold_locales (simp_all add: codec)

interpretation override_codec: payload_codec encode_override decode_override "\<lambda>_. True" 8
  by unfold_locales (simp_all add: codec)

interpretation display_update_codec: payload_codec encode_display_update decode_display_update "\<lambda>_. True" 10
  by unfold_locales (simp_all add: codec)

end
