(* ===== verification/Local_State.thy ===== *)
theory Local_State
  imports Protocol
begin

text \<open>
  State of one Local intersection controller: \<^verbatim>\<open>local_controller.h\<close> and
  \<^verbatim>\<open>local_state.c\<close>. The global \<open>state\<close> of the C process is the record
  \<open>local_state\<close>, passed explicitly; the mutex is left out, since every function here runs
  with it held. \<open>rand()\<close> is the stream \<open>rand_src\<close>, read at \<open>rand_pos\<close>: theorems about all
  states are theorems about all random streams. Functions that stamp the wall-clock time
  take the formatted time as an argument.
\<close>

section \<open>Constants and types\<close>

abbreviation (input) DEMO_HIGH_CAR_COUNT :: int where "DEMO_HIGH_CAR_COUNT \<equiv> 6"
abbreviation (input) PED_GREEN_CAP_SEC :: int where "PED_GREEN_CAP_SEC \<equiv> 10"
abbreviation (input) SIM_SECONDS_PER_TICK :: int where "SIM_SECONDS_PER_TICK \<equiv> 1"
abbreviation (input) SECONDS_PER_DAY :: int where "SECONDS_PER_DAY \<equiv> 86400"
abbreviation (input) TRAIN_PASSING_SECONDS :: int where "TRAIN_PASSING_SECONDS \<equiv> 10"
abbreviation (input) MAX_SENSOR_CARS :: int where "MAX_SENSOR_CARS \<equiv> 12"
abbreviation (input) LOCAL_SERVICE_NAME_MAX :: nat where "LOCAL_SERVICE_NAME_MAX \<equiv> 64"

record local_timing_config =
  cfg_initial_phase :: phase_t
  cfg_ns_green_sec :: int
  cfg_ew_green_sec :: int

record local_state =
  central_connected :: bool
  train_connected :: bool
  conn_mode :: connection_mode
  service_name :: string
  last_recv_central :: string
  last_recv_train :: string
  last_central_update :: string
  last_train_update :: string
  traffic_mode :: traffic_light_mode
  phase :: phase_t
  initial_phase :: phase_t
  ns_light :: light_state
  ew_light :: light_state
  time_remaining :: int
  phase_duration :: int
  ns_green_sec :: int
  ew_green_sec :: int
  cycle_ns_green :: int
  cycle_ew_green :: int
  cycle_plan_valid :: bool
  sensor_ns_count :: int
  sensor_ew_count :: int
  next_car_in_seconds :: int
  ped_ns_request :: bool
  ped_ew_request :: bool
  ped_ns_walk :: bool
  ped_ew_walk :: bool
  sim_seconds :: int
  sim_running :: bool
  next_train_in_seconds :: int
  next_train_direction :: int
  train_direction :: int
  train_pass_remaining :: int
  train_waiting_for_clear :: bool
  manual_mode_override :: bool
  manual_sensor_override :: bool
  temp_mode_remaining :: int
  temp_return_mode :: traffic_light_mode
  temp_return_manual_override :: bool
  coordination_pending :: bool
  coordination_phase :: phase_t
  coordination_offset_sec :: int
  ped_extra_ns_green :: int
  ped_extra_ew_green :: int
  intersection_id :: u8
  fault_active :: bool
  fault_kind :: fault_type
  fault_sev :: fault_severity
  fault_description :: string
  train_pending :: bool
  train_active :: bool
  train_recovery_remaining :: int
  status_sequence :: u16
  fault_sequence :: u16
  heartbeat_sequence :: u16
  last_applied_command_id :: u16
  rand_src :: "nat \<Rightarrow> nat"
  rand_pos :: nat

section \<open>Configuration\<close>

definition local_configs :: "local_timing_config list" where
  "local_configs =
     map (\<lambda>p. \<lparr>cfg_initial_phase = p, cfg_ns_green_sec = GREEN_BASE_SEC,
                cfg_ew_green_sec = GREEN_BASE_SEC\<rparr>)
       [PHASE_EW_GREEN, PHASE_NS_GREEN, PHASE_NS_GREEN, PHASE_EW_GREEN, PHASE_EW_GREEN,
        PHASE_NS_GREEN]"

definition local_config_for_intersection :: "u8 \<Rightarrow> local_timing_config" where
  "local_config_for_intersection i =
     local_configs ! (if NUM_INTERSECTIONS \<le> unat i then 0 else unat i)"

lemma local_config_cases:
  "cfg_ns_green_sec (local_config_for_intersection i) = GREEN_BASE_SEC"
  "cfg_ew_green_sec (local_config_for_intersection i) = GREEN_BASE_SEC"
  "cfg_initial_phase (local_config_for_intersection i) \<in> {PHASE_NS_GREEN, PHASE_EW_GREEN}"
proof -
  have len: "length local_configs = 6" by (simp add: local_configs_def)
  let ?k = "if NUM_INTERSECTIONS \<le> unat i then 0 else unat i"
  have "local_configs ! ?k \<in> set local_configs"
    by (rule nth_mem) (simp add: len)
  then show "cfg_ns_green_sec (local_config_for_intersection i) = GREEN_BASE_SEC"
    "cfg_ew_green_sec (local_config_for_intersection i) = GREEN_BASE_SEC"
    "cfg_initial_phase (local_config_for_intersection i) \<in> {PHASE_NS_GREEN, PHASE_EW_GREEN}"
    unfolding local_config_for_intersection_def by (auto simp: local_configs_def)
qed

section \<open>Sequence numbers\<close>

definition bump_sequence :: "u16 \<Rightarrow> u16" where
  "bump_sequence v = (if v + 1 = 0 then 1 else v + 1)"

lemma bump_sequence_nonzero [simp]: "bump_sequence v \<noteq> 0"
  by (simp add: bump_sequence_def)

lemma bump_sequence_changes: "bump_sequence v \<noteq> v"
proof
  assume eq: "bump_sequence v = v"
  show False
  proof (cases "v + 1 = 0")
    case True
    with eq have "v = 1" by (simp add: bump_sequence_def)
    with True show False by simp
  next
    case False
    with eq show False by (simp add: bump_sequence_def)
  qed
qed

definition mark_status_dirty_locked :: "local_state \<Rightarrow> local_state" where
  "mark_status_dirty_locked s = s\<lparr>status_sequence := bump_sequence (status_sequence s)\<rparr>"

section \<open>Queries\<close>

definition display_mode :: "local_state \<Rightarrow> traffic_light_mode" where
  "display_mode s = (if train_pending s \<or> train_active s \<or> 0 < train_recovery_remaining s
                     then MODE_RAILWAY else traffic_mode s)"

definition target_matches_local :: "u8 \<Rightarrow> local_state \<Rightarrow> bool" where
  "target_matches_local target s \<longleftrightarrow> target = intersection_id s \<or> unat target = INTERSECTION_ALL"

definition railway_crossing_for_local :: "u8 \<Rightarrow> u8" where
  "railway_crossing_for_local i = (if unat i \<le> 1 then 1 else if unat i \<le> 3 then 2 else 3)"

definition railway_matches_local :: "u8 \<Rightarrow> local_state \<Rightarrow> bool" where
  "railway_matches_local i s =
     (let crossing = railway_crossing_for_local (intersection_id s)
      in i = crossing \<or> (crossing = 1 \<and> i = 0))"

definition railway_display_line :: "u8 \<Rightarrow> int" where
  "railway_display_line i = (if i = 0 then 1 else uint i)"

section \<open>Status, fault and heartbeat messages\<close>

definition init_message ::
  "msg_type \<Rightarrow> controller_type \<Rightarrow> controller_type \<Rightarrow> string \<Rightarrow> test_message" where
  "init_message ty src dst now =
     \<lparr>header = \<lparr>hdr_type = msg_code ty, hdr_src = controller_code src, hdr_dst = controller_code dst,
                hdr_reserved = 0,
                hdr_timestamp = overlay (take 31 now) (replicate TIMESTAMP_SIZE NUL)\<rparr>,
      data = zero_data\<rparr>"

definition fill_status_locked :: "local_state \<Rightarrow> status_msg" where
  "fill_status_locked s =
     (let r = c_mod (sim_seconds s) SECONDS_PER_DAY;
          sim = (if r < 0 then r + SECONDS_PER_DAY else r)
      in \<lparr>st_intersection_id = intersection_id s,
          st_mode = mode_code (display_mode s),
          st_phase = phase_code (phase s),
          st_ns_state = light_code (ns_light s),
          st_ew_state = light_code (ew_light s),
          st_pedestrian_ns = flag8 (ped_ns_walk s),
          st_pedestrian_ew = flag8 (ped_ew_walk s),
          st_railway_preempt =
            flag8 (train_pending s \<or> train_active s \<or> 0 < train_recovery_remaining s),
          st_time_remaining = to_u16 (if 0 < time_remaining s then time_remaining s else 0),
          st_telemetry_version = STATUS_TELEMETRY_VERSION,
          st_reserved = 0,
          st_status_sequence = status_sequence s,
          st_last_command_id = last_applied_command_id s,
          st_sim_minute_of_day = to_u16 (c_div sim 60),
          st_temporary_remaining =
            to_u16 (if 0 < temp_mode_remaining s then temp_mode_remaining s else 0),
          st_coordination_offset_sec =
            to_u16 (if 0 < coordination_offset_sec s then coordination_offset_sec s else 0),
          st_sensor_ns_count = to_u8 (sensor_ns_count s),
          st_sensor_ew_count = to_u8 (sensor_ew_count s),
          st_pedestrian_ns_request = flag8 (ped_ns_request s),
          st_pedestrian_ew_request = flag8 (ped_ew_request s),
          st_sim_running = flag8 (sim_running s),
          st_train_pending = flag8 (train_pending s),
          st_train_active = flag8 (train_active s),
          st_train_recovery_remaining =
            to_u8 (if 0 < train_recovery_remaining s then train_recovery_remaining s else 0),
          st_manual_mode_override = flag8 (manual_mode_override s),
          st_manual_sensor_override = flag8 (manual_sensor_override s),
          st_coordination_pending = flag8 (coordination_pending s),
          st_fault_active = flag8 (fault_active s),
          st_fault_type = fault_code (fault_kind s),
          st_fault_severity = (if fault_active s then severity_code (fault_sev s) else 0)\<rparr>)"

definition local_vehicle_seconds :: "status_msg \<Rightarrow> direction_t \<Rightarrow> int" where
  "local_vehicle_seconds st dir =
     (let lamp = (if dir = DIR_NS then st_ns_state st else st_ew_state st) in
      if st_railway_preempt st \<noteq> 0 \<or> st_mode st = mode_code MODE_FAILSAFE \<or>
         phase_code PHASE_EW_YELLOW < st_phase st \<or> lamp = light_code LIGHT_OFF
      then - 1
      else if lamp = light_code LIGHT_RED then
        (if st_coordination_pending st \<noteq> 0 then - 1
         else if st_phase st = phase_code PHASE_NS_GREEN \<or> st_phase st = phase_code PHASE_EW_GREEN
         then uint (st_time_remaining st) + YELLOW_SEC
         else uint (st_time_remaining st))
      else uint (st_time_remaining st))"

definition prepare_status_message_locked :: "string \<Rightarrow> local_state \<Rightarrow> test_message \<times> u16" where
  "prepare_status_message_locked now s =
     (let st = fill_status_locked s;
          m = init_message MSG_STATUS_UPDATE CONTROLLER_LOCAL CONTROLLER_CENTRAL now
      in (m\<lparr>data := overlay (encode_status st) (data m)\<rparr>, st_status_sequence st))"

definition set_fault_locked ::
  "fault_type \<Rightarrow> fault_severity \<Rightarrow> string \<Rightarrow> local_state \<Rightarrow> local_state" where
  "set_fault_locked ty sev descr s =
     mark_status_dirty_locked
       (s\<lparr>fault_active := (ty \<noteq> FAULT_NONE), fault_sequence := bump_sequence (fault_sequence s),
          fault_kind := ty, fault_sev := sev, fault_description := copy_text 31 descr\<rparr>)"

definition clear_fault_locked :: "local_state \<Rightarrow> local_state" where
  "clear_fault_locked s =
     mark_status_dirty_locked
       (s\<lparr>fault_active := False, fault_sequence := bump_sequence (fault_sequence s),
          fault_kind := FAULT_NONE, fault_sev := SEV_LOW, fault_description := ''cleared''\<rparr>)"

definition fill_fault :: "local_state \<Rightarrow> fault_msg" where
  "fill_fault s =
     \<lparr>fm_source_id = intersection_id s, fm_fault_type = fault_code (fault_kind s),
      fm_severity = severity_code (fault_sev s), fm_reserved = 0,
      fm_description = overlay (copy_text 31 (fault_description s)) (replicate 32 NUL)\<rparr>"

definition prepare_fault_message_locked :: "string \<Rightarrow> local_state \<Rightarrow> test_message \<times> u16" where
  "prepare_fault_message_locked now s =
     (let m = init_message MSG_FAULT_ALERT CONTROLLER_LOCAL CONTROLLER_CENTRAL now
      in (m\<lparr>data := overlay (encode_fault (fill_fault s)) (data m)\<rparr>, fault_sequence s))"

definition prepare_heartbeat_message_locked ::
  "string \<Rightarrow> local_state \<Rightarrow> test_message \<times> u16 \<times> local_state" where
  "prepare_heartbeat_message_locked now s =
     (let m = init_message MSG_HEARTBEAT CONTROLLER_LOCAL CONTROLLER_CENTRAL now;
          s' = s\<lparr>heartbeat_sequence := bump_sequence (heartbeat_sequence s)\<rparr>;
          hb = \<lparr>hb_sender_id = intersection_id s,
                hb_healthy = flag8 (\<not> fault_active s \<and> traffic_mode s \<noteq> MODE_FAILSAFE),
                hb_sequence = heartbeat_sequence s'\<rparr>
      in (m\<lparr>data := overlay (encode_heartbeat hb) (data m)\<rparr>, hb_sequence hb, s'))"

section \<open>Random numbers\<close>

text \<open>\<open>rand()\<close>: the next value of the stream, a non-negative integer.\<close>

definition rand_c :: "local_state \<Rightarrow> nat \<times> local_state" where
  "rand_c s = (rand_src s (rand_pos s), s\<lparr>rand_pos := Suc (rand_pos s)\<rparr>)"

end
