(* ===== verification/Local_Traffic.thy ===== *)
theory Local_Traffic
  imports Local_State
begin

text \<open>
  The lamp state machine of a Local controller: \<^verbatim>\<open>local_traffic.c\<close> and
  \<^verbatim>\<open>local_pedestrian.c\<close>, with the time-of-day and random-gap functions of
  \<^verbatim>\<open>local_simulation.c\<close> that the tick calls. Definitions only; the invariant and the
  theorems are in \<open>Local_Invariant\<close> and \<open>Local_Timing\<close>.
\<close>

section \<open>Time of day and random gaps\<close>

definition is_peak_time :: "int \<Rightarrow> bool" where
  "is_peak_time seconds =
     (let hour = c_div seconds 3600 in (7 \<le> hour \<and> hour < 9) \<or> (16 \<le> hour \<and> hour < 18))"

definition is_night_time :: "int \<Rightarrow> bool" where
  "is_night_time seconds = (let hour = c_div seconds 3600 in 22 \<le> hour \<or> hour < 5)"

definition random_train_gap_seconds :: "local_state \<Rightarrow> int \<times> local_state" where
  "random_train_gap_seconds s =
     (let (r, s') = rand_c s in
      (if is_peak_time (sim_seconds s) then 120 + int (r mod 181)
       else if is_night_time (sim_seconds s) then 1080 + int (r mod 361)
       else 480 + int (r mod 421), s'))"

definition random_train_direction :: "local_state \<Rightarrow> int \<times> local_state" where
  "random_train_direction s = (let (r, s') = rand_c s in (int (r mod 2) + 1, s'))"

definition random_car_gap_seconds :: "local_state \<Rightarrow> int \<times> local_state" where
  "random_car_gap_seconds s =
     (let (r, s') = rand_c s in
      (if is_peak_time (sim_seconds s) then 2 + int (r mod 3)
       else if is_night_time (sim_seconds s) then 14 + int (r mod 12)
       else 5 + int (r mod 6), s'))"

text \<open>The statement pair that draws the next simulated train, used at four places.\<close>

definition draw_next_train :: "local_state \<Rightarrow> local_state" where
  "draw_next_train s =
     (let (g, s1) = random_train_gap_seconds s;
          s2 = s1\<lparr>next_train_in_seconds := g\<rparr>;
          (d, s3) = random_train_direction s2
      in s3\<lparr>next_train_direction := d\<rparr>)"

definition draw_next_car :: "local_state \<Rightarrow> local_state" where
  "draw_next_car s = (let (g, s') = random_car_gap_seconds s in s'\<lparr>next_car_in_seconds := g\<rparr>)"

section \<open>Green times\<close>

definition clamp_green_time :: "int \<Rightarrow> int" where
  "clamp_green_time seconds =
     (if seconds < GREEN_MIN_SEC then GREEN_MIN_SEC
      else if GREEN_MAX_SEC < seconds then GREEN_MAX_SEC else seconds)"

definition configured_green_time_for_direction :: "direction_t \<Rightarrow> local_state \<Rightarrow> int" where
  "configured_green_time_for_direction dir s =
     (let seconds = (if dir = DIR_NS then ns_green_sec s else ew_green_sec s)
      in clamp_green_time (if seconds \<le> 0 then GREEN_BASE_SEC else seconds))"

definition local_fixed_cycle_seconds_locked :: "local_state \<Rightarrow> int" where
  "local_fixed_cycle_seconds_locked s =
     configured_green_time_for_direction DIR_NS s + YELLOW_SEC +
     configured_green_time_for_direction DIR_EW s + YELLOW_SEC"

definition green_time_for_direction :: "direction_t \<Rightarrow> local_state \<Rightarrow> int" where
  "green_time_for_direction dir s =
     (let ns_high = SENSOR_CAR_THRESHOLD \<le> sensor_ns_count s;
          ew_high = SENSOR_CAR_THRESHOLD \<le> sensor_ew_count s;
          seconds = configured_green_time_for_direction dir s
      in clamp_green_time
           (if traffic_mode s = MODE_SENSOR then
              (if dir = DIR_NS \<and> ns_high \<and> \<not> ew_high then seconds + SENSOR_ADJUST_SEC
               else if dir = DIR_NS \<and> ew_high \<and> \<not> ns_high then seconds - SENSOR_ADJUST_SEC
               else if dir = DIR_EW \<and> ew_high \<and> \<not> ns_high then seconds + SENSOR_ADJUST_SEC
               else if dir = DIR_EW \<and> ns_high \<and> \<not> ew_high then seconds - SENSOR_ADJUST_SEC
               else seconds)
            else seconds))"

definition local_plan_cycle_locked :: "local_state \<Rightarrow> local_state" where
  "local_plan_cycle_locked s =
     (let ns0 = green_time_for_direction DIR_NS s;
          minimum = GREEN_MIN_SEC + ped_extra_ew_green s;
          maximum = GREEN_MAX_SEC - ped_extra_ns_green s;
          ns1 = (if ns0 < minimum then minimum else ns0);
          ns = (if maximum < ns1 then maximum else ns1)
      in s\<lparr>cycle_ns_green := ns, cycle_ew_green := 2 * GREEN_BASE_SEC - ns,
           cycle_plan_valid := True\<rparr>)"

definition next_green_time_for_direction :: "direction_t \<Rightarrow> local_state \<Rightarrow> int \<times> local_state" where
  "next_green_time_for_direction dir s =
     (let p = (if dir = DIR_NS then PHASE_NS_GREEN else PHASE_EW_GREEN);
          s1 = (if \<not> cycle_plan_valid s \<or> p = initial_phase s then local_plan_cycle_locked s else s)
      in if dir = DIR_NS
         then (clamp_green_time (cycle_ns_green s1 + ped_extra_ns_green s1),
               s1\<lparr>ped_extra_ns_green := 0\<rparr>)
         else (clamp_green_time (cycle_ew_green s1 + ped_extra_ew_green s1),
               s1\<lparr>ped_extra_ew_green := 0\<rparr>))"

section \<open>Lamps and phases\<close>

definition update_lights_locked :: "local_state \<Rightarrow> local_state" where
  "update_lights_locked s =
     (if train_active s \<or> 0 < train_recovery_remaining s \<or> phase s = PHASE_RAILWAY_HOLD
      then s\<lparr>ns_light := LIGHT_RED, ew_light := LIGHT_RED, ped_ns_walk := False,
             ped_ew_walk := False\<rparr>
      else case phase s of
        PHASE_NS_GREEN \<Rightarrow> s\<lparr>ns_light := LIGHT_GREEN, ew_light := LIGHT_RED\<rparr>
      | PHASE_NS_YELLOW \<Rightarrow> s\<lparr>ns_light := LIGHT_YELLOW, ew_light := LIGHT_RED\<rparr>
      | PHASE_EW_GREEN \<Rightarrow> s\<lparr>ns_light := LIGHT_RED, ew_light := LIGHT_GREEN\<rparr>
      | PHASE_EW_YELLOW \<Rightarrow> s\<lparr>ns_light := LIGHT_RED, ew_light := LIGHT_YELLOW\<rparr>
      | PHASE_RAILWAY_HOLD \<Rightarrow> s\<lparr>ns_light := LIGHT_RED, ew_light := LIGHT_RED\<rparr>)"

definition set_phase_locked :: "phase_t \<Rightarrow> int \<Rightarrow> local_state \<Rightarrow> local_state" where
  "set_phase_locked p duration s =
     mark_status_dirty_locked
       (update_lights_locked
         (s\<lparr>phase := p, phase_duration := duration, time_remaining := duration,
            ped_ns_walk := False, ped_ew_walk := False\<rparr>))"

text \<open>\<open>set_phase_locked(p, next_green_time_for_direction(dir))\<close>: the argument, with its
  effect on the plan, is evaluated first.\<close>

definition start_green :: "phase_t \<Rightarrow> direction_t \<Rightarrow> local_state \<Rightarrow> local_state" where
  "start_green p dir s =
     (let (seconds, s') = next_green_time_for_direction dir s in set_phase_locked p seconds s')"

definition set_initial_phase_locked :: "local_state \<Rightarrow> local_state" where
  "set_initial_phase_locked s =
     start_green (initial_phase s) (if initial_phase s = PHASE_EW_GREEN then DIR_EW else DIR_NS) s"

definition set_coordination_phase_locked :: "phase_t \<Rightarrow> int \<Rightarrow> local_state \<Rightarrow> local_state" where
  "set_coordination_phase_locked base_phase offset_sec s0 =
     (let s1 = s0\<lparr>ped_extra_ns_green := 0, ped_extra_ew_green := 0\<rparr>;
          s = s1\<lparr>cycle_ns_green := configured_green_time_for_direction DIR_NS s1,
                 cycle_ew_green := configured_green_time_for_direction DIR_EW s1,
                 cycle_plan_valid := True\<rparr>;
          ns_first = (base_phase = PHASE_NS_GREEN);
          first_direction = (if ns_first then DIR_NS else DIR_EW);
          second_direction = (if ns_first then DIR_EW else DIR_NS);
          first_green_sec = configured_green_time_for_direction first_direction s;
          second_green_sec = configured_green_time_for_direction second_direction s;
          cycle_sec = first_green_sec + second_green_sec + 2 * YELLOW_SEC;
          offset = c_mod offset_sec cycle_sec;
          first_green = base_phase;
          first_yellow = (if ns_first then PHASE_NS_YELLOW else PHASE_EW_YELLOW);
          second_green = (if ns_first then PHASE_EW_GREEN else PHASE_NS_GREEN);
          second_yellow = (if ns_first then PHASE_EW_YELLOW else PHASE_NS_YELLOW)
      in if offset < first_green_sec then
           set_phase_locked first_green (first_green_sec - offset) s
         else if offset < first_green_sec + YELLOW_SEC then
           set_phase_locked first_yellow (first_green_sec + YELLOW_SEC - offset) s
         else if offset < first_green_sec + YELLOW_SEC + second_green_sec then
           set_phase_locked second_green
             (first_green_sec + YELLOW_SEC + second_green_sec - offset) s
         else set_phase_locked second_yellow (cycle_sec - offset) s)"

definition advance_phase_locked :: "local_state \<Rightarrow> local_state" where
  "advance_phase_locked s =
     (if coordination_pending s \<and> (phase s = PHASE_NS_YELLOW \<or> phase s = PHASE_EW_YELLOW)
      then (set_coordination_phase_locked (coordination_phase s) (coordination_offset_sec s) s)
             \<lparr>coordination_pending := False\<rparr>
      else case phase s of
        PHASE_NS_GREEN \<Rightarrow> set_phase_locked PHASE_NS_YELLOW YELLOW_SEC s
      | PHASE_NS_YELLOW \<Rightarrow> start_green PHASE_EW_GREEN DIR_EW s
      | PHASE_EW_GREEN \<Rightarrow> set_phase_locked PHASE_EW_YELLOW YELLOW_SEC s
      | _ \<Rightarrow> start_green PHASE_NS_GREEN DIR_NS s)"

section \<open>Pedestrians\<close>

definition pedestrian_service_phase :: "phase_t \<Rightarrow> direction_t \<Rightarrow> bool" where
  "pedestrian_service_phase p dir \<longleftrightarrow>
     (p = PHASE_EW_GREEN \<and> dir = DIR_NS) \<or> (p = PHASE_NS_GREEN \<and> dir = DIR_EW)"

definition update_pedestrian_locked :: "local_state \<Rightarrow> local_state" where
  "update_pedestrian_locked s =
     (let elapsed = phase_duration s - time_remaining s;
          in_window = PED_WALK_START_SEC \<le> elapsed \<and> PED_WALK_END_SEC < time_remaining s
      in if train_active s \<or> 0 < train_recovery_remaining s
         then s\<lparr>ped_ns_walk := False, ped_ew_walk := False\<rparr>
         else
           let s1 = (if pedestrian_service_phase (phase s) DIR_NS
                     then (if in_window then s\<lparr>ped_ns_walk := True, ped_ns_request := False\<rparr>
                           else s\<lparr>ped_ns_walk := False\<rparr>)
                     else s\<lparr>ped_ns_walk := False\<rparr>)
           in if pedestrian_service_phase (phase s) DIR_EW
              then (if in_window then s1\<lparr>ped_ew_walk := True, ped_ew_request := False\<rparr>
                    else s1\<lparr>ped_ew_walk := False\<rparr>)
              else s1\<lparr>ped_ew_walk := False\<rparr>)"

definition cap_green_for_pedestrian_locked :: "direction_t \<Rightarrow> local_state \<Rightarrow> local_state" where
  "cap_green_for_pedestrian_locked dir s =
     (if \<not> pedestrian_service_phase (phase s) dir \<or> time_remaining s \<le> PED_GREEN_CAP_SEC then s
      else
        let elapsed = phase_duration s - time_remaining s;
            removed0 = time_remaining s - PED_GREEN_CAP_SEC;
            capacity0 =
              (if phase s = initial_phase s \<and> cycle_plan_valid s then
                 (let nxt = (if dir = DIR_NS then cycle_ns_green s else cycle_ew_green s);
                      extra = (if dir = DIR_NS then ped_extra_ns_green s else ped_extra_ew_green s)
                  in GREEN_MAX_SEC - nxt - extra)
               else GREEN_MAX_SEC - GREEN_MIN_SEC - ped_extra_ns_green s - ped_extra_ew_green s);
            capacity = (if capacity0 < 0 then 0 else capacity0);
            removed = (if capacity < removed0 then capacity else removed0);
            s1 = s\<lparr>time_remaining := time_remaining s - removed\<rparr>;
            s2 = s1\<lparr>phase_duration := elapsed + time_remaining s1\<rparr>
        in if dir = DIR_NS
           then s2\<lparr>ped_extra_ns_green := ped_extra_ns_green s2 + removed\<rparr>
           else s2\<lparr>ped_extra_ew_green := ped_extra_ew_green s2 + removed\<rparr>)"

definition add_pedestrian_request_locked :: "direction_t \<Rightarrow> local_state \<Rightarrow> local_state" where
  "add_pedestrian_request_locked dir s =
     (let already_requested = (if dir = DIR_NS then ped_ns_request s else ped_ew_request s);
          s1 = (if dir = DIR_NS then s\<lparr>ped_ns_request := True\<rparr> else s\<lparr>ped_ew_request := True\<rparr>);
          s2 = (if \<not> already_requested then cap_green_for_pedestrian_locked dir s1 else s1)
      in mark_status_dirty_locked s2)"

section \<open>Trains\<close>

definition start_train_common_locked :: "int \<Rightarrow> bool \<Rightarrow> int \<Rightarrow> local_state \<Rightarrow> local_state" where
  "start_train_common_locked direction wait_for_clear eta_seconds s =
     (if train_active s \<or> train_pending s then s
      else
        let s1 = s\<lparr>train_pending := True, train_direction := direction,
                   train_pass_remaining :=
                     (if wait_for_clear then eta_seconds else TRAIN_PASSING_SECONDS),
                   train_waiting_for_clear := wait_for_clear, train_recovery_remaining := 0,
                   next_train_in_seconds := 0, ped_extra_ns_green := 0, ped_extra_ew_green := 0\<rparr>;
            s2 = (if phase s1 = PHASE_NS_GREEN then set_phase_locked PHASE_NS_YELLOW YELLOW_SEC s1
                  else if phase s1 = PHASE_EW_GREEN then set_phase_locked PHASE_EW_YELLOW YELLOW_SEC s1
                  else if phase s1 \<noteq> PHASE_NS_YELLOW \<and> phase s1 \<noteq> PHASE_EW_YELLOW then
                    set_phase_locked PHASE_RAILWAY_HOLD 0
                      (s1\<lparr>train_pending := False, train_active := True\<rparr>)
                  else s1)
        in mark_status_dirty_locked s2)"

definition start_train_locked :: "int \<Rightarrow> local_state \<Rightarrow> local_state" where
  "start_train_locked direction s = start_train_common_locked direction False 0 s"

definition start_train_message_locked :: "int \<Rightarrow> int \<Rightarrow> local_state \<Rightarrow> local_state" where
  "start_train_message_locked direction eta0 s =
     (let eta_seconds = (if eta0 < 0 then 0 else eta0) in
      if train_active s \<or> train_pending s then
        let s1 = s\<lparr>train_direction := direction, train_waiting_for_clear := True,
                   train_pass_remaining := eta_seconds, next_train_in_seconds := 0\<rparr>;
            s2 = (if train_active s1 then set_phase_locked PHASE_RAILWAY_HOLD 0 s1 else s1)
        in mark_status_dirty_locked s2
      else start_train_common_locked direction True eta_seconds s)"

definition clear_train_locked :: "local_state \<Rightarrow> local_state" where
  "clear_train_locked s =
     (if train_active s \<or> train_pending s then
        mark_status_dirty_locked
          (set_phase_locked PHASE_RAILWAY_HOLD RAILWAY_RECOVERY_SEC
            (s\<lparr>train_pending := False, train_active := False, train_direction := 0,
               train_pass_remaining := 0, train_waiting_for_clear := False,
               train_recovery_remaining := RAILWAY_RECOVERY_SEC,
               ped_extra_ns_green := 0, ped_extra_ew_green := 0\<rparr>))
      else s)"

section \<open>The one-second tick\<close>

text \<open>The branches of \<open>traffic_tick_locked\<close>, in the order in which the code tests them.\<close>

definition tick_conflict :: "local_state \<Rightarrow> local_state" where
  "tick_conflict s =
     set_fault_locked FAULT_NOT_WORKING SEV_CRITICAL ''conflicting green''
       (s\<lparr>traffic_mode := MODE_FAILSAFE, phase := PHASE_RAILWAY_HOLD, time_remaining := 0,
          ns_light := LIGHT_RED, ew_light := LIGHT_RED, ped_ns_walk := False,
          ped_ew_walk := False\<rparr>)"

definition tick_failsafe :: "local_state \<Rightarrow> local_state" where
  "tick_failsafe s =
     mark_status_dirty_locked
       (update_lights_locked (s\<lparr>phase := PHASE_RAILWAY_HOLD, time_remaining := 0\<rparr>))"

text \<open>\<open>if (state.time_remaining > 0) state.time_remaining--;\<close>\<close>

definition count_down :: "local_state \<Rightarrow> local_state" where
  "count_down s = (if 0 < time_remaining s then s\<lparr>time_remaining := time_remaining s - 1\<rparr> else s)"

definition count_train :: "local_state \<Rightarrow> local_state" where
  "count_train s =
     (if 0 < train_pass_remaining s then s\<lparr>train_pass_remaining := train_pass_remaining s - 1\<rparr>
      else s)"

definition tick_pending :: "local_state \<Rightarrow> local_state" where
  "tick_pending s =
     (let s1 = update_lights_locked (count_down s)
      in if time_remaining s1 \<le> 0
         then set_phase_locked PHASE_RAILWAY_HOLD 0 (s1\<lparr>train_pending := False, train_active := True\<rparr>)
         else s1)"

definition tick_active :: "local_state \<Rightarrow> local_state" where
  "tick_active s =
     (if train_waiting_for_clear s then
        let s1 = count_train s;
            s2 = s1\<lparr>phase := PHASE_RAILWAY_HOLD, time_remaining := train_pass_remaining s1\<rparr>
        in mark_status_dirty_locked (update_lights_locked s2)
      else
        let s1 = count_train s
        in if train_pass_remaining s1 \<le> 0 then clear_train_locked s1
           else set_phase_locked PHASE_RAILWAY_HOLD (train_pass_remaining s1) s1)"

definition tick_recovery :: "local_state \<Rightarrow> local_state" where
  "tick_recovery s =
     (let s1 = s\<lparr>train_recovery_remaining := train_recovery_remaining s - 1\<rparr>;
          s2 = update_lights_locked
                 (s1\<lparr>phase := PHASE_RAILWAY_HOLD, time_remaining := train_recovery_remaining s1\<rparr>)
      in if train_recovery_remaining s2 = 0
         then set_initial_phase_locked
                (if sim_running s2 \<and> \<not> train_connected s2 then draw_next_train s2 else s2)
         else s2)"

definition tick_normal :: "local_state \<Rightarrow> local_state" where
  "tick_normal s =
     (let s1 = update_pedestrian_locked (update_lights_locked (count_down s))
      in if time_remaining s1 \<le> 0 then advance_phase_locked s1 else s1)"

definition traffic_tick_locked :: "local_state \<Rightarrow> local_state" where
  "traffic_tick_locked s =
     (if ns_light s = LIGHT_GREEN \<and> ew_light s = LIGHT_GREEN then tick_conflict s
      else if traffic_mode s = MODE_FAILSAFE then tick_failsafe s
      else if train_pending s then tick_pending s
      else if train_active s then tick_active s
      else if 0 < train_recovery_remaining s then tick_recovery s
      else tick_normal s)"

end
