(* ===== verification/Local_Simulation.thy ===== *)
theory Local_Simulation
  imports Local_Traffic
begin

text \<open>
  The rest of \<^verbatim>\<open>local_simulation.c\<close> (simulated clock, cars and trains, temporary modes,
  demo reset), \<open>local_state_init\<close> of \<^verbatim>\<open>local_state.c\<close>, and the console inputs of
  \<^verbatim>\<open>local_commands.c\<close>. Both demo switches are on, as in the default build.
\<close>

section \<open>Cars\<close>

definition add_car_locked :: "direction_t \<Rightarrow> local_state \<Rightarrow> local_state" where
  "add_car_locked dir s =
     (if dir = DIR_NS \<and> sensor_ns_count s < MAX_SENSOR_CARS
      then s\<lparr>sensor_ns_count := sensor_ns_count s + 1\<rparr>
      else if dir = DIR_EW \<and> sensor_ew_count s < MAX_SENSOR_CARS
      then s\<lparr>sensor_ew_count := sensor_ew_count s + 1\<rparr>
      else s)"

definition let_cars_pass_locked :: "direction_t \<Rightarrow> local_state \<Rightarrow> local_state" where
  "let_cars_pass_locked dir s =
     (let n = (if is_peak_time (sim_seconds s) then 2 else 1) in
      if dir = DIR_NS
      then s\<lparr>sensor_ns_count := sensor_ns_count s -
              (if sensor_ns_count s < n then sensor_ns_count s else n)\<rparr>
      else s\<lparr>sensor_ew_count := sensor_ew_count s -
              (if sensor_ew_count s < n then sensor_ew_count s else n)\<rparr>)"

section \<open>Modes and the simulated clock\<close>

definition apply_time_settings_locked :: "local_state \<Rightarrow> local_state" where
  "apply_time_settings_locked s =
     (if \<not> manual_mode_override s \<and> traffic_mode s \<noteq> MODE_FAILSAFE
      then mark_status_dirty_locked
             (s\<lparr>traffic_mode := (if is_peak_time (sim_seconds s) then MODE_FIXED else MODE_SENSOR)\<rparr>)
      else s)"

definition update_temporary_mode_locked :: "local_state \<Rightarrow> local_state" where
  "update_temporary_mode_locked s =
     (if temp_mode_remaining s \<le> 0 then s
      else
        let s1 = s\<lparr>temp_mode_remaining := temp_mode_remaining s - 1\<rparr>
        in if temp_mode_remaining s1 = 0
           then mark_status_dirty_locked
                  (apply_time_settings_locked
                    (s1\<lparr>traffic_mode := temp_return_mode s1,
                        manual_mode_override := temp_return_manual_override s1\<rparr>))
           else s1)"

text \<open>\<open>update_vehicle_counts_locked\<close>: departures on green, then an arrival when its gap is over.\<close>

definition depart_cars :: "local_state \<Rightarrow> local_state" where
  "depart_cars s =
     (if \<not> train_pending s \<and> \<not> train_active s \<and> train_recovery_remaining s \<le> 0
      then (if phase s = PHASE_NS_GREEN then let_cars_pass_locked DIR_NS s
            else if phase s = PHASE_EW_GREEN then let_cars_pass_locked DIR_EW s
            else s)
      else s)"

definition arrive_car :: "local_state \<Rightarrow> local_state" where
  "arrive_car s =
     (let (r, s1) = rand_c s;
          arrival = r mod 3;
          s2 = (if arrival = 0 \<or> arrival = 2 then add_car_locked DIR_NS s1 else s1);
          s3 = (if arrival = 1 \<or> arrival = 2 then add_car_locked DIR_EW s2 else s2)
      in draw_next_car s3)"

definition count_car :: "local_state \<Rightarrow> local_state" where
  "count_car s =
     (if 0 < next_car_in_seconds s then s\<lparr>next_car_in_seconds := next_car_in_seconds s - 1\<rparr> else s)"

definition arrive_cars :: "local_state \<Rightarrow> local_state" where
  "arrive_cars s =
     (if \<not> manual_sensor_override s
      then (let s1 = count_car s in if next_car_in_seconds s1 \<le> 0 then arrive_car s1 else s1)
      else s)"

definition update_vehicle_counts_locked :: "local_state \<Rightarrow> local_state" where
  "update_vehicle_counts_locked s =
     (if \<not> sim_running s then s else arrive_cars (depart_cars s))"

definition update_time_of_day_locked :: "local_state \<Rightarrow> local_state" where
  "update_time_of_day_locked s =
     (if \<not> sim_running s then s
      else
        let s1 = apply_time_settings_locked
                   (s\<lparr>sim_seconds := c_mod (sim_seconds s + SIM_SECONDS_PER_TICK) SECONDS_PER_DAY\<rparr>);
            s2 = (if \<not> train_pending s1 \<and> \<not> train_active s1 \<and> train_recovery_remaining s1 \<le> 0 \<and>
                     \<not> train_connected s1 \<and> 0 < next_train_in_seconds s1
                  then s1\<lparr>next_train_in_seconds := next_train_in_seconds s1 - 1\<rparr> else s1)
        in if next_train_in_seconds s2 \<le> 0 \<and> \<not> train_pending s2 \<and> \<not> train_active s2 \<and>
              \<not> train_connected s2 \<and> train_recovery_remaining s2 \<le> 0
           then (start_train_locked (next_train_direction s2) s2)\<lparr>next_train_in_seconds := 0\<rparr>
           else s2)"

definition set_sim_seconds_locked :: "int \<Rightarrow> local_state \<Rightarrow> local_state" where
  "set_sim_seconds_locked seconds s =
     (let r = c_mod seconds SECONDS_PER_DAY;
          s1 = s\<lparr>sim_seconds := (if r < 0 then r + SECONDS_PER_DAY else r)\<rparr>
      in draw_next_car (draw_next_train (apply_time_settings_locked s1)))"

definition set_sim_hour_locked :: "int \<Rightarrow> local_state \<Rightarrow> local_state" where
  "set_sim_hour_locked hour s =
     set_sim_seconds_locked (hour * 3600)
       (s\<lparr>manual_mode_override := False, manual_sensor_override := False\<rparr>)"

definition set_sim_minute_locked :: "nat \<Rightarrow> local_state \<Rightarrow> local_state" where
  "set_sim_minute_locked minute s =
     set_sim_seconds_locked (int minute * 60)
       (s\<lparr>manual_mode_override := False, manual_sensor_override := False\<rparr>)"

section \<open>Demo inputs\<close>

definition toggle_sensor_locked :: "direction_t \<Rightarrow> local_state \<Rightarrow> local_state" where
  "toggle_sensor_locked dir s =
     (let s1 = s\<lparr>manual_sensor_override := True\<rparr> in
      mark_status_dirty_locked
        (if dir = DIR_NS
         then s1\<lparr>sensor_ns_count :=
                  (if SENSOR_CAR_THRESHOLD \<le> sensor_ns_count s1 then 0 else DEMO_HIGH_CAR_COUNT)\<rparr>
         else s1\<lparr>sensor_ew_count :=
                  (if SENSOR_CAR_THRESHOLD \<le> sensor_ew_count s1 then 0 else DEMO_HIGH_CAR_COUNT)\<rparr>))"

definition reset_demo_inputs_locked :: "local_state \<Rightarrow> local_state" where
  "reset_demo_inputs_locked s =
     (let s1 = s\<lparr>sensor_ns_count := 0, sensor_ew_count := 0, ped_ns_request := False,
                 ped_ew_request := False, ped_ns_walk := False, ped_ew_walk := False,
                 manual_mode_override := False, manual_sensor_override := False,
                 train_pending := False, train_active := False, train_direction := 0,
                 train_pass_remaining := 0, train_waiting_for_clear := False,
                 train_recovery_remaining := 0, temp_mode_remaining := 0,
                 coordination_pending := False, coordination_offset_sec := 0,
                 ped_extra_ns_green := 0, ped_extra_ew_green := 0, sim_running := True\<rparr>;
          s2 = draw_next_car (draw_next_train (clear_fault_locked s1))
      in mark_status_dirty_locked (set_initial_phase_locked (apply_time_settings_locked s2)))"

section \<open>Start-up\<close>

text \<open>\<open>memset(&state, 0, sizeof(state))\<close>; the random stream is the environment's.\<close>

definition zero_local_state :: "(nat \<Rightarrow> nat) \<Rightarrow> local_state" where
  "zero_local_state rnd =
     \<lparr>central_connected = False, train_connected = False, conn_mode = CONN_MODE_LOCAL,
      service_name = [], last_recv_central = [], last_recv_train = [],
      last_central_update = [], last_train_update = [],
      traffic_mode = MODE_FIXED, phase = PHASE_NS_GREEN, initial_phase = PHASE_NS_GREEN,
      ns_light = LIGHT_OFF, ew_light = LIGHT_OFF, time_remaining = 0, phase_duration = 0,
      ns_green_sec = 0, ew_green_sec = 0, cycle_ns_green = 0, cycle_ew_green = 0,
      cycle_plan_valid = False, sensor_ns_count = 0, sensor_ew_count = 0,
      next_car_in_seconds = 0, ped_ns_request = False, ped_ew_request = False,
      ped_ns_walk = False, ped_ew_walk = False, sim_seconds = 0, sim_running = False,
      next_train_in_seconds = 0, next_train_direction = 0, train_direction = 0,
      train_pass_remaining = 0, train_waiting_for_clear = False,
      manual_mode_override = False, manual_sensor_override = False,
      temp_mode_remaining = 0, temp_return_mode = MODE_FIXED,
      temp_return_manual_override = False, coordination_pending = False,
      coordination_phase = PHASE_NS_GREEN, coordination_offset_sec = 0,
      ped_extra_ns_green = 0, ped_extra_ew_green = 0, intersection_id = 0,
      fault_active = False, fault_kind = FAULT_NONE, fault_sev = SEV_LOW,
      fault_description = [], train_pending = False, train_active = False,
      train_recovery_remaining = 0, status_sequence = 0, fault_sequence = 0,
      heartbeat_sequence = 0, last_applied_command_id = 0, rand_src = rnd, rand_pos = 0\<rparr>"

text \<open>The assignments of \<open>local_state_init\<close> up to the simulated clock, and the rest of it.\<close>

definition local_init_fields ::
  "connection_mode \<Rightarrow> u8 \<Rightarrow> string option \<Rightarrow> (nat \<Rightarrow> nat) \<Rightarrow> local_state" where
  "local_init_fields cmode i0 svc rnd =
     (let i = (if NUM_INTERSECTIONS \<le> unat i0 then 0 else i0);
          cfg = local_config_for_intersection i
      in (zero_local_state rnd)
           \<lparr>conn_mode := cmode, status_sequence := 1, fault_sequence := 1, fault_sev := SEV_LOW,
            intersection_id := i, initial_phase := cfg_initial_phase cfg,
            ns_green_sec := cfg_ns_green_sec cfg, ew_green_sec := cfg_ew_green_sec cfg,
            service_name := copy_text 63 (case svc of Some n \<Rightarrow> n | None \<Rightarrow> LOCAL_SERVICE_NAME),
            sim_running := True, sim_seconds := 6 * 3600\<rparr>)"

definition local_init_phase :: "local_state \<Rightarrow> local_state" where
  "local_init_phase s1 =
     (let s2 = draw_next_car (draw_next_train s1);
          s3 = s2\<lparr>traffic_mode := (if is_peak_time (sim_seconds s2) then MODE_FIXED else MODE_SENSOR)\<rparr>;
          s4 = apply_time_settings_locked s3;
          s5 = local_plan_cycle_locked (s4\<lparr>phase := initial_phase s4\<rparr>);
          dir = (if phase s5 = PHASE_EW_GREEN then DIR_EW else DIR_NS);
          s6 = s5\<lparr>phase_duration := green_time_for_direction dir s5\<rparr>;
          s7 = s6\<lparr>time_remaining := phase_duration s6\<rparr>
      in if phase s7 = PHASE_EW_GREEN
         then s7\<lparr>ns_light := LIGHT_RED, ew_light := LIGHT_GREEN\<rparr>
         else s7\<lparr>ns_light := LIGHT_GREEN, ew_light := LIGHT_RED\<rparr>)"

definition local_state_init ::
  "connection_mode \<Rightarrow> u8 \<Rightarrow> string option \<Rightarrow> (nat \<Rightarrow> nat) \<Rightarrow> local_state" where
  "local_state_init cmode i svc rnd = local_init_phase (local_init_fields cmode i svc rnd)"

section \<open>Console inputs\<close>

definition valid_input :: "string \<Rightarrow> bool" where
  "valid_input command = (length command = 1 \<and> hd command \<in> set ''mnexz12crpol'')"

definition execute_command :: "string \<Rightarrow> local_state \<Rightarrow> int \<times> local_state" where
  "execute_command command s =
     (if \<not> valid_input command then (- 1, s)
      else
        let c = hd command;
            s1 = (if c = CHR ''m'' then
                    s\<lparr>manual_mode_override := True,
                      traffic_mode := (if traffic_mode s = MODE_FIXED then MODE_SENSOR else MODE_FIXED)\<rparr>
                  else if c = CHR ''n'' then add_pedestrian_request_locked DIR_NS s
                  else if c = CHR ''e'' then add_pedestrian_request_locked DIR_EW s
                  else if c = CHR ''x'' then toggle_sensor_locked DIR_NS s
                  else if c = CHR ''z'' then toggle_sensor_locked DIR_EW s
                  else if c = CHR ''1'' then start_train_locked 1 s
                  else if c = CHR ''2'' then start_train_locked 2 s
                  else if c = CHR ''c'' then clear_train_locked s
                  else if c = CHR ''r'' then reset_demo_inputs_locked s
                  else if c = CHR ''p'' then set_sim_hour_locked 7 s
                  else if c = CHR ''o'' then set_sim_hour_locked 12 s
                  else if c = CHR ''l'' then set_sim_hour_locked 22 s
                  else s)
        in (0, mark_status_dirty_locked s1))"

text \<open>\<open>local_ui_parse_view\<close>: \<open>None\<close> is return value 0, where the selection is kept.\<close>

definition local_ui_parse_view :: "string \<Rightarrow> int option" where
  "local_ui_parse_view command =
     (if command = ''view all'' then Some (int INTERSECTION_ALL)
      else if length command = 7 \<and> take 5 command = ''view '' \<and>
              (command ! 5 = CHR ''I'' \<or> command ! 5 = CHR ''i'') \<and>
              CHR ''1'' \<le> command ! 6 \<and> command ! 6 \<le> CHR ''6''
      then Some (of_char (command ! 6) - of_char CHR ''1'')
      else None)"

end
