(* ===== verification/Local_Ipc.thy ===== *)
theory Local_Ipc
  imports Local_Simulation
begin

text \<open>
  Messages received by a Local controller: \<^verbatim>\<open>local_ipc.c\<close>. A handler takes the current
  time string, the frame, the reply under construction and the state, and returns the reply and
  the state; all handlers of the code return 0.
\<close>

section \<open>The simulation command\<close>

definition parse_sim_number :: "string \<Rightarrow> nat \<Rightarrow> nat option" where
  "parse_sim_number text maximum =
     (if text = [] \<or> (hd text = CHR ''0'' \<and> 1 < length text) then None
      else parse_digits maximum 0 text)"

text \<open>The tokenising loop: at most five tokens, single spaces, no trailing space.\<close>

function sim_tokens :: "nat \<Rightarrow> string \<Rightarrow> string list option" where
  "sim_tokens count cursor =
     (if cursor = [] then Some []
      else if count = 5 then None
      else
        let token = takeWhile (\<lambda>c. c \<noteq> CHR '' '') cursor;
            rest = dropWhile (\<lambda>c. c \<noteq> CHR '' '') cursor
        in if rest = [] then Some [token]
           else if tl rest = [] \<or> hd (tl rest) = CHR '' '' then None
           else map_option (\<lambda>ts. token # ts) (sim_tokens (Suc count) (tl rest)))"
  by pat_completeness auto
termination
proof (relation "measure (\<lambda>(_, cursor). length cursor)", goal_cases)
  case (2 count cursor token rest)
  then have "length (tl rest) < length rest" by (cases rest) auto
  moreover have "length rest \<le> length cursor" by (simp add: 2 length_dropWhile_le)
  ultimately show ?case by simp
qed simp

declare sim_tokens.simps [simp del]

record sim_command =
  sim_target :: nat
  sim_command_id :: nat
  sim_minute :: nat
  sim_action :: int

definition parse_sim_command :: "char list \<Rightarrow> sim_command option" where
  "parse_sim_command text =
     (if \<not> has_nul text then None
      else case sim_tokens 0 (cstr text) of
        None \<Rightarrow> None
      | Some tokens \<Rightarrow>
          if length tokens < 4 \<or> tokens ! 0 \<noteq> ''SIM1'' then None
          else case parse_sim_number (tokens ! 1) (NUM_INTERSECTIONS - 1) of
            None \<Rightarrow> None
          | Some target \<Rightarrow>
              (case parse_sim_number (tokens ! 2) 65535 of
                 None \<Rightarrow> None
               | Some command_id \<Rightarrow>
                   if command_id = 0 then None
                   else if length tokens = 4 \<and> tokens ! 3 = ''START'' then
                     Some \<lparr>sim_target = target, sim_command_id = command_id, sim_minute = 0,
                           sim_action = 1\<rparr>
                   else if length tokens = 4 \<and> tokens ! 3 = ''STOP'' then
                     Some \<lparr>sim_target = target, sim_command_id = command_id, sim_minute = 0,
                           sim_action = 2\<rparr>
                   else if length tokens = 5 \<and> tokens ! 3 = ''TIME'' then
                     (case parse_sim_number (tokens ! 4) 1439 of
                        None \<Rightarrow> None
                      | Some minute \<Rightarrow>
                          Some \<lparr>sim_target = target, sim_command_id = command_id,
                                sim_minute = minute, sim_action = 3\<rparr>)
                   else None))"

section \<open>Handlers\<close>

definition stamp_central :: "string \<Rightarrow> test_message \<Rightarrow> local_state \<Rightarrow> local_state" where
  "stamp_central now msg s =
     s\<lparr>last_recv_central := copy_text 31 (hdr_timestamp (header msg)), last_central_update := now\<rparr>"

definition stamp_train :: "string \<Rightarrow> test_message \<Rightarrow> local_state \<Rightarrow> local_state" where
  "stamp_train now msg s =
     s\<lparr>last_recv_train := copy_text 31 (hdr_timestamp (header msg)), last_train_update := now\<rparr>"

definition finish_reply :: "string \<Rightarrow> bool \<Rightarrow> reply \<Rightarrow> reply" where
  "finish_reply now accepted r =
     r\<lparr>reply_status := (if accepted then 0 else - 1), reply_timestamp := now\<rparr>"

type_synonym local_handler =
  "string \<Rightarrow> test_message \<Rightarrow> reply \<Rightarrow> local_state \<Rightarrow> reply \<times> local_state"

definition handle_simulation_message :: local_handler where
  "handle_simulation_message now msg r s =
     (case parse_sim_command (data msg) of
        None \<Rightarrow> (finish_reply now False r, s)
      | Some cmd \<Rightarrow>
          let r1 = r\<lparr>reply_command_id := word_of_nat (sim_command_id cmd)\<rparr>;
              accepted = (hdr_src (header msg) = controller_code CONTROLLER_CENTRAL \<and>
                          hdr_dst (header msg) = controller_code CONTROLLER_LOCAL \<and>
                          target_matches_local (word_of_nat (sim_target cmd)) s);
              s1 = stamp_central now msg s;
              s2 = (if sim_action cmd = 1 then
                      draw_next_train (draw_next_car (s1\<lparr>sim_running := True\<rparr>))
                    else if sim_action cmd = 2 then s1\<lparr>sim_running := False\<rparr>
                    else set_sim_minute_locked (sim_minute cmd) s1);
              s3 = mark_status_dirty_locked
                     (s2\<lparr>last_applied_command_id := word_of_nat (sim_command_id cmd)\<rparr>)
          in (finish_reply now accepted r1, if accepted then s3 else s))"

definition handle_test_message :: local_handler where
  "handle_test_message now msg r s =
     (finish_reply now True r,
      if hdr_src (header msg) = controller_code CONTROLLER_CENTRAL then stamp_central now msg s
      else if hdr_src (header msg) = controller_code CONTROLLER_TRAIN then stamp_train now msg s
      else s)"

text \<open>The action part of \<open>handle_mode_command\<close>: \<open>None\<close> when no branch accepts.\<close>

definition apply_mode_action :: "mode_cmd_msg \<Rightarrow> local_state \<Rightarrow> local_state option" where
  "apply_mode_action command s =
     (if mc_action command = action_code CMD_SET_MODE \<and> mc_duration_sec command = 0 then
        Some (clear_fault_locked
          (s\<lparr>traffic_mode := mode_of (mc_new_mode command), manual_mode_override := True,
             temp_mode_remaining := 0\<rparr>))
      else if mc_action command = action_code CMD_TEMPORARY \<and> 0 < mc_duration_sec command then
        let s1 = (if temp_mode_remaining s \<le> 0
                  then s\<lparr>temp_return_mode := traffic_mode s,
                         temp_return_manual_override := manual_mode_override s\<rparr>
                  else s)
        in Some (clear_fault_locked
             (s1\<lparr>traffic_mode := mode_of (mc_new_mode command), manual_mode_override := True,
                 temp_mode_remaining := uint (mc_duration_sec command)\<rparr>))
      else if mc_action command = action_code CMD_REVERT \<and> mc_duration_sec command = 0 then
        let s1 = (if 0 < temp_mode_remaining s
                  then s\<lparr>traffic_mode := temp_return_mode s,
                         manual_mode_override := temp_return_manual_override s,
                         temp_mode_remaining := 0\<rparr>
                  else s)
        in Some (if traffic_mode s1 = MODE_FAILSAFE
                 then clear_fault_locked (s1\<lparr>traffic_mode := MODE_FIXED\<rparr>) else s1)
      else None)"

definition mode_command_guard :: "test_message \<Rightarrow> mode_cmd_msg \<Rightarrow> local_state \<Rightarrow> bool" where
  "mode_command_guard msg command s \<longleftrightarrow>
     hdr_src (header msg) = controller_code CONTROLLER_CENTRAL \<and>
     target_matches_local (mc_intersection_id command) s \<and>
     mc_command_id command \<noteq> 0 \<and>
     mc_new_mode command \<le> mode_code MODE_SENSOR \<and>
     CMD_PRIO_SCHEDULE \<le> mc_priority command \<and>
     mc_priority command \<le> CMD_PRIO_OPERATOR \<and>
     mc_action command \<le> action_code CMD_REVERT"

definition handle_mode_command :: local_handler where
  "handle_mode_command now msg r s =
     (let command = decode_mode_cmd (data msg);
          r1 = r\<lparr>reply_command_id := mc_command_id command\<rparr>;
          s1 = stamp_central now msg s
      in case (if mode_command_guard msg command s1 then apply_mode_action command s1 else None) of
           None \<Rightarrow> (finish_reply now False r1, s1)
         | Some s2 \<Rightarrow>
             (finish_reply now True r1,
              mark_status_dirty_locked (s2\<lparr>last_applied_command_id := mc_command_id command\<rparr>)))"

definition coordination_guard ::
  "test_message \<Rightarrow> coordination_command_msg \<Rightarrow> local_state \<Rightarrow> bool" where
  "coordination_guard msg command s \<longleftrightarrow>
     hdr_src (header msg) = controller_code CONTROLLER_CENTRAL \<and>
     target_matches_local (cc_intersection_id command) s \<and>
     cc_command_id command \<noteq> 0 \<and>
     cc_mode command = mode_code MODE_FIXED \<and>
     cc_reserved command = 0 \<and>
     uint (cc_cycle_offset_sec command) < local_fixed_cycle_seconds_locked s \<and>
     (cc_phase command = phase_code PHASE_NS_GREEN \<or> cc_phase command = phase_code PHASE_EW_GREEN)"

definition handle_coordination_command :: local_handler where
  "handle_coordination_command now msg r s =
     (let command = decode_coordination (data msg);
          r1 = r\<lparr>reply_command_id := cc_command_id command\<rparr>;
          s1 = stamp_central now msg s;
          accepted = coordination_guard msg command s1
      in (finish_reply now accepted r1,
          if accepted
          then mark_status_dirty_locked
                 ((clear_fault_locked
                    (s1\<lparr>traffic_mode := MODE_FIXED, manual_mode_override := True,
                        coordination_phase := phase_of (cc_phase command),
                        coordination_offset_sec := uint (cc_cycle_offset_sec command),
                        coordination_pending := True\<rparr>))
                  \<lparr>last_applied_command_id := cc_command_id command\<rparr>)
          else s1))"

definition handle_sensor_update :: local_handler where
  "handle_sensor_update now msg r s =
     (let sensor = decode_sensor (data msg);
          accepted = (target_matches_local (se_intersection_id sensor) s \<and>
                      se_direction sensor \<le> direction_code DIR_EW \<and>
                      uint (se_car_count sensor) \<le> MAX_SENSOR_CARS);
          s1 = s\<lparr>manual_sensor_override := True\<rparr>
      in (finish_reply now accepted r,
          if accepted
          then mark_status_dirty_locked
                 (if se_direction sensor = direction_code DIR_NS
                  then s1\<lparr>sensor_ns_count := uint (se_car_count sensor)\<rparr>
                  else s1\<lparr>sensor_ew_count := uint (se_car_count sensor)\<rparr>)
          else s))"

definition handle_ped_request :: local_handler where
  "handle_ped_request now msg r s =
     (let ped = decode_ped (data msg);
          accepted = (target_matches_local (pe_intersection_id ped) s \<and>
                      pe_direction ped \<le> direction_code DIR_EW \<and> pe_pressed ped \<noteq> 0)
      in (finish_reply now accepted r,
          if accepted
          then add_pedestrian_request_locked
                 (if pe_direction ped = direction_code DIR_NS then DIR_NS else DIR_EW) s
          else s))"

definition handle_railway_message :: local_handler where
  "handle_railway_message now msg r s =
     (let railway = decode_railway (data msg) in
      if hdr_src (header msg) = controller_code CONTROLLER_TRAIN \<and>
         railway_matches_local (rm_intersection_id railway) s
      then
        let s1 = stamp_train now msg s in
        if hdr_type (header msg) = msg_code MSG_RAILWAY_PREEMPT \<and> rm_active railway \<noteq> 0 then
          (finish_reply now True r,
           start_train_message_locked (railway_display_line (rm_intersection_id railway))
             (uint (rm_eta_seconds railway)) s1)
        else if hdr_type (header msg) = msg_code MSG_TRAIN_CLEAR then
          (finish_reply now True r, clear_train_locked s1)
        else (finish_reply now False r, s1)
      else (finish_reply now False r, s))"

section \<open>Dispatch\<close>

definition local_handlers :: "(u16 \<times> u16 \<times> local_handler) list" where
  "local_handlers =
     [(msg_code MSG_TEST, controller_code CONTROLLER_CENTRAL, handle_simulation_message),
      (msg_code MSG_TEST, 0, handle_test_message),
      (msg_code MSG_MODE_COMMAND, controller_code CONTROLLER_CENTRAL, handle_mode_command),
      (msg_code MSG_COORDINATION_COMMAND, controller_code CONTROLLER_CENTRAL,
         handle_coordination_command),
      (msg_code MSG_SENSOR_UPDATE, 0, handle_sensor_update),
      (msg_code MSG_PED_REQUEST, 0, handle_ped_request),
      (msg_code MSG_RAILWAY_PREEMPT, controller_code CONTROLLER_TRAIN, handle_railway_message),
      (msg_code MSG_TRAIN_CLEAR, controller_code CONTROLLER_TRAIN, handle_railway_message)]"

definition handler_matches :: "msg_header \<Rightarrow> u16 \<times> u16 \<times> local_handler \<Rightarrow> bool" where
  "handler_matches h e \<longleftrightarrow>
     fst e = hdr_type h \<and> (fst (snd e) = 0 \<or> fst (snd e) = hdr_src h)"

text \<open>The result code, the reply and the state; \<open>reply_status\<close> starts as 0.\<close>

definition local_dispatch_message ::
  "string \<Rightarrow> test_message \<Rightarrow> local_state \<Rightarrow> int \<times> reply \<times> local_state" where
  "local_dispatch_message now msg s =
     (let r = \<lparr>reply_status = 0, reply_timestamp = now, reply_command_id = 0\<rparr> in
      if hdr_dst (header msg) \<noteq> controller_code CONTROLLER_LOCAL then (- 1, r, s)
      else if hdr_type (header msg) = msg_code MSG_HEARTBEAT then (0, r, s)
      else case find (handler_matches (header msg)) local_handlers of
             None \<Rightarrow> (- 1, r, s)
           | Some e \<Rightarrow> (0, snd (snd e) now msg r s))"

end
