(* ===== verification/Local_Core.thy ===== *)
theory Local_Core
  imports Local_Ipc
begin

text \<open>
  The process that owns the Local state (\<^verbatim>\<open>local_core.c\<close>), the reporting process
  (\<^verbatim>\<open>local_comm.c\<close>) and the argument checks of \<^verbatim>\<open>local_intersection_controller.c\<close>. One
  iteration of the loop of \<open>run_core\<close> is \<open>core_iteration\<close>; it is given what the kernel gives
  the code: the clock readings, the formatted time and the received request, if any.
\<close>

section \<open>Requests and replies\<close>

abbreviation (input) LOCAL_TICK_NS :: u64 where "LOCAL_TICK_NS \<equiv> 1000000000"
abbreviation (input) LOCAL_LINK_TIMEOUT_NS :: u64 where "LOCAL_LINK_TIMEOUT_NS \<equiv> 3000000000"
abbreviation (input) CORE_REQUEST :: u16 where "CORE_REQUEST \<equiv> 112"
abbreviation (input) STATUS_HISTORY_SIZE :: nat where "STATUS_HISTORY_SIZE \<equiv> 64"

datatype core_operation = CORE_SNAPSHOT | CORE_FRAME | CORE_INPUT | CORE_LINKS

primrec operation_code :: "core_operation \<Rightarrow> u16" where
  "operation_code CORE_SNAPSHOT = 1"
| "operation_code CORE_FRAME = 2"
| "operation_code CORE_INPUT = 3"
| "operation_code CORE_LINKS = 4"

record core_request =
  cq_type :: u16
  cq_operation :: u16
  cq_frame :: test_message
  cq_command :: "char list"
  cq_central_up :: int
  cq_train_up :: int
  cq_delivered_event :: u64

record core_reply =
  cr_result :: reply
  cr_status :: status_msg
  cr_fault :: fault_msg
  cr_fault_sequence :: u16
  cr_event_id :: u64
  cr_event_status :: status_msg
  cr_service_name :: string
  cr_global_mode :: bool
  cr_central_connected :: bool
  cr_train_connected :: bool
  cr_last_recv_central :: string
  cr_last_recv_train :: string
  cr_initial_phase :: phase_t
  cr_ns_green_sec :: int
  cr_ew_green_sec :: int
  cr_sim_seconds :: int

section \<open>Status history\<close>

type_synonym status_event = "u64 \<times> status_msg"

record core_state =
  core_local :: local_state
  history :: "status_event list"
  history_next :: nat
  event_id :: u64
  next_tick :: u64
  link_deadline :: u64

definition zero_status :: status_msg where
  "zero_status = decode_status (replicate 36 NUL)"

definition latest_slot :: "core_state \<Rightarrow> nat" where
  "latest_slot c = (history_next c + STATUS_HISTORY_SIZE - 1) mod STATUS_HISTORY_SIZE"

text \<open>\<open>now\<close> is what \<open>monotonic_ns()\<close> returns when the first event needs a base.\<close>

definition record_status :: "u64 \<Rightarrow> core_state \<Rightarrow> core_state" where
  "record_status now c =
     (let status = fill_status_locked (core_local c) in
      if event_id c \<noteq> 0 \<and>
         st_status_sequence (snd (history c ! latest_slot c)) = st_status_sequence status
      then c
      else
        let base = (if event_id c = 0 then now else event_id c)
        in c\<lparr>event_id := base + 1,
             history := (history c)[history_next c := (base + 1, status)],
             history_next := (history_next c + 1) mod STATUS_HISTORY_SIZE\<rparr>)"

definition select_event :: "u64 \<Rightarrow> status_event \<Rightarrow> status_event \<Rightarrow> status_event" where
  "select_event delivered candidate selected =
     (if delivered < fst candidate \<and> fst candidate < fst selected then candidate else selected)"

definition next_status_event :: "u64 \<Rightarrow> core_state \<Rightarrow> status_event" where
  "next_status_event delivered c =
     (let latest = history c ! latest_slot c in
      if delivered \<noteq> 0 then fold (select_event delivered) (history c) latest else latest)"

section \<open>The core loop\<close>

definition fill_core_reply :: "string \<Rightarrow> reply \<Rightarrow> local_state \<Rightarrow> core_reply" where
  "fill_core_reply now result s =
     (let (fault, fault_seq) = prepare_fault_message_locked now s in
      \<lparr>cr_result = result, cr_status = fill_status_locked s,
       cr_fault = decode_fault (data fault), cr_fault_sequence = fault_seq,
       cr_event_id = 0, cr_event_status = zero_status,
       cr_service_name = copy_text 63 (service_name s),
       cr_global_mode = (conn_mode s = CONN_MODE_GLOBAL),
       cr_central_connected = central_connected s, cr_train_connected = train_connected s,
       cr_last_recv_central = copy_text 31 (last_recv_central s),
       cr_last_recv_train = copy_text 31 (last_recv_train s),
       cr_initial_phase = initial_phase s, cr_ns_green_sec = ns_green_sec s,
       cr_ew_green_sec = ew_green_sec s, cr_sim_seconds = sim_seconds s\<rparr>)"

text \<open>The state part of the tick, in the order of the code.\<close>

definition core_tick :: "bool \<Rightarrow> local_state \<Rightarrow> local_state" where
  "core_tick link_expired s =
     mark_status_dirty_locked
       (update_vehicle_counts_locked
         (traffic_tick_locked
           (update_temporary_mode_locked
             (update_time_of_day_locked
               (if link_expired then s\<lparr>central_connected := False, train_connected := False\<rparr>
                else s)))))"

text \<open>\<open>now\<close> is the reading at the top of the loop, \<open>after\<close> the one after the tick.\<close>

definition tick_part :: "u64 \<Rightarrow> u64 \<Rightarrow> core_state \<Rightarrow> core_state" where
  "tick_part now after c =
     (if next_tick c \<le> now then
        (record_status after
          (c\<lparr>core_local := core_tick (link_deadline c \<noteq> 0 \<and> link_deadline c \<le> now) (core_local c)\<rparr>))
        \<lparr>next_tick := after + LOCAL_TICK_NS\<rparr>
      else c)"

text \<open>The state change of a request and the status of the reply. \<open>result\<close> starts zeroed with
  status -1.\<close>

definition core_operation_step ::
  "string \<Rightarrow> core_request \<Rightarrow> local_state \<Rightarrow> reply \<times> local_state" where
  "core_operation_step now q s =
     (let r = \<lparr>reply_status = - 1, reply_timestamp = [], reply_command_id = 0\<rparr> in
      if cq_operation q = operation_code CORE_SNAPSHOT then (r\<lparr>reply_status := 0\<rparr>, s)
      else if cq_operation q = operation_code CORE_FRAME then
        (let (rc, r1, s1) = local_dispatch_message now (cq_frame q) s
         in (if rc \<noteq> 0 then r1\<lparr>reply_status := - 1\<rparr> else r1, s1))
      else if cq_operation q = operation_code CORE_INPUT \<and> valid_input (cstr (cq_command q)) then
        (let (rc, s1) = execute_command (cstr (cq_command q)) s
         in (r\<lparr>reply_status := (if rc = 0 then 0 else - 1)\<rparr>, s1))
      else if cq_operation q = operation_code CORE_LINKS then
        (r\<lparr>reply_status := 0\<rparr>,
         s\<lparr>central_connected := (cq_central_up q \<noteq> 0), train_connected := (cq_train_up q \<noteq> 0)\<rparr>)
      else (r, s))"

definition request_part ::
  "u64 \<Rightarrow> string \<Rightarrow> core_request \<Rightarrow> core_state \<Rightarrow> core_reply \<times> core_state" where
  "request_part after now q c =
     (let previous_phase = phase (core_local c);
          (result, s1) = core_operation_step now q (core_local c);
          c1 = c\<lparr>core_local := s1,
                 link_deadline :=
                   (if cq_operation q = operation_code CORE_LINKS
                    then after + LOCAL_LINK_TIMEOUT_NS else link_deadline c)\<rparr>;
          reply = fill_core_reply now result s1;
          c2 = (if phase s1 \<noteq> previous_phase then c1\<lparr>next_tick := after + LOCAL_TICK_NS\<rparr> else c1);
          c3 = record_status after c2;
          (eid, est) = next_status_event (cq_delivered_event q) c3
      in (reply\<lparr>cr_event_id := eid, cr_event_status := est,
                cr_result := (cr_result reply)\<lparr>reply_timestamp := now\<rparr>\<rparr>, c3))"

text \<open>What \<open>receive_application\<close> delivers: nothing, or a request with whether both message
  sizes are those of \<open>core_request_t\<close> and \<open>core_reply_t\<close>.\<close>

datatype core_rx = RxNone | RxRequest bool core_request

definition core_iteration ::
  "u64 \<Rightarrow> u64 \<Rightarrow> string \<Rightarrow> core_rx \<Rightarrow> core_state \<Rightarrow> core_reply option \<times> core_state" where
  "core_iteration now after tstr rx c =
     (let c1 = tick_part now after c in
      case rx of
        RxNone \<Rightarrow> (None, c1)
      | RxRequest sizes_ok q \<Rightarrow>
          if \<not> sizes_ok \<or> cq_type q \<noteq> CORE_REQUEST then (None, c1)
          else (let (reply, c2) = request_part after tstr q c1 in (Some reply, c2)))"

definition core_start :: "u64 \<Rightarrow> local_state \<Rightarrow> core_state" where
  "core_start now s =
     record_status now
       \<lparr>core_local = s, history = replicate STATUS_HISTORY_SIZE (0, zero_status),
        history_next = 0, event_id = 0, next_tick = now + LOCAL_TICK_NS, link_deadline = 0\<rparr>"

section \<open>The reporter\<close>

text \<open>
  \<open>exchange\<close> either fails, which closes the connection, or returns a reply. The environment of
  one round of \<open>report_thread\<close>: the clock, whether opening each service works, whether the
  exchange with Train works, the answer of the core (\<open>None\<close> when the call fails) and the
  outcome of each send to Central.
\<close>

datatype send_outcome = SendFailed | SendRefused | SendAccepted

record comm_env =
  ce_now :: u64
  ce_time :: string
  ce_open_central :: bool
  ce_open_train :: bool
  ce_train_exchange :: bool
  ce_core :: "core_request \<Rightarrow> core_reply option"
  ce_status_outcome :: send_outcome
  ce_fault_outcome :: send_outcome
  ce_heartbeat_outcome :: send_outcome

record comm_state =
  cm_central :: bool
  cm_train :: bool
  cm_last_fault :: u16
  cm_sequence :: u16
  cm_delivered_event :: u64
  cm_next_heartbeat :: u64

definition send_payload :: "string \<Rightarrow> msg_type \<Rightarrow> char list \<Rightarrow> test_message" where
  "send_payload now ty payload =
     (let frame = init_message ty CONTROLLER_LOCAL CONTROLLER_CENTRAL now
      in frame\<lparr>data := overlay payload (data frame)\<rparr>)"

definition report_connect :: "comm_env \<Rightarrow> comm_state \<Rightarrow> comm_state" where
  "report_connect e m =
     (if cm_next_heartbeat m \<le> ce_now e then
        let m1 = (if \<not> cm_central m
                  then m\<lparr>cm_central := ce_open_central e, cm_delivered_event := 0, cm_last_fault := 0\<rparr>
                  else m);
            m2 = (if \<not> cm_train m1 then m1\<lparr>cm_train := ce_open_train e\<rparr> else m1);
            m3 = (if cm_train m2 then m2\<lparr>cm_train := ce_train_exchange e\<rparr> else m2)
        in m3\<lparr>cm_next_heartbeat := ce_now e + 1000000000\<rparr>
      else m)"

definition report_request :: "comm_state \<Rightarrow> core_request" where
  "report_request m =
     \<lparr>cq_type = CORE_REQUEST, cq_operation = operation_code CORE_LINKS,
      cq_frame = \<lparr>header = \<lparr>hdr_type = 0, hdr_src = 0, hdr_dst = 0, hdr_reserved = 0,
                             hdr_timestamp = replicate TIMESTAMP_SIZE NUL\<rparr>, data = zero_data\<rparr>,
      cq_command = replicate 64 NUL,
      cq_central_up = (if cm_central m then 1 else 0),
      cq_train_up = (if cm_train m then 1 else 0),
      cq_delivered_event = cm_delivered_event m\<rparr>"

definition report_status ::
  "comm_env \<Rightarrow> bool \<Rightarrow> core_reply \<Rightarrow> comm_state \<Rightarrow> test_message list \<times> comm_state" where
  "report_status e due rep m =
     (if cm_central m \<and> (cm_delivered_event m \<noteq> cr_event_id rep \<or> due) then
        ([send_payload (ce_time e) MSG_STATUS_UPDATE (encode_status (cr_event_status rep))],
         case ce_status_outcome e of
           SendFailed \<Rightarrow> m\<lparr>cm_central := False\<rparr>
         | SendRefused \<Rightarrow> m
         | SendAccepted \<Rightarrow> m\<lparr>cm_delivered_event := cr_event_id rep\<rparr>)
      else ([], m))"

definition report_fault ::
  "comm_env \<Rightarrow> core_reply \<Rightarrow> comm_state \<Rightarrow> test_message list \<times> comm_state" where
  "report_fault e rep m =
     (if cm_central m \<and> cm_last_fault m \<noteq> cr_fault_sequence rep then
        ([send_payload (ce_time e) MSG_FAULT_ALERT (encode_fault (cr_fault rep))],
         case ce_fault_outcome e of
           SendFailed \<Rightarrow> m\<lparr>cm_central := False\<rparr>
         | SendRefused \<Rightarrow> m
         | SendAccepted \<Rightarrow> m\<lparr>cm_last_fault := cr_fault_sequence rep\<rparr>)
      else ([], m))"

definition report_heartbeat ::
  "comm_env \<Rightarrow> bool \<Rightarrow> core_reply \<Rightarrow> comm_state \<Rightarrow> test_message list \<times> comm_state" where
  "report_heartbeat e due rep m =
     (if cm_central m \<and> due then
        let seq = bump_sequence (cm_sequence m);
            hb = \<lparr>hb_sender_id = st_intersection_id (cr_status rep),
                  hb_healthy = flag8 (st_fault_active (cr_status rep) = 0 \<and>
                                      st_mode (cr_status rep) \<noteq> mode_code MODE_FAILSAFE),
                  hb_sequence = seq\<rparr>;
            m1 = m\<lparr>cm_sequence := seq\<rparr>
        in ([send_payload (ce_time e) MSG_HEARTBEAT (encode_heartbeat hb)],
            case ce_heartbeat_outcome e of
              SendFailed \<Rightarrow> m1\<lparr>cm_central := False\<rparr> | _ \<Rightarrow> m1)
      else ([], m))"

definition report_step :: "comm_env \<Rightarrow> comm_state \<Rightarrow> test_message list \<times> comm_state" where
  "report_step e m =
     (let due = cm_next_heartbeat m \<le> ce_now e;
          m1 = report_connect e m
      in case ce_core e (report_request m1) of
           None \<Rightarrow> ([], m1)
         | Some rep \<Rightarrow>
             if reply_status (cr_result rep) \<noteq> 0 then ([], m1)
             else
               let (f1, m2) = report_status e due rep m1;
                   (f2, m3) = report_fault e rep m2;
                   (f3, m4) = report_heartbeat e due rep m3
               in (f1 @ f2 @ f3, m4))"

text \<open>The frame check of \<open>run_comm\<close> before a frame is passed to the core. Sizes in bytes:
  \<open>test_message_t\<close> 104, \<open>railway_full_msg_t\<close> 44, \<open>reply_t\<close> 36.\<close>

definition comm_frame_accepted :: "test_message \<Rightarrow> int \<Rightarrow> int \<Rightarrow> bool" where
  "comm_frame_accepted frame srcmsglen dstmsglen \<longleftrightarrow>
     (let railway = (hdr_type (header frame) = msg_code MSG_RAILWAY_PREEMPT \<or>
                     hdr_type (header frame) = msg_code MSG_TRAIN_CLEAR)
      in dstmsglen = 36 \<and> (srcmsglen = 104 \<or> (railway \<and> srcmsglen = 44)) \<and>
         hdr_dst (header frame) = controller_code CONTROLLER_LOCAL \<and>
         has_nul (hdr_timestamp (header frame)))"

section \<open>Process arguments\<close>

definition service_name_valid :: "string \<Rightarrow> bool" where
  "service_name_valid name \<longleftrightarrow>
     name \<noteq> [] \<and> length name < LOCAL_SERVICE_NAME_MAX \<and>
     (\<forall>c \<in> set name. (CHR ''A'' \<le> c \<and> c \<le> CHR ''Z'') \<or> (CHR ''a'' \<le> c \<and> c \<le> CHR ''z'') \<or>
        (CHR ''0'' \<le> c \<and> c \<le> CHR ''9'') \<or> c = CHR ''_'' \<or> c = CHR ''-'' \<or> c = CHR ''.'')"

definition parse_intersection_id :: "string \<Rightarrow> u8 option" where
  "parse_intersection_id text =
     (if text = [] then None
      else
        let number = (if hd text = CHR ''I'' \<or> hd text = CHR ''i'' then tl text else text)
        in if length number = 1 \<and> CHR ''1'' \<le> hd number \<and> hd number \<le> CHR ''6''
           then Some (word_of_nat (of_char (hd number) - of_char CHR ''1'')) else None)"

definition default_service_name :: "u8 \<Rightarrow> bool \<Rightarrow> string" where
  "default_service_name i explicit_id =
     (if \<not> explicit_id \<and> i = 0 then LOCAL_SERVICE_NAME
      else ''traffic_local_I'' @ show_nat (unat i + 1))"

record local_args =
  la_mode :: connection_mode
  la_intersection :: u8
  la_explicit :: bool
  la_display_all :: bool
  la_service :: "string option"
  la_role :: "string option"

text \<open>The option loop of \<open>main\<close>. \<open>Inl True\<close> is the help exit, \<open>Inl False\<close> a failure.\<close>

fun local_parse_args :: "string list \<Rightarrow> local_args \<Rightarrow> bool + local_args" where
  "local_parse_args [] a = Inr a"
| "local_parse_args (x # xs) a =
     (if x = ''-h'' \<or> x = ''--help'' then Inl True
      else if x = ''-l'' then local_parse_args xs (a\<lparr>la_mode := CONN_MODE_LOCAL\<rparr>)
      else if x = ''-g'' then local_parse_args xs (a\<lparr>la_mode := CONN_MODE_GLOBAL\<rparr>)
      else if x = ''--role'' \<and> xs \<noteq> [] then
        local_parse_args (tl xs) (a\<lparr>la_role := Some (hd xs)\<rparr>)
      else if x = ''--all'' then local_parse_args xs (a\<lparr>la_display_all := True\<rparr>)
      else if (x = ''-i'' \<or> x = ''--intersection'') \<and> xs \<noteq> [] then
        (case parse_intersection_id (hd xs) of
           None \<Rightarrow> Inl False
         | Some i \<Rightarrow> local_parse_args (tl xs) (a\<lparr>la_intersection := i, la_explicit := True\<rparr>))
      else if (x = ''-n'' \<or> x = ''--service'') \<and> xs \<noteq> [] then
        (if service_name_valid (hd xs)
         then local_parse_args (tl xs) (a\<lparr>la_service := Some (hd xs)\<rparr>) else Inl False)
      else Inl False)"

text \<open>The rest of \<open>main\<close>: the role, the consistency check of \<open>--all\<close> and the service name.\<close>

definition local_main ::
  "string list \<Rightarrow> bool + (string \<times> connection_mode \<times> u8 \<times> string \<times> bool)" where
  "local_main args =
     (case local_parse_args args
        \<lparr>la_mode = CONN_MODE_GLOBAL, la_intersection = 0, la_explicit = False,
         la_display_all = False, la_service = None, la_role = None\<rparr> of
        Inl e \<Rightarrow> Inl e
      | Inr a \<Rightarrow>
          if NUM_INTERSECTIONS \<le> unat (la_intersection a) then Inl False
          else
            let role = (case la_role a of
                          Some r \<Rightarrow> r
                        | None \<Rightarrow> if \<not> la_explicit a \<and> la_service a = None then ''launch'' else ''core'')
            in if la_display_all a \<and>
                  ((role \<noteq> ''display'' \<and> role \<noteq> ''ui'') \<or> la_explicit a \<or> la_service a \<noteq> None)
               then Inl False
               else
                 let svc = (case la_service a of
                              Some n \<Rightarrow> copy_text 63 n
                            | None \<Rightarrow> default_service_name (la_intersection a) (la_explicit a));
                     show_all = (la_display_all a \<or>
                                 (role = ''ui'' \<and> \<not> la_explicit a \<and> la_service a = None))
                 in Inr (role, la_mode a, la_intersection a, svc, show_all))"

end
