(* ===== verification/Local_Invariant.thy ===== *)
theory Local_Invariant
  imports Local_Core
begin

text \<open>
  The invariant of a Local controller and its preservation by every operation: the ticks, the
  console inputs and the messages. \<open>local_inv\<close> is split into small predicates over
  the fields they speak about, so that an operation that leaves those fields alone keeps them by
  simplification. Its parts: the lamps are those of the phase; the railway hold and the
  train flags agree; a walk signal is on only in the middle of the green of the other road;
  the cycle plan always adds up to the fixed cycle; the timers stay within their bounds.
\<close>

section \<open>The parts of the invariant\<close>

fun lamps_of :: "phase_t \<Rightarrow> light_state \<times> light_state" where
  "lamps_of PHASE_NS_GREEN = (LIGHT_GREEN, LIGHT_RED)"
| "lamps_of PHASE_NS_YELLOW = (LIGHT_YELLOW, LIGHT_RED)"
| "lamps_of PHASE_EW_GREEN = (LIGHT_RED, LIGHT_GREEN)"
| "lamps_of PHASE_EW_YELLOW = (LIGHT_RED, LIGHT_YELLOW)"
| "lamps_of PHASE_RAILWAY_HOLD = (LIGHT_RED, LIGHT_RED)"

fun is_green :: "phase_t \<Rightarrow> bool" where
  "is_green PHASE_NS_GREEN = True"
| "is_green PHASE_EW_GREEN = True"
| "is_green _ = False"

fun is_yellow :: "phase_t \<Rightarrow> bool" where
  "is_yellow PHASE_NS_YELLOW = True"
| "is_yellow PHASE_EW_YELLOW = True"
| "is_yellow _ = False"

text \<open>The half of the cycle a phase belongs to; \<open>None\<close> is the railway hold.\<close>

fun half_of :: "phase_t \<Rightarrow> direction_t option" where
  "half_of PHASE_NS_GREEN = Some DIR_NS"
| "half_of PHASE_NS_YELLOW = Some DIR_NS"
| "half_of PHASE_EW_GREEN = Some DIR_EW"
| "half_of PHASE_EW_YELLOW = Some DIR_EW"
| "half_of PHASE_RAILWAY_HOLD = None"

definition rail_ok :: "phase_t \<Rightarrow> bool \<Rightarrow> bool \<Rightarrow> int \<Rightarrow> bool" where
  "rail_ok p pending active recovery \<longleftrightarrow>
     (active \<or> 0 < recovery \<longleftrightarrow> p = PHASE_RAILWAY_HOLD) \<and> (pending \<longrightarrow> is_yellow p) \<and>
     \<not> (active \<and> 0 < recovery) \<and> 0 \<le> recovery \<and> recovery \<le> RAILWAY_RECOVERY_SEC"

definition walk_ok :: "phase_t \<Rightarrow> int \<Rightarrow> int \<Rightarrow> bool \<Rightarrow> bool \<Rightarrow> bool" where
  "walk_ok p remaining duration ns ew \<longleftrightarrow>
     (ns \<longrightarrow> p = PHASE_EW_GREEN) \<and> (ew \<longrightarrow> p = PHASE_NS_GREEN) \<and>
     (ns \<or> ew \<longrightarrow> PED_WALK_START_SEC \<le> duration - remaining \<and> PED_WALK_END_SEC < remaining)"

definition plan_ok :: "phase_t \<Rightarrow> phase_t \<Rightarrow> int \<Rightarrow> int \<Rightarrow> int \<Rightarrow> int \<Rightarrow> bool" where
  "plan_ok p initial ns ew xns xew \<longleftrightarrow>
     ns + ew = 2 * GREEN_BASE_SEC \<and> GREEN_MIN_SEC \<le> ns \<and> GREEN_MIN_SEC \<le> ew \<and>
     0 \<le> xns \<and> 0 \<le> xew \<and> xns + xew \<le> GREEN_MAX_SEC - GREEN_MIN_SEC \<and>
     (half_of p \<noteq> Some DIR_EW \<longrightarrow> xns = 0) \<and> (half_of p \<noteq> Some DIR_NS \<longrightarrow> xew = 0) \<and>
     (half_of p = half_of initial \<longrightarrow> ns + xns \<le> GREEN_MAX_SEC \<and> ew + xew \<le> GREEN_MAX_SEC)"

definition time_ok :: "phase_t \<Rightarrow> int \<Rightarrow> int \<Rightarrow> bool" where
  "time_ok p remaining duration \<longleftrightarrow>
     0 \<le> remaining \<and> remaining < 65536 \<and>
     (p \<noteq> PHASE_RAILWAY_HOLD \<longrightarrow>
        1 \<le> remaining \<and> remaining \<le> duration \<and>
        duration \<le> (if is_green p then GREEN_MAX_SEC else YELLOW_SEC))"

text \<open>The part that no lamp operation touches: modes, configuration, simulation, sequences.\<close>

definition base_inv :: "local_state \<Rightarrow> bool" where
  "base_inv s \<longleftrightarrow>
     traffic_mode s \<in> {MODE_FIXED, MODE_SENSOR} \<and> temp_return_mode s \<in> {MODE_FIXED, MODE_SENSOR} \<and>
     0 \<le> temp_mode_remaining s \<and> temp_mode_remaining s < 65536 \<and>
     ns_green_sec s = GREEN_BASE_SEC \<and> ew_green_sec s = GREEN_BASE_SEC \<and> is_green (initial_phase s) \<and>
     is_green (coordination_phase s) \<and> 0 \<le> coordination_offset_sec s \<and>
     coordination_offset_sec s < 44 \<and> unat (intersection_id s) < NUM_INTERSECTIONS \<and>
     0 \<le> sensor_ns_count s \<and> sensor_ns_count s \<le> MAX_SENSOR_CARS \<and>
     0 \<le> sensor_ew_count s \<and> sensor_ew_count s \<le> MAX_SENSOR_CARS \<and>
     0 \<le> sim_seconds s \<and> sim_seconds s < SECONDS_PER_DAY \<and>
     0 \<le> train_pass_remaining s \<and> train_pass_remaining s < 65536 \<and> status_sequence s \<noteq> 0 \<and> fault_sequence s \<noteq> 0"

definition local_inv :: "local_state \<Rightarrow> bool" where
  "local_inv s \<longleftrightarrow>
     base_inv s \<and>
     rail_ok (phase s) (train_pending s) (train_active s) (train_recovery_remaining s) \<and>
     (ns_light s, ew_light s) = lamps_of (phase s) \<and>
     walk_ok (phase s) (time_remaining s) (phase_duration s) (ped_ns_walk s) (ped_ew_walk s) \<and>
     cycle_plan_valid s \<and>
     plan_ok (phase s) (initial_phase s) (cycle_ns_green s) (cycle_ew_green s)
       (ped_extra_ns_green s) (ped_extra_ew_green s) \<and>
     (train_pending s \<longrightarrow> ped_extra_ns_green s = 0 \<and> ped_extra_ew_green s = 0) \<and>
     time_ok (phase s) (time_remaining s) (phase_duration s)"

text \<open>Fields that \<open>base_inv\<close> does not read.\<close>

lemma base_inv_frame [simp]:
  "base_inv (s\<lparr>central_connected := x_central_connected\<rparr>) = base_inv s"
  "base_inv (s\<lparr>train_connected := x_train_connected\<rparr>) = base_inv s"
  "base_inv (s\<lparr>last_recv_central := x_last_recv_central\<rparr>) = base_inv s"
  "base_inv (s\<lparr>last_recv_train := x_last_recv_train\<rparr>) = base_inv s"
  "base_inv (s\<lparr>last_central_update := x_last_central_update\<rparr>) = base_inv s"
  "base_inv (s\<lparr>last_train_update := x_last_train_update\<rparr>) = base_inv s"
  "base_inv (s\<lparr>phase := x_phase\<rparr>) = base_inv s"
  "base_inv (s\<lparr>ns_light := x_ns_light\<rparr>) = base_inv s"
  "base_inv (s\<lparr>ew_light := x_ew_light\<rparr>) = base_inv s"
  "base_inv (s\<lparr>time_remaining := x_time_remaining\<rparr>) = base_inv s"
  "base_inv (s\<lparr>phase_duration := x_phase_duration\<rparr>) = base_inv s"
  "base_inv (s\<lparr>cycle_ns_green := x_cycle_ns_green\<rparr>) = base_inv s"
  "base_inv (s\<lparr>cycle_ew_green := x_cycle_ew_green\<rparr>) = base_inv s"
  "base_inv (s\<lparr>cycle_plan_valid := x_cycle_plan_valid\<rparr>) = base_inv s"
  "base_inv (s\<lparr>next_car_in_seconds := x_next_car_in_seconds\<rparr>) = base_inv s"
  "base_inv (s\<lparr>ped_ns_request := x_ped_ns_request\<rparr>) = base_inv s"
  "base_inv (s\<lparr>ped_ew_request := x_ped_ew_request\<rparr>) = base_inv s"
  "base_inv (s\<lparr>ped_ns_walk := x_ped_ns_walk\<rparr>) = base_inv s"
  "base_inv (s\<lparr>ped_ew_walk := x_ped_ew_walk\<rparr>) = base_inv s"
  "base_inv (s\<lparr>sim_running := x_sim_running\<rparr>) = base_inv s"
  "base_inv (s\<lparr>next_train_in_seconds := x_next_train_in_seconds\<rparr>) = base_inv s"
  "base_inv (s\<lparr>next_train_direction := x_next_train_direction\<rparr>) = base_inv s"
  "base_inv (s\<lparr>train_direction := x_train_direction\<rparr>) = base_inv s"
  "base_inv (s\<lparr>train_waiting_for_clear := x_train_waiting_for_clear\<rparr>) = base_inv s"
  "base_inv (s\<lparr>manual_mode_override := x_manual_mode_override\<rparr>) = base_inv s"
  "base_inv (s\<lparr>manual_sensor_override := x_manual_sensor_override\<rparr>) = base_inv s"
  "base_inv (s\<lparr>temp_return_manual_override := x_temp_return_manual_override\<rparr>) = base_inv s"
  "base_inv (s\<lparr>coordination_pending := x_coordination_pending\<rparr>) = base_inv s"
  "base_inv (s\<lparr>ped_extra_ns_green := x_ped_extra_ns_green\<rparr>) = base_inv s"
  "base_inv (s\<lparr>ped_extra_ew_green := x_ped_extra_ew_green\<rparr>) = base_inv s"
  "base_inv (s\<lparr>fault_active := x_fault_active\<rparr>) = base_inv s"
  "base_inv (s\<lparr>fault_kind := x_fault_kind\<rparr>) = base_inv s"
  "base_inv (s\<lparr>fault_sev := x_fault_sev\<rparr>) = base_inv s"
  "base_inv (s\<lparr>fault_description := x_fault_description\<rparr>) = base_inv s"
  "base_inv (s\<lparr>train_pending := x_train_pending\<rparr>) = base_inv s"
  "base_inv (s\<lparr>train_active := x_train_active\<rparr>) = base_inv s"
  "base_inv (s\<lparr>train_recovery_remaining := x_train_recovery_remaining\<rparr>) = base_inv s"
  "base_inv (s\<lparr>heartbeat_sequence := x_heartbeat_sequence\<rparr>) = base_inv s"
  "base_inv (s\<lparr>last_applied_command_id := x_last_applied_command_id\<rparr>) = base_inv s"
  "base_inv (s\<lparr>rand_pos := x_rand_pos\<rparr>) = base_inv s"
  by (simp_all add: base_inv_def)

lemma base_inv_sequences [simp]:
  "base_inv s \<Longrightarrow> base_inv (s\<lparr>status_sequence := bump_sequence v\<rparr>)"
  "base_inv s \<Longrightarrow> base_inv (s\<lparr>fault_sequence := bump_sequence v\<rparr>)"
  by (simp_all add: base_inv_def)

lemma local_invD:
  assumes "local_inv s"
  shows "base_inv s" and "cycle_plan_valid s"
    and "rail_ok (phase s) (train_pending s) (train_active s) (train_recovery_remaining s)"
    and "(ns_light s, ew_light s) = lamps_of (phase s)"
    and "walk_ok (phase s) (time_remaining s) (phase_duration s) (ped_ns_walk s) (ped_ew_walk s)"
    and "plan_ok (phase s) (initial_phase s) (cycle_ns_green s) (cycle_ew_green s)
           (ped_extra_ns_green s) (ped_extra_ew_green s)"
    and "time_ok (phase s) (time_remaining s) (phase_duration s)"
  using assms by (simp_all add: local_inv_def)

section \<open>Effect of the primitives\<close>

lemma dirty_eq:
  "mark_status_dirty_locked s = s\<lparr>status_sequence := bump_sequence (status_sequence s)\<rparr>"
  by (simp add: mark_status_dirty_locked_def)

lemma local_inv_dirty [simp]: "local_inv s \<Longrightarrow> local_inv (mark_status_dirty_locked s)"
  by (simp add: local_inv_def dirty_eq)

lemma walk_ok_none [simp]: "walk_ok p r d False False"
  by (simp add: walk_ok_def)

lemma set_phase_eq:
  "set_phase_locked p d s =
     (let lamps = (if train_active s \<or> 0 < train_recovery_remaining s
                   then (LIGHT_RED, LIGHT_RED) else lamps_of p)
      in s\<lparr>phase := p, ns_light := fst lamps, ew_light := snd lamps, time_remaining := d,
           phase_duration := d, ped_ns_walk := False, ped_ew_walk := False,
           status_sequence := bump_sequence (status_sequence s)\<rparr>)"
  by (cases p) (simp_all add: set_phase_locked_def update_lights_locked_def
      mark_status_dirty_locked_def)

lemma rail_ok_lamps:
  "rail_ok p pend act rec \<Longrightarrow>
     (if act \<or> 0 < rec then (LIGHT_RED, LIGHT_RED) else lamps_of p) = lamps_of p"
  by (auto simp: rail_ok_def)

lemma set_phase_inv:
  assumes "base_inv s"
    and "rail_ok p (train_pending s) (train_active s) (train_recovery_remaining s)"
    and "cycle_plan_valid s"
    and "plan_ok p (initial_phase s) (cycle_ns_green s) (cycle_ew_green s)
           (ped_extra_ns_green s) (ped_extra_ew_green s)"
    and "train_pending s \<longrightarrow> ped_extra_ns_green s = 0 \<and> ped_extra_ew_green s = 0"
    and "time_ok p d d"
  shows "local_inv (set_phase_locked p d s)"
  using assms by (simp add: set_phase_eq Let_def rail_ok_lamps local_inv_def)

lemma conf_green: "base_inv s \<Longrightarrow> configured_green_time_for_direction d s = 20"
  by (simp add: base_inv_def configured_green_time_for_direction_def clamp_green_time_def)


lemma clamp_id: "GREEN_MIN_SEC \<le> x \<Longrightarrow> x \<le> GREEN_MAX_SEC \<Longrightarrow> clamp_green_time x = x"
  by (simp add: clamp_green_time_def)

lemma clamp_bounds: "GREEN_MIN_SEC \<le> clamp_green_time x \<and> clamp_green_time x \<le> GREEN_MAX_SEC"
  by (simp add: clamp_green_time_def)

lemma clamp_mono: "10 \<le> a \<Longrightarrow> b \<le> 30 \<Longrightarrow> a \<le> x \<and> x \<le> b \<Longrightarrow>
    a \<le> clamp_green_time x \<and> clamp_green_time x \<le> b"
  by (simp add: clamp_green_time_def)

lemma adjust_bounds:
  "x = GREEN_BASE_SEC \<Longrightarrow>
     15 \<le> (if m then if a then x + 5 else if b then x - 5 else if c then x + 5 else if d then x - 5 else x
            else x) \<and>
     (if m then if a then x + 5 else if b then x - 5 else if c then x + 5 else if d then x - 5 else x
            else x) \<le> (25 :: int)"
  by simp

lemma green_bounds:
  "base_inv s \<Longrightarrow> 15 \<le> green_time_for_direction d s \<and> green_time_for_direction d s \<le> 25"
  unfolding green_time_for_direction_def Let_def
  by (rule clamp_mono; (rule adjust_bounds)?) (simp_all add: conf_green)

fun green_of :: "direction_t \<Rightarrow> phase_t" where
  "green_of DIR_NS = PHASE_NS_GREEN"
| "green_of DIR_EW = PHASE_EW_GREEN"

lemma is_green_cases: "is_green p \<longleftrightarrow> (\<exists>d. p = green_of d)"
proof
  show "is_green p \<Longrightarrow> \<exists>d. p = green_of d"
    by (cases p) (auto intro: exI [of _ DIR_NS] exI [of _ DIR_EW])
  show "\<exists>d. p = green_of d \<Longrightarrow> is_green p"
    by (metis green_of.simps direction_t.exhaust is_green.simps(1,2))
qed

text \<open>Starting a green on a state whose saved-up seconds fit: the clamp does not bind.\<close>

definition plan_ns :: "local_state \<Rightarrow> int" where
  "plan_ns s = cycle_ns_green (local_plan_cycle_locked s)"

lemma plan_bounds:
  assumes "base_inv s" and "0 \<le> ped_extra_ns_green s" "0 \<le> ped_extra_ew_green s"
    "ped_extra_ns_green s + ped_extra_ew_green s \<le> 20"
  shows "10 + ped_extra_ew_green s \<le> plan_ns s \<and> plan_ns s \<le> 30 - ped_extra_ns_green s"
  using green_bounds [OF assms(1), of DIR_NS] assms(2-)
  by (simp add: plan_ns_def local_plan_cycle_locked_def Let_def)

lemma plan_eq: "local_plan_cycle_locked s =
   s\<lparr>cycle_ns_green := plan_ns s, cycle_ew_green := 40 - plan_ns s, cycle_plan_valid := True\<rparr>"
  by (simp add: plan_ns_def local_plan_cycle_locked_def Let_def)


text \<open>The cycle plan after the start of a green in direction \<open>d\<close>: replanned at the start of the
  initial phase, kept otherwise, with the saved-up seconds of \<open>d\<close> spent.\<close>

lemma start_green_eq:
  assumes "cycle_plan_valid s"
  shows "start_green (green_of d) d s =
    (let ns = (if green_of d = initial_phase s then plan_ns s else cycle_ns_green s);
         ew = (if green_of d = initial_phase s then 40 - plan_ns s else cycle_ew_green s)
     in set_phase_locked (green_of d)
          (clamp_green_time (if d = DIR_NS then ns + ped_extra_ns_green s else ew + ped_extra_ew_green s))
          (s\<lparr>cycle_ns_green := ns, cycle_ew_green := ew, cycle_plan_valid := True,
             ped_extra_ns_green := (if d = DIR_NS then 0 else ped_extra_ns_green s),
             ped_extra_ew_green := (if d = DIR_NS then ped_extra_ew_green s else 0)\<rparr>))"
  using assms
  by (cases s; cases d) (simp_all add: start_green_def next_green_time_for_direction_def plan_eq Let_def)

lemma start_green_inv:
  assumes base: "base_inv s" and valid: "cycle_plan_valid s"
    and rail: "rail_ok (green_of d) (train_pending s) (train_active s) (train_recovery_remaining s)"
    and plan: "plan_ok p (initial_phase s) (cycle_ns_green s) (cycle_ew_green s)
           (ped_extra_ns_green s) (ped_extra_ew_green s)"
    and half: "green_of d = initial_phase s \<or> half_of p = half_of (initial_phase s)"
  shows "local_inv (start_green (green_of d) d s)"
proof -
  let ?new = "green_of d = initial_phase s"
  let ?ns = "if ?new then plan_ns s else cycle_ns_green s"
  let ?ew = "if ?new then 40 - plan_ns s else cycle_ew_green s"
  have pb: "10 + ped_extra_ew_green s \<le> plan_ns s \<and> plan_ns s \<le> 30 - ped_extra_ns_green s"
    by (rule plan_bounds [OF base]) (use plan in \<open>simp_all add: plan_ok_def\<close>)
  have "plan_ok (green_of d) (initial_phase s) ?ns ?ew
          (if d = DIR_NS then 0 else ped_extra_ns_green s)
          (if d = DIR_NS then ped_extra_ew_green s else 0)"
    using plan pb half by (cases d; cases ?new; cases p) (auto simp: plan_ok_def)
  moreover have "time_ok (green_of d) (clamp_green_time x) (clamp_green_time x)" for x
    using clamp_bounds [of x] by (cases d) (auto simp: time_ok_def)
  ultimately show ?thesis
    unfolding start_green_eq [OF valid] Let_def
    using base valid rail
    by (intro set_phase_inv; cases d) (simp_all add: rail_ok_def)
qed

lemma lamps_not_both_green: "lamps_of p \<noteq> (LIGHT_GREEN, LIGHT_GREEN)"
  by (cases p) auto

lemma update_lights_id:
  assumes "rail_ok (phase s) (train_pending s) (train_active s) (train_recovery_remaining s)"
    and "(ns_light s, ew_light s) = lamps_of (phase s)"
    and "walk_ok (phase s) r d (ped_ns_walk s) (ped_ew_walk s)"
  shows "update_lights_locked s = s"
  using assms by (cases "phase s"; cases s)
    (auto simp: update_lights_locked_def rail_ok_def walk_ok_def)

section \<open>Coordination\<close>

text \<open>Phase and remaining time at a given offset of the fixed cycle that starts with \<open>base\<close>.\<close>

definition coordination_schedule :: "phase_t \<Rightarrow> int \<Rightarrow> phase_t \<times> int" where
  "coordination_schedule base offset =
     (let other = (if base = PHASE_NS_GREEN then DIR_EW else DIR_NS) in
      if offset < 20 then (base, 20 - offset)
      else if offset < 22 then
        (if base = PHASE_NS_GREEN then PHASE_NS_YELLOW else PHASE_EW_YELLOW, 22 - offset)
      else if offset < 42 then (green_of other, 42 - offset)
      else (if base = PHASE_NS_GREEN then PHASE_EW_YELLOW else PHASE_NS_YELLOW, 44 - offset))"

lemma set_coordination_eq:
  assumes "base_inv s" "0 \<le> offset" "offset < 44"
  shows "set_coordination_phase_locked base offset s =
     (let (p, d) = coordination_schedule base offset
      in set_phase_locked p d
           (s\<lparr>ped_extra_ns_green := 0, ped_extra_ew_green := 0, cycle_ns_green := 20,
              cycle_ew_green := 20, cycle_plan_valid := True\<rparr>))"
proof -
  have "configured_green_time_for_direction d
          (s\<lparr>ped_extra_ns_green := a, ped_extra_ew_green := b\<rparr>) = 20" for d a b
    using assms by (intro conf_green) simp
  moreover have "configured_green_time_for_direction d
      (s\<lparr>ped_extra_ns_green := a, ped_extra_ew_green := b, cycle_ns_green := c,
         cycle_ew_green := e, cycle_plan_valid := f\<rparr>) = 20" for d a b c e f
    using assms by (intro conf_green) simp
  ultimately show ?thesis using assms
    by (simp add: set_coordination_phase_locked_def coordination_schedule_def Let_def c_mod_nonneg)
qed

lemma plan_ok_fresh: "plan_ok p i 20 20 0 0"
  by (simp add: plan_ok_def)

lemma schedule_time:
  "is_green base \<Longrightarrow> 0 \<le> offset \<Longrightarrow> offset < 44 \<Longrightarrow> coordination_schedule base offset = (p, d) \<Longrightarrow>
     time_ok p d d \<and> p \<noteq> PHASE_RAILWAY_HOLD"
  by (cases base) (auto simp: coordination_schedule_def time_ok_def split: if_splits)

lemma time_ok_tick: "time_ok p r d \<Longrightarrow> 1 < r \<Longrightarrow> time_ok p (r - 1) d"
  by (auto simp: time_ok_def)

lemma rail_ok_idle:
  "rail_ok p False False r \<longleftrightarrow> (0 < r \<longleftrightarrow> p = PHASE_RAILWAY_HOLD) \<and> 0 \<le> r \<and> r \<le> 2"
  by (auto simp: rail_ok_def)

lemma set_coordination_inv:
  assumes "base_inv s" "is_green base" "0 \<le> offset" "offset < 44"
    and "\<not> train_pending s" "\<not> train_active s" "train_recovery_remaining s = 0"
  shows "local_inv (set_coordination_phase_locked base offset s)"
proof -
  obtain p d where pd: "coordination_schedule base offset = (p, d)" by fastforce
  show ?thesis
    using assms schedule_time [OF assms(2-4) pd]
    by (auto simp: set_coordination_eq [OF assms(1,3,4)] pd rail_ok_idle plan_ok_fresh
        intro!: set_phase_inv)
qed

section \<open>The tick\<close>

lemma count_down_eq:
  "0 < time_remaining s \<Longrightarrow> count_down s = s\<lparr>time_remaining := time_remaining s - 1\<rparr>"
  by (simp add: count_down_def)

lemma local_inv_timer:
  assumes "local_inv s" and "phase s \<noteq> PHASE_RAILWAY_HOLD" and "1 < time_remaining s"
  shows "local_inv (update_pedestrian_locked (s\<lparr>time_remaining := time_remaining s - 1\<rparr>))"
proof -
  have nt: "\<not> train_active s" "\<not> 0 < train_recovery_remaining s"
    using assms by (auto simp: local_inv_def rail_ok_def)
  show ?thesis using assms nt
    by (cases "phase s")
      (auto simp: local_inv_def update_pedestrian_locked_def pedestrian_service_phase_def
        walk_ok_def time_ok_def Let_def)
qed

lemma update_pedestrian_ex:
  obtains a b c d where "update_pedestrian_locked s =
     s\<lparr>ped_ns_request := a, ped_ew_request := b, ped_ns_walk := c, ped_ew_walk := d\<rparr>"
proof
  show "update_pedestrian_locked s =
     s\<lparr>ped_ns_request := ped_ns_request (update_pedestrian_locked s),
       ped_ew_request := ped_ew_request (update_pedestrian_locked s),
       ped_ns_walk := ped_ns_walk (update_pedestrian_locked s),
       ped_ew_walk := ped_ew_walk (update_pedestrian_locked s)\<rparr>"
    by (cases s) (simp add: update_pedestrian_locked_def Let_def)
qed

lemma advance_inv:
  assumes base: "base_inv s" and valid: "cycle_plan_valid s"
    and idle: "\<not> train_pending s" "\<not> train_active s" "train_recovery_remaining s = 0"
    and move: "phase s \<noteq> PHASE_RAILWAY_HOLD"
    and plan: "plan_ok (phase s) (initial_phase s) (cycle_ns_green s) (cycle_ew_green s)
         (ped_extra_ns_green s) (ped_extra_ew_green s)"
  shows "local_inv (advance_phase_locked s)"
proof (cases "coordination_pending s \<and> is_yellow (phase s)")
  case True
  then have "advance_phase_locked s =
      (set_coordination_phase_locked (coordination_phase s) (coordination_offset_sec s) s)
        \<lparr>coordination_pending := False\<rparr>"
    by (cases "phase s") (auto simp: advance_phase_locked_def)
  moreover have "local_inv (set_coordination_phase_locked (coordination_phase s) (coordination_offset_sec s) s)"
    by (rule set_coordination_inv) (use base idle in \<open>simp_all add: base_inv_def\<close>)
  ultimately show ?thesis by (simp add: local_inv_def)
next
  case False
  have g: "is_green (initial_phase s)" using base by (simp add: base_inv_def)
  have sg: "local_inv (start_green (green_of d) d s)"
    if "half_of (phase s) \<noteq> Some d" for d
    by (rule start_green_inv [OF base valid _ plan])
      (use idle g that move in \<open>cases d; cases "phase s"; cases "initial_phase s"; simp add: rail_ok_idle\<close>)+
  have sy: "local_inv (set_phase_locked p 2 s)"
    if "is_yellow p" "half_of p = half_of (phase s)" for p
    by (rule set_phase_inv [OF base _ valid])
      (use idle that plan in \<open>cases p; simp add: rail_ok_idle plan_ok_def time_ok_def\<close>)+
  show ?thesis
    using False move sg [of DIR_NS] sg [of DIR_EW] sy
    by (cases "phase s") (auto simp: advance_phase_locked_def)
qed

lemma tick_normal_inv:
  assumes inv: "local_inv s" and idle: "\<not> train_pending s" "\<not> train_active s"
    "\<not> 0 < train_recovery_remaining s"
  shows "local_inv (tick_normal s)"
proof -
  have ph: "phase s \<noteq> PHASE_RAILWAY_HOLD" and pos: "0 < time_remaining s"
    and rec: "train_recovery_remaining s = 0"
    using inv idle by (auto simp: local_inv_def rail_ok_def time_ok_def)
  let ?c = "s\<lparr>time_remaining := time_remaining s - 1\<rparr>"
  have lights: "update_lights_locked ?c = ?c"
    by (rule update_lights_id [where r = "time_remaining s" and d = "phase_duration s"])
      (use inv in \<open>simp_all add: local_inv_def\<close>)
  have tick: "tick_normal s = (let s1 = update_pedestrian_locked ?c
      in if time_remaining s1 \<le> 0 then advance_phase_locked s1 else s1)"
    using pos by (simp add: tick_normal_def count_down_def lights)
  let ?u = "update_pedestrian_locked ?c"
  obtain a b c d where u: "?u = ?c\<lparr>ped_ns_request := a, ped_ew_request := b,
      ped_ns_walk := c, ped_ew_walk := d\<rparr>"
    by (rule update_pedestrian_ex)
  show ?thesis
  proof (cases "time_remaining s = 1")
    case True
    then have "tick_normal s = advance_phase_locked ?u" using u by (simp add: tick Let_def)
    moreover have "local_inv (advance_phase_locked ?u)"
      by (rule advance_inv) (use inv idle rec ph in \<open>simp_all add: u local_inv_def\<close>)
    ultimately show ?thesis by simp
  next
    case False
    then have "local_inv ?u" using inv ph pos by (intro local_inv_timer) auto
    then show ?thesis using False pos u by (simp add: tick Let_def)
  qed
qed

lemma draw_next_train_ex:
  obtains g d n where "draw_next_train s =
     s\<lparr>next_train_in_seconds := g, next_train_direction := d, rand_pos := n\<rparr>"
proof
  show "draw_next_train s =
     s\<lparr>next_train_in_seconds := next_train_in_seconds (draw_next_train s),
       next_train_direction := next_train_direction (draw_next_train s),
       rand_pos := rand_pos (draw_next_train s)\<rparr>"
    by (cases s) (simp add: draw_next_train_def random_train_gap_seconds_def
        random_train_direction_def rand_c_def Let_def)
qed

lemma draw_next_car_ex:
  obtains g n where "draw_next_car s = s\<lparr>next_car_in_seconds := g, rand_pos := n\<rparr>"
proof
  show "draw_next_car s = s\<lparr>next_car_in_seconds := next_car_in_seconds (draw_next_car s),
      rand_pos := rand_pos (draw_next_car s)\<rparr>"
    by (cases s) (simp add: draw_next_car_def random_car_gap_seconds_def rand_c_def Let_def)
qed


text \<open>Entering the railway hold, for a train or for the recovery after it.\<close>

lemma hold_inv:
  assumes base: "base_inv s" and valid: "cycle_plan_valid s"
    and cycles: "cycle_ns_green s + cycle_ew_green s = 40" "10 \<le> cycle_ns_green s" "10 \<le> cycle_ew_green s"
    and extras: "ped_extra_ns_green s = 0" "ped_extra_ew_green s = 0"
    and rail: "rail_ok PHASE_RAILWAY_HOLD (train_pending s) (train_active s) (train_recovery_remaining s)"
    and "0 \<le> d" "d < 65536"
  shows "local_inv (set_phase_locked PHASE_RAILWAY_HOLD d s)"
  using assms by (intro set_phase_inv) (simp_all add: plan_ok_def time_ok_def)

lemma base_inv_pass: "base_inv s \<Longrightarrow> 0 \<le> n \<Longrightarrow> n < 65536 \<Longrightarrow> base_inv (s\<lparr>train_pass_remaining := n\<rparr>)"
  by (simp add: base_inv_def)

lemma plan_okD:
  "plan_ok p i ns ew xns xew \<Longrightarrow> ns + ew = 40 \<and> 10 \<le> ns \<and> 10 \<le> ew"
  by (simp add: plan_ok_def)

lemma tick_pending_inv:
  assumes inv: "local_inv s" and pend: "train_pending s"
  shows "local_inv (tick_pending s)"
proof -
  have y: "is_yellow (phase s)" and idle: "\<not> train_active s" "train_recovery_remaining s = 0"
    and pos: "0 < time_remaining s" 
    using inv pend by (cases "phase s"; auto simp: local_inv_def rail_ok_def time_ok_def)+
  have nw: "\<not> ped_ns_walk s" "\<not> ped_ew_walk s"
    using inv y by (auto simp: local_inv_def walk_ok_def)
  let ?c = "s\<lparr>time_remaining := time_remaining s - 1\<rparr>"
  have lights: "update_lights_locked ?c = ?c"
    by (rule update_lights_id [where r = "time_remaining s" and d = "phase_duration s"])
      (use inv in \<open>simp_all add: local_inv_def\<close>)
  have eq: "tick_pending s =
     (if time_remaining s = 1
      then set_phase_locked PHASE_RAILWAY_HOLD 0 (?c\<lparr>train_pending := False, train_active := True\<rparr>)
      else ?c)"
    using pos by (simp add: tick_pending_def count_down_eq lights Let_def)
  show ?thesis
  proof (cases "time_remaining s = 1")
    case True
    then have "tick_pending s = set_phase_locked PHASE_RAILWAY_HOLD 0
        (?c\<lparr>train_pending := False, train_active := True\<rparr>)"
      by (simp add: eq)
    moreover have "local_inv \<dots>"
      by (rule hold_inv) (use inv pend idle in
        \<open>auto simp: local_inv_def rail_ok_def dest!: plan_okD\<close>)
    ultimately show ?thesis by simp
  next
    case False
    with pos inv show ?thesis
      by (simp add: eq local_inv_def time_ok_tick nw)
  qed
qed

lemma clear_train_inv:
  assumes inv: "local_inv s"
  shows "local_inv (clear_train_locked s)"
proof (cases "train_active s \<or> train_pending s")
  case True
  have "local_inv (set_phase_locked PHASE_RAILWAY_HOLD RAILWAY_RECOVERY_SEC
      (s\<lparr>train_pending := False, train_active := False, train_direction := 0,
         train_pass_remaining := 0, train_waiting_for_clear := False,
         train_recovery_remaining := RAILWAY_RECOVERY_SEC,
         ped_extra_ns_green := 0, ped_extra_ew_green := 0\<rparr>))"
    by (rule hold_inv)
      (use local_invD [OF inv] in \<open>auto simp: base_inv_pass rail_ok_idle dest!: plan_okD\<close>)
  with True show ?thesis by (auto simp: clear_train_locked_def)
qed (use inv in \<open>simp add: clear_train_locked_def\<close>)

lemma tick_active_inv:
  assumes inv: "local_inv s" and act: "train_active s"
  shows "local_inv (tick_active s)"
proof -
  have rail: "phase s = PHASE_RAILWAY_HOLD" "train_recovery_remaining s = 0" "\<not> train_pending s"
    using inv act by (auto simp: local_inv_def rail_ok_def)
  have nw: "\<not> ped_ns_walk s" "\<not> ped_ew_walk s"
    using inv rail by (auto simp: local_inv_def walk_ok_def)
  obtain n where c: "count_train s = s\<lparr>train_pass_remaining := n\<rparr>" and n: "0 \<le> n" "n < 65536"
  proof
    show "count_train s = s\<lparr>train_pass_remaining := train_pass_remaining (count_train s)\<rparr>"
      by (cases s) (simp add: count_train_def)
    show "0 \<le> train_pass_remaining (count_train s)" "train_pass_remaining (count_train s) < 65536"
      using inv by (simp_all add: count_train_def local_inv_def base_inv_def)
  qed
  show ?thesis
  proof (cases "train_waiting_for_clear s")
    case True
    then show ?thesis
      using inv act rail n nw
      by (simp add: tick_active_def c Let_def update_lights_locked_def local_inv_def dirty_eq
          base_inv_pass time_ok_def)
  next
    case False
    have i: "local_inv (s\<lparr>train_pass_remaining := n\<rparr>)"
      using inv n by (simp add: local_inv_def base_inv_pass)
    have "local_inv (set_phase_locked PHASE_RAILWAY_HOLD n (s\<lparr>train_pass_remaining := n\<rparr>))"
      by (rule hold_inv) (use local_invD [OF inv] act rail n in
        \<open>auto simp: base_inv_pass rail_ok_def plan_ok_def\<close>)
    with False clear_train_inv [OF i] show ?thesis by (simp add: tick_active_def c Let_def)
  qed
qed

lemma set_initial_phase_inv:
  assumes base: "base_inv s" and valid: "cycle_plan_valid s"
    and cycles: "cycle_ns_green s + cycle_ew_green s = 40" "10 \<le> cycle_ns_green s" "10 \<le> cycle_ew_green s"
    and extras: "ped_extra_ns_green s = 0" "ped_extra_ew_green s = 0"
    and idle: "\<not> train_pending s" "\<not> train_active s" "train_recovery_remaining s = 0"
  shows "local_inv (set_initial_phase_locked s)"
proof -
  obtain d where d: "initial_phase s = green_of d"
    using base by (auto simp: base_inv_def is_green_cases)
  then have "set_initial_phase_locked s = start_green (green_of d) d s"
    by (cases d) (simp_all add: set_initial_phase_locked_def)
  moreover have "local_inv \<dots>"
    by (rule start_green_inv [OF base valid, where p = PHASE_RAILWAY_HOLD])
      (use cycles extras idle d in \<open>cases d; simp add: rail_ok_idle plan_ok_def\<close>)+
  ultimately show ?thesis by simp
qed

lemma tick_recovery_inv:
  assumes inv: "local_inv s" and rec: "0 < train_recovery_remaining s"
  shows "local_inv (tick_recovery s)"
proof -
  have rail: "phase s = PHASE_RAILWAY_HOLD" "\<not> train_active s" "\<not> train_pending s"
    "train_recovery_remaining s \<le> 2"
    using inv rec by (auto simp: local_inv_def rail_ok_def)
  let ?r = "train_recovery_remaining s - 1"
  let ?s2 = "s\<lparr>train_recovery_remaining := ?r, phase := PHASE_RAILWAY_HOLD, time_remaining := ?r,
     ns_light := LIGHT_RED, ew_light := LIGHT_RED, ped_ns_walk := False, ped_ew_walk := False\<rparr>"
  obtain g d n where dr: "draw_next_train ?s2 =
     ?s2\<lparr>next_train_in_seconds := g, next_train_direction := d, rand_pos := n\<rparr>"
    by (rule draw_next_train_ex)
  have a: "local_inv (set_initial_phase_locked ?s2) \<and> local_inv (set_initial_phase_locked (draw_next_train ?s2))" if "?r = 0"
    unfolding dr
    by (intro conjI set_initial_phase_inv)
     (use inv rail rec that in \<open>auto simp: local_inv_def plan_ok_def\<close>)
  have "local_inv ?s2" if "?r \<noteq> 0"
    using inv rail rec that by (auto simp: local_inv_def rail_ok_def time_ok_def)
  moreover have "tick_recovery s =
      (if ?r = 0 then set_initial_phase_locked
          (if sim_running s \<and> \<not> train_connected s then draw_next_train ?s2 else ?s2) else ?s2)"
    by (simp add: tick_recovery_def Let_def update_lights_locked_def)
  ultimately show ?thesis using a by (cases "?r = 0") auto
qed

lemma traffic_tick_inv:
  assumes inv: "local_inv s"
  shows "local_inv (traffic_tick_locked s)"
proof -
  have "\<not> (ns_light s = LIGHT_GREEN \<and> ew_light s = LIGHT_GREEN)"
    using local_invD(4) [OF inv] lamps_not_both_green by metis
  moreover have "traffic_mode s \<noteq> MODE_FAILSAFE"
    using inv by (auto simp: local_inv_def base_inv_def)
  ultimately show ?thesis
    using inv by (auto simp: traffic_tick_locked_def intro: tick_pending_inv tick_active_inv
        tick_recovery_inv tick_normal_inv)
qed

section \<open>Pedestrian requests\<close>


lemma plan_ok_cap:
  assumes "plan_ok p i ns ew xns xew" and "p = green_of (if d = DIR_NS then DIR_EW else DIR_NS)"
    and "is_green i" and "0 \<le> r"
    and "r \<le> (if p = i then 30 - (if d = DIR_NS then ns else ew) - (if d = DIR_NS then xns else xew) else 20 - xns - xew)"
  shows "plan_ok p i ns ew (xns + (if d = DIR_NS then r else 0)) (xew + (if d = DIR_NS then 0 else r))"
  using assms by (cases d; cases i) (auto simp: plan_ok_def)

lemma cap_green_inv:
  assumes inv: "local_inv s"
  shows "local_inv (cap_green_for_pedestrian_locked d s)"
proof (cases "\<not> pedestrian_service_phase (phase s) d \<or> time_remaining s \<le> 10")
  case True
  with inv show ?thesis by (auto simp: cap_green_for_pedestrian_locked_def)
next
  case False
  let ?cap = "if phase s = initial_phase s
     then 30 - (if d = DIR_NS then cycle_ns_green s else cycle_ew_green s) -
          (if d = DIR_NS then ped_extra_ns_green s else ped_extra_ew_green s)
     else 20 - ped_extra_ns_green s - ped_extra_ew_green s"
  let ?rm = "min (time_remaining s - 10) (max ?cap 0)"
  note parts = local_invD [OF inv]
  have ph: "phase s = green_of (if d = DIR_NS then DIR_EW else DIR_NS)"
    using False by (cases d) (auto simp: pedestrian_service_phase_def)
  have cap: "0 \<le> ?cap" using parts(6) ph by (cases d) (auto simp: plan_ok_def)
  have rm: "0 \<le> ?rm" "?rm \<le> time_remaining s - 10" "?rm \<le> ?cap" using False cap by auto
  obtain r where r: "r = ?rm" by simp
  have eq: "cap_green_for_pedestrian_locked d s =
     s\<lparr>time_remaining := time_remaining s - r, phase_duration := phase_duration s - r,
       ped_extra_ns_green := ped_extra_ns_green s + (if d = DIR_NS then r else 0),
       ped_extra_ew_green := ped_extra_ew_green s + (if d = DIR_NS then 0 else r)\<rparr>"
    using False parts(2) unfolding r by (cases s; cases d)
      (simp_all add: cap_green_for_pedestrian_locked_def Let_def min_def max_def)
  have "plan_ok (phase s) (initial_phase s) (cycle_ns_green s) (cycle_ew_green s)
       (ped_extra_ns_green s + (if d = DIR_NS then r else 0))
       (ped_extra_ew_green s + (if d = DIR_NS then 0 else r))"
    using parts(1) rm by (intro plan_ok_cap [OF parts(6) ph]) (simp_all only: r base_inv_def)
  moreover have "walk_ok (phase s) (time_remaining s - r) (phase_duration s - r) (ped_ns_walk s) (ped_ew_walk s)"
    using parts(5) rm unfolding r [symmetric] by (auto simp: walk_ok_def)
  moreover have "time_ok (phase s) (time_remaining s - r) (phase_duration s - r)"
    using parts(7) rm unfolding r [symmetric] by (auto simp: time_ok_def)
  moreover have "\<not> train_pending s" using parts(3) ph by (cases d) (auto simp: rail_ok_def)
  ultimately show ?thesis using parts by (simp add: eq local_inv_def)
qed

lemma add_pedestrian_inv: "local_inv s \<Longrightarrow> local_inv (add_pedestrian_request_locked d s)"
proof -
  assume inv: "local_inv s"
  then have "local_inv (s\<lparr>ped_ns_request := b\<rparr>)" "local_inv (s\<lparr>ped_ew_request := b\<rparr>)" for b
    by (simp_all add: local_inv_def)
  then show ?thesis by (simp add: add_pedestrian_request_locked_def Let_def cap_green_inv)
qed

section \<open>Trains\<close>

lemma start_train_common_inv:
  assumes inv: "local_inv s" and eta: "0 \<le> eta" "eta < 65536"
  shows "local_inv (start_train_common_locked dir w eta s)"
proof (cases "train_active s \<or> train_pending s")
  case True
  with inv show ?thesis by (auto simp: start_train_common_locked_def)
next
  case False
  note parts = local_invD [OF inv]
  let ?s1 = "s\<lparr>train_pending := True, train_direction := dir,
      train_pass_remaining := (if w then eta else TRAIN_PASSING_SECONDS),
      train_waiting_for_clear := w, train_recovery_remaining := 0,
      next_train_in_seconds := 0, ped_extra_ns_green := 0, ped_extra_ew_green := 0\<rparr>"
  have plan: "plan_ok p (initial_phase s) (cycle_ns_green s) (cycle_ew_green s) 0 0" for p
    using plan_okD [OF parts(6)] by (simp add: plan_ok_def)
  have base: "base_inv ?s1" using parts(1) eta by (simp add: base_inv_pass)
  have y: "local_inv (set_phase_locked p 2 ?s1)" if "is_yellow p" for p
    using that False parts(2) base plan
    by (intro set_phase_inv; cases p) (auto simp: rail_ok_def time_ok_def)
  have h: "local_inv (set_phase_locked PHASE_RAILWAY_HOLD 0
      (?s1\<lparr>train_pending := False, train_active := True\<rparr>))"
    using parts(1,2) eta plan_okD [OF parts(6)]
    by (intro hold_inv) (auto simp: rail_ok_def base_inv_pass)
  have k: "local_inv ?s1" if "is_yellow (phase s)"
    using that parts base plan False
    by (cases "phase s") (auto simp: local_inv_def rail_ok_def walk_ok_def)
  show ?thesis using False y h k
    by (cases "phase s") (simp_all add: start_train_common_locked_def Let_def)
qed

lemma start_train_inv: "local_inv s \<Longrightarrow> local_inv (start_train_locked d s)"
  by (simp add: start_train_locked_def start_train_common_inv)

lemma start_train_message_inv:
  assumes inv: "local_inv s" and eta: "eta < 65536"
  shows "local_inv (start_train_message_locked d eta s)"
proof -
  let ?eta = "if eta < 0 then 0 else eta"
  let ?s1 = "s\<lparr>train_direction := d, train_waiting_for_clear := True,
      train_pass_remaining := ?eta, next_train_in_seconds := 0\<rparr>"
  note parts = local_invD [OF inv]
  have i: "local_inv ?s1" using inv eta by (simp add: local_inv_def base_inv_pass)
  have "local_inv (set_phase_locked PHASE_RAILWAY_HOLD 0 ?s1)" if "train_active s"
    using that parts eta by (intro hold_inv) (auto simp: base_inv_pass rail_ok_def plan_ok_def)
  with i inv eta show ?thesis
    by (auto simp: start_train_message_locked_def Let_def start_train_common_inv)
qed

section \<open>Simulation, inputs and messages\<close>

text \<open>Fields that the invariant does not read.\<close>

lemma local_inv_frame [simp]:
  "local_inv (s\<lparr>central_connected := x_central_connected\<rparr>) = local_inv s"
  "local_inv (s\<lparr>train_connected := x_train_connected\<rparr>) = local_inv s"
  "local_inv (s\<lparr>last_recv_central := x_last_recv_central\<rparr>) = local_inv s"
  "local_inv (s\<lparr>last_recv_train := x_last_recv_train\<rparr>) = local_inv s"
  "local_inv (s\<lparr>last_central_update := x_last_central_update\<rparr>) = local_inv s"
  "local_inv (s\<lparr>last_train_update := x_last_train_update\<rparr>) = local_inv s"
  "local_inv (s\<lparr>next_car_in_seconds := x_next_car_in_seconds\<rparr>) = local_inv s"
  "local_inv (s\<lparr>ped_ns_request := x_ped_ns_request\<rparr>) = local_inv s"
  "local_inv (s\<lparr>ped_ew_request := x_ped_ew_request\<rparr>) = local_inv s"
  "local_inv (s\<lparr>sim_running := x_sim_running\<rparr>) = local_inv s"
  "local_inv (s\<lparr>next_train_in_seconds := x_next_train_in_seconds\<rparr>) = local_inv s"
  "local_inv (s\<lparr>next_train_direction := x_next_train_direction\<rparr>) = local_inv s"
  "local_inv (s\<lparr>train_direction := x_train_direction\<rparr>) = local_inv s"
  "local_inv (s\<lparr>train_waiting_for_clear := x_train_waiting_for_clear\<rparr>) = local_inv s"
  "local_inv (s\<lparr>manual_mode_override := x_manual_mode_override\<rparr>) = local_inv s"
  "local_inv (s\<lparr>manual_sensor_override := x_manual_sensor_override\<rparr>) = local_inv s"
  "local_inv (s\<lparr>temp_return_manual_override := x_temp_return_manual_override\<rparr>) = local_inv s"
  "local_inv (s\<lparr>coordination_pending := x_coordination_pending\<rparr>) = local_inv s"
  "local_inv (s\<lparr>fault_active := x_fault_active\<rparr>) = local_inv s"
  "local_inv (s\<lparr>fault_kind := x_fault_kind\<rparr>) = local_inv s"
  "local_inv (s\<lparr>fault_sev := x_fault_sev\<rparr>) = local_inv s"
  "local_inv (s\<lparr>fault_description := x_fault_description\<rparr>) = local_inv s"
  "local_inv (s\<lparr>heartbeat_sequence := x_heartbeat_sequence\<rparr>) = local_inv s"
  "local_inv (s\<lparr>last_applied_command_id := x_last_applied_command_id\<rparr>) = local_inv s"
  "local_inv (s\<lparr>rand_pos := x_rand_pos\<rparr>) = local_inv s"
  by (simp_all add: local_inv_def)

lemma local_inv_fields:
  assumes "local_inv s"
  shows "m \<in> {MODE_FIXED, MODE_SENSOR} \<Longrightarrow> local_inv (s\<lparr>traffic_mode := m\<rparr>)"
    and "m \<in> {MODE_FIXED, MODE_SENSOR} \<Longrightarrow> local_inv (s\<lparr>temp_return_mode := m\<rparr>)"
    and "0 \<le> i \<Longrightarrow> i < 65536 \<Longrightarrow> local_inv (s\<lparr>temp_mode_remaining := i\<rparr>)"
    and "0 \<le> i \<Longrightarrow> i \<le> MAX_SENSOR_CARS \<Longrightarrow> local_inv (s\<lparr>sensor_ns_count := i\<rparr>)"
    and "0 \<le> i \<Longrightarrow> i \<le> MAX_SENSOR_CARS \<Longrightarrow> local_inv (s\<lparr>sensor_ew_count := i\<rparr>)"
    and "0 \<le> i \<Longrightarrow> i < SECONDS_PER_DAY \<Longrightarrow> local_inv (s\<lparr>sim_seconds := i\<rparr>)"
    and "is_green p \<Longrightarrow> local_inv (s\<lparr>coordination_phase := p\<rparr>)"
    and "0 \<le> i \<Longrightarrow> i < 44 \<Longrightarrow> local_inv (s\<lparr>coordination_offset_sec := i\<rparr>)"
    and "local_inv (s\<lparr>status_sequence := bump_sequence v\<rparr>)"
    and "local_inv (s\<lparr>fault_sequence := bump_sequence v\<rparr>)"
  using assms by (simp_all add: local_inv_def base_inv_def)

lemma local_inv_baseD:
  assumes "local_inv s"
  shows "traffic_mode s \<in> {MODE_FIXED, MODE_SENSOR}" "temp_return_mode s \<in> {MODE_FIXED, MODE_SENSOR}"
    and "0 \<le> temp_mode_remaining s" "temp_mode_remaining s < 65536"
    and "0 \<le> sensor_ns_count s" "sensor_ns_count s \<le> MAX_SENSOR_CARS"
    and "0 \<le> sensor_ew_count s" "sensor_ew_count s \<le> MAX_SENSOR_CARS"
    and "0 \<le> sim_seconds s" "sim_seconds s < SECONDS_PER_DAY"
    and "unat (intersection_id s) < NUM_INTERSECTIONS"
    and "0 \<le> coordination_offset_sec s" "coordination_offset_sec s < 44"
    and "is_green (initial_phase s)" "status_sequence s \<noteq> 0" "fault_sequence s \<noteq> 0"
  using assms by (simp_all add: local_inv_def base_inv_def)

lemma base_inv_mode:
  "base_inv s \<Longrightarrow> m \<in> {MODE_FIXED, MODE_SENSOR} \<Longrightarrow> base_inv (s\<lparr>traffic_mode := m\<rparr>)"
  by (simp add: base_inv_def)

lemma draws_inv [simp]:
  "local_inv (draw_next_train s) = local_inv s" "local_inv (draw_next_car s) = local_inv s"
  "local_inv (snd (rand_c s)) = local_inv s"
proof -
  show "local_inv (draw_next_train s) = local_inv s"
    by (rule draw_next_train_ex [of s]) simp
  show "local_inv (draw_next_car s) = local_inv s"
    by (rule draw_next_car_ex [of s]) simp
qed (simp add: rand_c_def)

lemma clear_fault_inv: "local_inv s \<Longrightarrow> local_inv (clear_fault_locked s)"
  by (simp add: clear_fault_locked_def local_inv_fields)

lemma apply_time_settings_inv: "local_inv s \<Longrightarrow> local_inv (apply_time_settings_locked s)"
  by (simp add: apply_time_settings_locked_def local_inv_fields)

lemma update_temporary_mode_inv:
  assumes "local_inv s"
  shows "local_inv (update_temporary_mode_locked s)"
  using assms local_inv_baseD [OF assms]
  by (auto simp: update_temporary_mode_locked_def Let_def
      intro!: local_inv_dirty apply_time_settings_inv local_inv_fields)

lemma add_car_inv: "local_inv s \<Longrightarrow> local_inv (add_car_locked d s)"
  using local_inv_baseD [of s] by (simp add: add_car_locked_def local_inv_fields)

lemma let_cars_pass_inv: "local_inv s \<Longrightarrow> local_inv (let_cars_pass_locked d s)"
  using local_inv_baseD [of s] by (simp add: let_cars_pass_locked_def Let_def local_inv_fields)

lemma arrive_car_inv: "local_inv s \<Longrightarrow> local_inv (arrive_car s)"
  by (simp add: arrive_car_def rand_c_def Let_def add_car_inv)

lemma update_vehicle_counts_inv: "local_inv s \<Longrightarrow> local_inv (update_vehicle_counts_locked s)"
  by (simp add: update_vehicle_counts_locked_def arrive_cars_def depart_cars_def count_car_def
      Let_def arrive_car_inv let_cars_pass_inv)

lemma update_time_of_day_inv:
  assumes inv: "local_inv s"
  shows "local_inv (update_time_of_day_locked s)"
proof -
  have "local_inv (s\<lparr>sim_seconds := c_mod (sim_seconds s + 1) 86400\<rparr>)"
    using inv local_inv_baseD [OF inv] by (simp add: local_inv_fields c_mod_nonneg)
  then show ?thesis using inv
    unfolding update_time_of_day_locked_def Let_def
    by (auto intro!: start_train_inv apply_time_settings_inv)
qed

lemma set_sim_seconds_inv: "local_inv s \<Longrightarrow> local_inv (set_sim_seconds_locked x s)"
  using c_mod_bounds [of 86400 x]
  by (auto simp: set_sim_seconds_locked_def Let_def intro!: apply_time_settings_inv local_inv_fields)

lemma set_sim_hour_inv: "local_inv s \<Longrightarrow> local_inv (set_sim_hour_locked h s)"
  by (simp add: set_sim_hour_locked_def set_sim_seconds_inv)

lemma set_sim_minute_inv: "local_inv s \<Longrightarrow> local_inv (set_sim_minute_locked m s)"
  by (simp add: set_sim_minute_locked_def set_sim_seconds_inv)

lemma toggle_sensor_inv: "local_inv s \<Longrightarrow> local_inv (toggle_sensor_locked d s)"
  by (simp add: toggle_sensor_locked_def Let_def local_inv_fields)

text \<open>What the restart of the initial phase needs of the state.\<close>

definition restart_ok :: "local_state \<Rightarrow> bool" where
  "restart_ok s \<longleftrightarrow> base_inv s \<and> cycle_plan_valid s \<and> cycle_ns_green s + cycle_ew_green s = 40 \<and>
     10 \<le> cycle_ns_green s \<and> 10 \<le> cycle_ew_green s \<and>
     ped_extra_ns_green s = 0 \<and> ped_extra_ew_green s = 0 \<and>
     \<not> train_pending s \<and> \<not> train_active s \<and> train_recovery_remaining s = 0"

lemma restart_ok_inv: "restart_ok s \<Longrightarrow> local_inv (set_initial_phase_locked s)"
  by (rule set_initial_phase_inv) (simp_all add: restart_ok_def)

lemma restart_ok_steps:
  assumes "restart_ok s"
  shows "restart_ok (clear_fault_locked s)" "restart_ok (apply_time_settings_locked s)"
    "restart_ok (draw_next_train s)" "restart_ok (draw_next_car s)"
proof -
  show "restart_ok (clear_fault_locked s)"
    using assms by (simp add: restart_ok_def clear_fault_locked_def dirty_eq)
  show "restart_ok (apply_time_settings_locked s)"
    using assms by (simp add: restart_ok_def apply_time_settings_locked_def dirty_eq base_inv_mode)
  show "restart_ok (draw_next_train s)"
    by (rule draw_next_train_ex [of s]) (use assms in \<open>simp add: restart_ok_def\<close>)
  show "restart_ok (draw_next_car s)"
    by (rule draw_next_car_ex [of s]) (use assms in \<open>simp add: restart_ok_def\<close>)
qed

lemma reset_demo_inv:
  assumes inv: "local_inv s"
  shows "local_inv (reset_demo_inputs_locked s)"
proof -
  note parts = local_invD [OF inv]
  let ?s1 = "s\<lparr>sensor_ns_count := 0, sensor_ew_count := 0, ped_ns_request := False,
      ped_ew_request := False, ped_ns_walk := False, ped_ew_walk := False,
      manual_mode_override := False, manual_sensor_override := False,
      train_pending := False, train_active := False, train_direction := 0,
      train_pass_remaining := 0, train_waiting_for_clear := False,
      train_recovery_remaining := 0, temp_mode_remaining := 0,
      coordination_pending := False, coordination_offset_sec := 0,
      ped_extra_ns_green := 0, ped_extra_ew_green := 0, sim_running := True\<rparr>"
  have "base_inv ?s1" using parts(1) by (simp add: base_inv_def)
  then have "restart_ok ?s1"
    using plan_okD [OF parts(6)] parts(2) by (simp add: restart_ok_def)
  then show ?thesis
    by (simp add: reset_demo_inputs_locked_def Let_def restart_ok_inv restart_ok_steps)
qed

lemma execute_command_inv:
  assumes inv: "local_inv s"
  shows "local_inv (snd (execute_command c s))"
proof -
  have m: "local_inv (s\<lparr>manual_mode_override := True, traffic_mode := x\<rparr>)"
    if "x \<in> {MODE_FIXED, MODE_SENSOR}" for x
    by (rule local_inv_fields(1)) (use inv that in simp_all)
  show ?thesis
    using inv m by (simp add: execute_command_def Let_def add_pedestrian_inv toggle_sensor_inv
        start_train_inv clear_train_inv reset_demo_inv set_sim_hour_inv)
qed

subsection \<open>Handlers\<close>

lemma stamp_inv [simp]:
  "local_inv (stamp_central now msg s) = local_inv s" "local_inv (stamp_train now msg s) = local_inv s"
  by (simp_all add: stamp_central_def stamp_train_def)

lemma handle_simulation_inv:
  "local_inv s \<Longrightarrow> local_inv (snd (handle_simulation_message now msg r s))"
  by (auto simp: handle_simulation_message_def Let_def set_sim_minute_inv split: option.splits)

lemma mode_of_small: "b \<le> mode_code MODE_SENSOR \<Longrightarrow> mode_of b \<in> {MODE_FIXED, MODE_SENSOR}"
proof -
  assume "b \<le> mode_code MODE_SENSOR"
  then have "unat b = 0 \<or> unat b = 1" by (auto simp: word_le_nat_alt)
  then have "b = 0 \<or> b = 1" by (simp add: word_unat_eq_iff)
  then show ?thesis by (auto simp: mode_of_def)
qed

lemma apply_mode_action_inv:
  assumes inv: "local_inv s" and small: "mc_new_mode cmd \<le> mode_code MODE_SENSOR"
    and some: "apply_mode_action cmd s = Some t"
  shows "local_inv t"
proof -
  note m = mode_of_small [OF small]
  have d: "0 \<le> uint (mc_duration_sec cmd)" "uint (mc_duration_sec cmd) < 65536"
    using uint_bounded [of "mc_duration_sec cmd"] by simp_all
  have ret: "local_inv (s\<lparr>temp_return_mode := traffic_mode s\<rparr>)"
    using inv local_inv_baseD [OF inv] by (simp add: local_inv_fields)
  have rev: "local_inv (s\<lparr>traffic_mode := temp_return_mode s\<rparr>)"
    using inv local_inv_baseD [OF inv] by (simp add: local_inv_fields)
  have nf: "traffic_mode s \<noteq> MODE_FAILSAFE" "temp_return_mode s \<noteq> MODE_FAILSAFE"
    using local_inv_baseD [OF inv] by auto
  show ?thesis
    using some inv m d ret rev nf
    by (auto simp: apply_mode_action_def Let_def split: if_splits
        intro!: clear_fault_inv local_inv_fields)
qed

lemma handle_mode_inv:
  assumes inv: "local_inv s"
  shows "local_inv (snd (handle_mode_command now msg r s))"
proof -
  let ?s1 = "stamp_central now msg s" and ?cmd = "decode_mode_cmd (data msg)"
  have "local_inv t" if "mode_command_guard msg ?cmd ?s1" "apply_mode_action ?cmd ?s1 = Some t" for t
    by (rule apply_mode_action_inv [OF _ _ that(2)])
      (use inv that(1) in \<open>simp_all add: mode_command_guard_def\<close>)
  with inv show ?thesis
    by (auto simp: handle_mode_command_def Let_def split: option.splits)
qed

lemma handle_coordination_inv:
  assumes inv: "local_inv s"
  shows "local_inv (snd (handle_coordination_command now msg r s))"
proof -
  let ?s1 = "stamp_central now msg s" and ?cmd = "decode_coordination (data msg)"
  have cyc: "local_fixed_cycle_seconds_locked ?s1 = 44"
    using conf_green [of ?s1] local_invD(1) [of ?s1] inv
    by (simp add: local_fixed_cycle_seconds_locked_def)
  have g: "is_green (phase_of (cc_phase ?cmd)) \<and> uint (cc_cycle_offset_sec ?cmd) < 44"
    if "coordination_guard msg ?cmd ?s1"
    using that cyc by (auto simp: coordination_guard_def phase_of_def)
  have ok: "local_inv (?s1\<lparr>traffic_mode := MODE_FIXED, manual_mode_override := True,
      coordination_phase := phase_of (cc_phase ?cmd),
      coordination_offset_sec := uint (cc_cycle_offset_sec ?cmd), coordination_pending := True\<rparr>)"
    if "coordination_guard msg ?cmd ?s1"
    using g [OF that] inv by (simp add: local_inv_fields)
  then show ?thesis using inv
    by (auto simp: handle_coordination_command_def Let_def clear_fault_inv)
qed

lemma handle_sensor_inv: "local_inv s \<Longrightarrow> local_inv (snd (handle_sensor_update now msg r s))"
  by (auto simp: handle_sensor_update_def Let_def local_inv_fields)

lemma handle_ped_inv: "local_inv s \<Longrightarrow> local_inv (snd (handle_ped_request now msg r s))"
  by (simp add: handle_ped_request_def Let_def add_pedestrian_inv)

lemma handle_railway_inv: "local_inv s \<Longrightarrow> local_inv (snd (handle_railway_message now msg r s))"
  using uint_bounded [of "rm_eta_seconds (decode_railway (data msg))"]
  by (simp add: handle_railway_message_def Let_def start_train_message_inv clear_train_inv)

lemma handle_test_inv: "local_inv s \<Longrightarrow> local_inv (snd (handle_test_message now msg r s))"
  by (simp add: handle_test_message_def)

lemma local_dispatch_inv:
  assumes inv: "local_inv s"
  shows "local_inv (snd (snd (local_dispatch_message now msg s)))"
proof -
  have "local_inv (snd (snd (snd e) now msg r s))" if "e \<in> set local_handlers" for e r
    using that inv by (auto simp: local_handlers_def handle_simulation_inv handle_test_inv
        handle_mode_inv handle_coordination_inv handle_sensor_inv handle_ped_inv handle_railway_inv)
  then show ?thesis using inv
    by (auto simp: local_dispatch_message_def Let_def dest: find_SomeD split: option.splits)
qed

section \<open>Start-up\<close>

text \<open>The state before the first phase starts: no train, no walk, no saved-up seconds.\<close>

definition quiet :: "local_state \<Rightarrow> bool" where
  "quiet s \<longleftrightarrow> base_inv s \<and> \<not> train_pending s \<and> \<not> train_active s \<and>
     train_recovery_remaining s = 0 \<and> \<not> ped_ns_walk s \<and> \<not> ped_ew_walk s \<and>
     ped_extra_ns_green s = 0 \<and> ped_extra_ew_green s = 0"

lemma quiet_steps:
  assumes "quiet s"
  shows "quiet (draw_next_train s)" "quiet (draw_next_car s)"
    "m \<in> {MODE_FIXED, MODE_SENSOR} \<Longrightarrow> quiet (s\<lparr>traffic_mode := m\<rparr>)"
    "quiet (apply_time_settings_locked s)"
proof -
  show "quiet (draw_next_train s)"
    by (rule draw_next_train_ex [of s]) (use assms in \<open>simp add: quiet_def\<close>)
  show "quiet (draw_next_car s)"
    by (rule draw_next_car_ex [of s]) (use assms in \<open>simp add: quiet_def\<close>)
qed (use assms in \<open>simp_all add: quiet_def base_inv_mode apply_time_settings_locked_def dirty_eq\<close>)

lemma quiet_start_inv:
  assumes q: "quiet s" and ph: "phase s = initial_phase s"
    and dur: "10 \<le> n" "n \<le> 30"
  shows "local_inv ((local_plan_cycle_locked s)\<lparr>phase_duration := n, time_remaining := n,
     ns_light := fst (lamps_of (phase s)), ew_light := snd (lamps_of (phase s))\<rparr>)"
proof -
  have base: "base_inv s" and g: "is_green (phase s)"
    using q ph by (simp_all add: quiet_def base_inv_def)
  have "10 \<le> plan_ns s \<and> plan_ns s \<le> 30"
    using plan_bounds [OF base] q by (simp add: quiet_def)
  then have "plan_ok (phase s) (initial_phase s) (plan_ns s) (40 - plan_ns s) 0 0"
    by (simp add: plan_ok_def)
  moreover have "time_ok (phase s) n n" "rail_ok (phase s) False False 0"
    using dur g by (auto simp: time_ok_def rail_ok_def)
  ultimately show ?thesis using q base by (simp add: local_inv_def plan_eq quiet_def)
qed

lemma local_init_phase_inv:
  assumes q: "quiet s"
  shows "local_inv (local_init_phase s)"
proof -
  let ?s2 = "draw_next_car (draw_next_train s)"
  let ?s4 = "apply_time_settings_locked (?s2\<lparr>traffic_mode :=
      (if is_peak_time (sim_seconds ?s2) then MODE_FIXED else MODE_SENSOR)\<rparr>)"
  let ?s = "?s4\<lparr>phase := initial_phase ?s4\<rparr>"
  let ?dir = "if phase ?s = PHASE_EW_GREEN then DIR_EW else DIR_NS"
  let ?n = "green_time_for_direction ?dir (local_plan_cycle_locked ?s)"
  have "quiet ?s4" using q by (simp add: quiet_steps)
  then have qs: "quiet ?s" by (simp add: quiet_def)
  then have base: "base_inv ?s" and g: "is_green (initial_phase ?s4)"
    by (simp_all add: quiet_def base_inv_def)
  have n: "15 \<le> ?n \<and> ?n \<le> 25" using base by (intro green_bounds) (simp add: plan_eq)
  have "local_init_phase s = (local_plan_cycle_locked ?s)\<lparr>phase_duration := ?n,
      time_remaining := ?n, ns_light := fst (lamps_of (phase ?s)),
      ew_light := snd (lamps_of (phase ?s))\<rparr>"
    using g by (cases "initial_phase ?s4") (simp_all add: local_init_phase_def Let_def plan_eq)
  moreover have "local_inv \<dots>" by (rule quiet_start_inv [OF qs]) (use n in simp_all)
  ultimately show ?thesis by simp
qed

lemma local_state_init_inv: "local_inv (local_state_init cmode i svc rnd)"
proof -
  let ?i = "if NUM_INTERSECTIONS \<le> unat i then 0 else i"
  have "is_green (cfg_initial_phase (local_config_for_intersection ?i))"
    using local_config_cases(3) [of ?i] by auto
  then have "quiet (local_init_fields cmode i svc rnd)"
    using local_config_cases(1,2) [of ?i]
    by (simp add: quiet_def base_inv_def local_init_fields_def zero_local_state_def Let_def)
  then show ?thesis by (simp add: local_state_init_def local_init_phase_inv)
qed

section \<open>The core loop\<close>

lemma core_tick_inv: "local_inv s \<Longrightarrow> local_inv (core_tick e s)"
  by (simp add: core_tick_def update_vehicle_counts_inv traffic_tick_inv
      update_temporary_mode_inv update_time_of_day_inv)

lemma core_operation_inv: "local_inv s \<Longrightarrow> local_inv (snd (core_operation_step now q s))"
  using local_dispatch_inv [of s now "cq_frame q"] execute_command_inv [of s "cstr (cq_command q)"]
  by (auto simp: core_operation_step_def Let_def split_beta)

lemma core_local_record [simp]: "core_local (record_status now c) = core_local c"
  by (simp add: record_status_def Let_def)

lemma core_local_request:
  "core_local (snd (request_part after now q c)) = snd (core_operation_step now q (core_local c))"
  by (simp add: request_part_def Let_def split: prod.splits)

lemma core_local_tick:
  "core_local (tick_part now after c) =
     (if next_tick c \<le> now
      then core_tick (link_deadline c \<noteq> 0 \<and> link_deadline c \<le> now) (core_local c)
      else core_local c)"
  by (simp add: tick_part_def)

text \<open>One iteration, as a step on what it is given.\<close>

definition core_step :: "u64 \<times> u64 \<times> string \<times> core_rx \<Rightarrow> core_state \<Rightarrow> core_state" where
  "core_step i c = (case i of (now, after, tstr, rx) \<Rightarrow> snd (core_iteration now after tstr rx c))"

lemma core_step_inv: "local_inv (core_local c) \<Longrightarrow> local_inv (core_local (core_step i c))"
  by (cases i) (auto simp: core_step_def core_iteration_def Let_def core_local_request
      core_local_tick core_tick_inv core_operation_inv split_beta split: core_rx.splits)

interpretation core: inv_machine core_step "\<lambda>_. True" "\<lambda>c. local_inv (core_local c)"
  by unfold_locales (rule core_step_inv)

lemma core_start_inv: "local_inv s \<Longrightarrow> local_inv (core_local (core_start now s))"
  by (simp add: core_start_def)

lemma core_run_inv:
  "local_inv s \<Longrightarrow> local_inv (core_local (fold core_step is (core_start now s)))"
  by (rule core.run_inv) (simp_all add: core_start_inv)

end
