(* ===== verification/Local_Safety.thy ===== *)
theory Local_Safety
  imports Local_Invariant
begin

text \<open>
  Safety of a Local controller over every run of its core loop: no conflicting lamps, no walk
  signal against moving traffic, the railway hold, yellow between greens, and exact status reports.
  The inputs of a run are arbitrary: any clock readings, any received frames and console inputs.
\<close>

section \<open>Safety of the lamps\<close>

definition conflict_free :: "local_state \<Rightarrow> bool" where
  "conflict_free s \<longleftrightarrow>
     (ns_light s = LIGHT_RED \<or> ew_light s = LIGHT_RED) \<and>
     ns_light s \<noteq> LIGHT_OFF \<and> ew_light s \<noteq> LIGHT_OFF \<and>
     (ped_ns_walk s \<longrightarrow> ns_light s = LIGHT_RED) \<and>
     (ped_ew_walk s \<longrightarrow> ew_light s = LIGHT_RED)"

definition all_stopped :: "local_state \<Rightarrow> bool" where
  "all_stopped s \<longleftrightarrow>
     ns_light s = LIGHT_RED \<and> ew_light s = LIGHT_RED \<and> \<not> ped_ns_walk s \<and> \<not> ped_ew_walk s"

definition train_protected :: "local_state \<Rightarrow> bool" where
  "train_protected s \<longleftrightarrow>
     (train_active s \<or> 0 < train_recovery_remaining s \<longrightarrow> all_stopped s) \<and>
     (train_pending s \<longrightarrow> is_yellow (phase s) \<and> time_remaining s \<le> YELLOW_SEC)"

lemma inv_conflict_free: "local_inv s \<Longrightarrow> conflict_free s"
  using local_invD(4,5) [of s] by (cases "phase s") (auto simp: conflict_free_def walk_ok_def)

lemma inv_all_stopped: "local_inv s \<Longrightarrow> phase s = PHASE_RAILWAY_HOLD \<Longrightarrow> all_stopped s"
  by (auto simp: local_inv_def all_stopped_def walk_ok_def)

lemma inv_train_protected: "local_inv s \<Longrightarrow> train_protected s"
proof -
  assume inv: "local_inv s"
  note p = local_invD [OF inv]
  show ?thesis
    using inv_all_stopped [OF inv] p(3,7)
    by (cases "phase s") (auto simp: train_protected_def rail_ok_def time_ok_def)
qed

text \<open>The Local state after the core loop has handled the given inputs from start-up.\<close>

abbreviation local_run :: "connection_mode \<Rightarrow> u8 \<Rightarrow> string option \<Rightarrow> (nat \<Rightarrow> nat) \<Rightarrow> u64 \<Rightarrow>
    (u64 \<times> u64 \<times> string \<times> core_rx) list \<Rightarrow> local_state" where
  "local_run cmode i svc rnd now inputs \<equiv>
     core_local (fold core_step inputs (core_start now (local_state_init cmode i svc rnd)))"

text \<open>C2: In every state that the core loop reaches from start-up, whatever it is sent, at least one
  road is red, no lamp is off, and a walk signal is on only while the road it crosses is red.\<close>

theorem core_run_conflict_free: "conflict_free (local_run cmode i svc rnd now inputs)"
  by (intro inv_conflict_free core_run_inv local_state_init_inv)

text \<open>In every reachable state, while a train holds the crossing and during the recovery after
  it, both roads are red and no walk signal is on; while a train is pending, the running green has
  already been turned to yellow, with at most two seconds left.\<close>

theorem core_run_train_protected: "train_protected (local_run cmode i svc rnd now inputs)"
  by (intro inv_train_protected core_run_inv local_state_init_inv)

section \<open>Status report\<close>

text \<open>The numeric fields of a status message carry the values of the state, not truncations of them.\<close>

definition status_exact :: "local_state \<Rightarrow> status_msg \<Rightarrow> bool" where
  "status_exact s st \<longleftrightarrow>
     st_intersection_id st = intersection_id s \<and> st_mode st = mode_code (display_mode s) \<and>
     st_phase st = phase_code (phase s) \<and>
     st_ns_state st = light_code (ns_light s) \<and> st_ew_state st = light_code (ew_light s) \<and>
     int (unat (st_time_remaining st)) = time_remaining s \<and>
     int (unat (st_sensor_ns_count st)) = sensor_ns_count s \<and>
     int (unat (st_sensor_ew_count st)) = sensor_ew_count s \<and>
     int (unat (st_sim_minute_of_day st)) = sim_seconds s div 60 \<and>
     int (unat (st_temporary_remaining st)) = temp_mode_remaining s \<and>
     int (unat (st_coordination_offset_sec st)) = coordination_offset_sec s \<and>
     int (unat (st_train_recovery_remaining st)) = train_recovery_remaining s"

lemma inv_status_exact:
  assumes inv: "local_inv s"
  shows "status_exact s (fill_status_locked s)"
proof -
  note b = local_inv_baseD [OF inv]
  have t: "0 \<le> time_remaining s" "time_remaining s < 65536"
    "0 \<le> train_recovery_remaining s" "train_recovery_remaining s \<le> 2"
    using local_invD(3,7) [OF inv] by (auto simp: time_ok_def rail_ok_def)
  have m: "sim_seconds s div 60 < 65536" "0 \<le> sim_seconds s div 60" using b by auto
  show ?thesis
    unfolding status_exact_def fill_status_locked_def Let_def
    using b t m by (simp add: unat_to_u16 unat_to_u8 c_mod_nonneg c_div_nonneg)
qed

text \<open>C17: In every reachable state the status message is exact: the narrowing to 8 and 16 bits
  loses nothing, and the minute of day is the one of the simulated clock.\<close>

theorem core_run_status_exact:
  "status_exact (local_run cmode i svc rnd now inputs)
     (fill_status_locked (local_run cmode i svc rnd now inputs))"
  by (intro inv_status_exact core_run_inv local_state_init_inv)

section \<open>Preemption\<close>

text \<open>What the core loop does to the Local state, one event at a time.\<close>

datatype local_event = EvTick bool | EvFrame string test_message | EvInput string | EvLinks bool bool

fun local_event_step :: "local_event \<Rightarrow> local_state \<Rightarrow> local_state" where
  "local_event_step (EvTick expired) s = core_tick expired s"
| "local_event_step (EvFrame now msg) s = snd (snd (local_dispatch_message now msg s))"
| "local_event_step (EvInput command) s = snd (execute_command command s)"
| "local_event_step (EvLinks c t) s = s\<lparr>central_connected := c, train_connected := t\<rparr>"

fun releases_train :: "local_event \<Rightarrow> bool" where
  "releases_train (EvFrame now msg) \<longleftrightarrow> hdr_type (header msg) = msg_code MSG_TRAIN_CLEAR"
| "releases_train (EvInput command) \<longleftrightarrow> command = ''c'' \<or> command = ''r''"
| "releases_train _ \<longleftrightarrow> False"

fun is_tick :: "local_event \<Rightarrow> bool" where
  "is_tick (EvTick _) = True"
| "is_tick _ = False"

lemma local_event_inv: "local_inv s \<Longrightarrow> local_inv (local_event_step e s)"
  by (cases e) (simp_all add: core_tick_inv local_dispatch_inv execute_command_inv)

text \<open>A train from the railway holds the intersection within \<open>k\<close> ticks.\<close>

definition closing :: "int \<Rightarrow> local_state \<Rightarrow> bool" where
  "closing k s \<longleftrightarrow> train_waiting_for_clear s \<and>
     (train_active s \<or> (train_pending s \<and> is_yellow (phase s) \<and> time_remaining s \<le> k))"

text \<open>The fields the lamp state machine reads and writes; the other operations keep them.\<close>

definition same_lamps :: "local_state \<Rightarrow> local_state \<Rightarrow> bool" where
  "same_lamps s t \<longleftrightarrow>
     train_waiting_for_clear t = train_waiting_for_clear s \<and> train_active t = train_active s \<and>
     train_pending t = train_pending s \<and>
     train_recovery_remaining t = train_recovery_remaining s \<and>
     phase t = phase s \<and> initial_phase t = initial_phase s \<and>
     time_remaining t = time_remaining s \<and> phase_duration t = phase_duration s \<and>
     cycle_ns_green t = cycle_ns_green s \<and> cycle_ew_green t = cycle_ew_green s \<and>
     ped_extra_ns_green t = ped_extra_ns_green s \<and> ped_extra_ew_green t = ped_extra_ew_green s \<and>
     ns_light t = ns_light s \<and> ew_light t = ew_light s \<and>
     ped_ns_walk t = ped_ns_walk s \<and> ped_ew_walk t = ped_ew_walk s \<and>
     coordination_pending t = coordination_pending s"

lemma same_lamps_refl [simp]: "same_lamps s s"
  by (simp add: same_lamps_def)

lemma same_lamps_trans: "same_lamps s t \<Longrightarrow> same_lamps t u \<Longrightarrow> same_lamps s u"
  by (simp add: same_lamps_def)

lemma same_lamps_frame [simp]:
  "same_lamps s (t\<lparr>sensor_ns_count := a\<rparr>) = same_lamps s t"
  "same_lamps s (t\<lparr>sensor_ew_count := a\<rparr>) = same_lamps s t"
  "same_lamps s (t\<lparr>next_car_in_seconds := a\<rparr>) = same_lamps s t"
  "same_lamps s (t\<lparr>next_train_in_seconds := a\<rparr>) = same_lamps s t"
  "same_lamps s (t\<lparr>next_train_direction := a\<rparr>) = same_lamps s t"
  "same_lamps s (t\<lparr>sim_seconds := a\<rparr>) = same_lamps s t"
  "same_lamps s (t\<lparr>sim_running := b\<rparr>) = same_lamps s t"
  "same_lamps s (t\<lparr>rand_pos := n\<rparr>) = same_lamps s t"
  "same_lamps s (t\<lparr>traffic_mode := m\<rparr>) = same_lamps s t"
  "same_lamps s (t\<lparr>temp_return_mode := m\<rparr>) = same_lamps s t"
  "same_lamps s (t\<lparr>temp_mode_remaining := a\<rparr>) = same_lamps s t"
  "same_lamps s (t\<lparr>manual_mode_override := b\<rparr>) = same_lamps s t"
  "same_lamps s (t\<lparr>manual_sensor_override := b\<rparr>) = same_lamps s t"
  "same_lamps s (t\<lparr>temp_return_manual_override := b\<rparr>) = same_lamps s t"
  "same_lamps s (t\<lparr>central_connected := b\<rparr>) = same_lamps s t"
  "same_lamps s (t\<lparr>train_connected := b\<rparr>) = same_lamps s t"
  "same_lamps s (t\<lparr>status_sequence := w\<rparr>) = same_lamps s t"
  "same_lamps s (t\<lparr>fault_sequence := w\<rparr>) = same_lamps s t"
  "same_lamps s (t\<lparr>fault_active := b\<rparr>) = same_lamps s t"
  "same_lamps s (t\<lparr>fault_kind := fk\<rparr>) = same_lamps s t"
  "same_lamps s (t\<lparr>fault_sev := fs\<rparr>) = same_lamps s t"
  "same_lamps s (t\<lparr>fault_description := str\<rparr>) = same_lamps s t"
  "same_lamps s (t\<lparr>last_applied_command_id := w\<rparr>) = same_lamps s t"
  "same_lamps s (t\<lparr>last_recv_central := str\<rparr>) = same_lamps s t"
  "same_lamps s (t\<lparr>last_recv_train := str\<rparr>) = same_lamps s t"
  "same_lamps s (t\<lparr>last_central_update := str\<rparr>) = same_lamps s t"
  "same_lamps s (t\<lparr>last_train_update := str\<rparr>) = same_lamps s t"
  by (simp_all add: same_lamps_def)

lemma same_lamps_basic [simp]:
  "same_lamps s (mark_status_dirty_locked t) = same_lamps s t"
  "same_lamps s (draw_next_train t) = same_lamps s t"
  "same_lamps s (draw_next_car t) = same_lamps s t"
proof -
  show "same_lamps s (draw_next_train t) = same_lamps s t"
    by (rule draw_next_train_ex [of t]) simp
  show "same_lamps s (draw_next_car t) = same_lamps s t"
    by (rule draw_next_car_ex [of t]) simp
qed (simp add: dirty_eq)

lemma same_lamps_apply [simp]: "same_lamps s (apply_time_settings_locked t) = same_lamps s t"
  by (simp add: apply_time_settings_locked_def)

lemma same_lamps_steps [simp]:
  "same_lamps s (clear_fault_locked t) = same_lamps s t"
  "same_lamps s (add_car_locked d t) = same_lamps s t"
  "same_lamps s (let_cars_pass_locked d t) = same_lamps s t"
  "same_lamps s (set_sim_seconds_locked x t) = same_lamps s t"
  "same_lamps s (toggle_sensor_locked d t) = same_lamps s t"
  "same_lamps s (update_temporary_mode_locked t) = same_lamps s t"
  "same_lamps s (stamp_central now msg t) = same_lamps s t"
  "same_lamps s (stamp_train now msg t) = same_lamps s t"
  by (simp_all add: clear_fault_locked_def add_car_locked_def let_cars_pass_locked_def
      set_sim_seconds_locked_def toggle_sensor_locked_def update_temporary_mode_locked_def
      stamp_central_def stamp_train_def Let_def)

lemma same_lamps_cars [simp]:
  "same_lamps s (depart_cars t) = same_lamps s t" "same_lamps s (arrive_car t) = same_lamps s t"
  by (simp_all add: depart_cars_def arrive_car_def rand_c_def Let_def)

lemma same_lamps_vehicles [simp]:
  "same_lamps s (update_vehicle_counts_locked t) = same_lamps s t"
  by (simp add: update_vehicle_counts_locked_def arrive_cars_def count_car_def Let_def)

text \<open>The clock update either starts a simulated train or leaves the lamps alone.\<close>

lemma time_of_day_lamps:
  "train_active s \<or> train_pending s \<or> 0 < train_recovery_remaining s \<or> train_connected s \<or>
   \<not> sim_running s \<Longrightarrow> same_lamps s (update_time_of_day_locked s)"
proof -
  assume a: "train_active s \<or> train_pending s \<or> 0 < train_recovery_remaining s \<or>
    train_connected s \<or> \<not> sim_running s"
  let ?s1 = "apply_time_settings_locked (s\<lparr>sim_seconds := c_mod (sim_seconds s + 1) 86400\<rparr>)"
  have f: "train_active ?s1 = train_active s" "train_pending ?s1 = train_pending s"
    "train_recovery_remaining ?s1 = train_recovery_remaining s" "train_connected ?s1 = train_connected s"
    by (simp_all add: apply_time_settings_locked_def dirty_eq)
  show ?thesis using a
    unfolding update_time_of_day_locked_def Let_def by (auto simp: f)
qed


lemma same_lampsD:
  "same_lamps s t \<Longrightarrow> closing k t = closing k s"
  by (simp add: same_lamps_def closing_def)

text \<open>A tick, seen by the lamps, is \<open>traffic_tick_locked\<close> on a state with the same lamps.\<close>

lemma core_tick_lamps:
  assumes inv: "local_inv s"
    and quiet: "train_active s \<or> train_pending s \<or> 0 < train_recovery_remaining s \<or>
      (train_connected s \<and> \<not> e) \<or> \<not> sim_running s"
  obtains t where "local_inv t" "same_lamps s t" "same_lamps (traffic_tick_locked t) (core_tick e s)"
proof -
  let ?s0 = "if e then s\<lparr>central_connected := False, train_connected := False\<rparr> else s"
  let ?t = "update_temporary_mode_locked (update_time_of_day_locked ?s0)"
  have i0: "local_inv ?s0" using inv by simp
  have "same_lamps s ?s0" by simp
  moreover have "same_lamps ?s0 (update_time_of_day_locked ?s0)"
    by (rule time_of_day_lamps) (use quiet in auto)
  ultimately have "same_lamps s (update_time_of_day_locked ?s0)" by (rule same_lamps_trans)
  then have "same_lamps s ?t" by (simp only: same_lamps_steps)
  moreover have "local_inv ?t"
    by (intro update_temporary_mode_inv update_time_of_day_inv i0)
  moreover have "same_lamps (traffic_tick_locked ?t) (core_tick e s)"
    by (simp add: core_tick_def)
  ultimately show thesis using that by blast
qed

lemma tick_dispatch:
  assumes inv: "local_inv s"
  shows "train_pending s \<Longrightarrow> traffic_tick_locked s = tick_pending s"
    and "train_active s \<Longrightarrow> traffic_tick_locked s = tick_active s"
    and "0 < train_recovery_remaining s \<Longrightarrow> traffic_tick_locked s = tick_recovery s"
    and "\<not> train_pending s \<Longrightarrow> \<not> train_active s \<Longrightarrow> train_recovery_remaining s = 0 \<Longrightarrow>
           traffic_tick_locked s = tick_normal s"
proof -
  have "\<not> (ns_light s = LIGHT_GREEN \<and> ew_light s = LIGHT_GREEN)"
    using local_invD(4) [OF inv] lamps_not_both_green by metis
  moreover have "traffic_mode s \<noteq> MODE_FAILSAFE" using local_inv_baseD [OF inv] by auto
  moreover have "rail_ok (phase s) (train_pending s) (train_active s) (train_recovery_remaining s)"
    by (rule local_invD(3) [OF inv])
  ultimately show "train_pending s \<Longrightarrow> traffic_tick_locked s = tick_pending s"
    "train_active s \<Longrightarrow> traffic_tick_locked s = tick_active s"
    "0 < train_recovery_remaining s \<Longrightarrow> traffic_tick_locked s = tick_recovery s"
    "\<not> train_pending s \<Longrightarrow> \<not> train_active s \<Longrightarrow> train_recovery_remaining s = 0 \<Longrightarrow>
       traffic_tick_locked s = tick_normal s"
    by (cases "phase s"; auto simp: traffic_tick_locked_def rail_ok_def)+
qed

lemma set_phase_sel [simp]:
  "train_active (set_phase_locked p d s) = train_active s"
  "train_pending (set_phase_locked p d s) = train_pending s"
  "train_waiting_for_clear (set_phase_locked p d s) = train_waiting_for_clear s"
  "train_recovery_remaining (set_phase_locked p d s) = train_recovery_remaining s"
  "phase (set_phase_locked p d s) = p"
  "initial_phase (set_phase_locked p d s) = initial_phase s"
  "time_remaining (set_phase_locked p d s) = d"
  "cycle_ns_green (set_phase_locked p d s) = cycle_ns_green s"
  "cycle_ew_green (set_phase_locked p d s) = cycle_ew_green s"
  "ped_extra_ns_green (set_phase_locked p d s) = ped_extra_ns_green s"
  "ped_extra_ew_green (set_phase_locked p d s) = ped_extra_ew_green s"
  "coordination_pending (set_phase_locked p d s) = coordination_pending s"
  by (simp_all add: set_phase_eq Let_def)

lemma dirty_sel [simp]:
  "train_active (mark_status_dirty_locked s) = train_active s"
  "train_pending (mark_status_dirty_locked s) = train_pending s"
  "train_waiting_for_clear (mark_status_dirty_locked s) = train_waiting_for_clear s"
  "train_recovery_remaining (mark_status_dirty_locked s) = train_recovery_remaining s"
  "phase (mark_status_dirty_locked s) = phase s"
  "time_remaining (mark_status_dirty_locked s) = time_remaining s"
  by (simp_all add: dirty_eq)

lemma lights_sel [simp]:
  "train_active (update_lights_locked s) = train_active s"
  "train_pending (update_lights_locked s) = train_pending s"
  "train_waiting_for_clear (update_lights_locked s) = train_waiting_for_clear s"
  "train_recovery_remaining (update_lights_locked s) = train_recovery_remaining s"
  "phase (update_lights_locked s) = phase s"
  "time_remaining (update_lights_locked s) = time_remaining s"
  by (simp_all add: update_lights_locked_def split: phase_t.split)

lemma closing_tick:
  assumes inv: "local_inv s" and c: "closing (k + 1) s"
  shows "closing k (core_tick e s)"
proof -
  obtain t where t: "local_inv t" "same_lamps s t" "same_lamps (traffic_tick_locked t) (core_tick e s)"
    using c by (auto simp: closing_def intro: core_tick_lamps [OF inv])
  have ct: "closing (k + 1) t" using c same_lampsD [OF t(2)] by simp
  have "closing k (traffic_tick_locked t)"
  proof (cases "train_active t")
    case True
    then show ?thesis
      using ct by (simp add: tick_dispatch(2) [OF t(1)] tick_active_def closing_def count_train_def
          Let_def)
  next
    case False
    with ct have "train_pending t" "train_waiting_for_clear t" "time_remaining t \<le> k + 1"
        "is_yellow (phase t)"
      by (simp_all add: closing_def)
    then show ?thesis
      by (simp add: tick_dispatch(1) [OF t(1)] tick_pending_def closing_def count_down_def Let_def)
  qed
  then show ?thesis using same_lampsD [OF t(3)] by simp
qed

lemma closing_start:
  assumes inv: "local_inv s"
  shows "closing YELLOW_SEC (start_train_message_locked d eta s)"
proof (cases "train_active s \<or> train_pending s")
  case True
  have "train_pending s \<Longrightarrow> is_yellow (phase s) \<and> time_remaining s \<le> 2"
    using local_invD(3,7) [OF inv] by (cases "phase s") (auto simp: rail_ok_def time_ok_def)
  with True show ?thesis by (auto simp: start_train_message_locked_def Let_def closing_def)
next
  case False
  have "is_yellow (phase s) \<Longrightarrow> time_remaining s \<le> 2"
    using local_invD(7) [OF inv] by (cases "phase s") (auto simp: time_ok_def)
  with False show ?thesis
    by (cases "phase s") (auto simp: start_train_message_locked_def start_train_common_locked_def
        Let_def closing_def)
qed

lemma closing_frame [simp]:
  "closing k (s\<lparr>ped_ns_request := b\<rparr>) = closing k s" "closing k (s\<lparr>ped_ew_request := b\<rparr>) = closing k s"
  "closing k (mark_status_dirty_locked s) = closing k s"
  by (simp_all add: closing_def)

lemma cap_green_idle: "\<not> is_green (phase s) \<Longrightarrow> cap_green_for_pedestrian_locked d s = s"
  by (auto simp: cap_green_for_pedestrian_locked_def pedestrian_service_phase_def)

lemma closing_pedestrian:
  assumes inv: "local_inv s" and c: "closing k s"
  shows "closing k (add_pedestrian_request_locked d s)"
proof -
  have "\<not> is_green (phase s)"
    using c local_invD(3) [OF inv] by (cases "phase s") (auto simp: closing_def rail_ok_def)
  with c show ?thesis
    by (simp add: add_pedestrian_request_locked_def Let_def cap_green_idle)
qed

lemma closing_preempt:
  assumes "closing k s"
  shows "closing k (start_train_message_locked d eta s)"
  using assms by (auto simp: closing_def start_train_message_locked_def Let_def)

lemma closing_start_train: "closing k s \<Longrightarrow> closing k (start_train_locked d s)"
  by (auto simp: closing_def start_train_locked_def start_train_common_locked_def)

lemma closing_lamps: "closing k s \<Longrightarrow> same_lamps s t \<Longrightarrow> closing k t"
  by (simp add: same_lampsD)

lemma same_lamps_mode_action: "apply_mode_action cmd s = Some t \<Longrightarrow> same_lamps s t"
  by (auto simp: apply_mode_action_def Let_def split: if_splits)

lemma same_lamps_handlers:
  "same_lamps s (snd (handle_simulation_message now msg r s))"
  "same_lamps s (snd (handle_test_message now msg r s))"
  "same_lamps s (snd (handle_sensor_update now msg r s))"
  "same_lamps s (snd (handle_mode_command now msg r s))"
proof -
  have "same_lamps s u" if "apply_mode_action cmd (stamp_central now msg s) = Some u" for cmd u
    using same_lamps_mode_action [OF that] by (auto intro: same_lamps_trans [rotated])
  then show "same_lamps s (snd (handle_mode_command now msg r s))"
    by (auto simp: handle_mode_command_def Let_def split: option.splits if_splits)
qed (simp_all add: handle_simulation_message_def handle_test_message_def handle_sensor_update_def
    set_sim_minute_locked_def Let_def split: option.split)

lemma closing_coordination:
  "closing k s \<Longrightarrow> closing k (snd (handle_coordination_command now msg r s))"
  by (simp add: handle_coordination_command_def Let_def closing_def clear_fault_locked_def stamp_central_def)

lemma closing_event:
  assumes inv: "local_inv s" and c: "closing k s" and r: "\<not> releases_train e" "\<not> is_tick e"
  shows "closing k (local_event_step e s)"
proof (cases e)
  case (EvFrame now msg)
  have "closing k (snd (snd (snd h) now msg r s))"
    if "h \<in> set local_handlers" for h r
  proof -
    have st: "closing k (stamp_train now msg s)" using c by (simp add: closing_lamps)
    have rail: "closing k (snd (handle_railway_message now msg r s))"
      using EvFrame r c st by (auto simp: handle_railway_message_def Let_def closing_preempt)
    have ped: "closing k (snd (handle_ped_request now msg r s))"
      using c by (simp add: handle_ped_request_def Let_def closing_pedestrian [OF inv])
    show ?thesis
      using that rail ped closing_coordination [OF c]
        closing_lamps [OF c same_lamps_handlers(1)] closing_lamps [OF c same_lamps_handlers(2)]
        closing_lamps [OF c same_lamps_handlers(3)] closing_lamps [OF c same_lamps_handlers(4)]
      by (auto simp: local_handlers_def)
  qed
  then show ?thesis using EvFrame c
    by (auto simp: local_dispatch_message_def Let_def dest: find_SomeD split: option.splits)
next
  case (EvInput command)
  show ?thesis
  proof (cases "valid_input command")
    case True
    then obtain x where x: "command = [x]" "x \<in> set ''mnexz12crpol''"
      by (cases command) (auto simp: valid_input_def)
    with r EvInput have "x \<noteq> CHR ''c''" "x \<noteq> CHR ''r''" by auto
    then show ?thesis
      using c EvInput True x(1) closing_lamps [OF c]
      by (simp add: execute_command_def Let_def closing_pedestrian [OF inv] closing_start_train
        set_sim_hour_locked_def)
  qed (use EvInput c in \<open>simp add: execute_command_def\<close>)
qed (use c r in \<open>simp_all add: closing_def\<close>)

lemma closing_active: "local_inv s \<Longrightarrow> closing 0 s \<Longrightarrow> train_active s"
  using local_invD(7) [of s] by (cases "phase s") (auto simp: closing_def time_ok_def)

lemma closing_mono: "closing k s \<Longrightarrow> k \<le> j \<Longrightarrow> closing j s"
  by (auto simp: closing_def)

lemma closing_run:
  assumes "local_inv s" "closing k s" "\<forall>e \<in> set es. \<not> releases_train e" "0 \<le> k"
    "k \<le> int (length (filter is_tick es))"
  shows "local_inv (fold local_event_step es s) \<and> closing 0 (fold local_event_step es s)"
  using assms
proof (induction es arbitrary: s k)
  case (Cons e es)
  show ?case
  proof (cases "is_tick e")
    case True
    then obtain b where e: "e = EvTick b" by (cases e) auto
    have "closing (max 0 (k - 1)) (core_tick b s)"
      using Cons.prems by (intro closing_tick) (auto intro: closing_mono)
    then have "local_inv (fold local_event_step es (core_tick b s)) \<and>
        closing 0 (fold local_event_step es (core_tick b s))"
      by (rule Cons.IH [rotated]) (use Cons.prems e in \<open>auto intro: core_tick_inv\<close>)
    with e show ?thesis by simp
  next
    case False
    have "local_inv (fold local_event_step es (local_event_step e s)) \<and>
        closing 0 (fold local_event_step es (local_event_step e s))"
      by (rule Cons.IH [where k = k])
        (use Cons.prems False in \<open>auto intro: local_event_inv closing_event\<close>)
    then show ?thesis by simp
  qed
qed simp

definition no_green :: "local_state \<Rightarrow> bool" where
  "no_green s \<longleftrightarrow> ns_light s \<noteq> LIGHT_GREEN \<and> ew_light s \<noteq> LIGHT_GREEN"

lemma closing_no_green: "local_inv s \<Longrightarrow> closing k s \<Longrightarrow> no_green s"
  using inv_train_protected [of s] by (cases "phase s") (auto simp: closing_def no_green_def train_protected_def all_stopped_def
      local_inv_def)

lemma closing_stays:
  assumes "local_inv s" "closing k s" "\<forall>e \<in> set es. \<not> releases_train e" "0 \<le> k"
  shows "local_inv (fold local_event_step es s) \<and> closing k (fold local_event_step es s)"
  using assms
proof (induction es arbitrary: s)
  case (Cons e es)
  have "closing k (local_event_step e s)"
  proof (cases "is_tick e")
    case True
    then obtain b where e: "e = EvTick b" by (cases e) auto
    have "closing (max 0 (k - 1)) (core_tick b s)"
      using Cons.prems by (intro closing_tick) (auto intro: closing_mono)
    with Cons.prems(4) e show ?thesis by (auto intro: closing_mono)
  next
    case False
    with Cons.prems show ?thesis by (intro closing_event) auto
  qed
  with Cons.IH [of "local_event_step e s"] Cons.prems show ?case by (simp add: local_event_inv)
qed simp

text \<open>A \<open>RAILWAY_PREEMPT\<close> or \<open>TRAIN_CLEAR\<close> frame for the crossing this intersection is at.\<close>

definition railway_frame_for :: "local_state \<Rightarrow> msg_type \<Rightarrow> test_message \<Rightarrow> bool" where
  "railway_frame_for s ty msg \<longleftrightarrow>
     hdr_dst (header msg) = controller_code CONTROLLER_LOCAL \<and>
     hdr_src (header msg) = controller_code CONTROLLER_TRAIN \<and>
     hdr_type (header msg) = msg_code ty \<and>
     railway_matches_local (rm_intersection_id (decode_railway (data msg))) s"

lemma dispatch_railway:
  assumes "railway_frame_for s ty msg"
  shows "ty = MSG_RAILWAY_PREEMPT \<Longrightarrow> rm_active (decode_railway (data msg)) \<noteq> 0 \<Longrightarrow>
      local_event_step (EvFrame now msg) s =
        start_train_message_locked
          (railway_display_line (rm_intersection_id (decode_railway (data msg))))
          (uint (rm_eta_seconds (decode_railway (data msg)))) (stamp_train now msg s)"
    and "ty = MSG_TRAIN_CLEAR \<Longrightarrow>
      local_event_step (EvFrame now msg) s = clear_train_locked (stamp_train now msg s)"
  using assms by (simp_all add: railway_frame_for_def local_dispatch_message_def Let_def
      local_handlers_def handler_matches_def handle_railway_message_def)

lemma stamp_train_frame:
  "train_active (stamp_train now msg s) = train_active s"
  "train_pending (stamp_train now msg s) = train_pending s"
  by (simp_all add: stamp_train_def)

lemma preempt_closing:
  assumes inv: "local_inv s" and frame: "railway_frame_for s MSG_RAILWAY_PREEMPT msg"
    and active: "rm_active (decode_railway (data msg)) \<noteq> 0"
  shows "local_inv (local_event_step (EvFrame now msg) s)" "closing 2 (local_event_step (EvFrame now msg) s)"
proof -
  let ?m = "decode_railway (data msg)"
  have i: "local_inv (stamp_train now msg s)" using inv by simp
  show "local_inv (local_event_step (EvFrame now msg) s)" "closing 2 (local_event_step (EvFrame now msg) s)"
    unfolding dispatch_railway(1) [OF frame refl active]
    using i uint_bounded [of "rm_eta_seconds ?m"] by (simp_all add: start_train_message_inv closing_start)
qed

lemma preempt_held:
  assumes inv: "local_inv s" and frame: "railway_frame_for s MSG_RAILWAY_PREEMPT msg"
    and active: "rm_active (decode_railway (data msg)) \<noteq> 0"
    and free: "\<forall>e \<in> set es. \<not> releases_train e" and ticks: "2 \<le> length (filter is_tick es)"
  shows "train_active (fold local_event_step (EvFrame now msg # es) s) \<and>
    all_stopped (fold local_event_step (EvFrame now msg # es) s)"
  using closing_run [OF preempt_closing [OF inv frame active, of now] free] ticks closing_active inv_train_protected
  by (auto simp: train_protected_def)

text \<open>From the preemption frame on neither road is green.\<close>

lemma preempt_no_green:
  assumes inv: "local_inv s" and frame: "railway_frame_for s MSG_RAILWAY_PREEMPT msg"
    and active: "rm_active (decode_railway (data msg)) \<noteq> 0"
    and free: "\<forall>e \<in> set es. \<not> releases_train e"
  shows "no_green (fold local_event_step (EvFrame now msg # es) s)"
  using closing_stays [OF preempt_closing [OF inv frame active, of now] free] closing_no_green [where k = 2] by simp

text \<open>Once a preemption frame for this crossing has been handled, the intersection is held after
  at most two ticks: whatever other frames, inputs and ticks follow, in any order, both roads are red
  with no walk signal, until a \<open>TRAIN_CLEAR\<close> frame or one of the inputs \<open>c\<close> and \<open>r\<close> releases it.\<close>

theorem preempt_holds_until_release:
  assumes inv: "local_inv s" and frame: "railway_frame_for s MSG_RAILWAY_PREEMPT msg"
    and active: "rm_active (decode_railway (data msg)) \<noteq> 0"
    and free: "\<forall>e \<in> set es. \<not> releases_train e" and ticks: "2 \<le> length (filter is_tick es)"
  shows "train_active (fold local_event_step (EvFrame now msg # es) s) \<and>
    all_stopped (fold local_event_step (EvFrame now msg # es) s)"
  by (rule preempt_held [OF inv frame active free ticks])

text \<open>A concrete start for the witnesses: intersection I1, both links up.\<close>

definition demo_start :: local_state where
  "demo_start = local_event_step (EvLinks True True)
     (local_state_init CONN_MODE_LOCAL 0 None (\<lambda>_. 0))"

definition demo_railway :: "msg_type \<Rightarrow> test_message" where
  "demo_railway ty =
     (let m = init_message ty CONTROLLER_TRAIN CONTROLLER_LOCAL ''10:00:00''
      in m\<lparr>data := overlay (encode_railway
            \<lparr>rm_intersection_id = 1, rm_active = 1, rm_eta_seconds = 30\<rparr>) (data m)\<rparr>)"

lemma demo_start_inv: "local_inv demo_start"
  by (simp add: demo_start_def local_state_init_inv)

theorem preempt_holds_until_release_witness:
  "train_active (fold local_event_step
      [EvFrame ''10:00:00'' (demo_railway MSG_RAILWAY_PREEMPT), EvTick False, EvInput ''n'', EvTick True]
      demo_start) \<and>
   all_stopped (fold local_event_step
      [EvFrame ''10:00:00'' (demo_railway MSG_RAILWAY_PREEMPT), EvTick False, EvInput ''n'', EvTick True]
      demo_start)"
proof (rule preempt_holds_until_release [OF demo_start_inv])
  show "railway_frame_for demo_start MSG_RAILWAY_PREEMPT (demo_railway MSG_RAILWAY_PREEMPT)"
    by code_simp
  show "rm_active (decode_railway (data (demo_railway MSG_RAILWAY_PREEMPT))) \<noteq> 0"
    by code_simp
qed simp_all

lemma set_initial_phase_sel [simp]:
  "phase (set_initial_phase_locked u) = initial_phase u"
  "initial_phase (set_initial_phase_locked u) = initial_phase u"
  "train_recovery_remaining (set_initial_phase_locked u) = train_recovery_remaining u"
  by (simp_all add: set_initial_phase_locked_def start_green_def next_green_time_for_direction_def
      local_plan_cycle_locked_def Let_def)

lemma recovery_tick:
  assumes inv: "local_inv s" and rec: "train_recovery_remaining s = n" "0 < n"
  shows "train_recovery_remaining (core_tick e s) = n - 1 \<and>
    phase (core_tick e s) = (if n = 1 then initial_phase s else PHASE_RAILWAY_HOLD) \<and>
    initial_phase (core_tick e s) = initial_phase s"
proof -
  obtain t where t: "local_inv t" "same_lamps s t" "same_lamps (traffic_tick_locked t) (core_tick e s)"
    using rec by (auto intro: core_tick_lamps [OF inv])
  have tn: "train_recovery_remaining t = n" "initial_phase t = initial_phase s"
    using t(2) rec by (simp_all add: same_lamps_def)
  let ?r = "t\<lparr>train_recovery_remaining := n - 1, phase := PHASE_RAILWAY_HOLD, time_remaining := n - 1\<rparr>"
  have dr: "train_recovery_remaining (draw_next_train u) = train_recovery_remaining u \<and> 
     initial_phase (draw_next_train u) = initial_phase u" for u
    by (rule draw_next_train_ex [of u]) simp
  have "train_recovery_remaining (tick_recovery t) = n - 1 \<and>
    phase (tick_recovery t) = (if n = 1 then initial_phase s else PHASE_RAILWAY_HOLD) \<and>
    initial_phase (tick_recovery t) = initial_phase s"
    using tn by (simp add: tick_recovery_def Let_def update_lights_locked_def dr)
  moreover have "traffic_tick_locked t = tick_recovery t"
    using tn rec by (intro tick_dispatch(3) [OF t(1)]) simp
  ultimately show ?thesis using t(3) by (simp add: same_lamps_def)
qed

lemma clear_recovery:
  assumes inv: "local_inv s" and frame: "railway_frame_for s MSG_TRAIN_CLEAR msg"
    and held: "train_active s \<or> train_pending s"
  shows "all_stopped (local_event_step (EvFrame now msg) s) \<and>
    all_stopped (core_tick e1 (local_event_step (EvFrame now msg) s)) \<and>
    phase (core_tick e2 (core_tick e1 (local_event_step (EvFrame now msg) s))) = initial_phase s"
proof -
  let ?c = "local_event_step (EvFrame now msg) s"
  have c: "?c = clear_train_locked (stamp_train now msg s)"
    using dispatch_railway(2) [OF frame] by simp
  have ic: "local_inv ?c" by (rule local_event_inv [OF inv])
  have rc: "train_recovery_remaining ?c = 2" "phase ?c = PHASE_RAILWAY_HOLD"
    "initial_phase ?c = initial_phase s"
    using held unfolding c by (simp_all add: clear_train_locked_def stamp_train_def dirty_eq)
  note t1 = recovery_tick [OF ic rc(1), of e1]
  have i1: "local_inv (core_tick e1 ?c)" by (rule core_tick_inv [OF ic])
  note t2 = recovery_tick [OF i1, of 1 e2]
  show ?thesis using t1 t2 rc inv_all_stopped [OF ic] inv_all_stopped [OF i1] by simp
qed

text \<open>A \<open>TRAIN_CLEAR\<close> frame for a held or pending crossing is followed by exactly two
  seconds of all-red: the lamps are stopped when it is handled and after the first tick, and the
  second tick starts the initial phase of the intersection.\<close>

theorem clear_recovers_in_two_ticks:
  assumes inv: "local_inv s" and frame: "railway_frame_for s MSG_TRAIN_CLEAR msg"
    and held: "train_active s \<or> train_pending s"
  shows "all_stopped (local_event_step (EvFrame now msg) s) \<and>
    all_stopped (core_tick e1 (local_event_step (EvFrame now msg) s)) \<and>
    phase (core_tick e2 (core_tick e1 (local_event_step (EvFrame now msg) s))) = initial_phase s"
  by (rule clear_recovery [OF inv frame held])

definition demo_held :: local_state where
  "demo_held = fold local_event_step
     [EvFrame ''10:00:00'' (demo_railway MSG_RAILWAY_PREEMPT), EvTick False, EvTick False] demo_start"

lemma demo_held_inv: "local_inv demo_held"
  unfolding demo_held_def by (simp add: local_event_inv demo_start_inv core_tick_inv local_dispatch_inv)

theorem clear_recovers_in_two_ticks_witness:
  "all_stopped (local_event_step (EvFrame [] (demo_railway MSG_TRAIN_CLEAR)) demo_held) \<and>
   all_stopped (core_tick False (local_event_step (EvFrame [] (demo_railway MSG_TRAIN_CLEAR)) demo_held)) \<and>
   phase (core_tick False (core_tick False
      (local_event_step (EvFrame [] (demo_railway MSG_TRAIN_CLEAR)) demo_held))) = initial_phase demo_held"
proof (rule clear_recovers_in_two_ticks [OF demo_held_inv])
  show "railway_frame_for demo_held MSG_TRAIN_CLEAR (demo_railway MSG_TRAIN_CLEAR)" by code_simp
  show "train_active demo_held \<or> train_pending demo_held" by code_simp
qed

section \<open>Yellow between greens\<close>

lemma tick_normal_phase:
  assumes inv: "local_inv s" and g: "phase s = green_of d" and idle: "\<not> train_pending s" "\<not> train_active s"
    "train_recovery_remaining s = 0"
  shows "half_of (phase (tick_normal s)) = Some d"
proof -
  have ph: "phase (update_pedestrian_locked u) = phase u" for u
    by (rule update_pedestrian_ex [of u]) simp
  show ?thesis
    using g by (cases d) (auto simp: tick_normal_def Let_def count_down_def ph
       advance_phase_locked_def)
qed

lemma start_train_half:
  "is_green (phase s) \<Longrightarrow> half_of (phase (start_train_common_locked x w eta s)) = half_of (phase s)"
  by (cases "phase s") (simp_all add: start_train_common_locked_def Let_def)

lemma time_of_day_half:
  assumes g: "phase s = green_of d" and idle: "\<not> train_pending s" "\<not> train_active s"
  shows "half_of (phase (update_time_of_day_locked s)) = Some d \<and>
    (phase (update_time_of_day_locked s) = green_of d \<or>
     train_pending (update_time_of_day_locked s) \<and> time_remaining (update_time_of_day_locked s) = 2)"
proof -
  let ?s1 = "apply_time_settings_locked (s\<lparr>sim_seconds := c_mod (sim_seconds s + 1) 86400\<rparr>)"
  have f: "phase ?s1 = green_of d" "\<not> train_pending ?s1" "\<not> train_active ?s1"
    using assms by (simp_all add: apply_time_settings_locked_def dirty_eq)
  have st: "half_of (phase (start_train_locked x u)) = Some d \<and> train_pending (start_train_locked x u) \<and>
      time_remaining (start_train_locked x u) = 2"
    if "phase u = green_of d" "\<not> train_pending u" "\<not> train_active u" for x u
    using that by (cases d) (simp_all add: start_train_locked_def start_train_common_locked_def Let_def)
  have h: "half_of (green_of d) = Some d" by (cases d) simp_all
  show ?thesis
    unfolding update_time_of_day_locked_def Let_def using assms f st h by auto
qed

lemma tick_half:
  assumes inv: "local_inv s" and g: "phase s = green_of d"
  shows "half_of (phase (core_tick e s)) = Some d"
proof -
  let ?s0 = "if e then s\<lparr>central_connected := False, train_connected := False\<rparr> else s"
  let ?s1 = "update_time_of_day_locked ?s0"
  let ?t = "update_temporary_mode_locked ?s1"
  have idle: "\<not> train_pending s" "\<not> train_active s"
    using local_invD(3) [OF inv] g by (cases d; auto simp: rail_ok_def)+
  have i: "local_inv ?t"
    by (intro update_temporary_mode_inv update_time_of_day_inv) (use inv in simp)
  have l: "same_lamps ?s1 ?t" by (simp only: same_lamps_steps same_lamps_refl)
  have "half_of (phase ?s1) = Some d \<and> (phase ?s1 = green_of d \<or>
      train_pending ?s1 \<and> time_remaining ?s1 = 2)"
    by (rule time_of_day_half) (use g idle in auto)
  then have t: "half_of (phase ?t) = Some d \<and> (phase ?t = green_of d \<or> train_pending ?t \<and> time_remaining ?t = 2)"
    using l unfolding same_lamps_def by metis
  have "half_of (phase (traffic_tick_locked ?t)) = Some d"
  proof (cases "train_pending ?t")
    case True
    then have "time_remaining ?t = 2" 
      using t local_invD(3) [OF i] by (cases d; auto simp: rail_ok_def)
    with True t show ?thesis by (simp add: tick_dispatch(1) [OF i] tick_pending_def count_down_def Let_def)
  next
    case False
    then have "\<not> train_active ?t" "train_recovery_remaining ?t = 0" "phase ?t = green_of d"
      using t local_invD(3) [OF i] by (cases d; auto simp: rail_ok_def)+
    then show ?thesis using False i by (simp add: tick_dispatch(4) tick_normal_phase)
  qed
  moreover have "same_lamps (traffic_tick_locked ?t) (core_tick e s)" by (simp add: core_tick_def)
  then have "phase (core_tick e s) = phase (traffic_tick_locked ?t)" by (simp add: same_lamps_def)
  ultimately show ?thesis by simp
qed

lemma cap_green_phase [simp]: "phase (cap_green_for_pedestrian_locked x s) = phase s"
  by (simp add: cap_green_for_pedestrian_locked_def Let_def)

lemma add_pedestrian_phase [simp]: "phase (add_pedestrian_request_locked x s) = phase s"
  by (simp add: add_pedestrian_request_locked_def Let_def)

lemma same_lamps_phase: "same_lamps s t \<Longrightarrow> phase t = phase s"
  by (simp add: same_lamps_def)

lemma frame_half:
  assumes inv: "local_inv s" and g: "phase s = green_of d"
  shows "half_of (phase (snd (snd (local_dispatch_message now msg s)))) = Some d"
proof -
  have idle: "\<not> train_pending s" "\<not> train_active s"
    using local_invD(3) [OF inv] g by (cases d; auto simp: rail_ok_def)+
  have h: "half_of (phase s) = Some d" "is_green (phase s)" using g by (cases d; simp)+
  let ?st = "stamp_train now msg s"
  have st: "phase ?st = phase s" "\<not> train_active ?st" "\<not> train_pending ?st"
    using idle by (simp_all add: stamp_train_def)
  have rail: "half_of (phase (snd (handle_railway_message now msg r s))) = Some d" for r
    using h st start_train_half [of ?st] by (simp add: handle_railway_message_def Let_def
        start_train_message_locked_def clear_train_locked_def)
  have coord: "phase (snd (handle_coordination_command now msg r s)) = phase s" for r
    by (simp add: handle_coordination_command_def Let_def clear_fault_locked_def stamp_central_def)
  have ped: "phase (snd (handle_ped_request now msg r s)) = phase s" for r
    by (simp add: handle_ped_request_def Let_def)
  have "half_of (phase (snd (snd (snd e) now msg r s))) = Some d" if "e \<in> set local_handlers" for e r
    using that rail coord ped h same_lamps_handlers [THEN same_lamps_phase]
    by (auto simp: local_handlers_def)
  then show ?thesis using h
    by (auto simp: local_dispatch_message_def Let_def dest: find_SomeD split: option.splits)
qed

lemma input_half:
  assumes inv: "local_inv s" and g: "phase s = green_of d" and c: "command \<noteq> ''r''"
  shows "half_of (phase (snd (execute_command command s))) = Some d"
proof (cases "valid_input command")
  case True
  then obtain x where x: "command = [x]" by (cases command) (auto simp: valid_input_def)
  have idle: "\<not> train_pending s" "\<not> train_active s"
    using local_invD(3) [OF inv] g by (cases d; auto simp: rail_ok_def)+
  have h: "half_of (phase s) = Some d" "is_green (phase s)" using g by (cases d; simp)+
  have tog: "phase (toggle_sensor_locked y s) = phase s" "phase (set_sim_hour_locked z s) = phase s" for y z
    by (auto intro!: same_lamps_phase simp: set_sim_hour_locked_def)
  show ?thesis
    using True c h idle start_train_half [of s] x
    by (simp add: execute_command_def Let_def start_train_locked_def clear_train_locked_def tog)
next
  case False
  then show ?thesis using g by (cases d) (simp_all add: execute_command_def)
qed

text \<open>C15: A road that is green never loses its turn without its yellow: after any single event
  other than the demo reset \<open>r\<close>, the phase is the same green or the yellow of the same road.\<close>

theorem yellow_between_greens:
  assumes inv: "local_inv s" and g: "phase s = green_of d" and r: "e \<noteq> EvInput ''r''"
  shows "half_of (phase (local_event_step e s)) = Some d"
proof (cases e)
  case (EvLinks c t)
  then show ?thesis using g by (cases d) simp_all
qed (use r tick_half [OF inv g] frame_half [OF inv g] input_half [OF inv g] in auto)

theorem yellow_between_greens_witness:
  "half_of (phase (local_event_step (EvTick False) demo_start)) = Some DIR_EW"
proof (rule yellow_between_greens [OF demo_start_inv])
  show "phase demo_start = green_of DIR_EW" by code_simp
qed simp

lemma reset_phase: "phase (reset_demo_inputs_locked s) = initial_phase s"
proof -
  have tr: "initial_phase (draw_next_train u) = initial_phase u" for u
    by (rule draw_next_train_ex [of u]) simp
  have car: "initial_phase (draw_next_car u) = initial_phase u" for u
    by (rule draw_next_car_ex [of u]) simp
  show ?thesis
    by (simp add: reset_demo_inputs_locked_def Let_def apply_time_settings_locked_def tr car
        clear_fault_locked_def dirty_eq)
qed

text \<open>The demo reset \<open>r\<close> starts the initial phase at once, from every state. From the green of
  the other road it therefore switches greens with no yellow in between.\<close>

theorem reset_restarts_initial_phase:
  "phase (local_event_step (EvInput ''r'') s) = initial_phase s"
  by (simp add: execute_command_def valid_input_def reset_phase Let_def)

end
