(* ===== verification/Local_Timing.thy ===== *)
theory Local_Timing
  imports Local_Safety
begin

text \<open>
  Timing of a Local controller. \<open>cycle_clock\<close> counts the seconds to the next start of the initial
  phase, with the seconds that pedestrian requests moved to later greens counted in. Every undisturbed
  tick takes one second off it modulo the fixed cycle, whatever sensors, modes and pedestrians
  do, so an intersection keeps its place in the coordinated cycle. Every road is served within a
  fixed bound, and a coordination command puts the lamps at the offset it names.
\<close>

section \<open>The cycle clock\<close>

fun opposite :: "direction_t \<Rightarrow> direction_t" where
  "opposite DIR_NS = DIR_EW"
| "opposite DIR_EW = DIR_NS"

fun cycle_green :: "direction_t \<Rightarrow> local_state \<Rightarrow> int" where
  "cycle_green DIR_NS s = cycle_ns_green s"
| "cycle_green DIR_EW s = cycle_ew_green s"

fun ped_extra :: "direction_t \<Rightarrow> local_state \<Rightarrow> int" where
  "ped_extra DIR_NS s = ped_extra_ns_green s"
| "ped_extra DIR_EW s = ped_extra_ew_green s"

definition cycle_clock :: "local_state \<Rightarrow> int" where
  "cycle_clock s =
     (case half_of (phase s) of
        None \<Rightarrow> 0
      | Some d \<Rightarrow>
          time_remaining s + (if is_green (phase s) then YELLOW_SEC else 0) +
          (if half_of (initial_phase s) = Some d
           then cycle_green (opposite d) s + ped_extra (opposite d) s + YELLOW_SEC
           else ped_extra (opposite d) s))"

text \<open>Undisturbed operation: no train, no pending coordination, and no simulated trains.\<close>

definition undisturbed :: "local_state \<Rightarrow> bool" where
  "undisturbed s \<longleftrightarrow> \<not> train_pending s \<and> \<not> train_active s \<and> train_recovery_remaining s = 0 \<and>
     \<not> coordination_pending s \<and> (train_connected s \<or> \<not> sim_running s)"

lemma same_lamps_clock: "same_lamps s t \<Longrightarrow> cycle_clock t = cycle_clock s"
proof -
  assume a: "same_lamps s t"
  then have "cycle_green d t = cycle_green d s \<and> ped_extra d t = ped_extra d s" for d
    by (cases d) (simp_all add: same_lamps_def)
  with a show ?thesis by (simp add: cycle_clock_def same_lamps_def split: option.split)
qed

fun yellow_of :: "direction_t \<Rightarrow> phase_t" where
  "yellow_of DIR_NS = PHASE_NS_YELLOW"
| "yellow_of DIR_EW = PHASE_EW_YELLOW"

text \<open>The phase change at the end of a phase when no coordination is pending.\<close>

definition next_phase :: "local_state \<Rightarrow> local_state" where
  "next_phase s = (case phase s of
       PHASE_NS_GREEN \<Rightarrow> set_phase_locked PHASE_NS_YELLOW YELLOW_SEC s
     | PHASE_NS_YELLOW \<Rightarrow> start_green PHASE_EW_GREEN DIR_EW s
     | PHASE_EW_GREEN \<Rightarrow> set_phase_locked PHASE_EW_YELLOW YELLOW_SEC s
     | _ \<Rightarrow> start_green PHASE_NS_GREEN DIR_NS s)"

lemma tick_normal_eq:
  assumes inv: "local_inv s" and idle: "\<not> train_pending s" "\<not> train_active s"
    "train_recovery_remaining s = 0" and nc: "\<not> coordination_pending s"
  obtains a b c e where "tick_normal s =
    (let t = s\<lparr>time_remaining := time_remaining s - 1, ped_ns_request := a, ped_ew_request := b,
               ped_ns_walk := c, ped_ew_walk := e\<rparr>
     in if time_remaining s = 1 then next_phase t else t)"
proof -
  let ?c = "s\<lparr>time_remaining := time_remaining s - 1\<rparr>"
  have ph: "phase s \<noteq> PHASE_RAILWAY_HOLD" and pos: "0 < time_remaining s"
    using inv idle by (auto simp: local_inv_def rail_ok_def time_ok_def)
  have lights: "update_lights_locked ?c = ?c"
    by (rule update_lights_id [where r = "time_remaining s" and d = "phase_duration s"])
      (use inv in \<open>simp_all add: local_inv_def\<close>)
  obtain a b c d where p: "update_pedestrian_locked ?c = ?c\<lparr>ped_ns_request := a,
      ped_ew_request := b, ped_ns_walk := c, ped_ew_walk := d\<rparr>"
    by (rule update_pedestrian_ex)
  have "advance_phase_locked t = next_phase t" if "\<not> coordination_pending t" for t
    using that by (simp add: advance_phase_locked_def next_phase_def)
  with pos nc have "tick_normal s = (let t = ?c\<lparr>ped_ns_request := a, ped_ew_request := b,
      ped_ns_walk := c, ped_ew_walk := d\<rparr> in if time_remaining s = 1 then next_phase t else t)"
    unfolding tick_normal_def count_down_eq [OF pos] lights p Let_def by simp
  then show thesis by (rule that)
qed

lemma tick_normal_clock:
  assumes inv: "local_inv s" and u: "\<not> train_pending s" "\<not> train_active s" "train_recovery_remaining s = 0"
    "\<not> coordination_pending s"
  shows "cycle_clock (tick_normal s) mod 44 = (cycle_clock s - 1) mod 44"
proof -
  obtain a b c e where eq: "tick_normal s =
    (let t = s\<lparr>time_remaining := time_remaining s - 1, ped_ns_request := a, ped_ew_request := b,
               ped_ns_walk := c, ped_ew_walk := e\<rparr>
     in if time_remaining s = 1 then next_phase t else t)"
    by (rule tick_normal_eq [OF assms])
  have ph: "phase s \<noteq> PHASE_RAILWAY_HOLD" using inv u by (auto simp: local_inv_def rail_ok_def)
  show ?thesis
  proof (cases "time_remaining s = 1")
    case False
    then show ?thesis using ph by (cases "phase s") (simp_all add: eq cycle_clock_def algebra_simps)
  next
    case True
    let ?t = "s\<lparr>time_remaining := 0, ped_ns_request := a, ped_ew_request := b,
              ped_ns_walk := c, ped_ew_walk := e\<rparr>"
    have base: "base_inv ?t" using local_invD(1) [OF inv] by simp
    have g: "initial_phase s = PHASE_NS_GREEN \<or> initial_phase s = PHASE_EW_GREEN"
      using local_inv_baseD(14) [OF inv] by (cases "initial_phase s") auto
    have pb: "10 + ped_extra_ew_green s \<le> plan_ns ?t \<and> plan_ns ?t \<le> 30 - ped_extra_ns_green s"
      using plan_bounds [OF base] local_invD(6) [OF inv] by (simp add: plan_ok_def)
    have v: "cycle_plan_valid ?t" using local_invD(2) [OF inv] by simp
    note sg = start_green_eq [OF v, of DIR_NS] start_green_eq [OF v, of DIR_EW]
    show ?thesis
      using True ph g local_invD(6) [OF inv] pb
      by (cases "phase s") (auto simp: eq next_phase_def cycle_clock_def sg [simplified] Let_def plan_ok_def clamp_id algebra_simps)
  qed
qed

text \<open>No part of a tick touches the two switches that decide about simulated trains.\<close>

definition same_links :: "local_state \<Rightarrow> local_state \<Rightarrow> bool" where
  "same_links s t \<longleftrightarrow> train_connected t = train_connected s \<and> sim_running t = sim_running s"

lemma same_links_basic [simp]:
  "same_links s s"
  "same_links s (mark_status_dirty_locked t) = same_links s t"
  "same_links s (draw_next_train t) = same_links s t"
  "same_links s (draw_next_car t) = same_links s t"
  "same_links s (set_phase_locked p d t) = same_links s t"
proof -
  show "same_links s (draw_next_train t) = same_links s t"
    by (rule draw_next_train_ex [of t]) (simp add: same_links_def)
  show "same_links s (draw_next_car t) = same_links s t"
    by (rule draw_next_car_ex [of t]) (simp add: same_links_def)
qed (simp_all add: same_links_def dirty_eq set_phase_eq Let_def)

lemma same_links_cars [simp]: 
  "same_links s (arrive_car t) = same_links s t" "same_links s (depart_cars t) = same_links s t"
  by (simp_all add: arrive_car_def depart_cars_def rand_c_def add_car_locked_def let_cars_pass_locked_def Let_def)
     (simp_all add: same_links_def)

lemma same_links_vehicles [simp]: 
  "same_links s (update_vehicle_counts_locked t) = same_links s t"
proof -
  have "same_links s (u\<lparr>next_car_in_seconds := n\<rparr>) = same_links s u" for u n
    by (simp add: same_links_def)
  then show ?thesis
    by (simp add: update_vehicle_counts_locked_def arrive_cars_def count_car_def Let_def)
qed

lemma same_links_settings [simp]:
  "same_links s (apply_time_settings_locked t) = same_links s t"
  by (simp add: apply_time_settings_locked_def) (simp add: same_links_def)

lemma same_links_temporary [simp]:
  "same_links s (update_temporary_mode_locked t) = same_links s t"
  by (simp add: update_temporary_mode_locked_def Let_def) (simp add: same_links_def)

lemma same_links_start_green [simp]: "same_links s (start_green p d t) = same_links s t"
  by (simp add: start_green_def next_green_time_for_direction_def local_plan_cycle_locked_def Let_def)
    (simp add: same_links_def)

lemma same_links_time_of_day:
  assumes "train_connected s \<or> \<not> sim_running s"
  shows "same_links s (update_time_of_day_locked s)"
proof -
  let ?s1 = "apply_time_settings_locked (s\<lparr>sim_seconds := c_mod (sim_seconds s + 1) 86400\<rparr>)"
  have l: "same_links s ?s1" by simp (simp add: same_links_def)
  then have "train_connected ?s1 = train_connected s" by (simp add: same_links_def)
  with assms l show ?thesis
    unfolding update_time_of_day_locked_def Let_def by auto
qed

lemma tick_normal_idle:
  assumes inv: "local_inv s" and idle: "\<not> train_pending s" "\<not> train_active s"
    "train_recovery_remaining s = 0" and nc: "\<not> coordination_pending s"
  shows "\<not> train_pending (tick_normal s) \<and> \<not> train_active (tick_normal s) \<and>
     train_recovery_remaining (tick_normal s) = 0 \<and> \<not> coordination_pending (tick_normal s) \<and>
     same_links s (tick_normal s)"
proof -
  obtain a b c e where eq: "tick_normal s =
    (let t = s\<lparr>time_remaining := time_remaining s - 1, ped_ns_request := a, ped_ew_request := b,
               ped_ns_walk := c, ped_ew_walk := e\<rparr>
     in if time_remaining s = 1 then next_phase t else t)"
    by (rule tick_normal_eq [OF assms])
  have n: "same_links s (next_phase t) = same_links s t" for t
    by (simp add: next_phase_def split: phase_t.split)
  have "same_links s (tick_normal s)" by (simp add: eq Let_def n) (simp add: same_links_def)
  moreover have "\<not> train_pending (tick_normal s) \<and> \<not> train_active (tick_normal s) \<and>
     train_recovery_remaining (tick_normal s) = 0 \<and> \<not> coordination_pending (tick_normal s)"
    using idle nc by (simp add: eq Let_def next_phase_def start_green_def
        next_green_time_for_direction_def local_plan_cycle_locked_def split: phase_t.split)
  ultimately show ?thesis by simp
qed

text \<open>An undisturbed tick is a normal tick on a state with the same lamps.\<close>

lemma undisturbed_tick:
  assumes inv: "local_inv s" and u: "undisturbed s"
  obtains t where "local_inv t" "same_lamps s t" "undisturbed t"
    "same_lamps (tick_normal t) (core_tick False s)" "undisturbed (core_tick False s)"
proof -
  let ?t = "update_temporary_mode_locked (update_time_of_day_locked s)"
  have sl: "train_connected s \<or> \<not> sim_running s" using u by (simp add: undisturbed_def)
  have l: "same_lamps s ?t"
    using sl by (simp only: same_lamps_steps) (rule time_of_day_lamps, blast)
  have k: "same_links s ?t" using same_links_time_of_day [OF sl] by simp
  have i: "local_inv ?t" by (intro update_temporary_mode_inv update_time_of_day_inv inv)
  have ut: "undisturbed ?t" using u l k by (simp add: undisturbed_def same_lamps_def same_links_def)
  have tt: "traffic_tick_locked ?t = tick_normal ?t"
    using ut by (intro tick_dispatch(4) [OF i]) (simp_all add: undisturbed_def)
  have c: "core_tick False s = mark_status_dirty_locked (update_vehicle_counts_locked (tick_normal ?t))"
    by (simp add: core_tick_def tt)
  have a: "same_lamps (tick_normal ?t) (core_tick False s)" by (simp add: c)
  have "same_links (tick_normal ?t) (core_tick False s)" by (simp add: c)
  with a tick_normal_idle [OF i] ut have "undisturbed (core_tick False s)"
    by (simp add: undisturbed_def same_lamps_def same_links_def)
  with i l ut a show thesis by (rule that)
qed

lemma core_tick_clock:
  assumes inv: "local_inv s" and u: "undisturbed s"
  shows "cycle_clock (core_tick False s) mod 44 = (cycle_clock s - 1) mod 44"
proof -
  obtain t where t: "local_inv t" "same_lamps s t" "undisturbed t"
    "same_lamps (tick_normal t) (core_tick False s)" "undisturbed (core_tick False s)"
    by (rule undisturbed_tick [OF assms])
  then show ?thesis
    using tick_normal_clock [OF t(1)] same_lamps_clock [OF t(2)] same_lamps_clock [OF t(4)]
    by (simp add: undisturbed_def)
qed

lemma undisturbed_run:
  "local_inv s \<Longrightarrow> undisturbed s \<Longrightarrow>
     local_inv ((core_tick False ^^ n) s) \<and> undisturbed ((core_tick False ^^ n) s)"
  by (induction n) (auto intro: core_tick_inv undisturbed_tick)

text \<open>C13: In undisturbed operation \<open>n\<close> ticks take exactly \<open>n\<close> seconds off the cycle clock modulo
  the 44-second cycle, whatever the sensors, the modes and the pedestrian service do: sensor and
  pedestrian adjustments of the greens always cancel out.\<close>

theorem cycle_is_conserved:
  assumes inv: "local_inv s" and u: "undisturbed s"
  shows "cycle_clock ((core_tick False ^^ n) s) mod 44 = (cycle_clock s - int n) mod 44"
proof (induction n)
  case (Suc n)
  let ?t = "(core_tick False ^^ n) s"
  have "cycle_clock (core_tick False ?t) mod 44 = (cycle_clock ?t - 1) mod 44"
    using undisturbed_run [OF assms] by (intro core_tick_clock) auto
  also have "\<dots> = (cycle_clock s - int n - 1) mod 44"
    using Suc by (metis mod_diff_left_eq)
  finally show ?case by (simp add: algebra_simps)
qed simp


theorem cycle_is_conserved_witness:
  "cycle_clock ((core_tick False ^^ 100) demo_start) mod 44 = (cycle_clock demo_start - int 100) mod 44"
  by (rule cycle_is_conserved [OF demo_start_inv]) code_simp

text \<open>A pedestrian request never changes the place in the cycle: the seconds it takes off
  the running green are given to the next green of the road it crosses.\<close>

theorem pedestrian_keeps_cycle:
  "cycle_clock (add_pedestrian_request_locked d s) = cycle_clock s"
proof -
  have dirty: "cycle_clock (mark_status_dirty_locked u) = cycle_clock u" for u
    by (rule same_lamps_clock) simp
  have req: "cycle_clock (u\<lparr>ped_ns_request := b\<rparr>) = cycle_clock u \<and>
      cycle_clock (u\<lparr>ped_ew_request := b\<rparr>) = cycle_clock u" for u b
    by (intro conjI same_lamps_clock) (simp_all add: same_lamps_def)
  have "cycle_clock (cap_green_for_pedestrian_locked d u) = cycle_clock u" for u
    by (cases d; cases "phase u")
      (simp_all add: cap_green_for_pedestrian_locked_def pedestrian_service_phase_def
        cycle_clock_def Let_def)
  with dirty req show ?thesis by (simp add: add_pedestrian_request_locked_def Let_def)
qed

section \<open>Every road is served\<close>

text \<open>An upper bound on the ticks to the next green of \<open>d\<close>.\<close>

definition wait_bound :: "direction_t \<Rightarrow> local_state \<Rightarrow> int" where
  "wait_bound d s =
     (if phase s = green_of d then 0
      else if phase s = yellow_of d then time_remaining s + GREEN_MAX_SEC + YELLOW_SEC
      else if phase s = green_of (opposite d) then time_remaining s + YELLOW_SEC
      else time_remaining s)"

lemma start_green_sel:
  "phase (start_green p d s) = p"
  "time_remaining (start_green p d s) \<le> GREEN_MAX_SEC"
  using clamp_bounds by (simp_all add: start_green_def next_green_time_for_direction_def Let_def)

lemma tick_normal_wait:
  assumes inv: "local_inv s" and idle: "\<not> train_pending s" "\<not> train_active s"
    "train_recovery_remaining s = 0" and nc: "\<not> coordination_pending s"
    and w: "phase s \<noteq> green_of d"
  shows "wait_bound d (tick_normal s) < wait_bound d s"
proof -
  obtain a b c e where eq: "tick_normal s =
    (let t = s\<lparr>time_remaining := time_remaining s - 1, ped_ns_request := a, ped_ew_request := b,
               ped_ns_walk := c, ped_ew_walk := e\<rparr>
     in if time_remaining s = 1 then next_phase t else t)"
    by (rule tick_normal_eq [OF inv idle nc])
  have ph: "phase s \<noteq> PHASE_RAILWAY_HOLD" and pos: "1 \<le> time_remaining s" using inv idle by (auto simp: local_inv_def rail_ok_def time_ok_def)
  have lt: "time_remaining (start_green p x u) < 31" for p x u
    using start_green_sel(2) [of p x u] by linarith
  show ?thesis using w ph pos
    by (cases d; cases "phase s")
      (simp_all add: eq Let_def next_phase_def wait_bound_def start_green_sel(1) lt)
qed

lemma wait_bound_range: "local_inv s \<Longrightarrow> phase s \<noteq> PHASE_RAILWAY_HOLD \<Longrightarrow> 0 \<le> wait_bound d s \<and> wait_bound d s \<le> 34"
  using local_invD(7) [of s] by (cases d; cases "phase s") (auto simp: wait_bound_def time_ok_def)

lemma same_lamps_wait: "same_lamps s t \<Longrightarrow> wait_bound d t = wait_bound d s"
  by (simp add: wait_bound_def same_lamps_def)

lemma served_within:
  assumes "local_inv s" "undisturbed s" "wait_bound d s \<le> int k"
  shows "\<exists>n \<le> k. phase ((core_tick False ^^ n) s) = green_of d"
  using assms
proof (induction k arbitrary: s)
  case 0
  then have "phase s = green_of d"
    using local_invD(3,7) [OF 0(1)]  by (cases d; cases "phase s") (auto simp: wait_bound_def time_ok_def undisturbed_def rail_ok_def)
  then show ?case by auto
next
  case (Suc k)
  show ?case
  proof (cases "phase s = green_of d")
    case True
    then show ?thesis by (intro exI [of _ 0]) simp
  next
    case False
    obtain t where t: "local_inv t" "same_lamps s t" "undisturbed t"
      "same_lamps (tick_normal t) (core_tick False s)" "undisturbed (core_tick False s)"
      by (rule undisturbed_tick [OF Suc.prems(1,2)])
    have "wait_bound d (tick_normal t) < wait_bound d t"
      using t False by (intro tick_normal_wait) (auto simp: undisturbed_def same_lamps_def)
    then have "wait_bound d (core_tick False s) \<le> int k"
      using Suc.prems(3) same_lamps_wait [OF t(2)] same_lamps_wait [OF t(4)] by simp
    then obtain n where "n \<le> k" "phase ((core_tick False ^^ n) (core_tick False s)) = green_of d"
      using Suc.IH core_tick_inv [OF Suc.prems(1)] t(5) by blast
    then show ?thesis by (intro exI [of _ "Suc n"]) (simp add: funpow_swap1)
  qed
qed

text \<open>C14: In undisturbed operation every road has a green within 34 ticks from any reachable state.\<close>

theorem every_road_served:
  assumes "local_inv s" "undisturbed s"
  shows "\<exists>n \<le> 34. phase ((core_tick False ^^ n) s) = green_of d"
proof -
  have "phase s \<noteq> PHASE_RAILWAY_HOLD"
    using local_invD(3) [OF assms(1)] assms(2) by (auto simp: rail_ok_def undisturbed_def)
  then show ?thesis using wait_bound_range [OF assms(1)] by (intro served_within assms) simp
qed


theorem every_road_served_witness:
  "\<exists>n \<le> 34. phase ((core_tick False ^^ n) demo_start) = green_of DIR_NS"
  by (rule every_road_served [OF demo_start_inv]) code_simp

section \<open>Coordination\<close>

text \<open>C16: A pending coordination command is adopted at the end of the running yellow: the lamps
  are then exactly where the fixed cycle that starts with the commanded phase is at the commanded
  offset, with the seconds that remain of it.\<close>

theorem coordination_adopted:
  assumes inv: "local_inv s" and idle: "\<not> train_pending s" and c: "coordination_pending s"
    and y: "is_yellow (phase s)" and last: "time_remaining s = 1"
  shows "(phase (traffic_tick_locked s), time_remaining (traffic_tick_locked s)) =
      coordination_schedule (coordination_phase s) (coordination_offset_sec s) \<and>
    \<not> coordination_pending (traffic_tick_locked s)"
proof -
  have rest: "\<not> train_active s" "train_recovery_remaining s = 0"
    using local_invD(3) [OF inv] y by (auto simp: rail_ok_def)
  have pos: "0 < time_remaining s" using last by simp
  let ?c = "s\<lparr>time_remaining := time_remaining s - 1\<rparr>"
  have lights: "update_lights_locked ?c = ?c"
    by (rule update_lights_id [where r = "time_remaining s" and d = "phase_duration s"])
      (use inv in \<open>simp_all add: local_inv_def\<close>)
  obtain a b e d where p: "update_pedestrian_locked ?c = ?c\<lparr>ped_ns_request := a,
      ped_ew_request := b, ped_ns_walk := e, ped_ew_walk := d\<rparr>"
    by (rule update_pedestrian_ex)
  let ?t = "?c\<lparr>ped_ns_request := a, ped_ew_request := b, ped_ns_walk := e, ped_ew_walk := d\<rparr>"
  have base: "base_inv ?t" using local_invD(1) [OF inv] by simp
  have y': "phase s = PHASE_NS_YELLOW \<or> phase s = PHASE_EW_YELLOW" using y by (cases "phase s") auto
  have "tick_normal s = advance_phase_locked ?t"
    unfolding tick_normal_def count_down_eq [OF pos] lights p Let_def using last by simp
  also have "\<dots> = (set_coordination_phase_locked (coordination_phase s) (coordination_offset_sec s) ?t)
      \<lparr>coordination_pending := False\<rparr>"
    using c y' by (simp add: advance_phase_locked_def)
  finally show ?thesis
    using tick_dispatch(4) [OF inv idle rest] local_inv_baseD(12,13) [OF inv]
    by (simp add: set_coordination_eq [OF base] split_beta Let_def)
qed
theorem coordination_adopted_witness:
  "(phase (traffic_tick_locked
      (demo_start\<lparr>phase := PHASE_EW_YELLOW, ns_light := LIGHT_RED, ew_light := LIGHT_YELLOW,
         time_remaining := 1, phase_duration := 2, coordination_pending := True,
         coordination_offset_sec := 25\<rparr>)),
    time_remaining (traffic_tick_locked
      (demo_start\<lparr>phase := PHASE_EW_YELLOW, ns_light := LIGHT_RED, ew_light := LIGHT_YELLOW,
         time_remaining := 1, phase_duration := 2, coordination_pending := True,
         coordination_offset_sec := 25\<rparr>))) = (PHASE_EW_GREEN, 17)"
proof -
  let ?s = "demo_start\<lparr>phase := PHASE_EW_YELLOW, ns_light := LIGHT_RED, ew_light := LIGHT_YELLOW,
      time_remaining := 1, phase_duration := 2, coordination_pending := True,
      coordination_offset_sec := 25\<rparr>"
  have "local_inv ?s" "\<not> train_pending ?s" by code_simp+
  moreover have "coordination_schedule (coordination_phase ?s) (coordination_offset_sec ?s) =
      (PHASE_EW_GREEN, 17)" by code_simp
  ultimately show ?thesis using coordination_adopted [of ?s] by simp
qed

end
