(* ===== verification/Local_Place.thy ===== *)
theory Local_Place
  imports Local_Safety
begin

text \<open>
  No operation of a Local controller changes the number of its intersection. Which commands and which trains
  concern it is fixed at start-up.
\<close>

section \<open>A Local stays where it is\<close>

named_theorems place \<open>operations that keep the number of the intersection\<close>

lemma place_mark_status_dirty_locked [place]: "intersection_id (mark_status_dirty_locked s) = intersection_id s"
  by (simp add: mark_status_dirty_locked_def Let_def split_beta place split: phase_t.split)

lemma place_set_fault_locked [place]: "intersection_id (set_fault_locked ty sev d s) = intersection_id s"
  by (simp add: set_fault_locked_def Let_def split_beta place split: phase_t.split)

lemma place_clear_fault_locked [place]: "intersection_id (clear_fault_locked s) = intersection_id s"
  by (simp add: clear_fault_locked_def Let_def split_beta place split: phase_t.split)

lemma place_draw_next_train [place]: "intersection_id (draw_next_train s) = intersection_id s"
  by (simp add: draw_next_train_def random_train_gap_seconds_def random_train_direction_def rand_c_def Let_def split_beta place split: phase_t.split)

lemma place_draw_next_car [place]: "intersection_id (draw_next_car s) = intersection_id s"
  by (simp add: draw_next_car_def random_car_gap_seconds_def rand_c_def Let_def split_beta place split: phase_t.split)

lemma place_local_plan_cycle_locked [place]: "intersection_id (local_plan_cycle_locked s) = intersection_id s"
  by (simp add: local_plan_cycle_locked_def Let_def split_beta place split: phase_t.split)

lemma place_update_lights_locked [place]: "intersection_id (update_lights_locked s) = intersection_id s"
  by (simp add: update_lights_locked_def Let_def split_beta place split: phase_t.split)

lemma place_set_phase_locked [place]: "intersection_id (set_phase_locked p d s) = intersection_id s"
  by (simp add: set_phase_locked_def Let_def split_beta place split: phase_t.split)

lemma place_start_green [place]: "intersection_id (start_green p d s) = intersection_id s"
  by (simp add: start_green_def next_green_time_for_direction_def Let_def split_beta place split: phase_t.split)

lemma place_set_initial_phase_locked [place]: "intersection_id (set_initial_phase_locked s) = intersection_id s"
  by (simp add: set_initial_phase_locked_def Let_def split_beta place split: phase_t.split)

lemma place_set_coordination_phase_locked [place]: "intersection_id (set_coordination_phase_locked p d s) = intersection_id s"
  by (simp add: set_coordination_phase_locked_def Let_def split_beta place split: phase_t.split)

lemma place_advance_phase_locked [place]: "intersection_id (advance_phase_locked s) = intersection_id s"
  by (simp add: advance_phase_locked_def Let_def split_beta place split: phase_t.split)

lemma place_update_pedestrian_locked [place]: "intersection_id (update_pedestrian_locked s) = intersection_id s"
  by (simp add: update_pedestrian_locked_def Let_def split_beta place split: phase_t.split)

lemma place_cap_green_for_pedestrian_locked [place]: "intersection_id (cap_green_for_pedestrian_locked d s) = intersection_id s"
  by (simp add: cap_green_for_pedestrian_locked_def Let_def split_beta place split: phase_t.split)

lemma place_add_pedestrian_request_locked [place]: "intersection_id (add_pedestrian_request_locked d s) = intersection_id s"
  by (simp add: add_pedestrian_request_locked_def Let_def split_beta place split: phase_t.split)

lemma place_start_train_common_locked [place]: "intersection_id (start_train_common_locked d w e s) = intersection_id s"
  by (simp add: start_train_common_locked_def Let_def split_beta place split: phase_t.split)

lemma place_start_train_locked [place]: "intersection_id (start_train_locked d s) = intersection_id s"
  by (simp add: start_train_locked_def Let_def split_beta place split: phase_t.split)

lemma place_start_train_message_locked [place]: "intersection_id (start_train_message_locked d e s) = intersection_id s"
  by (simp add: start_train_message_locked_def Let_def split_beta place split: phase_t.split)

lemma place_clear_train_locked [place]: "intersection_id (clear_train_locked s) = intersection_id s"
  by (simp add: clear_train_locked_def Let_def split_beta place split: phase_t.split)

lemma place_tick_conflict [place]: "intersection_id (tick_conflict s) = intersection_id s"
  by (simp add: tick_conflict_def Let_def split_beta place split: phase_t.split)

lemma place_tick_failsafe [place]: "intersection_id (tick_failsafe s) = intersection_id s"
  by (simp add: tick_failsafe_def Let_def split_beta place split: phase_t.split)

lemma place_count_down [place]: "intersection_id (count_down s) = intersection_id s"
  by (simp add: count_down_def Let_def split_beta place split: phase_t.split)

lemma place_count_train [place]: "intersection_id (count_train s) = intersection_id s"
  by (simp add: count_train_def Let_def split_beta place split: phase_t.split)

lemma place_tick_pending [place]: "intersection_id (tick_pending s) = intersection_id s"
  by (simp add: tick_pending_def Let_def split_beta place split: phase_t.split)

lemma place_tick_active [place]: "intersection_id (tick_active s) = intersection_id s"
  by (simp add: tick_active_def Let_def split_beta place split: phase_t.split)

lemma place_tick_recovery [place]: "intersection_id (tick_recovery s) = intersection_id s"
  by (simp add: tick_recovery_def Let_def split_beta place split: phase_t.split)

lemma place_tick_normal [place]: "intersection_id (tick_normal s) = intersection_id s"
  by (simp add: tick_normal_def Let_def split_beta place split: phase_t.split)

lemma place_traffic_tick_locked [place]: "intersection_id (traffic_tick_locked s) = intersection_id s"
  by (simp add: traffic_tick_locked_def Let_def split_beta place split: phase_t.split)

lemma place_add_car_locked [place]: "intersection_id (add_car_locked d s) = intersection_id s"
  by (simp add: add_car_locked_def Let_def split_beta place split: phase_t.split)

lemma place_let_cars_pass_locked [place]: "intersection_id (let_cars_pass_locked d s) = intersection_id s"
  by (simp add: let_cars_pass_locked_def Let_def split_beta place split: phase_t.split)

lemma place_apply_time_settings_locked [place]: "intersection_id (apply_time_settings_locked s) = intersection_id s"
  by (simp add: apply_time_settings_locked_def Let_def split_beta place split: phase_t.split)

lemma place_update_temporary_mode_locked [place]: "intersection_id (update_temporary_mode_locked s) = intersection_id s"
  by (simp add: update_temporary_mode_locked_def Let_def split_beta place split: phase_t.split)

lemma place_depart_cars [place]: "intersection_id (depart_cars s) = intersection_id s"
  by (simp add: depart_cars_def Let_def split_beta place split: phase_t.split)

lemma place_arrive_car [place]: "intersection_id (arrive_car s) = intersection_id s"
  by (simp add: arrive_car_def rand_c_def Let_def split_beta place split: phase_t.split)

lemma place_count_car [place]: "intersection_id (count_car s) = intersection_id s"
  by (simp add: count_car_def Let_def split_beta place split: phase_t.split)

lemma place_arrive_cars [place]: "intersection_id (arrive_cars s) = intersection_id s"
  by (simp add: arrive_cars_def Let_def split_beta place split: phase_t.split)

lemma place_update_vehicle_counts_locked [place]: "intersection_id (update_vehicle_counts_locked s) = intersection_id s"
  by (simp add: update_vehicle_counts_locked_def Let_def split_beta place split: phase_t.split)

lemma place_update_time_of_day_locked [place]: "intersection_id (update_time_of_day_locked s) = intersection_id s"
  by (simp add: update_time_of_day_locked_def Let_def split_beta place split: phase_t.split)

lemma place_set_sim_seconds_locked [place]: "intersection_id (set_sim_seconds_locked x s) = intersection_id s"
  by (simp add: set_sim_seconds_locked_def Let_def split_beta place split: phase_t.split)

lemma place_set_sim_hour_locked [place]: "intersection_id (set_sim_hour_locked x s) = intersection_id s"
  by (simp add: set_sim_hour_locked_def Let_def split_beta place split: phase_t.split)

lemma place_set_sim_minute_locked [place]: "intersection_id (set_sim_minute_locked x s) = intersection_id s"
  by (simp add: set_sim_minute_locked_def Let_def split_beta place split: phase_t.split)

lemma place_toggle_sensor_locked [place]: "intersection_id (toggle_sensor_locked d s) = intersection_id s"
  by (simp add: toggle_sensor_locked_def Let_def split_beta place split: phase_t.split)

lemma place_reset_demo_inputs_locked [place]: "intersection_id (reset_demo_inputs_locked s) = intersection_id s"
  by (simp add: reset_demo_inputs_locked_def Let_def split_beta place split: phase_t.split)

lemma place_core_tick [place]: "intersection_id (core_tick e s) = intersection_id s"
  by (simp add: core_tick_def Let_def split_beta place split: phase_t.split)

lemma place_stamp_train [place]: "intersection_id (stamp_train now m s) = intersection_id s"
  by (simp add: stamp_train_def Let_def split_beta place split: phase_t.split)

lemma place_stamp_central [place]: "intersection_id (stamp_central now m s) = intersection_id s"
  by (simp add: stamp_central_def Let_def split_beta place split: phase_t.split)

lemma place_mode: "apply_mode_action c s = Some s' \<Longrightarrow> intersection_id s' = intersection_id s"
  by (auto simp: apply_mode_action_def Let_def place split: if_splits)

lemma place_handle_simulation_message [place]: "intersection_id (snd (handle_simulation_message now m r s)) = intersection_id s"
  by (auto simp: handle_simulation_message_def Let_def place dest: place_mode split: option.split)

lemma place_handle_test_message [place]: "intersection_id (snd (handle_test_message now m r s)) = intersection_id s"
  by (auto simp: handle_test_message_def Let_def place dest: place_mode split: option.split)

lemma place_handle_mode_command [place]: "intersection_id (snd (handle_mode_command now m r s)) = intersection_id s"
  by (auto simp: handle_mode_command_def Let_def place dest: place_mode split: option.split)

lemma place_handle_coordination_command [place]: "intersection_id (snd (handle_coordination_command now m r s)) = intersection_id s"
  by (auto simp: handle_coordination_command_def Let_def place dest: place_mode split: option.split)

lemma place_handle_sensor_update [place]: "intersection_id (snd (handle_sensor_update now m r s)) = intersection_id s"
  by (auto simp: handle_sensor_update_def Let_def place dest: place_mode split: option.split)

lemma place_handle_ped_request [place]: "intersection_id (snd (handle_ped_request now m r s)) = intersection_id s"
  by (auto simp: handle_ped_request_def Let_def place dest: place_mode split: option.split)

lemma place_handle_railway_message [place]: "intersection_id (snd (handle_railway_message now m r s)) = intersection_id s"
  by (auto simp: handle_railway_message_def Let_def place dest: place_mode split: option.split)

lemma place_dispatch: "intersection_id (snd (snd (local_dispatch_message now m s))) = intersection_id s"
proof -
  have all: "\<forall>e \<in> set local_handlers. \<forall>now m r s. intersection_id (snd (snd (snd e) now m r s)) = intersection_id s"
    by (simp add: local_handlers_def place)
  show ?thesis
  proof (cases "find (handler_matches (header m)) local_handlers")
    case (Some e)
    then have "e \<in> set local_handlers" by (auto simp: find_Some_iff)
    with all Some show ?thesis by (simp add: local_dispatch_message_def Let_def)
  qed (simp add: local_dispatch_message_def Let_def)
qed

lemma place_input: "intersection_id (snd (execute_command c s)) = intersection_id s"
  by (simp add: execute_command_def Let_def place)

lemma place_event: "intersection_id (local_event_step e s) = intersection_id s"
  by (cases e) (simp_all add: place place_dispatch place_input)

lemma place_run: "intersection_id (fold local_event_step es s) = intersection_id s"
  by (induction es arbitrary: s) (simp_all add: place_event)

end
