(* ===== verification/Crossing.thy ===== *)
theory Crossing
  imports Protocol
begin

text \<open>
  The level-crossing state machine of the Train controller: \<^verbatim>\<open>crossing/crossing.c\<close>,
  \<^verbatim>\<open>crossing.h\<close> and the timing constants of \<^verbatim>\<open>crossing_config.h\<close>. A call of a
  callback of \<open>cx_ops_t\<close> is an output: the crossing as it is at the call, and the operation with
  its arguments. The code never looks at what a callback does, so a handler returns the new
  crossing and the outputs in call order; whoever owns the crossing carries them out.
\<close>

section \<open>Types\<close>

abbreviation (input) GATE_CLOSE_DELAY_SEC :: int where "GATE_CLOSE_DELAY_SEC \<equiv> 5"
abbreviation (input) GATE_MOVE_SEC :: int where "GATE_MOVE_SEC \<equiv> 3"
abbreviation (input) GATE_CLOSE_TIMEOUT_SEC :: int where "GATE_CLOSE_TIMEOUT_SEC \<equiv> 10"
abbreviation (input) GATE_OPEN_TIMEOUT_SEC :: int where "GATE_OPEN_TIMEOUT_SEC \<equiv> 10"
abbreviation (input) TRAIN_TIMEOUT_SEC :: int where "TRAIN_TIMEOUT_SEC \<equiv> 60"

datatype cx_dir = CX_TRACK_UP | CX_TRACK_DOWN

datatype cx_track_state = CX_TRACK_NONE | CX_TRACK_APPROACHING | CX_TRACK_ON_CROSSING
  | CX_TRACK_CLEARED

datatype cx_fault = CX_FAULT_NONE | CX_FAULT_GATE_CLOSE_TIMEOUT | CX_FAULT_GATE_OPEN_TIMEOUT
  | CX_FAULT_GATE_UNEXPECTED | CX_FAULT_TRAIN_TIMEOUT | CX_FAULT_TRAIN_EARLY | CX_FAULT_INJECTED

datatype gate_command = GATE_CMD_CLOSE | GATE_CMD_OPEN

datatype timer_id = TIMER_GATE_CLOSE_DELAY | TIMER_GATE_CLOSE_TIMEOUT | TIMER_GATE_OPEN_TIMEOUT
  | TIMER_TRAIN_TIMEOUT_UP | TIMER_TRAIN_TIMEOUT_DOWN

definition all_timers :: "timer_id list" where
  "all_timers = [TIMER_GATE_CLOSE_DELAY, TIMER_GATE_CLOSE_TIMEOUT, TIMER_GATE_OPEN_TIMEOUT,
     TIMER_TRAIN_TIMEOUT_UP, TIMER_TRAIN_TIMEOUT_DOWN]"

fun train_timeout_timer :: "cx_dir \<Rightarrow> timer_id" where
  "train_timeout_timer CX_TRACK_DOWN = TIMER_TRAIN_TIMEOUT_DOWN"
| "train_timeout_timer CX_TRACK_UP = TIMER_TRAIN_TIMEOUT_UP"

text \<open>An event carries the arguments it uses of \<open>dir\<close> and \<open>timer_gen\<close>; a timer event has
  its timer in \<open>dir\<close>.\<close>

datatype crossing_event = CX_EVENT_TRAIN_APPROACH cx_dir | CX_EVENT_TRAIN_ENTER cx_dir
  | CX_EVENT_TRAIN_EXIT cx_dir | CX_EVENT_GATE_CLOSED | CX_EVENT_GATE_OPENED
  | CX_EVENT_TIMER timer_id u32 | CX_EVENT_INJECT_FAULT | CX_EVENT_RESET_FAULT

record crossing =
  cx_id :: u8
  cx_name :: string
  local_id_1 :: u8
  local_id_2 :: u8
  track_up :: cx_track_state
  track_down :: cx_track_state
  gate :: gate_state
  flash_on :: bool
  fault :: cx_fault
  reset_pending :: bool
  close_delay_pending :: bool
  timer_gen :: "timer_id \<Rightarrow> u32"
  preempt_time :: string
  clear_time :: string

datatype cx_output = Gate_Command gate_command | Set_Flash bool | Send_Preempt | Send_Clear
  | Fault_Alert cx_fault | Start_Timer timer_id int | Cancel_Timer timer_id | State_Changed

type_synonym cx_call = "crossing \<times> cx_output"
type_synonym cx_result = "crossing \<times> cx_call list"

section \<open>Tracks and timers\<close>

fun track :: "cx_dir \<Rightarrow> crossing \<Rightarrow> cx_track_state" where
  "track CX_TRACK_UP c = track_up c"
| "track CX_TRACK_DOWN c = track_down c"

fun set_track :: "cx_dir \<Rightarrow> cx_track_state \<Rightarrow> crossing \<Rightarrow> crossing" where
  "set_track CX_TRACK_UP t c = c\<lparr>track_up := t\<rparr>"
| "set_track CX_TRACK_DOWN t c = c\<lparr>track_down := t\<rparr>"

definition bump_gen :: "timer_id \<Rightarrow> crossing \<Rightarrow> crossing" where
  "bump_gen t c = c\<lparr>timer_gen := (timer_gen c)(t := timer_gen c t + 1)\<rparr>"

definition crossing_init :: "u8 \<Rightarrow> string \<Rightarrow> u8 \<Rightarrow> u8 \<Rightarrow> crossing" where
  "crossing_init i name l1 l2 =
     \<lparr>cx_id = i, cx_name = copy_text 3 name, local_id_1 = l1, local_id_2 = l2,
      track_up = CX_TRACK_NONE, track_down = CX_TRACK_NONE, gate = GATE_OPEN, flash_on = False,
      fault = CX_FAULT_NONE, reset_pending = False, close_delay_pending = False,
      timer_gen = (\<lambda>_. 0), preempt_time = [], clear_time = []\<rparr>"

definition track_clear :: "cx_track_state \<Rightarrow> bool" where
  "track_clear t \<longleftrightarrow> t = CX_TRACK_NONE \<or> t = CX_TRACK_CLEARED"

definition crossing_both_tracks_clear :: "crossing \<Rightarrow> bool" where
  "crossing_both_tracks_clear c \<longleftrightarrow> track_clear (track_up c) \<and> track_clear (track_down c)"

definition crossing_any_fault :: "crossing list \<Rightarrow> bool" where
  "crossing_any_fault cs \<longleftrightarrow> (\<exists>c \<in> set cs. fault c \<noteq> CX_FAULT_NONE)"

section \<open>Fault and gate sequences\<close>

text \<open>The loop of \<open>enter_fault\<close> over the timers.\<close>

fun cancel_timers :: "timer_id list \<Rightarrow> crossing \<Rightarrow> cx_result" where
  "cancel_timers [] c = (c, [])"
| "cancel_timers (t # ts) c =
     (let c1 = bump_gen t c; (c2, outs) = cancel_timers ts c1
      in (c2, (c1, Cancel_Timer t) # outs))"

definition enter_fault :: "cx_fault \<Rightarrow> crossing \<Rightarrow> cx_result" where
  "enter_fault f c =
     (let c1 = c\<lparr>fault := f, gate := GATE_FAULT, close_delay_pending := False\<rparr>;
          c2 = c1\<lparr>flash_on := True\<rparr>;
          o1 = (if flash_on c1 then [] else [(c2, Set_Flash True)]);
          (c3, o2) = cancel_timers all_timers c2
      in (c3, o1 @ o2 @ [(c3, Fault_Alert f), (c3, State_Changed)]))"

definition start_gate_close :: "crossing \<Rightarrow> cx_result" where
  "start_gate_close c =
     (if gate c = GATE_OPEN \<or> gate c = GATE_OPENING then
        let c1 = (if gate c = GATE_OPENING then bump_gen TIMER_GATE_OPEN_TIMEOUT c else c);
            o1 = (if gate c = GATE_OPENING then [(c1, Cancel_Timer TIMER_GATE_OPEN_TIMEOUT)] else []);
            c2 = c1\<lparr>gate := GATE_CLOSING, close_delay_pending := False\<rparr>;
            c3 = bump_gen TIMER_GATE_CLOSE_TIMEOUT c2
        in (c3, o1 @ [(c2, Gate_Command GATE_CMD_CLOSE),
                      (c3, Start_Timer TIMER_GATE_CLOSE_TIMEOUT GATE_CLOSE_TIMEOUT_SEC),
                      (c3, State_Changed)])
      else (c, []))"

definition start_gate_open :: "crossing \<Rightarrow> cx_result" where
  "start_gate_open c =
     (if gate c = GATE_CLOSED \<or> gate c = GATE_CLOSING then
        let c1 = bump_gen TIMER_GATE_CLOSE_TIMEOUT
                   (bump_gen TIMER_GATE_CLOSE_DELAY
                     (c\<lparr>gate := GATE_OPENING, close_delay_pending := False\<rparr>));
            c2 = bump_gen TIMER_GATE_OPEN_TIMEOUT c1
        in (c2, [(c1, Cancel_Timer TIMER_GATE_CLOSE_DELAY),
                 (c1, Cancel_Timer TIMER_GATE_CLOSE_TIMEOUT),
                 (c1, Gate_Command GATE_CMD_OPEN),
                 (c2, Start_Timer TIMER_GATE_OPEN_TIMEOUT GATE_OPEN_TIMEOUT_SEC),
                 (c2, State_Changed)])
      else (c, []))"

section \<open>Events\<close>

definition on_approach :: "string \<Rightarrow> cx_dir \<Rightarrow> crossing \<Rightarrow> cx_result" where
  "on_approach now d c =
     (if track d c = CX_TRACK_NONE then
        let c1 = set_track d CX_TRACK_APPROACHING c;
            c2 = c1\<lparr>flash_on := True\<rparr>;
            o1 = (if flash_on c1 then [] else [(c2, Set_Flash True)]);
            c3 = c2\<lparr>preempt_time := now\<rparr>;
            (c4, o2) =
              (if gate c3 = GATE_OPEN \<and> \<not> close_delay_pending c3 then
                 let c' = bump_gen TIMER_GATE_CLOSE_DELAY (c3\<lparr>close_delay_pending := True\<rparr>)
                 in (c', [(c', Start_Timer TIMER_GATE_CLOSE_DELAY GATE_CLOSE_DELAY_SEC)])
               else if gate c3 = GATE_OPENING then start_gate_close c3
               else (c3, []))
        in (c4, o1 @ [(c2, Send_Preempt)] @ o2 @ [(c4, State_Changed)])
      else (c, []))"

definition on_enter :: "cx_dir \<Rightarrow> crossing \<Rightarrow> cx_result" where
  "on_enter d c =
     (if track d c = CX_TRACK_APPROACHING then
        if gate c \<noteq> GATE_CLOSED then enter_fault CX_FAULT_TRAIN_EARLY c
        else
          let c1 = bump_gen (train_timeout_timer d) (set_track d CX_TRACK_ON_CROSSING c)
          in (c1, [(c1, Start_Timer (train_timeout_timer d) TRAIN_TIMEOUT_SEC), (c1, State_Changed)])
      else (c, []))"

definition clear_cleared :: "crossing \<Rightarrow> crossing" where
  "clear_cleared c =
     (let c1 = (if track_up c = CX_TRACK_CLEARED then c\<lparr>track_up := CX_TRACK_NONE\<rparr> else c)
      in if track_down c1 = CX_TRACK_CLEARED then c1\<lparr>track_down := CX_TRACK_NONE\<rparr> else c1)"

definition on_exit :: "cx_dir \<Rightarrow> crossing \<Rightarrow> cx_result" where
  "on_exit d c =
     (if track d c = CX_TRACK_ON_CROSSING then
        let c1 = bump_gen (train_timeout_timer d) (set_track d CX_TRACK_CLEARED c);
            o1 = [(c1, Cancel_Timer (train_timeout_timer d))];
            (c2, o2) = (if crossing_both_tracks_clear c1 then start_gate_open (clear_cleared c1)
                        else (c1, []))
        in (c2, o1 @ o2 @ [(c2, State_Changed)])
      else (c, []))"

definition on_gate_closed :: "crossing \<Rightarrow> cx_result" where
  "on_gate_closed c =
     (if gate c = GATE_CLOSING then
        let c1 = bump_gen TIMER_GATE_CLOSE_TIMEOUT (c\<lparr>gate := GATE_CLOSED\<rparr>);
            o1 = [(c1, Cancel_Timer TIMER_GATE_CLOSE_TIMEOUT), (c1, State_Changed)];
            (c2, o2) = (if reset_pending c1 then start_gate_open (c1\<lparr>reset_pending := False\<rparr>)
                        else (c1, []))
        in (c2, o1 @ o2)
      else (c, []))"

definition on_gate_opened :: "string \<Rightarrow> crossing \<Rightarrow> cx_result" where
  "on_gate_opened now c =
     (if gate c = GATE_OPENING then
        let c1 = bump_gen TIMER_GATE_OPEN_TIMEOUT (c\<lparr>gate := GATE_OPEN\<rparr>);
            o1 = [(c1, Cancel_Timer TIMER_GATE_OPEN_TIMEOUT)]
        in if \<not> crossing_both_tracks_clear c1 then
             let (c2, o2) = start_gate_close c1 in (c2, o1 @ o2)
           else
             let c2 = c1\<lparr>flash_on := False\<rparr>;
                 c3 = c2\<lparr>clear_time := now\<rparr>
             in (c3, o1 @ [(c2, Set_Flash False), (c2, Send_Clear), (c3, State_Changed)])
      else (c, []))"

definition on_timer :: "timer_id \<Rightarrow> u32 \<Rightarrow> crossing \<Rightarrow> cx_result" where
  "on_timer t gen c =
     (if gen \<noteq> timer_gen c t then (c, [])
      else case t of
        TIMER_GATE_CLOSE_DELAY \<Rightarrow> start_gate_close (c\<lparr>close_delay_pending := False\<rparr>)
      | TIMER_GATE_CLOSE_TIMEOUT \<Rightarrow> enter_fault CX_FAULT_GATE_CLOSE_TIMEOUT c
      | TIMER_GATE_OPEN_TIMEOUT \<Rightarrow> enter_fault CX_FAULT_GATE_OPEN_TIMEOUT c
      | TIMER_TRAIN_TIMEOUT_UP \<Rightarrow> enter_fault CX_FAULT_TRAIN_TIMEOUT c
      | TIMER_TRAIN_TIMEOUT_DOWN \<Rightarrow> enter_fault CX_FAULT_TRAIN_TIMEOUT c)"

definition on_reset :: "crossing \<Rightarrow> cx_result" where
  "on_reset c =
     (if fault c \<noteq> CX_FAULT_NONE then
        let c1 = c\<lparr>fault := CX_FAULT_NONE, track_up := CX_TRACK_NONE, track_down := CX_TRACK_NONE,
                   gate := GATE_CLOSING, reset_pending := True\<rparr>;
            c2 = bump_gen TIMER_GATE_CLOSE_TIMEOUT c1
        in (c2, [(c1, Gate_Command GATE_CMD_CLOSE),
                 (c2, Start_Timer TIMER_GATE_CLOSE_TIMEOUT GATE_CLOSE_TIMEOUT_SEC),
                 (c2, State_Changed)])
      else (c, []))"

definition crossing_handle_event :: "string \<Rightarrow> crossing_event \<Rightarrow> crossing \<Rightarrow> cx_result" where
  "crossing_handle_event now ev c =
     (if fault c \<noteq> CX_FAULT_NONE \<and> ev \<noteq> CX_EVENT_RESET_FAULT then (c, [])
      else case ev of
        CX_EVENT_TRAIN_APPROACH d \<Rightarrow> on_approach now d c
      | CX_EVENT_TRAIN_ENTER d \<Rightarrow> on_enter d c
      | CX_EVENT_TRAIN_EXIT d \<Rightarrow> on_exit d c
      | CX_EVENT_GATE_CLOSED \<Rightarrow> on_gate_closed c
      | CX_EVENT_GATE_OPENED \<Rightarrow> on_gate_opened now c
      | CX_EVENT_TIMER t gen \<Rightarrow> on_timer t gen c
      | CX_EVENT_INJECT_FAULT \<Rightarrow> enter_fault CX_FAULT_INJECTED c
      | CX_EVENT_RESET_FAULT \<Rightarrow> on_reset c)"

end
