(* ===== verification/Crossing_Safety.thy ===== *)
theory Crossing_Safety
  imports Crossing
begin

text \<open>
  Safety of one level crossing under every sequence of events, in any order and with any timer
  generations: a train on the crossing has the gate closed or a declared fault, the
  flashing lights cover every train that is known to be near, and \<open>TRAIN_CLEAR\<close> is sent only when
  the crossing is empty and open. Two runs show where the code forgets an approaching train.
\<close>

section \<open>The invariant\<close>

definition cx_fields_ok ::
  "gate_state \<Rightarrow> bool \<Rightarrow> bool \<Rightarrow> bool \<Rightarrow> cx_track_state \<Rightarrow> cx_track_state \<Rightarrow> bool \<Rightarrow> bool" where
  "cx_fields_ok g faulted delay reset up down flash \<longleftrightarrow>
     (g = GATE_FAULT \<longleftrightarrow> faulted) \<and> (delay \<longrightarrow> g = GATE_OPEN) \<and>
     (\<not> faulted \<and> reset \<longrightarrow> g = GATE_CLOSING) \<and>
     (\<not> faulted \<longrightarrow>
        (up \<in> {CX_TRACK_ON_CROSSING, CX_TRACK_CLEARED} \<longrightarrow> g = GATE_CLOSED) \<and>
        (down \<in> {CX_TRACK_ON_CROSSING, CX_TRACK_CLEARED} \<longrightarrow> g = GATE_CLOSED) \<and>
        (up = CX_TRACK_CLEARED \<longrightarrow> \<not> track_clear down) \<and>
        (down = CX_TRACK_CLEARED \<longrightarrow> \<not> track_clear up)) \<and>
     (faulted \<or> up \<noteq> CX_TRACK_NONE \<or> down \<noteq> CX_TRACK_NONE \<longrightarrow> flash)"

definition cx_ok :: "crossing \<Rightarrow> bool" where
  "cx_ok c \<longleftrightarrow> cx_fields_ok (gate c) (fault c \<noteq> CX_FAULT_NONE) (close_delay_pending c)
     (reset_pending c) (track_up c) (track_down c) (flash_on c)"

lemma bump_gen_sel [simp]:
  "track_up (bump_gen t c) = track_up c" "track_down (bump_gen t c) = track_down c"
  "track d (bump_gen t c) = track d c" "gate (bump_gen t c) = gate c"
  "flash_on (bump_gen t c) = flash_on c" "fault (bump_gen t c) = fault c"
  "reset_pending (bump_gen t c) = reset_pending c"
  "close_delay_pending (bump_gen t c) = close_delay_pending c" "cx_id (bump_gen t c) = cx_id c"
  by (cases d; simp add: bump_gen_def)+

lemma bump_gen_ok [simp]: "cx_ok (bump_gen t c) = cx_ok c"
  by (simp add: cx_ok_def)

lemma cancel_timers_ok [simp]: "cx_ok (fst (cancel_timers ts c)) = cx_ok c"
  by (induction ts arbitrary: c) (simp_all add: split_beta Let_def)

lemma enter_fault_ok: "f \<noteq> CX_FAULT_NONE \<Longrightarrow> cx_ok (fst (enter_fault f c))"
  by (simp add: enter_fault_def split_beta Let_def) (simp add: cx_ok_def cx_fields_ok_def)

text \<open>Changes of the fields that keep the invariant.\<close>

lemma cx_fields:
  assumes "cx_fields_ok g False delay reset up down flash"
  shows "g = GATE_OPEN \<or> g = GATE_OPENING \<Longrightarrow> cx_fields_ok GATE_CLOSING False False reset up down flash"
    and "up = CX_TRACK_NONE \<Longrightarrow> cx_fields_ok g False delay reset CX_TRACK_APPROACHING down True"
    and "down = CX_TRACK_NONE \<Longrightarrow> cx_fields_ok g False delay reset up CX_TRACK_APPROACHING True"
    and "g = GATE_OPEN \<Longrightarrow> cx_fields_ok g False True reset up down flash"
    and "cx_fields_ok g False False reset up down flash"
    and "g = GATE_CLOSED \<Longrightarrow> up = CX_TRACK_APPROACHING \<Longrightarrow>
           cx_fields_ok g False delay reset CX_TRACK_ON_CROSSING down flash"
    and "g = GATE_CLOSED \<Longrightarrow> down = CX_TRACK_APPROACHING \<Longrightarrow>
           cx_fields_ok g False delay reset up CX_TRACK_ON_CROSSING flash"
    and "up = CX_TRACK_ON_CROSSING \<Longrightarrow> \<not> track_clear down \<Longrightarrow>
           cx_fields_ok g False delay reset CX_TRACK_CLEARED down flash"
    and "down = CX_TRACK_ON_CROSSING \<Longrightarrow> \<not> track_clear up \<Longrightarrow>
           cx_fields_ok g False delay reset up CX_TRACK_CLEARED flash"
    and "g = GATE_CLOSING \<Longrightarrow> cx_fields_ok GATE_OPENING False False False up down flash"
    and "g = GATE_CLOSING \<Longrightarrow> \<not> reset \<Longrightarrow> cx_fields_ok GATE_CLOSED False delay False up down flash"
    and "g = GATE_OPENING \<Longrightarrow> cx_fields_ok GATE_OPEN False delay reset up down flash"
    and "g = GATE_OPENING \<Longrightarrow> track_clear up \<Longrightarrow> track_clear down \<Longrightarrow>
           cx_fields_ok GATE_OPEN False delay reset up down False"
    and "up = CX_TRACK_ON_CROSSING \<or> down = CX_TRACK_ON_CROSSING \<Longrightarrow>
           g = GATE_CLOSED \<and> \<not> reset \<and> flash \<and> \<not> delay"
  using assms by (auto simp: cx_fields_ok_def track_clear_def)

lemma start_gate_close_ok:
  "cx_ok c \<Longrightarrow> fault c = CX_FAULT_NONE \<Longrightarrow> cx_ok (fst (start_gate_close c))"
  by (simp add: start_gate_close_def Let_def) (auto simp: cx_ok_def cx_fields(1))

lemma on_approach_ok:
  assumes ok: "cx_ok c" and nf: "fault c = CX_FAULT_NONE"
  shows "cx_ok (fst (on_approach now d c))"
proof (cases "track d c = CX_TRACK_NONE")
  case True
  let ?c = "(set_track d CX_TRACK_APPROACHING c)\<lparr>flash_on := True, preempt_time := now\<rparr>"
  have k: "cx_ok ?c" "fault ?c = CX_FAULT_NONE"
    using ok nf True by (cases d; simp add: cx_ok_def cx_fields(2,3))+
  have "cx_ok (bump_gen TIMER_GATE_CLOSE_DELAY (?c\<lparr>close_delay_pending := True\<rparr>))"
    if "gate ?c = GATE_OPEN"
    using k that by (simp add: cx_ok_def cx_fields(4))
  with k start_gate_close_ok [OF k] True show ?thesis
    by (simp add: on_approach_def split_beta Let_def)
qed (use ok in \<open>simp add: on_approach_def\<close>)

lemma on_enter_ok:
  assumes ok: "cx_ok c" and nf: "fault c = CX_FAULT_NONE"
  shows "cx_ok (fst (on_enter d c))"
proof -
  have "cx_ok (set_track d CX_TRACK_ON_CROSSING c)"
    if "gate c = GATE_CLOSED" "track d c = CX_TRACK_APPROACHING"
    using ok nf that cx_fields(6,7) [of "gate c"] by (cases d) (simp_all add: cx_ok_def)
  with ok show ?thesis by (simp add: on_enter_def enter_fault_ok Let_def)
qed

lemma on_exit_ok:
  assumes ok: "cx_ok c" and nf: "fault c = CX_FAULT_NONE"
  shows "cx_ok (fst (on_exit d c))"
proof (cases "track d c = CX_TRACK_ON_CROSSING")
  case True
  let ?c1 = "bump_gen (train_timeout_timer d) (set_track d CX_TRACK_CLEARED c)"
  have g: "gate c = GATE_CLOSED" "\<not> reset_pending c" "flash_on c" "\<not> close_delay_pending c"
    using cx_fields(14) [of "gate c" "close_delay_pending c" "reset_pending c" "track_up c"
        "track_down c" "flash_on c"] ok nf True
    by (cases d; simp add: cx_ok_def)+
  have a: "cx_ok (fst (start_gate_open (clear_cleared ?c1)))" if "crossing_both_tracks_clear ?c1"
    using that nf g True
    by (cases d; cases "track_up c"; cases "track_down c")
      (simp_all add: start_gate_open_def clear_cleared_def crossing_both_tracks_clear_def
        track_clear_def cx_ok_def cx_fields_ok_def Let_def)
  have b: "cx_ok ?c1" if "\<not> crossing_both_tracks_clear ?c1"
    using ok nf True that
    by (cases d) (auto simp: cx_ok_def crossing_both_tracks_clear_def track_clear_def
        cx_fields(8,9))
  show ?thesis using True a b by (simp add: on_exit_def split_beta Let_def)
qed (use ok in \<open>simp add: on_exit_def\<close>)

lemma on_gate_closed_ok:
  assumes ok: "cx_ok c" and nf: "fault c = CX_FAULT_NONE"
  shows "cx_ok (fst (on_gate_closed c))"
  using assms cx_fields(10,11) [of "gate c"]
  by (auto simp: on_gate_closed_def start_gate_open_def cx_ok_def split_beta Let_def)

lemma on_gate_opened_ok:
  assumes ok: "cx_ok c" and nf: "fault c = CX_FAULT_NONE"
  shows "cx_ok (fst (on_gate_opened now c))"
proof (cases "gate c = GATE_OPENING")
  case True
  let ?c1 = "bump_gen TIMER_GATE_OPEN_TIMEOUT (c\<lparr>gate := GATE_OPEN\<rparr>)"
  have k: "cx_ok ?c1" "fault ?c1 = CX_FAULT_NONE"
    using ok nf True by (simp_all add: cx_ok_def cx_fields(12))
  have "cx_ok (?c1\<lparr>flash_on := False, clear_time := now\<rparr>)" if "crossing_both_tracks_clear ?c1"
    using ok nf True that by (simp add: cx_ok_def crossing_both_tracks_clear_def cx_fields(13))
  with True start_gate_close_ok [OF k] show ?thesis
    by (simp add: on_gate_opened_def split_beta Let_def)
qed (use ok in \<open>simp add: on_gate_opened_def\<close>)

lemma on_timer_ok:
  assumes ok: "cx_ok c" and nf: "fault c = CX_FAULT_NONE"
  shows "cx_ok (fst (on_timer t g c))"
proof -
  have k: "cx_ok (c\<lparr>close_delay_pending := False\<rparr>)"
    using ok nf by (simp add: cx_ok_def cx_fields(5))
  show ?thesis using ok nf start_gate_close_ok [OF k]
    by (cases t) (simp_all add: on_timer_def enter_fault_ok)
qed

lemma on_reset_ok: "cx_ok c \<Longrightarrow> cx_ok (fst (on_reset c))"
  by (simp add: on_reset_def Let_def) (auto simp: cx_ok_def cx_fields_ok_def track_clear_def)

lemma handle_event_ok: "cx_ok c \<Longrightarrow> cx_ok (fst (crossing_handle_event now ev c))"
  by (cases ev) (simp_all add: crossing_handle_event_def on_approach_ok on_enter_ok on_exit_ok
      on_gate_closed_ok on_gate_opened_ok on_timer_ok on_reset_ok enter_fault_ok)


section \<open>Runs of one crossing\<close>

definition crossing_step :: "string \<times> crossing_event \<Rightarrow> crossing \<Rightarrow> crossing" where
  "crossing_step i c = fst (crossing_handle_event (fst i) (snd i) c)"

interpretation crossing: inv_machine crossing_step "\<lambda>_. True" cx_ok
  by unfold_locales (simp add: crossing_step_def handle_event_ok)

lemma crossing_init_ok: "cx_ok (crossing_init i name l1 l2)"
  by (simp add: crossing_init_def cx_ok_def cx_fields_ok_def)

lemma crossing_run_ok: "cx_ok (fold crossing_step evs (crossing_init i name l1 l2))"
  by (rule crossing.run_inv) (simp_all add: crossing_init_ok)

definition road_protected :: "crossing \<Rightarrow> bool" where
  "road_protected c \<longleftrightarrow>
     (\<forall>d \<in> {CX_TRACK_UP, CX_TRACK_DOWN}.
        (track d c = CX_TRACK_ON_CROSSING \<longrightarrow> gate c = GATE_CLOSED \<or> fault c \<noteq> CX_FAULT_NONE) \<and>
        (track d c \<noteq> CX_TRACK_NONE \<longrightarrow> flash_on c)) \<and>
     (fault c \<noteq> CX_FAULT_NONE \<longrightarrow> gate c = GATE_FAULT \<and> flash_on c)"

lemma ok_road_protected: "cx_ok c \<Longrightarrow> road_protected c"
  by (auto simp: cx_ok_def cx_fields_ok_def road_protected_def)

text \<open>Every approach that is registered leads to a registered entry or to a fault.\<close>

definition entry_registered :: "string \<Rightarrow> crossing \<Rightarrow> bool" where
  "entry_registered now c \<longleftrightarrow>
     (\<forall>d \<in> {CX_TRACK_UP, CX_TRACK_DOWN}. track d c = CX_TRACK_APPROACHING \<longrightarrow>
        (let e = crossing_step (now, CX_EVENT_TRAIN_ENTER d) c in
         (track d e = CX_TRACK_ON_CROSSING \<and> gate e = GATE_CLOSED \<or> gate e = GATE_FAULT \<and> fault e \<noteq> CX_FAULT_NONE) \<and>
         flash_on e))"

lemma fault_keeps:
  "fault (fst (enter_fault f c)) = f" "gate (fst (enter_fault f c)) = GATE_FAULT" "flash_on (fst (enter_fault f c))"
proof -
  have "fault (fst (cancel_timers ts x)) = fault x \<and> gate (fst (cancel_timers ts x)) = gate x \<and>
      flash_on (fst (cancel_timers ts x)) = flash_on x" for ts x
    by (induction ts arbitrary: x) (simp_all add: split_beta Let_def)
  then show "fault (fst (enter_fault f c)) = f" "gate (fst (enter_fault f c)) = GATE_FAULT" "flash_on (fst (enter_fault f c))"
    by (simp_all add: enter_fault_def split_beta Let_def)
qed

lemma ok_entry_registered: "cx_ok c \<Longrightarrow> entry_registered now c"
  by (auto simp: entry_registered_def crossing_step_def crossing_handle_event_def on_enter_def fault_keeps cx_ok_def
      cx_fields_ok_def Let_def)


section \<open>Outputs\<close>

lemma start_gate_close_outputs:
  "set (map snd (snd (start_gate_close c))) \<subseteq>
     {Cancel_Timer TIMER_GATE_OPEN_TIMEOUT, Gate_Command GATE_CMD_CLOSE,
      Start_Timer TIMER_GATE_CLOSE_TIMEOUT GATE_CLOSE_TIMEOUT_SEC, State_Changed}"
  by (auto simp: start_gate_close_def Let_def)

lemma start_gate_open_outputs:
  "set (map snd (snd (start_gate_open c))) \<subseteq>
     {Cancel_Timer TIMER_GATE_CLOSE_DELAY, Cancel_Timer TIMER_GATE_CLOSE_TIMEOUT,
      Gate_Command GATE_CMD_OPEN, Start_Timer TIMER_GATE_OPEN_TIMEOUT GATE_OPEN_TIMEOUT_SEC,
      State_Changed}"
  by (auto simp: start_gate_open_def Let_def)

lemma enter_fault_outputs:
  "set (map snd (snd (enter_fault f c))) \<subseteq>
   {Set_Flash True, Fault_Alert f, State_Changed} \<union> range Cancel_Timer"
proof -
  have "set (map snd (snd (cancel_timers ts c))) \<subseteq> range Cancel_Timer" for ts c
    by (induction ts arbitrary: c) (auto simp: split_beta Let_def)
  from this [of all_timers
      "c\<lparr>fault := f, gate := GATE_FAULT, close_delay_pending := False, flash_on := True\<rparr>"]
  show ?thesis by (auto simp: enter_fault_def split_beta Let_def)
qed

lemma no_clear [simp]:
  "(c', Send_Clear) \<notin> set (snd (start_gate_close x))"
  "(c', Send_Clear) \<notin> set (snd (start_gate_open x))"
  "(c', Send_Clear) \<notin> set (snd (enter_fault f x))"
  using start_gate_close_outputs [of x] start_gate_open_outputs [of x] enter_fault_outputs [of f x]
  by force+

lemma send_clear_only_open:
  assumes "(c', Send_Clear) \<in> set (snd (crossing_handle_event now ev c))"
  shows "ev = CX_EVENT_GATE_OPENED \<and> fault c = CX_FAULT_NONE \<and> gate c = GATE_OPENING \<and> crossing_both_tracks_clear c \<and>
    c' = (bump_gen TIMER_GATE_OPEN_TIMEOUT (c\<lparr>gate := GATE_OPEN\<rparr>))\<lparr>flash_on := False\<rparr>"
  using assms
  by (cases ev) (auto simp: crossing_handle_event_def on_approach_def on_enter_def on_exit_def
      on_gate_closed_def on_reset_def on_timer_def on_gate_opened_def split_beta Let_def
      crossing_both_tracks_clear_def split: if_splits timer_id.splits)


text \<open>A whole passage of one train, for the witnesses.\<close>

definition demo_passage :: "(string \<times> crossing_event) list" where
  "demo_passage = map (Pair []) [CX_EVENT_TRAIN_APPROACH CX_TRACK_UP,
     CX_EVENT_TIMER TIMER_GATE_CLOSE_DELAY 1, CX_EVENT_GATE_CLOSED,
     CX_EVENT_TRAIN_ENTER CX_TRACK_UP, CX_EVENT_TRAIN_EXIT CX_TRACK_UP]"

definition demo_crossing :: crossing where
  "demo_crossing = fold crossing_step demo_passage (crossing_init 1 ''P1'' 0 1)"


section \<open>Approach and entry\<close>

text \<open>The first sighting of a train on a free track of a fault-free crossing always sends the
  preemption, turns the lights on, and leaves the gate closed, closing, or about to close
  after the delay.\<close>

theorem approach_starts_protection:
  assumes "cx_ok c" "fault c = CX_FAULT_NONE" "track d c = CX_TRACK_NONE"
  shows "let (c', outs) = crossing_handle_event now (CX_EVENT_TRAIN_APPROACH d) c
    in track d c' = CX_TRACK_APPROACHING \<and> flash_on c' \<and> Send_Preempt \<in> set (map snd outs) \<and>
       (gate c' = GATE_OPEN \<and> close_delay_pending c' \<or> gate c' = GATE_CLOSING \<or> gate c' = GATE_CLOSED)"
  using assms
  by (cases d; cases "gate c")
    (auto simp: crossing_handle_event_def on_approach_def start_gate_close_def split_beta Let_def cx_ok_def cx_fields_ok_def)

theorem approach_starts_protection_witness:
  "let (c', outs) = crossing_handle_event [] (CX_EVENT_TRAIN_APPROACH CX_TRACK_DOWN) demo_crossing
    in track CX_TRACK_DOWN c' = CX_TRACK_APPROACHING \<and> flash_on c' \<and>
       Send_Preempt \<in> set (map snd outs) \<and>
       (gate c' = GATE_OPEN \<and> close_delay_pending c' \<or> gate c' = GATE_CLOSING \<or> gate c' = GATE_CLOSED)"
  by (rule approach_starts_protection) code_simp+

text \<open>A train that enters before the gate is closed puts the crossing into the
  \<open>TRAIN_EARLY\<close> fault, with the lights on and the alert sent.\<close>

theorem early_train_faults:
  assumes "fault c = CX_FAULT_NONE" "track d c = CX_TRACK_APPROACHING" "gate c \<noteq> GATE_CLOSED"
  shows "let (c', outs) = crossing_handle_event now (CX_EVENT_TRAIN_ENTER d) c
    in fault c' = CX_FAULT_TRAIN_EARLY \<and> gate c' = GATE_FAULT \<and> flash_on c' \<and>
       Fault_Alert CX_FAULT_TRAIN_EARLY \<in> set (map snd outs)"
  using assms fault_keeps [of CX_FAULT_TRAIN_EARLY c]
  by (auto simp: crossing_handle_event_def on_enter_def enter_fault_def split_beta Let_def)

theorem early_train_faults_witness:
  "let (c', outs) = crossing_handle_event [] (CX_EVENT_TRAIN_ENTER CX_TRACK_UP)
      (fold crossing_step [([], CX_EVENT_TRAIN_APPROACH CX_TRACK_UP)] (crossing_init 1 ''P1'' 0 1))
    in fault c' = CX_FAULT_TRAIN_EARLY \<and> gate c' = GATE_FAULT \<and> flash_on c' \<and>
       Fault_Alert CX_FAULT_TRAIN_EARLY \<in> set (map snd outs)"
  by (rule early_train_faults) code_simp+

section \<open>Forgotten trains\<close>

text \<open>A second train on a track whose first train has left while a train on the other track is
  still on the crossing is not registered: its approach is ignored, the gate opens when the
  other train leaves, and its entry is ignored too, with no fault.\<close>

theorem second_train_unprotected:
  "let c = fold crossing_step
      (map (Pair []) [CX_EVENT_TRAIN_APPROACH CX_TRACK_UP, CX_EVENT_TIMER TIMER_GATE_CLOSE_DELAY 1,
         CX_EVENT_GATE_CLOSED, CX_EVENT_TRAIN_ENTER CX_TRACK_UP,
         CX_EVENT_TRAIN_APPROACH CX_TRACK_DOWN, CX_EVENT_TRAIN_ENTER CX_TRACK_DOWN,
         CX_EVENT_TRAIN_EXIT CX_TRACK_UP, CX_EVENT_TRAIN_APPROACH CX_TRACK_UP,
         CX_EVENT_TRAIN_EXIT CX_TRACK_DOWN, CX_EVENT_TRAIN_ENTER CX_TRACK_UP])
      (crossing_init 1 ''P1'' 0 1)
   in gate c = GATE_OPENING \<and> fault c = CX_FAULT_NONE \<and> track_up c = CX_TRACK_NONE"
  by code_simp

text \<open>After a fault reset the gate closes for verification and then opens even when a train has
  been seen approaching in the meantime.\<close>

theorem reset_opens_before_train:
  "let c = fold crossing_step
      (map (Pair []) [CX_EVENT_INJECT_FAULT, CX_EVENT_RESET_FAULT,
         CX_EVENT_TRAIN_APPROACH CX_TRACK_UP, CX_EVENT_GATE_CLOSED])
      (crossing_init 1 ''P1'' 0 1)
   in gate c = GATE_OPENING \<and> fault c = CX_FAULT_NONE \<and> track_up c = CX_TRACK_APPROACHING"
  by code_simp

end
