(* ===== verification/Crossing_Timers.thy ===== *)
theory Crossing_Timers
  imports Crossing_Safety
begin

text \<open>
  The contract between a crossing and whoever runs its timers. \<open>armed\<close> says which timers the
  state of a crossing waits for, and the handlers start and cancel timers so that exactly the
  armed ones, with their current generation, are pending. The locale \<open>timer_host\<close> states what
  the host of the timers has to do for that, and carries out a handler's calls on it.
\<close>

section \<open>The timers a crossing relies on\<close>

fun armed :: "timer_id \<Rightarrow> crossing \<Rightarrow> bool" where
  "armed TIMER_GATE_CLOSE_DELAY c = close_delay_pending c"
| "armed TIMER_GATE_CLOSE_TIMEOUT c = (gate c = GATE_CLOSING)"
| "armed TIMER_GATE_OPEN_TIMEOUT c = (gate c = GATE_OPENING)"
| "armed TIMER_TRAIN_TIMEOUT_UP c = (track_up c = CX_TRACK_ON_CROSSING \<and> fault c = CX_FAULT_NONE)"
| "armed TIMER_TRAIN_TIMEOUT_DOWN c = (track_down c = CX_TRACK_ON_CROSSING \<and> fault c = CX_FAULT_NONE)"

definition cx_timers :: "crossing \<Rightarrow> timer_id \<Rightarrow> u32 option" where
  "cx_timers c t = (if armed t c then Some (timer_gen c t) else None)"

text \<open>What a sequence of calls does to the pending timers; \<open>None\<close> when a pending timer is started
  again.\<close>

fun timer_effect :: "cx_call list \<Rightarrow> (timer_id \<Rightarrow> u32 option) \<Rightarrow> (timer_id \<Rightarrow> u32 option) option" where
  "timer_effect [] m = Some m"
| "timer_effect ((c, Start_Timer t n) # r) m =
     (if m t = None then timer_effect r (m(t \<mapsto> timer_gen c t)) else None)"
| "timer_effect ((c, Cancel_Timer t) # r) m = timer_effect r (m(t := None))"
| "timer_effect ((c, _) # r) m = timer_effect r m"

lemma timer_effect_append [simp]:
  "timer_effect (xs @ ys) m = Option.bind (timer_effect xs m) (timer_effect ys)"
proof (induction xs arbitrary: m)
  case (Cons x xs)
  obtain c out where "x = (c, out)" by force
  with Cons show ?case by (cases out) (simp_all add: fun_upd_def)
qed simp

lemma timer_gen_bump [simp]:
  "timer_gen (bump_gen t c) = (timer_gen c)(t := timer_gen c t + 1)"
  by (simp add: bump_gen_def)

lemma set_track_sel [simp]:
  "timer_gen (set_track d x c) = timer_gen c" "gate (set_track d x c) = gate c"
  "close_delay_pending (set_track d x c) = close_delay_pending c"
  "fault (set_track d x c) = fault c" "cx_id (set_track d x c) = cx_id c"
  by (cases d; simp)+

lemma clear_cleared_sel [simp]:
  "timer_gen (clear_cleared c) = timer_gen c" "gate (clear_cleared c) = gate c"
  "close_delay_pending (clear_cleared c) = close_delay_pending c"
  "fault (clear_cleared c) = fault c" "cx_id (clear_cleared c) = cx_id c"
  "track_up (clear_cleared c) = CX_TRACK_ON_CROSSING \<longleftrightarrow> track_up c = CX_TRACK_ON_CROSSING"
  "track_down (clear_cleared c) = CX_TRACK_ON_CROSSING \<longleftrightarrow> track_down c = CX_TRACK_ON_CROSSING"
  by (simp_all add: clear_cleared_def Let_def)

lemma timer_all:
  "(\<forall>t. P (t::timer_id)) \<longleftrightarrow> P TIMER_GATE_CLOSE_DELAY \<and> P TIMER_GATE_CLOSE_TIMEOUT \<and>
     P TIMER_GATE_OPEN_TIMEOUT \<and> P TIMER_TRAIN_TIMEOUT_UP \<and> P TIMER_TRAIN_TIMEOUT_DOWN"
  by (metis timer_id.exhaust)

lemmas timer_map_eq = fun_eq_iff timer_all

lemma cancel_timers_effect [simp]:
  "timer_effect (snd (cancel_timers ts c)) m = Some (\<lambda>t. if t \<in> set ts then None else m t)"
  by (induction ts arbitrary: c m) (simp_all add: split_beta Let_def fun_eq_iff)

lemma cancel_timers_sel [simp]:
  "gate (fst (cancel_timers ts c)) = gate c" "fault (fst (cancel_timers ts c)) = fault c"
  "close_delay_pending (fst (cancel_timers ts c)) = close_delay_pending c"
  "track_up (fst (cancel_timers ts c)) = track_up c"
  "track_down (fst (cancel_timers ts c)) = track_down c"
  "cx_id (fst (cancel_timers ts c)) = cx_id c"
  by (induction ts arbitrary: c) (simp_all add: split_beta Let_def)

lemma enter_fault_timers:
  assumes "f \<noteq> CX_FAULT_NONE"
  shows "timer_effect (snd (enter_fault f c)) m = Some (cx_timers (fst (enter_fault f c)))"
  using assms
  by (simp add: enter_fault_def split_beta Let_def all_timers_def timer_map_eq cx_timers_def)

lemma start_gate_close_timers:
  assumes "fault c = CX_FAULT_NONE" "\<not> close_delay_pending c"
  shows "timer_effect (snd (start_gate_close c)) (cx_timers c) = Some (cx_timers (fst (start_gate_close c)))"
  using assms
  by (simp add: start_gate_close_def Let_def timer_map_eq cx_timers_def split: if_splits) 

lemma start_gate_open_timers:
  assumes "fault c = CX_FAULT_NONE" "\<not> close_delay_pending c"
  shows "timer_effect (snd (start_gate_open c)) (cx_timers c) = Some (cx_timers (fst (start_gate_open c)))"
  using assms
  by (simp add: start_gate_open_def Let_def timer_map_eq cx_timers_def split: if_splits) 

lemma cx_okD:
  assumes "cx_ok c"
  shows "gate c = GATE_FAULT \<longleftrightarrow> fault c \<noteq> CX_FAULT_NONE"
    and "close_delay_pending c \<Longrightarrow> gate c = GATE_OPEN"
    and "fault c = CX_FAULT_NONE \<Longrightarrow> track d c = CX_TRACK_ON_CROSSING \<Longrightarrow> gate c = GATE_CLOSED"
  using assms by (cases d; auto simp: cx_ok_def cx_fields_ok_def)+

lemma on_approach_timers:
  assumes ok: "cx_ok c" and nf: "fault c = CX_FAULT_NONE"
  shows "timer_effect (snd (on_approach now d c)) (cx_timers c) = Some (cx_timers (fst (on_approach now d c)))"
proof (cases "track d c = CX_TRACK_NONE")
  case True
  let ?c = "(set_track d CX_TRACK_APPROACHING c)\<lparr>flash_on := True, preempt_time := now\<rparr>"
  have t: "cx_timers ?c = cx_timers c" using True by (cases d) (simp_all add: timer_map_eq cx_timers_def)
  have g: "gate ?c = gate c" "close_delay_pending ?c = close_delay_pending c" by (cases d; simp)+
  have a: "timer_effect (snd (start_gate_close ?c)) (cx_timers c) = Some (cx_timers (fst (start_gate_close ?c)))"
    if "gate c = GATE_OPENING"
  proof -
    from that cx_okD(2) [OF ok] have "\<not> close_delay_pending c" by auto
    with start_gate_close_timers [of ?c] t g nf show ?thesis by simp
  qed
  have b: "(cx_timers c)(TIMER_GATE_CLOSE_DELAY \<mapsto> timer_gen c TIMER_GATE_CLOSE_DELAY + 1) =
     cx_timers (bump_gen TIMER_GATE_CLOSE_DELAY (?c\<lparr>close_delay_pending := True\<rparr>))"
    unfolding t [symmetric] by (simp add: timer_map_eq cx_timers_def)
  have "close_delay_pending c \<Longrightarrow> \<exists>y. cx_timers c TIMER_GATE_CLOSE_DELAY = Some y"
    "\<not> close_delay_pending c \<Longrightarrow> cx_timers c TIMER_GATE_CLOSE_DELAY = None"
    by (simp_all add: cx_timers_def)
  with True a b t show ?thesis
    by (simp add: on_approach_def split_beta Let_def)
qed (simp add: on_approach_def)

lemma on_enter_timers:
  assumes "fault c = CX_FAULT_NONE"
  shows "timer_effect (snd (on_enter d c)) (cx_timers c) = Some (cx_timers (fst (on_enter d c)))"
  using assms
  by (cases d) (simp_all add: on_enter_def enter_fault_timers Let_def timer_map_eq cx_timers_def)

lemma on_exit_timers:
  assumes ok: "cx_ok c" and nf: "fault c = CX_FAULT_NONE"
  shows "timer_effect (snd (on_exit d c)) (cx_timers c) = Some (cx_timers (fst (on_exit d c)))"
proof (cases "track d c = CX_TRACK_ON_CROSSING")
  case True
  let ?t = "train_timeout_timer d"
  let ?c1 = "bump_gen ?t (set_track d CX_TRACK_CLEARED c)"
  have t: "(cx_timers c)(?t := None) = cx_timers ?c1" "cx_timers (clear_cleared ?c1) = cx_timers ?c1"
    by (cases d; simp add: timer_map_eq cx_timers_def)+
  have "gate c = GATE_CLOSED" using cx_okD(3) [OF ok nf True] .
  then have "\<not> close_delay_pending (clear_cleared ?c1) \<and> fault (clear_cleared ?c1) = CX_FAULT_NONE"
    using cx_okD(2) [OF ok] nf by auto
  then have "timer_effect (snd (start_gate_open (clear_cleared ?c1))) (cx_timers ?c1) =
      Some (cx_timers (fst (start_gate_open (clear_cleared ?c1))))"
    using start_gate_open_timers [of "clear_cleared ?c1"] t by simp
  with True t show ?thesis by (simp add: on_exit_def split_beta Let_def)
qed (simp add: on_exit_def)

lemma on_gate_closed_timers:
  assumes ok: "cx_ok c" and nf: "fault c = CX_FAULT_NONE"
  shows "timer_effect (snd (on_gate_closed c)) (cx_timers c) = Some (cx_timers (fst (on_gate_closed c)))"
proof (cases "gate c = GATE_CLOSING")
  case True
  let ?c1 = "bump_gen TIMER_GATE_CLOSE_TIMEOUT (c\<lparr>gate := GATE_CLOSED\<rparr>)"
  have t: "(cx_timers c)(TIMER_GATE_CLOSE_TIMEOUT := None) = cx_timers ?c1"
    "cx_timers (?c1\<lparr>reset_pending := False\<rparr>) = cx_timers ?c1"
    using True by (simp_all add: timer_map_eq cx_timers_def)
  have "\<not> close_delay_pending c" using True cx_okD(2) [OF ok] by auto
  then have "timer_effect (snd (start_gate_open (?c1\<lparr>reset_pending := False\<rparr>))) (cx_timers ?c1) =
      Some (cx_timers (fst (start_gate_open (?c1\<lparr>reset_pending := False\<rparr>))))"
    using start_gate_open_timers [of "?c1\<lparr>reset_pending := False\<rparr>"] t nf by simp
  with True t show ?thesis by (simp add: on_gate_closed_def split_beta Let_def)
qed (simp add: on_gate_closed_def)

lemma on_gate_opened_timers:
  assumes ok: "cx_ok c" and nf: "fault c = CX_FAULT_NONE"
  shows "timer_effect (snd (on_gate_opened now c)) (cx_timers c) = Some (cx_timers (fst (on_gate_opened now c)))"
proof (cases "gate c = GATE_OPENING")
  case True
  let ?c1 = "bump_gen TIMER_GATE_OPEN_TIMEOUT (c\<lparr>gate := GATE_OPEN\<rparr>)"
  have t: "(cx_timers c)(TIMER_GATE_OPEN_TIMEOUT := None) = cx_timers ?c1"
    "cx_timers (?c1\<lparr>flash_on := False, clear_time := now\<rparr>) = cx_timers ?c1"
    using True by (simp_all add: timer_map_eq cx_timers_def)
  have "\<not> close_delay_pending c" using True cx_okD(2) [OF ok] by auto
  then have "timer_effect (snd (start_gate_close ?c1)) (cx_timers ?c1) = Some (cx_timers (fst (start_gate_close ?c1)))"
    using start_gate_close_timers [of ?c1] nf by simp
  with True t show ?thesis by (simp add: on_gate_opened_def split_beta Let_def)
qed (simp add: on_gate_opened_def)

lemma on_reset_timers:
  assumes ok: "cx_ok c"
  shows "timer_effect (snd (on_reset c)) (cx_timers c) = Some (cx_timers (fst (on_reset c)))"
  using cx_okD(1,2) [OF ok]
  by (auto simp: on_reset_def Let_def timer_map_eq cx_timers_def)

definition timer_event :: "crossing_event \<Rightarrow> bool" where
  "timer_event ev \<longleftrightarrow> (case ev of CX_EVENT_TIMER t g \<Rightarrow> True | _ \<Rightarrow> False)"

lemma handle_event_timers:
  assumes "cx_ok c" "\<not> timer_event ev"
  shows "timer_effect (snd (crossing_handle_event now ev c)) (cx_timers c) =
    Some (cx_timers (fst (crossing_handle_event now ev c)))"
  using assms
  by (cases ev) (simp_all add: crossing_handle_event_def timer_event_def on_approach_timers
      on_enter_timers on_exit_timers on_gate_closed_timers on_gate_opened_timers on_reset_timers
      enter_fault_timers)

lemma handle_timer_cases:
  assumes ok: "cx_ok c" and a: "cx_timers c t = Some g"
  obtains "t = TIMER_GATE_CLOSE_DELAY" "fault c = CX_FAULT_NONE"
      "crossing_handle_event now (CX_EVENT_TIMER t g) c =
         start_gate_close (c\<lparr>close_delay_pending := False\<rparr>)"
  | f where "t \<noteq> TIMER_GATE_CLOSE_DELAY" "f \<noteq> CX_FAULT_NONE" "fault c = CX_FAULT_NONE"
      "crossing_handle_event now (CX_EVENT_TIMER t g) c = enter_fault f c"
proof -
  have g: "g = timer_gen c t" "armed t c" using a by (auto simp: cx_timers_def split: if_splits)
  have nf: "fault c = CX_FAULT_NONE"
  proof (rule ccontr)
    assume "fault c \<noteq> CX_FAULT_NONE"
    with cx_okD(1,2) [OF ok] g(2) show False by (cases t) auto
  qed
  with g that show thesis
    by (cases t) (auto simp: crossing_handle_event_def on_timer_def)
qed

lemma handle_timer_spent:
  assumes "cx_ok c" "cx_timers c t = Some g"
  shows "cx_timers (fst (crossing_handle_event now (CX_EVENT_TIMER t g) c)) t = None"
  using assms
proof (cases rule: handle_timer_cases [where now = now])
  case 1
  then show ?thesis by (simp add: start_gate_close_def Let_def cx_timers_def)
next
  case (2 f)
  then show ?thesis
    by (cases t) (simp_all add: enter_fault_def split_beta Let_def cx_timers_def)
qed

text \<open>A timer that goes off: its own entry is spent.\<close>

lemma handle_timer_timers:
  assumes ok: "cx_ok c" and a: "cx_timers c t = Some g"
  shows "timer_effect (snd (crossing_handle_event now (CX_EVENT_TIMER t g) c)) (cx_timers c) =
      Some ((cx_timers (fst (crossing_handle_event now (CX_EVENT_TIMER t g) c)))
        (t := if t = TIMER_GATE_CLOSE_DELAY then Some g else None))"
proof -
  have g: "g = timer_gen c t" "armed t c" using a by (auto simp: cx_timers_def split: if_splits)
  have nf: "fault c = CX_FAULT_NONE"
  proof (rule ccontr)
    assume "fault c \<noteq> CX_FAULT_NONE"
    with cx_okD(1,2) [OF ok] g(2) show False by (cases t) auto
  qed
  show ?thesis
  proof (cases "t = TIMER_GATE_CLOSE_DELAY")
    case True
    then have "gate c = GATE_OPEN" using g cx_okD(2) [OF ok] by simp
    with True g nf show ?thesis
      by (simp add: crossing_handle_event_def on_timer_def start_gate_close_def Let_def timer_map_eq
          cx_timers_def)
  next
    case False
    then have f: "\<exists>f. f \<noteq> CX_FAULT_NONE \<and> on_timer t g c = enter_fault f c"
      using g by (cases t) (auto simp: on_timer_def)
    then obtain f where f: "f \<noteq> CX_FAULT_NONE" "on_timer t g c = enter_fault f c" by auto
    have "cx_timers (fst (enter_fault f c)) t = None"
      using f(1) by (cases t) (simp_all add: enter_fault_def split_beta Let_def cx_timers_def)
    with False nf f enter_fault_timers [of f c "cx_timers c"] show ?thesis
      by (simp add: crossing_handle_event_def fun_upd_idem)
  qed
qed

section \<open>The host of the timers\<close>

definition timer_call :: "cx_output \<Rightarrow> bool" where
  "timer_call out \<longleftrightarrow> (case out of Start_Timer t n \<Rightarrow> True | Cancel_Timer t \<Rightarrow> True | _ \<Rightarrow> False)"

locale timer_host =
  fixes exec :: "cx_call \<Rightarrow> 's \<Rightarrow> 's"
    and pending :: "'s \<Rightarrow> timer_id \<Rightarrow> u32 option"
    and host_ok :: "'s \<Rightarrow> bool"
  assumes start: "host_ok s \<Longrightarrow> pending s t = None \<Longrightarrow>
      host_ok (exec (c, Start_Timer t n) s) \<and>
      pending (exec (c, Start_Timer t n) s) = (pending s)(t \<mapsto> timer_gen c t)"
    and cancel: "host_ok s \<Longrightarrow>
      host_ok (exec (c, Cancel_Timer t) s) \<and>
      pending (exec (c, Cancel_Timer t) s) = (pending s)(t := None)"
    and other: "host_ok s \<Longrightarrow> \<not> timer_call out \<Longrightarrow>
      host_ok (exec (c, out) s) \<and> pending (exec (c, out) s) = pending s"
begin

lemma run_calls:
  assumes "host_ok s" "timer_effect calls (pending s) = Some m"
  shows "host_ok (fold exec calls s) \<and> pending (fold exec calls s) = m"
  using assms
proof (induction calls arbitrary: s)
  case (Cons x calls)
  obtain c out where x: "x = (c, out)" by force
  from Cons.prems x have "host_ok (exec x s) \<and> timer_effect calls (pending (exec x s)) = Some m"
    using start [of s _ c] cancel [of s c] other [of s out c]
    by (cases out) (auto simp: timer_call_def split: if_splits)
  with Cons.IH show ?case by simp
qed simp

lemma run_event:
  assumes "host_ok s" "cx_ok c" "pending s = cx_timers c" "\<not> timer_event ev"
  shows "host_ok (fold exec (snd (crossing_handle_event now ev c)) s) \<and>
    pending (fold exec (snd (crossing_handle_event now ev c)) s) =
      cx_timers (fst (crossing_handle_event now ev c))"
  using run_calls [OF assms(1)] assms handle_event_timers [of c ev now] by simp

lemma run_timer:
  assumes "host_ok s" "cx_ok c" "pending s = cx_timers c" "pending s t = Some g"
  shows "host_ok (fold exec (snd (crossing_handle_event now (CX_EVENT_TIMER t g) c)) s) \<and>
    pending (fold exec (snd (crossing_handle_event now (CX_EVENT_TIMER t g) c)) s) =
      (cx_timers (fst (crossing_handle_event now (CX_EVENT_TIMER t g) c)))
        (t := if t = TIMER_GATE_CLOSE_DELAY then Some g else None)"
  using run_calls [OF assms(1)] assms handle_timer_timers [of c t g now] by simp

end

end
