(* ===== verification/Rail_Sim.thy ===== *)
theory Rail_Sim
  imports Crossing_Timers
begin

text \<open>
  The train and gate simulator of the Train controller, \<^verbatim>\<open>crossing/rail_sim.c\<close>, which owns the
  crossings. A queued event keeps the crossing it is for, as an index into the array, and the event
  with its arguments. \<open>exec_call\<close> carries out the callbacks that reach the simulator (gate
  commands and timers); the calls are also returned in order, for the Train controller,
  whose own callbacks never touch the simulator. The recursive lock is left out.
\<close>

section \<open>State\<close>

abbreviation (input) MAX_PENDING_EVENTS :: nat where "MAX_PENDING_EVENTS \<equiv> 64"
abbreviation (input) SIM_TICK_MS :: int where "SIM_TICK_MS \<equiv> 100"
abbreviation (input) TIMER_EVENT_RESERVE :: nat where "TIMER_EVENT_RESERVE \<equiv> 15"
abbreviation (input) DISTANCE_UNIT_SEC :: int where "DISTANCE_UNIT_SEC \<equiv> 5"
abbreviation (input) DEFAULT_DISTANCE_UNITS :: int where "DEFAULT_DISTANCE_UNITS \<equiv> 2"
abbreviation (input) DEFAULT_TRAIN_LENGTH_SEC :: int where "DEFAULT_TRAIN_LENGTH_SEC \<equiv> 5"
abbreviation (input) DEFAULT_TRAIN_WARNING_SEC :: int where "DEFAULT_TRAIN_WARNING_SEC \<equiv> 10"
abbreviation (input) TRAIN_WARNING_MIN_SEC :: int where "TRAIN_WARNING_MIN_SEC \<equiv> 10"
abbreviation (input) TRAIN_WARNING_MAX_SEC :: int where "TRAIN_WARNING_MAX_SEC \<equiv> 120"

record sim_event =
  deliver_at_ms :: int
  ev_cx :: nat
  ev_event :: crossing_event
  active :: bool

record sim_state =
  crossings :: "crossing list"
  time_scale :: int
  events :: "sim_event list"
  gates :: "int list"
  sim_time_ms :: int
  tick_count :: u32
  initialized :: bool
  distance_sec :: "int list"
  train_length_sec :: int
  warning_sec :: int
  config_notice :: string

text \<open>The compile-time settings of \<open>crossing_config.h\<close> that a build may override.\<close>

record rail_config =
  DISTANCE_P1_P2_UNITS :: int
  DISTANCE_P2_P3_UNITS :: int
  TRAIN_LENGTH_SEC :: int
  TRAIN_WARNING_SEC :: int

definition default_rail_config :: rail_config where
  "default_rail_config = \<lparr>DISTANCE_P1_P2_UNITS = 3, DISTANCE_P2_P3_UNITS = 3,
     TRAIN_LENGTH_SEC = 7, TRAIN_WARNING_SEC = 10\<rparr>"

definition sec_to_sim_ms :: "int \<Rightarrow> int" where
  "sec_to_sim_ms seconds = seconds * 1000"

section \<open>Event queue\<close>

primrec free_slot :: "sim_event list \<Rightarrow> nat option" where
  "free_slot [] = None"
| "free_slot (e # es) = (if \<not> active e then Some 0 else map_option Suc (free_slot es))"

definition queue_event :: "nat \<Rightarrow> crossing_event \<Rightarrow> int \<Rightarrow> sim_state \<Rightarrow> bool \<times> sim_state" where
  "queue_event i ev delay_sec s =
     (case free_slot (events s) of
        None \<Rightarrow> (False, s)
      | Some k \<Rightarrow>
          (True, s\<lparr>events := (events s)[k :=
             \<lparr>deliver_at_ms = sim_time_ms s + sec_to_sim_ms delay_sec, ev_cx = i, ev_event = ev,
              active = True\<rparr>]\<rparr>))"

text \<open>A timer event for this crossing and timer.\<close>

definition is_timer_for :: "nat \<Rightarrow> timer_id \<Rightarrow> sim_event \<Rightarrow> bool" where
  "is_timer_for i t e \<longleftrightarrow>
     active e \<and> ev_cx e = i \<and> (case ev_event e of CX_EVENT_TIMER t' g \<Rightarrow> t' = t | _ \<Rightarrow> False)"

definition rail_sim_gate_command :: "crossing \<Rightarrow> sim_state \<Rightarrow> sim_state" where
  "rail_sim_gate_command c s =
     (if initialized s \<and> 1 \<le> unat (cx_id c) \<and> unat (cx_id c) \<le> 3
      then s\<lparr>gates := (gates s)[unat (cx_id c) - 1 := sim_time_ms s + sec_to_sim_ms GATE_MOVE_SEC]\<rparr>
      else s)"

definition rail_sim_start_timer :: "nat \<Rightarrow> crossing \<Rightarrow> timer_id \<Rightarrow> int \<Rightarrow> sim_state \<Rightarrow> sim_state" where
  "rail_sim_start_timer i c t seconds s =
     (if initialized s then snd (queue_event i (CX_EVENT_TIMER t (timer_gen c t)) seconds s) else s)"

definition rail_sim_cancel_timer :: "nat \<Rightarrow> timer_id \<Rightarrow> sim_state \<Rightarrow> sim_state" where
  "rail_sim_cancel_timer i t s =
     s\<lparr>events := map (\<lambda>e. if is_timer_for i t e then e\<lparr>active := False\<rparr> else e) (events s)\<rparr>"

text \<open>The callbacks of crossing \<open>i\<close> that reach the simulator.\<close>

fun exec_call :: "nat \<Rightarrow> cx_call \<Rightarrow> sim_state \<Rightarrow> sim_state" where
  "exec_call i (c, Gate_Command cmd) s = rail_sim_gate_command c s"
| "exec_call i (c, Start_Timer t seconds) s = rail_sim_start_timer i c t seconds s"
| "exec_call i (c, Cancel_Timer t) s = rail_sim_cancel_timer i t s"
| "exec_call i (c, _) s = s"

type_synonym sim_result = "(nat \<times> cx_call) list \<times> sim_state"

text \<open>\<open>crossing_handle_event(&sim.crossings[i], ...)\<close> with its callbacks.\<close>

definition handle_at :: "string \<Rightarrow> nat \<Rightarrow> crossing_event \<Rightarrow> sim_state \<Rightarrow> sim_result" where
  "handle_at now i ev s =
     (let (c, calls) = crossing_handle_event now ev (crossings s ! i)
      in (map (Pair i) calls,
          fold (exec_call i) calls (s\<lparr>crossings := (crossings s)[i := c]\<rparr>)))"

section \<open>Start-up\<close>

definition config_value :: "string \<Rightarrow> int \<Rightarrow> int \<Rightarrow> int \<Rightarrow> int \<Rightarrow> string \<Rightarrow> int \<times> string" where
  "config_value name value mn mx fallback notice =
     (if mn \<le> value \<and> value \<le> mx then (value, notice)
      else (fallback, take 255 (notice @ (if notice = [] then [] else ''; '') @ name @ ''='' @
              show_int value @ '' refused (allowed '' @ show_int mn @ ''-'' @ show_int mx @
              ''), using default '' @ show_int fallback)))"

definition apply_config_locked :: "rail_config \<Rightarrow> sim_state \<Rightarrow> sim_state" where
  "apply_config_locked cfg s =
     (let (d1, n1) = config_value ''DISTANCE_P1_P2_UNITS'' (DISTANCE_P1_P2_UNITS cfg) 1 5
                       DEFAULT_DISTANCE_UNITS [];
          (d2, n2) = config_value ''DISTANCE_P2_P3_UNITS'' (DISTANCE_P2_P3_UNITS cfg) 1 5
                       DEFAULT_DISTANCE_UNITS n1;
          (len, n3) = config_value ''TRAIN_LENGTH_SEC'' (TRAIN_LENGTH_SEC cfg) 1 (TRAIN_TIMEOUT_SEC - 1)
                       DEFAULT_TRAIN_LENGTH_SEC n2;
          (warn, n4) = config_value ''TRAIN_WARNING_SEC'' (TRAIN_WARNING_SEC cfg)
                       TRAIN_WARNING_MIN_SEC TRAIN_WARNING_MAX_SEC DEFAULT_TRAIN_WARNING_SEC n3
      in s\<lparr>distance_sec := [DISTANCE_UNIT_SEC * d1, DISTANCE_UNIT_SEC * d2],
           train_length_sec := len, warning_sec := warn, config_notice := n4\<rparr>)"

definition zero_event :: sim_event where
  "zero_event = \<lparr>deliver_at_ms = 0, ev_cx = 0, ev_event = CX_EVENT_GATE_CLOSED, active = False\<rparr>"

definition rail_sim_init :: "rail_config \<Rightarrow> crossing list \<Rightarrow> int \<Rightarrow> sim_state" where
  "rail_sim_init cfg cs scale =
     apply_config_locked cfg
       \<lparr>crossings = cs, time_scale = (if 0 < scale then scale else 1),
        events = replicate MAX_PENDING_EVENTS zero_event, gates = [- 1, - 1, - 1],
        sim_time_ms = 0, tick_count = 0, initialized = True, distance_sec = [0, 0],
        train_length_sec = 0, warning_sec = 0, config_notice = []\<rparr>"

section \<open>Tick\<close>

definition tick_gate :: "string \<Rightarrow> nat \<Rightarrow> nat \<times> (nat \<times> cx_call) list \<times> sim_state \<Rightarrow>
    nat \<times> (nat \<times> cx_call) list \<times> sim_state" where
  "tick_gate now i r =
     (case r of (n, calls, s) \<Rightarrow>
        if 0 \<le> gates s ! i \<and> gates s ! i \<le> sim_time_ms s then
          let s1 = s\<lparr>gates := (gates s)[i := - 1]\<rparr> in
          if gate (crossings s1 ! i) = GATE_CLOSING then
            (let (cs, s2) = handle_at now i CX_EVENT_GATE_CLOSED s1 in (Suc n, calls @ cs, s2))
          else if gate (crossings s1 ! i) = GATE_OPENING then
            (let (cs, s2) = handle_at now i CX_EVENT_GATE_OPENED s1 in (Suc n, calls @ cs, s2))
          else (n, calls, s1)
        else (n, calls, s))"

definition tick_event :: "string \<Rightarrow> nat \<Rightarrow> nat \<times> (nat \<times> cx_call) list \<times> sim_state \<Rightarrow>
    nat \<times> (nat \<times> cx_call) list \<times> sim_state" where
  "tick_event now k r =
     (case r of (n, calls, s) \<Rightarrow>
        let e = events s ! k in
        if active e \<and> deliver_at_ms e \<le> sim_time_ms s then
          (let (cs, s1) = handle_at now (ev_cx e) (ev_event e) s
           in (Suc n, calls @ cs, s1\<lparr>events := (events s1)[k := (events s1 ! k)\<lparr>active := False\<rparr>]\<rparr>))
        else (n, calls, s))"

definition advance_time :: "sim_state \<Rightarrow> sim_state" where
  "advance_time s =
     s\<lparr>tick_count := tick_count s + 1, sim_time_ms := sim_time_ms s + SIM_TICK_MS * time_scale s\<rparr>"

definition rail_sim_tick :: "string \<Rightarrow> sim_state \<Rightarrow> nat \<times> (nat \<times> cx_call) list \<times> sim_state" where
  "rail_sim_tick now s =
     (if \<not> initialized s then (0, [], s)
      else fold (tick_event now) [0..<MAX_PENDING_EVENTS]
             (fold (tick_gate now) [0..<min (length (crossings s)) 3] (0, [], advance_time s)))"

section \<open>Trains\<close>

fun train_event_dir :: "crossing_event \<Rightarrow> cx_dir option" where
  "train_event_dir (CX_EVENT_TRAIN_APPROACH d) = Some d"
| "train_event_dir (CX_EVENT_TRAIN_ENTER d) = Some d"
| "train_event_dir (CX_EVENT_TRAIN_EXIT d) = Some d"
| "train_event_dir _ = None"

definition train_pending_at :: "nat \<Rightarrow> cx_dir \<Rightarrow> sim_state \<Rightarrow> bool" where
  "train_pending_at i d s \<longleftrightarrow>
     (\<exists>e \<in> set (events s). active e \<and> train_event_dir (ev_event e) = Some d \<and> ev_cx e = i)"

definition track_pending :: "cx_dir \<Rightarrow> sim_state \<Rightarrow> bool" where
  "track_pending d s \<longleftrightarrow> (\<exists>i \<in> set [0..<length (crossings s)]. train_pending_at i d s)"

definition free_event_slots :: "sim_state \<Rightarrow> nat" where
  "free_event_slots s = length (filter (\<lambda>e. \<not> active e) (events s))"

definition dir_name :: "cx_dir \<Rightarrow> string" where
  "dir_name d = (if d = CX_TRACK_UP then ''UP'' else ''DOWN'')"

text \<open>\<open>None\<close> when the train can start, or the text of the refusal.\<close>

definition can_start_train :: "nat option \<Rightarrow> cx_dir \<Rightarrow> nat \<Rightarrow> sim_state \<Rightarrow> string option" where
  "can_start_train cx d n s =
     (case find (\<lambda>i. (cx = None \<or> cx = Some i) \<and> train_pending_at i d s) [0..<length (crossings s)] of
        Some i \<Rightarrow> Some (''BUSY: Train already running on '' @ cx_name (crossings s ! i) @ '' '' @
                     dir_name d @ '' track'')
      | None \<Rightarrow>
          if free_event_slots s < n + TIMER_EVENT_RESERVE
          then Some ''BUSY: Simulation event queue full'' else None)"

definition queue_train ::
  "nat \<Rightarrow> cx_dir \<Rightarrow> int \<Rightarrow> bool \<Rightarrow> sim_state \<Rightarrow> sim_state" where
  "queue_train i d arrive no_exit s =
     (let s1 = snd (queue_event i (CX_EVENT_TRAIN_APPROACH d) (arrive - warning_sec s) s);
          s2 = snd (queue_event i (CX_EVENT_TRAIN_ENTER d) arrive s1)
      in if no_exit then s2
         else snd (queue_event i (CX_EVENT_TRAIN_EXIT d) (arrive + train_length_sec s) s2))"

text \<open>The loop of \<open>simulate_train_on_line\<close>: the crossings in the order of travel, with the
  arrival time at the previous one.\<close>

fun queue_line :: "cx_dir \<Rightarrow> int \<Rightarrow> nat option \<Rightarrow> nat list \<Rightarrow> sim_state \<Rightarrow> sim_state" where
  "queue_line d arrive prev [] s = s"
| "queue_line d arrive prev (i # is) s =
     (let a = (case prev of None \<Rightarrow> arrive | Some p \<Rightarrow> arrive + distance_sec s ! min i p)
      in queue_line d a (Some i) is (queue_train i d a False s))"

definition simulate_train_on_line :: "cx_dir \<Rightarrow> sim_state \<Rightarrow> sim_state" where
  "simulate_train_on_line d s =
     queue_line d (warning_sec s) None
       (if d = CX_TRACK_UP then rev [0..<length (crossings s)] else [0..<length (crossings s)]) s"

definition simulate_train_at_crossing :: "nat \<Rightarrow> cx_dir \<Rightarrow> bool \<Rightarrow> sim_state \<Rightarrow> sim_state" where
  "simulate_train_at_crossing i d no_exit s = queue_train i d (warning_sec s) no_exit s"

section \<open>Commands\<close>

definition parse_crossing_id :: "string \<Rightarrow> int" where
  "parse_crossing_id text =
     (let t = (if text \<noteq> [] \<and> (hd text = CHR ''P'' \<or> hd text = CHR ''p'') then tl text else text)
      in if t \<noteq> [] \<and> CHR ''1'' \<le> hd t \<and> hd t \<le> CHR ''3'' then of_char (hd t) - 48 else - 1)"

definition find_crossing :: "int \<Rightarrow> sim_state \<Rightarrow> nat option" where
  "find_crossing i s = find (\<lambda>k. uint (cx_id (crossings s ! k)) = i) [0..<length (crossings s)]"

text \<open>One \<open>%15s\<close> of \<open>sscanf\<close>: the word and the rest.\<close>

definition scan_word :: "string \<Rightarrow> (string \<times> string) option" where
  "scan_word text =
     (let t = dropWhile is_space text; w = take 15 (takeWhile (\<lambda>c. \<not> is_space c) t)
      in if w = [] then None else Some (w, drop (length w) t))"

definition scan_two_words :: "string \<Rightarrow> (string \<times> string) option" where
  "scan_two_words text =
     (case scan_word text of
        None \<Rightarrow> None
      | Some (a, rest) \<Rightarrow> map_option (\<lambda>(b, _). (a, b)) (scan_word rest))"

definition starts_with :: "string \<Rightarrow> string \<Rightarrow> bool" where
  "starts_with p text \<longleftrightarrow> take (length p) text = p"

type_synonym command_result = "bool \<times> string \<times> (nat \<times> cx_call) list \<times> sim_state"

definition single_train :: "bool \<Rightarrow> string \<Rightarrow> string \<Rightarrow> sim_state \<Rightarrow> command_result" where
  "single_train no_exit a1 a2 s =
     (case find_crossing (parse_crossing_id a1) s of
        None \<Rightarrow> (False, ''ERROR: Invalid crossing '' @ [CHR 0x27] @ a1 @ [CHR 0x27], [], s)
      | Some i \<Rightarrow>
          let d = (if a2 = ''down'' \<or> a2 = ''DOWN'' then CX_TRACK_DOWN else CX_TRACK_UP) in
          case can_start_train (Some i) d (if no_exit then 2 else 3) s of
            Some busy \<Rightarrow> (False, busy, [], s)
          | None \<Rightarrow>
              (True, (if no_exit then ''OK: No-exit train at '' else ''OK: Train at '') @
                     cx_name (crossings s ! i) @ '' '' @ dir_name d @ '' started'',
               [], simulate_train_at_crossing i d no_exit s))"

definition line_train :: "cx_dir list \<Rightarrow> string \<Rightarrow> sim_state \<Rightarrow> command_result" where
  "line_train ds ok s =
     (let n = 3 * length ds * length (crossings s) in
      case find (\<lambda>d. can_start_train None d n s \<noteq> None) ds of
        Some d \<Rightarrow> (False, the (can_start_train None d n s), [], s)
      | None \<Rightarrow> (True, ok, [], fold simulate_train_on_line ds s))"

definition crossing_command :: "crossing_event \<Rightarrow> string \<Rightarrow> string \<Rightarrow> int \<Rightarrow> string \<Rightarrow> sim_state \<Rightarrow>
    command_result" where
  "crossing_command ev ok err i now s =
     (case find_crossing i s of
        None \<Rightarrow> (False, err, [], s)
      | Some k \<Rightarrow> (let (calls, s1) = handle_at now k ev s in (True, ok @ show_int i, calls, s1)))"

definition rail_sim_set_time_scale :: "int \<Rightarrow> sim_state \<Rightarrow> sim_state" where
  "rail_sim_set_time_scale n s = (if 1 \<le> n \<and> n \<le> 100 then s\<lparr>time_scale := n\<rparr> else s)"

definition status_text :: "sim_state \<Rightarrow> string" where
  "status_text s =
     ''Sim: '' @ (if initialized s then ''OK'' else ''NOT INIT'') @ '', Scale: x'' @
     show_int (time_scale s) @ '', Elapsed: '' @ show_int (c_div (sim_time_ms s) 1000) @
     ''s, Train UP: '' @ (if track_pending CX_TRACK_UP s then ''RUNNING'' else ''IDLE'') @
     '', Train DOWN: '' @ (if track_pending CX_TRACK_DOWN s then ''RUNNING'' else ''IDLE'') @
     [CHR 0x0A] @ ''Layout: P1-P2 '' @ show_int (distance_sec s ! 0) @ ''s, P2-P3 '' @
     show_int (distance_sec s ! 1) @ ''s, train length '' @ show_int (train_length_sec s) @
     ''s, warning '' @ show_int (warning_sec s) @ ''s'' @
     (if config_notice s \<noteq> [] then '' (refused config values replaced by defaults)'' else [])"

definition help_text :: string where
  "help_text = ''Commands:'' @ [CHR 0x0A] @
     ''  train-up       - Train W->E through P3->P2->P1'' @ [CHR 0x0A] @
     ''  train-down     - Train E->W through P1->P2->P3'' @ [CHR 0x0A] @
     ''  train-both     - Start train-up and train-down together'' @ [CHR 0x0A] @
     ''                   (UP and DOWN trains can run at the same time)'' @ [CHR 0x0A] @
     ''  train P# dir   - Single train at crossing (dir=up/down)'' @ [CHR 0x0A] @
     ''  noexit P# dir  - Train that never exits'' @ [CHR 0x0A] @
     ''  p#-fault       - Inject fault (e.g., p1-fault)'' @ [CHR 0x0A] @
     ''  reset P#       - Reset fault'' @ [CHR 0x0A] @
     ''  scale N        - Set time scale (1-100)'' @ [CHR 0x0A] @
     ''  status         - Show simulator status'' @ [CHR 0x0A] @
     ''  help           - Show this help''"

text \<open>\<open>command_locked\<close>, before the reply is cut to the caller's buffer.\<close>

definition command_locked :: "string \<Rightarrow> string \<Rightarrow> sim_state \<Rightarrow> command_result" where
  "command_locked now command s =
     (if \<not> initialized s then (False, ''ERROR: Simulator not initialized'', [], s)
      else
        let cmd = dropWhile is_space command in
        if cmd = [] then (False, ''ERROR: Empty command'', [], s)
        else if cmd = ''train-both'' then
          line_train [CX_TRACK_UP, CX_TRACK_DOWN]
            ''OK: Train UP (P3->P2->P1) and DOWN (P1->P2->P3) started'' s
        else if cmd = ''train-up'' then
          line_train [CX_TRACK_UP] ''OK: Train UP (W->E) P3->P2->P1 started'' s
        else if cmd = ''train-down'' then
          line_train [CX_TRACK_DOWN] ''OK: Train DOWN (E->W) P1->P2->P3 started'' s
        else if starts_with ''train '' cmd \<and> scan_two_words (drop 6 cmd) \<noteq> None then
          (case the (scan_two_words (drop 6 cmd)) of (a1, a2) \<Rightarrow> single_train False a1 a2 s)
        else if starts_with ''noexit '' cmd \<and> scan_two_words (drop 7 cmd) \<noteq> None then
          (case the (scan_two_words (drop 7 cmd)) of (a1, a2) \<Rightarrow> single_train True a1 a2 s)
        else if 2 \<le> length cmd \<and> (hd cmd = CHR ''p'' \<or> hd cmd = CHR ''P'') \<and>
                CHR ''1'' \<le> cmd ! 1 \<and> cmd ! 1 \<le> CHR ''3'' \<and> drop 2 cmd = ''-fault'' then
          crossing_command CX_EVENT_INJECT_FAULT ''OK: Fault injected at P''
            ''ERROR: Crossing not found'' (of_char (cmd ! 1) - 48) now s
        else if starts_with ''fault '' cmd then
          crossing_command CX_EVENT_INJECT_FAULT ''OK: Fault injected at P''
            ''ERROR: Invalid crossing'' (parse_crossing_id (drop 6 cmd)) now s
        else if starts_with ''reset '' cmd then
          (let i = parse_crossing_id (drop 6 cmd) in
           if 1 \<le> i \<and> i \<le> 3
           then crossing_command CX_EVENT_RESET_FAULT ''OK: Reset P'' ''ERROR: Invalid crossing'' i now s
           else (False, ''ERROR: Invalid crossing'', [], s))
        else if starts_with ''scale '' cmd then
          (let n = atoi (drop 6 cmd) in
           if 1 \<le> n \<and> n \<le> 100
           then (True, ''OK: Time scale set to x'' @ show_int n, [], rail_sim_set_time_scale n s)
           else (False, ''ERROR: Scale must be 1-100'', [], s))
        else if cmd = ''status'' then (True, status_text s, [], s)
        else if cmd = ''help'' then (True, help_text, [], s)
        else (False, ''ERROR: Unknown command '' @ [CHR 0x27] @ cmd @ [CHR 0x27] @ ''. Type '' @
          [CHR 0x27] @ ''help'' @ [CHR 0x27] @ '' for commands.'', [], s))"

definition rail_sim_command :: "string \<Rightarrow> string \<Rightarrow> nat \<Rightarrow> sim_state \<Rightarrow> command_result" where
  "rail_sim_command now command reply_len s =
     (let (ok, reply, calls, s1) = command_locked now command s
      in (ok, take (reply_len - 1) reply, calls, s1))"

definition rail_sim_destroy :: "sim_state \<Rightarrow> sim_state" where
  "rail_sim_destroy s = s\<lparr>initialized := False\<rparr>"

definition rail_sim_is_busy :: "sim_state \<Rightarrow> bool" where
  "rail_sim_is_busy s \<longleftrightarrow> track_pending CX_TRACK_UP s \<or> track_pending CX_TRACK_DOWN s"

definition rail_sim_snapshot :: "nat \<Rightarrow> sim_state \<Rightarrow> crossing list" where
  "rail_sim_snapshot mx s = (if initialized s then take mx (crossings s) else [])"

text \<open>The crossings as \<open>main\<close> of the Train controller sets them up: each with the two
  intersections next to it.\<close>

definition initial_crossings :: "crossing list" where
  "initial_crossings = [crossing_init 1 ''P1'' 1 2, crossing_init 2 ''P2'' 3 4, crossing_init 3 ''P3'' 5 6]"

end
