(* ===== verification/Rail_Sim_Safety.thy ===== *)
theory Rail_Sim_Safety
  imports Rail_Sim
begin

text \<open>
  Correctness of the train simulator as the host of the crossings' timers: whatever commands
  come in and however the ticks fall, exactly the timers that a crossing waits for are in the event
  queue, once each and with their current generation. The queue never overflows, because a train
  is only started when its events leave room for the fifteen timers.
\<close>

section \<open>The event queue\<close>

definition train_entry :: "sim_event \<Rightarrow> bool" where
  "train_entry e \<longleftrightarrow> active e \<and> \<not> timer_event (ev_event e)"

fun event_gen :: "crossing_event \<Rightarrow> u32" where
  "event_gen (CX_EVENT_TIMER t g) = g"
| "event_gen _ = 0"

definition pending_timer :: "nat \<Rightarrow> sim_state \<Rightarrow> timer_id \<Rightarrow> u32 option" where
  "pending_timer i s t =
     (case filter (is_timer_for i t) (events s) of [] \<Rightarrow> None | e # _ \<Rightarrow> Some (event_gen (ev_event e)))"

definition MAX_TRAIN_EVENTS :: nat where
  "MAX_TRAIN_EVENTS = MAX_PENDING_EVENTS - TIMER_EVENT_RESERVE"

definition queue_ok :: "sim_event list \<Rightarrow> bool" where
  "queue_ok es \<longleftrightarrow> length es = MAX_PENDING_EVENTS \<and> (\<forall>e \<in> set es. active e \<longrightarrow> ev_cx e < 3) \<and>
     (\<forall>i t. length (filter (is_timer_for i t) es) \<le> 1) \<and>
     length (filter train_entry es) \<le> MAX_TRAIN_EVENTS"

definition host_ok :: "sim_state \<Rightarrow> bool" where
  "host_ok s \<longleftrightarrow> initialized s \<and> length (crossings s) = 3 \<and> queue_ok (events s)"

lemma split_at:
  assumes "k < length es"
  obtains A B where "es = A @ es ! k # B" "\<And>x. es[k := x] = A @ x # B" "length A = k"
  using assms id_take_nth_drop [OF assms] upd_conv_take_nth_drop [OF assms]
  by (metis length_take min.absorb4)

lemma free_slot_Some:
  "free_slot es = Some k \<Longrightarrow> k < length es \<and> \<not> active (es ! k)"
  by (induction es arbitrary: k) (auto split: if_splits)

lemma free_slot_None: "free_slot es = None \<longleftrightarrow> (\<forall>e \<in> set es. active e)"
  by (induction es) auto

lemma inactive_no_timer [simp]: "\<not> active e \<Longrightarrow> \<not> is_timer_for i t e" "\<not> active e \<Longrightarrow> \<not> train_entry e"
  by (simp_all add: is_timer_for_def train_entry_def)

lemma filter_fill:
  assumes "k < length es" "\<not> P (es ! k)"
  shows "length (filter P (es[k := x])) = length (filter P es) + of_bool (P x)"
    and "\<not> P x \<Longrightarrow> filter P (es[k := x]) = filter P es"
    and "filter P es = [] \<Longrightarrow> P x \<Longrightarrow> filter P (es[k := x]) = [x]"
proof -
  obtain A B where s: "es = A @ es ! k # B" "\<And>x. es[k := x] = A @ x # B"
    using split_at [OF assms(1)] by metis
  have f: "filter P es = filter P A @ filter P B"
    using assms(2) by (subst s(1)) simp
  show "length (filter P (es[k := x])) = length (filter P es) + of_bool (P x)"
    and "\<not> P x \<Longrightarrow> filter P (es[k := x]) = filter P es"
    and "filter P es = [] \<Longrightarrow> P x \<Longrightarrow> filter P (es[k := x]) = [x]"
    by (simp_all add: s(2) f)
qed

text \<open>Every active entry is a train event or one of fifteen timers.\<close>

lemma active_count:
  assumes "\<forall>e \<in> set es. active e \<longrightarrow> ev_cx e < 3"
  shows "length (filter active es) = length (filter train_entry es) +
    (\<Sum>(i, t) \<leftarrow> List.product [0..<3] all_timers. length (filter (is_timer_for i t) es))"
  using assms
proof (induction es)
  case (Cons e es)
  have one: "(\<Sum>(i, t) \<leftarrow> List.product [0..<3] all_timers. of_bool (is_timer_for i t e)) =
      (of_bool (active e \<and> timer_event (ev_event e)) :: nat)"
  proof (cases "ev_event e")
    case (CX_EVENT_TIMER t g)
    have "active e \<Longrightarrow> ev_cx e = 0 \<or> ev_cx e = 1 \<or> ev_cx e = 2"
      using Cons.prems by auto
    with CX_EVENT_TIMER show ?thesis
      by (cases t) (auto simp: is_timer_for_def timer_event_def all_timers_def upt_rec)
  qed (simp_all add: is_timer_for_def timer_event_def upt_rec all_timers_def)
  have "(\<Sum>(i, t) \<leftarrow> List.product [0..<3] all_timers. length (filter (is_timer_for i t) (e # es))) =
    (\<Sum>(i, t) \<leftarrow> List.product [0..<3] all_timers. of_bool (is_timer_for i t e)) +
    (\<Sum>(i, t) \<leftarrow> List.product [0..<3] all_timers. length (filter (is_timer_for i t) es))"
    by (simp only: sum_list_addf [symmetric] split_beta) (rule arg_cong [where f = sum_list], simp)
  with one Cons show ?case by (auto simp: train_entry_def)
qed simp

lemma queue_room:
  assumes "queue_ok es" "filter (is_timer_for i t) es = []" "i < 3"
  shows "free_slot es \<noteq> None"
proof
  assume "free_slot es = None"
  then have a: "length (filter active es) = MAX_PENDING_EVENTS"
    using assms(1) by (simp add: free_slot_None queue_ok_def)
  let ?L = "List.product [0..<3] all_timers"
  let ?f = "\<lambda>(i, t). length (filter (is_timer_for i t) es)"
  have "(i, t) \<in> set ?L" using assms(3) by (cases t) (auto simp: all_timers_def)
  then obtain X Y where L: "?L = X @ (i, t) # Y" by (meson split_list)
  have b: "sum_list (map ?f Z) \<le> length Z" for Z
  proof (induction Z)
    case (Cons z Z)
    have "?f z \<le> 1" using assms(1) by (cases z) (simp add: queue_ok_def)
    with Cons show ?case by simp
  qed simp
  have "sum_list (map ?f ?L) \<le> length X + length Y"
    using b [of X] b [of Y] assms(2) by (simp add: L)
  moreover have "length X + length Y = 14"
    using arg_cong [OF L, of length] by (simp add: length_product all_timers_def)
  ultimately show False
    using active_count [of es] a assms(1) by (simp add: queue_ok_def MAX_TRAIN_EVENTS_def)
qed


section \<open>The simulator as a host of timers\<close>

lemma timer_for_same: "is_timer_for i t e \<Longrightarrow> is_timer_for i' t' e \<longleftrightarrow> i' = i \<and> t' = t"
  by (cases "ev_event e") (auto simp: is_timer_for_def)

lemma pending_None: "pending_timer i s t = None \<longleftrightarrow> filter (is_timer_for i t) (events s) = []"
  by (simp add: pending_timer_def split: list.splits)

lemma pending_cong:
  "filter (is_timer_for i t) (events s) = filter (is_timer_for i t) (events s') \<Longrightarrow>
   pending_timer i s t = pending_timer i s' t"
  by (simp add: pending_timer_def)

lemma queue_fill:
  assumes "queue_ok es" "free_slot es = Some k" "ev_cx x < 3" "active x"
    and "\<And>i t. is_timer_for i t x \<Longrightarrow> filter (is_timer_for i t) es = []"
    and "train_entry x \<Longrightarrow> length (filter train_entry es) < MAX_TRAIN_EVENTS"
  shows "queue_ok (es[k := x])"
proof -
  have k: "k < length es" "\<not> active (es ! k)" using free_slot_Some assms(2) by auto
  have "length (filter (is_timer_for i t) (es[k := x])) \<le> 1" for i t
    using assms(1) assms(5) [of i t] k filter_fill(1) [of k es "is_timer_for i t" x]
    by (auto simp: queue_ok_def)
  moreover have "length (filter train_entry (es[k := x])) \<le> MAX_TRAIN_EVENTS"
    using assms(1,6) k filter_fill(1) [of k es train_entry x] by (auto simp: queue_ok_def)
  ultimately show ?thesis using assms(1,3) set_update_subset_insert [of es k x]
    by (auto simp: queue_ok_def)
qed

lemma sim_start:
  assumes ok: "host_ok s" and i: "i < 3" and none: "pending_timer i s t = None"
  shows "\<exists>k. k < length (events s) \<and> \<not> active (events s ! k) \<and>
    rail_sim_start_timer i c t n s =
      s\<lparr>events := (events s)[k := \<lparr>deliver_at_ms = sim_time_ms s + sec_to_sim_ms n, ev_cx = i,
        ev_event = CX_EVENT_TIMER t (timer_gen c t), active = True\<rparr>]\<rparr> \<and>
    host_ok (rail_sim_start_timer i c t n s)"
proof -
  have q: "queue_ok (events s)" "initialized s" using ok by (auto simp: host_ok_def)
  obtain k where k: "free_slot (events s) = Some k"
    using queue_room [OF q(1) _ i] none by (auto simp: pending_None)
  let ?x = "\<lparr>deliver_at_ms = sim_time_ms s + sec_to_sim_ms n, ev_cx = i,
        ev_event = CX_EVENT_TIMER t (timer_gen c t), active = True\<rparr>"
  have "queue_ok ((events s)[k := ?x])"
    using queue_fill [OF q(1) k, of ?x] i none
    by (simp add: is_timer_for_def train_entry_def timer_event_def pending_None)
  with k q free_slot_Some [OF k] ok show ?thesis
    by (auto simp: rail_sim_start_timer_def queue_event_def host_ok_def)
qed

lemma cancel_entry:
  "is_timer_for i' t' (if is_timer_for i t e then e\<lparr>active := False\<rparr> else e) \<longleftrightarrow>
     is_timer_for i' t' e \<and> \<not> (i' = i \<and> t' = t)"
  "train_entry (if is_timer_for i t e then e\<lparr>active := False\<rparr> else e) \<longleftrightarrow> train_entry e"
  by (cases "ev_event e"; auto simp: is_timer_for_def train_entry_def timer_event_def)+

lemma cancel_filter:
  "filter (is_timer_for i' t') (map (\<lambda>e. if is_timer_for i t e then e\<lparr>active := False\<rparr> else e) es) =
     (if i' = i \<and> t' = t then [] else filter (is_timer_for i' t') es)"
  "filter train_entry (map (\<lambda>e. if is_timer_for i t e then e\<lparr>active := False\<rparr> else e) es) =
     filter train_entry es"
proof -
  have "is_timer_for i t e \<Longrightarrow> \<not> train_entry e" for e
    by (cases "ev_event e") (auto simp: is_timer_for_def train_entry_def timer_event_def)
  then show "filter train_entry (map (\<lambda>e. if is_timer_for i t e then e\<lparr>active := False\<rparr> else e) es) =
     filter train_entry es"
    by (induction es) (auto simp: cancel_entry)
qed (induction es, auto simp: cancel_entry timer_for_same)

lemma cancel_ok: "host_ok s \<Longrightarrow> host_ok (rail_sim_cancel_timer i t s)"
  by (auto simp: rail_sim_cancel_timer_def host_ok_def queue_ok_def cancel_filter)

lemma cancel_pending:
  "pending_timer i' (rail_sim_cancel_timer i t s) t' =
     (if i' = i \<and> t' = t then None else pending_timer i' s t')"
  by (simp add: rail_sim_cancel_timer_def pending_timer_def cancel_filter)

lemma gate_command_sel [simp]:
  "events (rail_sim_gate_command c s) = events s" "crossings (rail_sim_gate_command c s) = crossings s"
  "initialized (rail_sim_gate_command c s) = initialized s"
  "sim_time_ms (rail_sim_gate_command c s) = sim_time_ms s"
  by (simp_all add: rail_sim_gate_command_def)

lemma start_pending:
  assumes "host_ok s" "i < 3" "pending_timer i s t = None"
  shows "pending_timer i' (rail_sim_start_timer i c t n s) t' =
     (if i' = i \<and> t' = t then Some (timer_gen c t) else pending_timer i' s t')"
proof -
  let ?x = "\<lparr>deliver_at_ms = sim_time_ms s + sec_to_sim_ms n, ev_cx = i,
        ev_event = CX_EVENT_TIMER t (timer_gen c t), active = True\<rparr>"
  obtain k where k: "k < length (events s)" "\<not> active (events s ! k)"
    "rail_sim_start_timer i c t n s = s\<lparr>events := (events s)[k := ?x]\<rparr>"
    using sim_start [OF assms, of c n] by blast
  have x: "is_timer_for i' t' ?x \<longleftrightarrow> i' = i \<and> t' = t" by (auto simp: is_timer_for_def)
  have n: "\<not> is_timer_for i' t' (events s ! k)" using k(2) by simp
  show ?thesis
  proof (cases "i' = i \<and> t' = t")
    case True
    then have "filter (is_timer_for i' t') ((events s)[k := ?x]) = [?x]"
      using filter_fill(3) [of k "events s" "is_timer_for i' t'" ?x] k(1) n x assms(3) by (simp add: pending_None)
    with True show ?thesis by (simp add: k(3) pending_timer_def)
  next
    case False
    then have "filter (is_timer_for i' t') ((events s)[k := ?x]) = filter (is_timer_for i' t') (events s)"
      using filter_fill(2) [of k "events s" "is_timer_for i' t'" ?x] k(1) n x by simp
    with False show ?thesis by (auto simp: k(3) pending_timer_def)
  qed
qed

definition host_at :: "nat \<Rightarrow> sim_state \<Rightarrow> bool" where
  "host_at i s \<longleftrightarrow> i < 3 \<and> host_ok s"

lemma gate_command_host [simp]:
  "host_ok (rail_sim_gate_command c s) = host_ok s"
  "pending_timer i (rail_sim_gate_command c s) = pending_timer i s"
  by (simp_all add: host_ok_def pending_timer_def fun_eq_iff)

interpretation sim: timer_host "exec_call i" "pending_timer i" "host_at i" for i
proof
  fix s t c n
  assume "host_at i s" "pending_timer i s t = None"
  then show "host_at i (exec_call i (c, Start_Timer t n) s) \<and>
      pending_timer i (exec_call i (c, Start_Timer t n) s) = (pending_timer i s)(t \<mapsto> timer_gen c t)"
    using sim_start [of s i t c n] by (auto simp: host_at_def fun_eq_iff start_pending)
next
  fix s c t
  assume "host_at i s"
  then show "host_at i (exec_call i (c, Cancel_Timer t) s) \<and>
      pending_timer i (exec_call i (c, Cancel_Timer t) s) = (pending_timer i s)(t := None)"
    by (auto simp: host_at_def fun_eq_iff cancel_pending cancel_ok)
next
  fix s out c
  assume "host_at i s" "\<not> timer_call out"
  then show "host_at i (exec_call i (c, out) s) \<and> pending_timer i (exec_call i (c, out) s) = pending_timer i s"
    by (cases out) (auto simp: host_at_def timer_call_def)
qed

text \<open>What a call for one crossing leaves alone.\<close>

lemma exec_call_frame [simp]:
  "crossings (exec_call i x s) = crossings s" "initialized (exec_call i x s) = initialized s"
  "sim_time_ms (exec_call i x s) = sim_time_ms s"
  by (cases "(i, x, s)" rule: exec_call.cases;
      simp add: rail_sim_start_timer_def queue_event_def rail_sim_cancel_timer_def split: option.split)+

lemma exec_calls_frame [simp]:
  "crossings (fold (exec_call i) calls s) = crossings s"
  "initialized (fold (exec_call i) calls s) = initialized s"
  "sim_time_ms (fold (exec_call i) calls s) = sim_time_ms s"
  by (induction calls arbitrary: s) simp_all

lemma queue_event_other:
  assumes "\<And>k. \<not> P \<lparr>deliver_at_ms = sim_time_ms s + sec_to_sim_ms n, ev_cx = i, ev_event = ev, active = True\<rparr>"
    "\<And>e. P e \<Longrightarrow> active e"
  shows "filter P (events (snd (queue_event i ev n s))) = filter P (events s)"
proof (cases "free_slot (events s)")
  case (Some k)
  with free_slot_Some [OF Some] assms filter_fill(2) [of k "events s" P] show ?thesis
    by (auto simp: queue_event_def)
qed (simp add: queue_event_def)

lemma exec_call_other:
  assumes "i' \<noteq> i"
  shows "pending_timer i' (exec_call i x s) = pending_timer i' s"
proof -
  have "pending_timer i' (rail_sim_start_timer i c t n s) t' = pending_timer i' s t'" for c t n t'
    using queue_event_other [of "is_timer_for i' t'" s n i "CX_EVENT_TIMER t (timer_gen c t)"] assms
    by (auto simp: rail_sim_start_timer_def is_timer_for_def intro!: pending_cong)
  with assms show ?thesis
    by (cases "(i, x, s)" rule: exec_call.cases) (auto simp: fun_eq_iff cancel_pending)
qed

lemma exec_calls_other:
  "i' \<noteq> i \<Longrightarrow> pending_timer i' (fold (exec_call i) calls s) = pending_timer i' s"
  by (induction calls arbitrary: s) (simp_all add: exec_call_other)

section \<open>The simulator's invariant\<close>

definition sim_ok :: "sim_state \<Rightarrow> bool" where
  "sim_ok s \<longleftrightarrow> host_ok s \<and>
     (\<forall>i < 3. cx_ok (crossings s ! i) \<and> pending_timer i s = cx_timers (crossings s ! i))"

lemma sim_okD:
  assumes "sim_ok s"
  shows "host_ok s" "i < 3 \<Longrightarrow> cx_ok (crossings s ! i)"
    "i < 3 \<Longrightarrow> pending_timer i s = cx_timers (crossings s ! i)"
    "length (crossings s) = 3" "length (events s) = MAX_PENDING_EVENTS" "initialized s"
  using assms by (auto simp: sim_ok_def host_ok_def queue_ok_def)

lemma host_crossings [simp]:
  "length cs = 3 \<Longrightarrow> length (crossings s) = 3 \<Longrightarrow> host_ok (s\<lparr>crossings := cs\<rparr>) = host_ok s"
  "pending_timer i (s\<lparr>crossings := cs\<rparr>) = pending_timer i s"
  by (auto simp: host_ok_def pending_timer_def fun_eq_iff)

lemma handle_at_ok:
  assumes ok: "sim_ok s" and i: "i < 3" and ev: "\<not> timer_event ev"
  shows "sim_ok (snd (handle_at now i ev s))"
proof -
  let ?r = "crossing_handle_event now ev (crossings s ! i)"
  let ?s = "s\<lparr>crossings := (crossings s)[i := fst ?r]\<rparr>"
  have h: "host_at i ?s" using sim_okD(1,4) [OF ok] i by (simp add: host_at_def)
  have p: "pending_timer i ?s = cx_timers (crossings s ! i)" using sim_okD(3) [OF ok i] by simp
  note r = sim.run_event [OF h sim_okD(2) [OF ok i] p ev, of now]
  show ?thesis using r sim_okD [OF ok] i handle_event_ok [OF sim_okD(2) [OF ok i]]
    by (auto simp: sim_ok_def handle_at_def split_beta Let_def host_at_def exec_calls_other nth_list_update)
qed

text \<open>A slot in use is only ever freed by cancelling its timer.\<close>

lemma exec_call_slot:
  assumes "k < length (events s)" "active (events s ! k)"
  shows "events (exec_call i x s) ! k = events s ! k \<or>
    (\<exists>t. snd x = Cancel_Timer t \<and> is_timer_for i t (events s ! k) \<and> \<not> active (events (exec_call i x s) ! k))"
    and "length (events (exec_call i x s)) = length (events s)"
proof -
  have q: "events (snd (queue_event j ev n s)) ! k = events s ! k" for j ev n
    using assms free_slot_Some [of "events s"]
    by (auto simp: queue_event_def nth_list_update split: option.split)
  have l: "length (events (snd (queue_event j ev n s))) = length (events s)" for j ev n
    by (simp add: queue_event_def split: option.split)
  show "events (exec_call i x s) ! k = events s ! k \<or>
    (\<exists>t. snd x = Cancel_Timer t \<and> is_timer_for i t (events s ! k) \<and> \<not> active (events (exec_call i x s) ! k))"
    using assms by (cases "(i, x, s)" rule: exec_call.cases)
      (auto simp: rail_sim_start_timer_def q rail_sim_cancel_timer_def)
  show "length (events (exec_call i x s)) = length (events s)"
    by (cases "(i, x, s)" rule: exec_call.cases)
      (auto simp: rail_sim_start_timer_def l rail_sim_cancel_timer_def)
qed

lemma exec_calls_keep:
  assumes "k < length (events s)" "active (events s ! k)"
    and "\<And>t. Cancel_Timer t \<in> set (map snd calls) \<Longrightarrow> \<not> is_timer_for i t (events s ! k)"
  shows "events (fold (exec_call i) calls s) ! k = events s ! k"
  using assms
proof (induction calls arbitrary: s)
  case (Cons x calls)
  have e: "events (exec_call i x s) ! k = events s ! k"
    using exec_call_slot(1) [OF Cons.prems(1,2), of i x] Cons.prems(3) by fastforce
  with Cons exec_call_slot(2) [OF Cons.prems(1,2), of i x] show ?case by simp
qed simp

lemma exec_calls_free:
  assumes "\<not> active (events s ! k)" "k < length (events s)"
    and "\<And>t n. Start_Timer t n \<notin> set (map snd calls)"
  shows "\<not> active (events (fold (exec_call i) calls s) ! k)"
  using assms
proof (induction calls arbitrary: s)
  case (Cons x calls)
  have "\<not> active (events (exec_call i x s) ! k) \<and> k < length (events (exec_call i x s))"
    using Cons.prems by (cases "(i, x, s)" rule: exec_call.cases) (auto simp: rail_sim_cancel_timer_def)
  with Cons show ?case by simp
qed simp

lemma exec_calls_keep_or_free:
  assumes "k < length (events s)" "active (events s ! k)"
    and "\<And>t n. Start_Timer t n \<notin> set (map snd calls)"
  shows "events (fold (exec_call i) calls s) ! k = events s ! k \<or>
    \<not> active (events (fold (exec_call i) calls s) ! k)"
  using assms
proof (induction calls arbitrary: s)
  case (Cons x calls)
  have l: "k < length (events (exec_call i x s))" using exec_call_slot(2) [OF Cons.prems(1,2)] Cons.prems(1) by simp
  have n: "\<And>t n. Start_Timer t n \<notin> set (map snd calls)" using Cons.prems(3) by auto
  consider "events (exec_call i x s) ! k = events s ! k" | "\<not> active (events (exec_call i x s) ! k)"
    using exec_call_slot(1) [OF Cons.prems(1,2), of i x] by blast
  then show ?case
  proof cases
    case 1
    with Cons.IH [OF l] Cons.prems(2) n show ?thesis by simp
  next
    case 2
    with exec_calls_free [OF 2 l n] show ?thesis by simp
  qed
qed simp

definition retire :: "nat \<Rightarrow> sim_state \<Rightarrow> sim_state" where
  "retire k s = s\<lparr>events := (events s)[k := (events s ! k)\<lparr>active := False\<rparr>]\<rparr>"

lemma filter_retire:
  assumes k: "k < length es" and x: "\<not> P x"
  shows "P (es ! k) \<Longrightarrow> length (filter P es) \<le> 1 \<Longrightarrow> filter P (es[k := x]) = []"
    and "length (filter P (es[k := x])) \<le> length (filter P es)"
proof -
  obtain A B where s: "es = A @ es ! k # B" "\<And>x. es[k := x] = A @ x # B"
    using split_at [OF k] by metis
  have f: "filter P es = filter P A @ (if P (es ! k) then [es ! k] else []) @ filter P B"
    by (subst s(1)) simp
  show "P (es ! k) \<Longrightarrow> length (filter P es) \<le> 1 \<Longrightarrow> filter P (es[k := x]) = []"
    and "length (filter P (es[k := x])) \<le> length (filter P es)"
    using x by (simp_all add: s(2) f)
qed

lemma retire_host:
  assumes ok: "host_ok s" and k: "k < MAX_PENDING_EVENTS"
  shows "host_ok (retire k s)"
proof -
  have q: "queue_ok (events s)" "k < length (events s)" using ok k by (auto simp: host_ok_def queue_ok_def)
  let ?x = "(events s ! k)\<lparr>active := False\<rparr>"
  have "length (filter (is_timer_for i t) ((events s)[k := ?x])) \<le> 1" for i t
    using filter_retire(2) [OF q(2), of "is_timer_for i t" ?x] q(1)
    by (simp add: queue_ok_def) (meson le_trans)
  moreover have "length (filter train_entry ((events s)[k := ?x])) \<le> MAX_TRAIN_EVENTS"
    using filter_retire(2) [OF q(2), of train_entry ?x] q(1) by (simp add: queue_ok_def)
  ultimately show ?thesis using ok q set_update_subset_insert [of "events s" k ?x]
    by (auto simp: host_ok_def queue_ok_def retire_def)
qed

lemma retire_pending:
  assumes ok: "host_ok s" and k: "k < MAX_PENDING_EVENTS"
  shows "pending_timer i (retire k s) t =
    (if is_timer_for i t (events s ! k) then None else pending_timer i s t)"
proof -
  have q: "length (filter (is_timer_for i t) (events s)) \<le> 1" "k < length (events s)"
    using ok k by (auto simp: host_ok_def queue_ok_def)
  let ?x = "(events s ! k)\<lparr>active := False\<rparr>"
  show ?thesis
    using filter_retire(1) [OF q(2), of "is_timer_for i t" ?x] q(1)
      filter_fill(2) [of k "events s" "is_timer_for i t" ?x] q(2)
    by (simp add: retire_def pending_timer_def)
qed

lemma retire_sel [simp]: "crossings (retire k s) = crossings s" "sim_time_ms (retire k s) = sim_time_ms s"
  by (simp_all add: retire_def)

lemma pending_entry:
  assumes "host_ok s" "e \<in> set (events s)" "active e" "ev_event e = CX_EVENT_TIMER t g"
  shows "pending_timer (ev_cx e) s t = Some g"
proof -
  let ?F = "filter (is_timer_for (ev_cx e) t) (events s)"
  have "e \<in> set ?F" using assms by (simp add: is_timer_for_def)
  moreover have "length ?F \<le> 1" using assms(1) by (simp add: host_ok_def queue_ok_def)
  ultimately have "?F = [e]" by (cases ?F) auto
  with assms(4) show ?thesis by (simp add: pending_timer_def)
qed

text \<open>The slot of a timer that goes off is not given to another timer by its own handler.\<close>

lemma timer_slot:
  assumes ok: "cx_ok c" and ct: "cx_timers c t = Some g"
    and k: "k < length (events s)" "active (events s ! k)" "ev_event (events s ! k) = CX_EVENT_TIMER t g"
  shows "let s' = fold (exec_call i) (snd (crossing_handle_event now (CX_EVENT_TIMER t g) c)) s
    in events s' ! k = events s ! k \<or> t \<noteq> TIMER_GATE_CLOSE_DELAY \<and> \<not> active (events s' ! k)"
  using ok ct
proof (cases rule: handle_timer_cases [where now = now])
  case 1
  have "Cancel_Timer t' \<in> set (map snd (snd (crossing_handle_event now (CX_EVENT_TIMER t g) c))) \<Longrightarrow>
      \<not> is_timer_for i t' (events s ! k)" for t'
    using start_gate_close_outputs 1 k(3) by (force simp: is_timer_for_def)
  with exec_calls_keep [OF k(1,2)] show ?thesis by (simp add: Let_def)
next
  case (2 f)
  have "Start_Timer t' n \<notin> set (map snd (snd (crossing_handle_event now (CX_EVENT_TIMER t g) c)))" for t' n
    using enter_fault_outputs 2 by force
  with exec_calls_keep_or_free [OF k(1,2)] 2(1) show ?thesis by (simp add: Let_def)
qed

lemma sim_ok_update:
  assumes ok: "sim_ok s" and i: "i < 3" and h: "host_ok s'" and cs: "crossings s' = (crossings s)[i := c]"
    and c: "cx_ok c" "pending_timer i s' = cx_timers c"
    and o: "\<And>j. j \<noteq> i \<Longrightarrow> pending_timer j s' = pending_timer j s"
  shows "sim_ok s'"
  unfolding sim_ok_def
proof (intro conjI allI impI h)
  fix j :: nat assume j: "j < 3"
  show "cx_ok (crossings s' ! j)"
    using sim_okD(2,4) [OF ok] c(1) j i by (simp add: cs nth_list_update)
  show "pending_timer j s' = cx_timers (crossings s' ! j)"
    using c(2) o [of j] sim_okD(3,4) [OF ok] j i by (cases "j = i") (simp_all add: cs)
qed

lemma deliver_timer_ok:
  assumes ok: "sim_ok s" and k: "k < MAX_PENDING_EVENTS" and act: "active (events s ! k)"
    and cx: "ev_cx (events s ! k) = i" and ev: "ev_event (events s ! k) = CX_EVENT_TIMER t g"
  shows "sim_ok (retire k (snd (handle_at now i (CX_EVENT_TIMER t g) s)))"
proof -
  let ?e = "events s ! k"
  let ?r = "crossing_handle_event now (CX_EVENT_TIMER t g) (crossings s ! i)"
  let ?s0 = "s\<lparr>crossings := (crossings s)[i := fst ?r]\<rparr>"
  let ?s' = "fold (exec_call i) (snd ?r) ?s0"
  have k': "k < length (events s)" using sim_okD(5) [OF ok] k by simp
  then have e: "?e \<in> set (events s)" by simp
  with sim_okD(1) [OF ok] act cx have i: "i < 3" by (auto simp: host_ok_def queue_ok_def)
  have h: "host_at i ?s0" using sim_okD(1,4) [OF ok] i by (simp add: host_at_def)
  have p: "pending_timer i ?s0 = cx_timers (crossings s ! i)" using sim_okD(3) [OF ok i] by simp
  have pt: "pending_timer i ?s0 t = Some g"
    using pending_entry [OF sim_okD(1) [OF ok] e act ev] cx by simp
  have ct: "cx_timers (crossings s ! i) t = Some g" using p pt by simp
  note c = sim_okD(2) [OF ok i]
  have r: "host_ok ?s'" "pending_timer i ?s' =
      (cx_timers (fst ?r))(t := if t = TIMER_GATE_CLOSE_DELAY then Some g else None)"
    using sim.run_timer [OF h c p pt, of now] by (auto simp: host_at_def)
  have slot: "events ?s' ! k = ?e \<or> t \<noteq> TIMER_GATE_CLOSE_DELAY \<and> \<not> active (events ?s' ! k)"
    using timer_slot [OF c ct, of k ?s0 i now] k' act ev by (simp add: Let_def)
  have "sim_ok (retire k ?s')"
  proof (rule sim_ok_update [OF ok i retire_host [OF r(1) k]])
    show "pending_timer i (retire k ?s') = cx_timers (fst ?r)"
      using slot r(2) handle_timer_spent [OF c ct, of now] ev act cx
      by (auto simp: retire_pending [OF r(1) k] fun_eq_iff is_timer_for_def)
    show "pending_timer j (retire k ?s') = pending_timer j s" if "j \<noteq> i" for j
      using slot that cx by (auto simp: retire_pending [OF r(1) k] fun_eq_iff exec_calls_other is_timer_for_def)
  qed (simp_all add: handle_event_ok [OF c])
  then show ?thesis by (simp add: handle_at_def split_beta Let_def)
qed

lemma deliver_event_ok:
  assumes ok: "sim_ok s" and k: "k < MAX_PENDING_EVENTS" and act: "active (events s ! k)"
  shows "sim_ok (retire k (snd (handle_at now (ev_cx (events s ! k)) (ev_event (events s ! k)) s)))"
proof (cases "timer_event (ev_event (events s ! k))")
  case False
  let ?e = "events s ! k"
  let ?s' = "snd (handle_at now (ev_cx ?e) (ev_event ?e) s)"
  have k': "k < length (events s)" using sim_okD(5) [OF ok] k by simp
  then have "?e \<in> set (events s)" by simp
  with sim_okD(1) [OF ok] act have "ev_cx ?e < 3" by (auto simp: host_ok_def queue_ok_def)
  then have s': "sim_ok ?s'" using handle_at_ok [OF ok _ False] by simp
  have "\<not> is_timer_for j t ?e" for j t
    using False by (cases "ev_event ?e") (auto simp: is_timer_for_def timer_event_def)
  moreover have "events ?s' ! k = ?e"
    using exec_calls_keep [where k = k] k' act calculation by (simp add: handle_at_def split_beta Let_def)
  ultimately show ?thesis using s' k
    by (simp add: sim_ok_def retire_host retire_pending fun_eq_iff)
next
  case True
  then obtain t g where "ev_event (events s ! k) = CX_EVENT_TIMER t g"
    by (cases "ev_event (events s ! k)") (auto simp: timer_event_def)
  with deliver_timer_ok [OF ok k act] show ?thesis by simp
qed

section \<open>Ticks\<close>

lemma sim_ok_frame [simp]:
  "sim_ok (s\<lparr>gates := x\<rparr>) = sim_ok s" "sim_ok (advance_time s) = sim_ok s"
  "sim_ok (s\<lparr>time_scale := n\<rparr>) = sim_ok s"
  by (simp_all add: sim_ok_def host_ok_def pending_timer_def fun_eq_iff advance_time_def)

lemma tick_gate_ok:
  assumes "sim_ok (snd (snd r))" "i < 3"
  shows "sim_ok (snd (snd (tick_gate now i r)))"
  using assms
  by (auto simp: tick_gate_def split_beta Let_def timer_event_def intro!: handle_at_ok split: prod.split)

lemma tick_event_ok:
  assumes "sim_ok (snd (snd r))" "k < MAX_PENDING_EVENTS"
  shows "sim_ok (snd (snd (tick_event now k r)))"
  using assms deliver_event_ok [of "snd (snd r)" k now]
  by (auto simp: tick_event_def split_beta Let_def retire_def split: prod.split)

lemma tick_ok:
  assumes "sim_ok s"
  shows "sim_ok (snd (snd (rail_sim_tick now s)))"
proof -
  have "sim_ok (snd (snd (fold (tick_gate now) [0..<3] (0, [], advance_time s))))"
    by (rule fold_ok [where P = "\<lambda>r. sim_ok (snd (snd r))"]) (use assms in \<open>auto intro!: tick_gate_ok\<close>)
  then have "sim_ok (snd (snd (fold (tick_event now) [0..<MAX_PENDING_EVENTS]
      (fold (tick_gate now) [0..<3] (0, [], advance_time s)))))"
    by (rule fold_ok [where P = "\<lambda>r. sim_ok (snd (snd r))", rotated]) (auto intro!: tick_event_ok)
  then show ?thesis using sim_okD(4) [OF assms] assms by (simp add: rail_sim_tick_def)
qed

section \<open>Starting trains\<close>

definition train_room :: "nat \<Rightarrow> sim_state \<Rightarrow> bool" where
  "train_room n s \<longleftrightarrow> length (filter train_entry (events s)) + n \<le> MAX_TRAIN_EVENTS"

lemma train_active: "length (filter train_entry es) \<le> length (filter active es)"
  by (induction es) (auto simp: train_entry_def)

lemma can_start_room:
  assumes ok: "sim_ok s" and "can_start_train cx d n s = None"
  shows "train_room n s"
proof -
  have "MAX_PENDING_EVENTS = length (filter active (events s)) + free_event_slots s"
    using sum_length_filter_compl [of active "events s"] sim_okD(5) [OF ok] by (simp add: free_event_slots_def)
  moreover have "n + TIMER_EVENT_RESERVE \<le> free_event_slots s"
    using assms(2) by (auto simp: can_start_train_def split: option.splits if_splits)
  ultimately show ?thesis using train_active [of "events s"] by (simp add: train_room_def MAX_TRAIN_EVENTS_def)
qed

lemma queue_event_train:
  assumes ok: "sim_ok s" and i: "i < 3" and ev: "\<not> timer_event ev" and room: "train_room (Suc n) s"
  shows "sim_ok (snd (queue_event i ev delay s)) \<and> train_room n (snd (queue_event i ev delay s))"
proof (cases "free_slot (events s)")
  case None
  with ok room show ?thesis by (simp add: queue_event_def train_room_def)
next
  case (Some k)
  let ?x = "\<lparr>deliver_at_ms = sim_time_ms s + sec_to_sim_ms delay, ev_cx = i, ev_event = ev, active = True\<rparr>"
  have k: "k < length (events s)" "\<not> active (events s ! k)" using free_slot_Some [OF Some] by auto
  have x: "\<not> is_timer_for j t ?x" for j t
    using ev by (cases ev) (auto simp: is_timer_for_def timer_event_def)
  have q: "queue_ok (events s)" using sim_okD(1) [OF ok] by (simp add: host_ok_def)
  have "queue_ok ((events s)[k := ?x])"
    using queue_fill [OF q Some, of ?x] i x room by (simp add: train_room_def)
  then have h: "host_ok (s\<lparr>events := (events s)[k := ?x]\<rparr>)"
    using sim_okD(1) [OF ok] by (simp add: host_ok_def)
  have "pending_timer j (s\<lparr>events := (events s)[k := ?x]\<rparr>) t = pending_timer j s t" for j t
    using filter_fill(2) [of k "events s" "is_timer_for j t" ?x] k x by (simp add: pending_timer_def)
  then have p: "pending_timer j (s\<lparr>events := (events s)[k := ?x]\<rparr>) = pending_timer j s" for j by auto
  have "train_room n (s\<lparr>events := (events s)[k := ?x]\<rparr>)"
    using filter_fill(1) [of k "events s" train_entry ?x] k room by (simp add: train_room_def)
  with h p ok Some show ?thesis by (simp add: queue_event_def sim_ok_def)
qed

lemma queue_event_sel [simp]:
  "crossings (snd (queue_event i ev n s)) = crossings s"
  "sim_time_ms (snd (queue_event i ev n s)) = sim_time_ms s"
  "warning_sec (snd (queue_event i ev n s)) = warning_sec s"
  "train_length_sec (snd (queue_event i ev n s)) = train_length_sec s"
  "distance_sec (snd (queue_event i ev n s)) = distance_sec s"
  by (simp_all add: queue_event_def split: option.split)

lemma queue_train_sel [simp]:
  "crossings (queue_train i d a ne s) = crossings s"
  "warning_sec (queue_train i d a ne s) = warning_sec s"
  "sim_time_ms (queue_train i d a ne s) = sim_time_ms s"
  "train_length_sec (queue_train i d a ne s) = train_length_sec s"
  "distance_sec (queue_train i d a ne s) = distance_sec s"
  by (simp_all add: queue_train_def Let_def)

lemma room_less: "train_room n s \<Longrightarrow> m \<le> n \<Longrightarrow> train_room m s"
  by (simp add: train_room_def)

lemma queue_train_ok:
  assumes "sim_ok s" "i < 3" "train_room (n + (if no_exit then 2 else 3)) s"
  shows "sim_ok (queue_train i d a no_exit s) \<and> train_room n (queue_train i d a no_exit s)"
proof -
  have r: "train_room (Suc (Suc (n + (if no_exit then 0 else 1)))) s"
    using assms(3) by (simp add: eval_nat_numeral split: if_splits)
  note q = queue_event_train [OF _ assms(2)]
  let ?s1 = "snd (queue_event i (CX_EVENT_TRAIN_APPROACH d) (a - warning_sec s) s)"
  let ?s2 = "snd (queue_event i (CX_EVENT_TRAIN_ENTER d) a ?s1)"
  have 1: "sim_ok ?s1 \<and> train_room (Suc (n + (if no_exit then 0 else 1))) ?s1"
    by (rule q [OF assms(1) _ r]) (simp add: timer_event_def)
  have 2: "sim_ok ?s2 \<and> train_room (n + (if no_exit then 0 else 1)) ?s2"
    by (rule q) (use 1 in \<open>simp_all add: timer_event_def\<close>)
  then show ?thesis
    using q [of ?s2 "CX_EVENT_TRAIN_EXIT d" n "a + train_length_sec s"]
    by (cases no_exit) (simp_all add: queue_train_def Let_def timer_event_def)
qed

lemma queue_line_ok:
  assumes "sim_ok s" "set is \<subseteq> {..<3}" "train_room (n + 3 * length is) s"
  shows "sim_ok (queue_line d a prev is s) \<and> train_room n (queue_line d a prev is s)"
  using assms
proof (induction "is" arbitrary: a prev s)
  case (Cons i "is")
  show ?case using Cons.IH Cons.prems queue_train_ok [of s i "n + 3 * length is" False d]
    by (simp add: Let_def algebra_simps)
qed simp

lemma line_ok:
  assumes "sim_ok s" "train_room (n + 9) s"
  shows "sim_ok (simulate_train_on_line d s) \<and> train_room n (simulate_train_on_line d s)"
  using queue_line_ok [of s "if d = CX_TRACK_UP then rev [0..<length (crossings s)] else [0..<length (crossings s)]" n]
    assms sim_okD(4) [OF assms(1)]
  by (simp add: simulate_train_on_line_def lessThan_atLeast0)

lemma single_train_ok:
  assumes "sim_ok s"
  shows "sim_ok (snd (snd (snd (single_train no_exit a1 a2 s))))"
proof (cases "find_crossing (parse_crossing_id a1) s")
  case (Some i)
  then have i: "i < 3" using sim_okD(4) [OF assms] by (auto simp: find_crossing_def dest: find_SomeD)
  have "sim_ok (simulate_train_at_crossing i d no_exit s)"
    if "can_start_train (Some i) d (if no_exit then 2 else 3) s = None" for d
    using queue_train_ok [OF assms i, of 0 no_exit] can_start_room [OF assms that]
    by (simp add: simulate_train_at_crossing_def)
  then show ?thesis using Some assms by (auto simp: single_train_def Let_def split: option.split)
qed (simp add: single_train_def assms)

lemma line_train_ok:
  assumes ok: "sim_ok s" and ds: "ds = [d] \<or> ds = [CX_TRACK_UP, CX_TRACK_DOWN]"
  shows "sim_ok (snd (snd (snd (line_train ds msg s))))"
proof (cases "find (\<lambda>d. can_start_train None d (3 * length ds * length (crossings s)) s \<noteq> None) ds")
  case None
  then have "can_start_train None (hd ds) (3 * length ds * 3) s = None"
    using ds sim_okD(4) [OF ok] by (auto split: if_splits)
  then have r: "train_room (3 * length ds * 3) s" by (rule can_start_room [OF ok])
  have "sim_ok (fold simulate_train_on_line ds s)"
    using ds r line_ok [OF ok, of 9 CX_TRACK_UP] line_ok [OF ok, of 0 d]
      line_ok [of "simulate_train_on_line CX_TRACK_UP s" 0 CX_TRACK_DOWN] by auto
  with None show ?thesis by (simp add: line_train_def Let_def)
qed (simp add: line_train_def Let_def ok)

lemma crossing_command_ok:
  assumes ok: "sim_ok s" and ev: "\<not> timer_event ev"
  shows "sim_ok (snd (snd (snd (crossing_command ev msg err i now s))))"
proof (cases "find_crossing i s")
  case (Some k)
  then have "k < 3" using sim_okD(4) [OF ok] by (auto simp: find_crossing_def dest: find_SomeD)
  with Some show ?thesis using handle_at_ok [OF ok _ ev] by (simp add: crossing_command_def split_beta)
qed (simp add: crossing_command_def ok)

lemma command_ok:
  assumes "sim_ok s"
  shows "sim_ok (snd (snd (snd (command_locked now text s))))"
  using assms line_train_ok [OF assms] single_train_ok [OF assms]
    crossing_command_ok [OF assms, of CX_EVENT_INJECT_FAULT] crossing_command_ok [OF assms, of CX_EVENT_RESET_FAULT]
  by (simp add: command_locked_def Let_def split_beta timer_event_def rail_sim_set_time_scale_def)

section \<open>Runs\<close>

datatype sim_input = Sim_Tick string | Sim_Command string string

fun sim_step :: "sim_input \<Rightarrow> sim_state \<Rightarrow> sim_state" where
  "sim_step (Sim_Tick now) s = snd (snd (rail_sim_tick now s))"
| "sim_step (Sim_Command now text) s = snd (snd (snd (command_locked now text s)))"

interpretation sim_run: inv_machine sim_step "\<lambda>_. True" sim_ok
proof
  fix s i
  assume "sim_ok s"
  then show "sim_ok (sim_step i s)" by (cases i) (simp_all add: tick_ok command_ok)
qed

lemma init_ok:
  assumes "length cs = 3" "\<forall>c \<in> set cs. cx_ok c \<and> cx_timers c = (\<lambda>_. None)"
  shows "sim_ok (rail_sim_init cfg cs scale)"
proof -
  let ?s = "rail_sim_init cfg cs scale"
  have sel: "crossings ?s = cs" "events ?s = replicate MAX_PENDING_EVENTS zero_event" "initialized ?s"
    by (simp_all add: rail_sim_init_def apply_config_locked_def Let_def split_beta)
  have z: "\<not> active zero_event" by (simp add: zero_event_def)
  have "pending_timer i ?s = (\<lambda>_. None)" for i
    using z by (simp add: fun_eq_iff pending_timer_def sel(2))
  moreover have "queue_ok (events ?s)" using z by (simp add: sel(2) queue_ok_def)
  ultimately show ?thesis using assms sel by (simp add: sim_ok_def host_ok_def)
qed

lemma initial_ok: "sim_ok (rail_sim_init cfg initial_crossings scale)"
proof (rule init_ok)
  have "cx_timers (crossing_init i name l1 l2) = (\<lambda>_. None)" for i name l1 l2
    by (simp add: timer_map_eq cx_timers_def crossing_init_def)
  then show "\<forall>c \<in> set initial_crossings. cx_ok c \<and> cx_timers c = (\<lambda>_. None)"
    by (simp add: initial_crossings_def crossing_init_ok)
qed (simp add: initial_crossings_def)

lemma sim_run_ok: "sim_ok (fold sim_step inputs (rail_sim_init cfg initial_crossings scale))"
  by (rule sim_run.run_inv) (simp_all add: initial_ok)

text \<open>The generations of all queued events for a timer of a crossing, in the order of the queue, and those its state asks
  for: at most one.\<close>

definition queued_timers :: "sim_state \<Rightarrow> nat \<Rightarrow> timer_id \<Rightarrow> u32 list" where
  "queued_timers s i t =
     concat (map (\<lambda>e. case ev_event e of CX_EVENT_TIMER t' g \<Rightarrow> if active e \<and> ev_cx e = i \<and> t' = t then [g] else [] | _ \<Rightarrow> [])
       (events s))"

definition wanted_timers :: "crossing \<Rightarrow> timer_id \<Rightarrow> u32 list" where
  "wanted_timers c t =
     (if fault c = CX_FAULT_NONE \<and>
         (case t of TIMER_GATE_CLOSE_DELAY \<Rightarrow> close_delay_pending c
          | TIMER_GATE_CLOSE_TIMEOUT \<Rightarrow> gate c = GATE_CLOSING
          | TIMER_GATE_OPEN_TIMEOUT \<Rightarrow> gate c = GATE_OPENING
          | TIMER_TRAIN_TIMEOUT_UP \<Rightarrow> track_up c = CX_TRACK_ON_CROSSING
          | TIMER_TRAIN_TIMEOUT_DOWN \<Rightarrow> track_down c = CX_TRACK_ON_CROSSING)
      then [timer_gen c t] else [])"

lemma queued_filter: "queued_timers s i t = map (\<lambda>e. event_gen (ev_event e)) (filter (is_timer_for i t) (events s))"
proof -
  have "concat (map (\<lambda>e. case ev_event e of CX_EVENT_TIMER t' g \<Rightarrow> if active e \<and> ev_cx e = i \<and> t' = t then [g] else [] | _ \<Rightarrow> []) es) =
      map (\<lambda>e. event_gen (ev_event e)) (filter (is_timer_for i t) es)" for es
    by (induction es) (auto simp: is_timer_for_def split: crossing_event.split)
  then show ?thesis by (simp add: queued_timers_def)
qed

lemma queued_exact:
  assumes "sim_ok s" "i < 3"
  shows "queued_timers s i t = wanted_timers (crossings s ! i) t"
proof -
  let ?c = "crossings s ! i"
  have "length (filter (is_timer_for i t) (events s)) \<le> 1"
    using sim_okD(1) [OF assms(1)] by (simp add: host_ok_def queue_ok_def)
  then have "queued_timers s i t = (case pending_timer i s t of None \<Rightarrow> [] | Some g \<Rightarrow> [g])"
    by (cases "filter (is_timer_for i t) (events s)") (auto simp: queued_filter pending_timer_def)
  also have "\<dots> = (case cx_timers ?c t of None \<Rightarrow> [] | Some g \<Rightarrow> [g])" using sim_okD(3) [OF assms] by simp
  also have "\<dots> = wanted_timers ?c t"
    using cx_okD(1,2) [OF sim_okD(2) [OF assms]] by (cases t; cases "gate ?c"; auto simp: cx_timers_def wanted_timers_def)
  finally show ?thesis .
qed

text \<open>C21: After any commands and ticks, the event queue holds for every crossing exactly the timers its state waits
  for: the delay before closing, the watchdog of a moving gate and of each registered train, each in exactly one active
  event with the current generation, and no event at all for any other timer. Every active event belongs to one of the
  three crossings, and every crossing is protected.\<close>

theorem sim_run_timers_exact:
  "let s = fold sim_step inputs (rail_sim_init cfg initial_crossings scale)
   in map (\<lambda>i. map (queued_timers s i) all_timers) [0, 1, 2] = map (\<lambda>c. map (wanted_timers c) all_timers) (crossings s) \<and>
      list_all (\<lambda>e. ev_cx e < 3) (filter active (events s)) \<and> list_all road_protected (crossings s)"
proof -
  let ?s = "fold sim_step inputs (rail_sim_init cfg initial_crossings scale)"
  note ok = sim_run_ok [of inputs cfg scale]
  obtain a b c where cs: "crossings ?s = [a, b, c]"
    using sim_okD(4) [OF ok] by (auto simp: length_Suc_conv eval_nat_numeral)
  have "list_all (\<lambda>e. ev_cx e < 3) (filter active (events ?s))"
    using sim_okD(1) [OF ok] by (auto simp: host_ok_def queue_ok_def list_all_iff)
  then show ?thesis
    using sim_okD(2) [OF ok, of 0] sim_okD(2) [OF ok, of 1] sim_okD(2) [OF ok, of 2]
      queued_exact [OF ok, of 0] queued_exact [OF ok, of 1] queued_exact [OF ok, of 2]
    by (simp add: cs Let_def ok_road_protected)
qed

section \<open>Accepted trains\<close>

lemma train_queue_room:
  assumes "sim_ok s" "train_room (Suc n) s"
  shows "free_slot (events s) \<noteq> None"
proof
  let ?es = "events s"
  let ?L = "List.product [0..<3] all_timers"
  assume "free_slot ?es = None"
  then have a: "length (filter active ?es) = MAX_PENDING_EVENTS"
    using sim_okD(5) [OF assms(1)] by (simp add: free_slot_None)
  have q: "queue_ok ?es" using sim_okD(1) [OF assms(1)] by (simp add: host_ok_def)
  have "(\<Sum>(i, t) \<leftarrow> ?L. length (filter (is_timer_for i t) ?es)) \<le> (\<Sum>(i, t) \<leftarrow> ?L. 1)"
    using q by (intro sum_list_mono) (auto simp: queue_ok_def)
  also have "\<dots> = TIMER_EVENT_RESERVE" by (simp add: all_timers_def upt_rec)
  finally show False
    using active_count [of ?es] a q assms(2) by (simp add: queue_ok_def train_room_def MAX_TRAIN_EVENTS_def)
qed

definition has_event :: "sim_state \<Rightarrow> nat \<Rightarrow> crossing_event \<Rightarrow> int \<Rightarrow> bool" where
  "has_event s i ev at \<longleftrightarrow>
     (\<exists>e \<in> set (events s). active e \<and> ev_cx e = i \<and> ev_event e = ev \<and> deliver_at_ms e = at)"

lemma queue_event_keeps:
  assumes "has_event s i ev at"
  shows "has_event (snd (queue_event j ev' n s)) i ev at"
proof (cases "free_slot (events s)")
  case (Some k)
  obtain e where e: "e \<in> set (events s)" "active e" "ev_cx e = i" "ev_event e = ev" "deliver_at_ms e = at"
    using assms by (auto simp: has_event_def)
  obtain m where m: "m < length (events s)" "events s ! m = e" using e(1) by (auto simp: in_set_conv_nth)
  have "m \<noteq> k" using free_slot_Some [OF Some] e(2) m(2) by auto
  then have "e \<in> set ((events s)[k := x])" for x
    using m by (metis length_list_update nth_list_update_neq nth_mem)
  with e Some show ?thesis by (auto simp: queue_event_def has_event_def)
qed (simp add: queue_event_def assms)

lemma queue_event_has:
  assumes "sim_ok s" "train_room (Suc n) s"
  shows "has_event (snd (queue_event i ev delay s)) i ev (sim_time_ms s + sec_to_sim_ms delay)"
proof -
  obtain k where k: "free_slot (events s) = Some k" using train_queue_room [OF assms] by auto
  with free_slot_Some [OF k] set_update_memI [of k "events s"] show ?thesis
    by (force simp: queue_event_def has_event_def)
qed

lemma queue_train_has:
  assumes ok: "sim_ok s" and i: "i < 3" and room: "train_room (n + 3) s"
  shows "has_event (queue_train i d a False s) i (CX_EVENT_TRAIN_APPROACH d) (sim_time_ms s + sec_to_sim_ms (a - warning_sec s))"
    and "has_event (queue_train i d a False s) i (CX_EVENT_TRAIN_ENTER d) (sim_time_ms s + sec_to_sim_ms a)"
    and "has_event (queue_train i d a False s) i (CX_EVENT_TRAIN_EXIT d) (sim_time_ms s + sec_to_sim_ms (a + train_length_sec s))"
    and "has_event s j ev at \<Longrightarrow> has_event (queue_train i d a False s) j ev at"
proof -
  let ?s1 = "snd (queue_event i (CX_EVENT_TRAIN_APPROACH d) (a - warning_sec s) s)"
  let ?s2 = "snd (queue_event i (CX_EVENT_TRAIN_ENTER d) a ?s1)"
  have r: "train_room (Suc (Suc (Suc n))) s" using room by (simp add: eval_nat_numeral)
  have 1: "sim_ok ?s1 \<and> train_room (Suc (Suc n)) ?s1"
    by (rule queue_event_train [OF ok i _ r]) (simp add: timer_event_def)
  have 2: "sim_ok ?s2 \<and> train_room (Suc n) ?s2"
    by (rule queue_event_train [OF _ i]) (use 1 in \<open>simp_all add: timer_event_def\<close>)
  note k = queue_event_keeps
  show "has_event (queue_train i d a False s) i (CX_EVENT_TRAIN_APPROACH d) (sim_time_ms s + sec_to_sim_ms (a - warning_sec s))"
    using k [OF k [OF queue_event_has [OF ok r]]] by (simp add: queue_train_def Let_def)
  show "has_event (queue_train i d a False s) i (CX_EVENT_TRAIN_ENTER d) (sim_time_ms s + sec_to_sim_ms a)"
    using k [OF queue_event_has [of ?s1 "Suc n"]] 1 by (simp add: queue_train_def Let_def)
  show "has_event (queue_train i d a False s) i (CX_EVENT_TRAIN_EXIT d) (sim_time_ms s + sec_to_sim_ms (a + train_length_sec s))"
    using queue_event_has [of ?s2 n i _ "a + train_length_sec s"] 2 by (simp add: queue_train_def Let_def)
  show "has_event (queue_train i d a False s) j ev at" if "has_event s j ev at"
    using k [OF k [OF k [OF that]]] by (simp add: queue_train_def Let_def)
qed

text \<open>The events of a train that reaches crossing \<open>i\<close> after \<open>a\<close> seconds, and of a run along the line.\<close>

definition passage :: "cx_dir \<Rightarrow> sim_state \<Rightarrow> nat \<times> int \<Rightarrow> (nat \<times> crossing_event \<times> int) list" where
  "passage d s p = (case p of (i, a) \<Rightarrow>
     [(i, CX_EVENT_TRAIN_APPROACH d, a - warning_sec s), (i, CX_EVENT_TRAIN_ENTER d, a),
      (i, CX_EVENT_TRAIN_EXIT d, a + train_length_sec s)])"

definition timetable :: "cx_dir \<Rightarrow> sim_state \<Rightarrow> (nat \<times> crossing_event \<times> int) list" where
  "timetable d s = concat (map (passage d s)
     (let w = warning_sec s; p = distance_sec s ! 0; q = distance_sec s ! 1
      in if d = CX_TRACK_UP then [(2, w), (1, w + q), (0, w + q + p)]
         else [(0, w), (1, w + p), (2, w + p + q)]))"

fun arrivals :: "int \<Rightarrow> nat option \<Rightarrow> int list \<Rightarrow> nat list \<Rightarrow> (nat \<times> int) list" where
  "arrivals arrive prev dist [] = []"
| "arrivals arrive prev dist (i # is) =
     (let a = (case prev of None \<Rightarrow> arrive | Some p \<Rightarrow> arrive + dist ! min i p)
      in (i, a) # arrivals a (Some i) dist is)"

lemma queue_line_keeps:
  "has_event s j ev at \<Longrightarrow> has_event (queue_line d a prev is s) j ev at"
  by (induction d a prev "is" s rule: queue_line.induct)
    (simp_all add: Let_def queue_train_def queue_event_keeps)

lemma queue_line_has:
  assumes "sim_ok s" "set is \<subseteq> {..<3}" "train_room (n + 3 * length is) s"
    and "p \<in> set (arrivals a prev (distance_sec s) is)" "(i, ev, sec) \<in> set (passage d s p)"
  shows "has_event (queue_line d a prev is s) i ev (sim_time_ms s + sec_to_sim_ms sec)"
  using assms
proof (induction "is" arbitrary: a prev s)
  case (Cons k ks)
  let ?a = "case prev of None \<Rightarrow> a | Some p \<Rightarrow> a + distance_sec s ! min k p"
  let ?s = "queue_train k d ?a False s"
  have ok: "sim_ok ?s \<and> train_room (n + 3 * length ks) ?s"
    using queue_train_ok [of s k "n + 3 * length ks" False d ?a] Cons.prems by (simp add: algebra_simps)
  have same: "passage d ?s = passage d s" by (simp add: passage_def fun_eq_iff)
  show ?case
  proof (cases "p = (k, ?a)")
    case True
    have "train_room (n + 3 * length ks + 3) s" using Cons.prems(3) by (simp add: algebra_simps)
    then have "has_event ?s i ev (sim_time_ms s + sec_to_sim_ms sec)"
      using queue_train_has(1-3) [of s k "n + 3 * length ks" d ?a] Cons.prems(1,2,5) True
      by (auto simp: passage_def)
    then show ?thesis by (simp add: Let_def queue_line_keeps)
  next
    case False
    then show ?thesis using Cons.IH [of ?s] Cons.prems ok same by (simp add: Let_def)
  qed
qed simp

lemma line_has:
  assumes "sim_ok s" "train_room (n + 9) s" "(i, ev, sec) \<in> set (timetable d s)"
  shows "has_event (simulate_train_on_line d s) i ev (sim_time_ms s + sec_to_sim_ms sec)"
proof -
  let ?is = "if d = CX_TRACK_UP then rev [0..<length (crossings s)] else [0..<length (crossings s)]"
  have len: "length (crossings s) = 3" using sim_okD(4) [OF assms(1)] .
  have arr: "set (timetable d s) = (\<Union>p \<in> set (arrivals (warning_sec s) None (distance_sec s) ?is). set (passage d s p))"
    by (auto simp: timetable_def len upt_rec Let_def numeral_2_eq_2)
  then obtain p where "p \<in> set (arrivals (warning_sec s) None (distance_sec s) ?is)" "(i, ev, sec) \<in> set (passage d s p)"
    using assms(3) by auto
  then show ?thesis
    using queue_line_has [OF assms(1), of ?is n p] assms(2) len
    by (simp add: simulate_train_on_line_def lessThan_atLeast0)
qed

lemma line_sel [simp]:
  "sim_time_ms (queue_line d a p is s) = sim_time_ms s"
  "warning_sec (queue_line d a p is s) = warning_sec s"
  "train_length_sec (queue_line d a p is s) = train_length_sec s"
  "distance_sec (queue_line d a p is s) = distance_sec s"
  by (induction d a p "is" s rule: queue_line.induct) (simp_all add: Let_def)

lemma timetable_line [simp]:
  "timetable d (simulate_train_on_line d' s) = timetable d s"
  "sim_time_ms (simulate_train_on_line d' s) = sim_time_ms s"
  by (simp_all add: simulate_train_on_line_def timetable_def passage_def Let_def)

text \<open>C22: When a train on the whole line is accepted, every event of its timetable is in the queue, at
  every crossing in the order of travel and at its time: the queue never drops one.\<close>

theorem accepted_train_fully_queued:
  assumes ok: "sim_ok s"
    and cmd: "(cmd, ds) \<in> {(''train-up'', [CX_TRACK_UP]), (''train-down'', [CX_TRACK_DOWN]),
        (''train-both'', [CX_TRACK_UP, CX_TRACK_DOWN])}"
    and acc: "fst (command_locked now cmd s)"
    and ev: "d \<in> set ds" "(i, ev, sec) \<in> set (timetable d s)"
  shows "has_event (snd (snd (snd (command_locked now cmd s)))) i ev (sim_time_ms s + 1000 * sec)"
proof -
  have "\<exists>msg. command_locked now cmd s = line_train ds msg s"
    using cmd sim_okD(6) [OF ok] by (auto simp: command_locked_def is_space_def)
  then obtain msg where c: "command_locked now cmd s = line_train ds msg s" ..
  have none: "find (\<lambda>d. can_start_train None d (3 * length ds * length (crossings s)) s \<noteq> None) ds = None"
    using acc unfolding c by (auto simp: line_train_def Let_def split: option.splits)
  then have r: "train_room (9 * length ds) s"
    using can_start_room [OF ok, of None d "9 * length ds"] ev(1) sim_okD(4) [OF ok]
    by (auto simp: find_None_iff algebra_simps)
  have "has_event (fold simulate_train_on_line ds s) i ev (sim_time_ms s + sec_to_sim_ms sec)"
  proof (cases "ds = [CX_TRACK_UP, CX_TRACK_DOWN]")
    case True
    let ?s = "simulate_train_on_line CX_TRACK_UP s"
    have 1: "sim_ok ?s \<and> train_room 9 ?s" using line_ok [OF ok, of 9] r True by simp
    show ?thesis
    proof (cases "d = CX_TRACK_UP")
      case UP: True
      then have "has_event ?s i ev (sim_time_ms s + sec_to_sim_ms sec)"
        using line_has [OF ok, of 9] r True ev(2) by simp
      then show ?thesis using True by (simp add: simulate_train_on_line_def [of CX_TRACK_DOWN] queue_line_keeps)
    next
      case False
      then have "d = CX_TRACK_DOWN" using ev(1) True by auto
      then show ?thesis using line_has [of ?s 0 i ev sec CX_TRACK_DOWN] 1 True ev(2) by simp
    qed
  next
    case False
    then have "ds = [d]" using cmd ev(1) by auto
    with line_has [OF ok, of 0 i ev sec d] r ev(2) show ?thesis by simp
  qed
  with none show ?thesis by (simp add: c line_train_def Let_def sec_to_sim_ms_def mult.commute)
qed

theorem accepted_train_fully_queued_witness:
  "has_event (snd (snd (snd (command_locked [] ''train-both''
      (rail_sim_init default_rail_config initial_crossings 10))))) 0 (CX_EVENT_TRAIN_ENTER CX_TRACK_UP) 40000"
proof -
  let ?s = "rail_sim_init default_rail_config initial_crossings 10"
  have "(0, CX_EVENT_TRAIN_ENTER CX_TRACK_UP, 40) \<in> set (timetable CX_TRACK_UP ?s)" by code_simp
  moreover have "fst (command_locked [] ''train-both'' ?s)" by code_simp
  moreover have "sim_time_ms ?s = 0" by code_simp
  ultimately show ?thesis
    using accepted_train_fully_queued [OF initial_ok [of default_rail_config 10],
        of "''train-both''" "[CX_TRACK_UP, CX_TRACK_DOWN]" "[]" CX_TRACK_UP 0 "CX_EVENT_TRAIN_ENTER CX_TRACK_UP" 40]
    by simp
qed

section \<open>Coarse time scales\<close>

text \<open>With the accepted time scale 20 a tick is two simulated seconds, the close delay and the
  gate movement are each noticed late, and a regular train enters before the gate is closed: the crossing
  goes into the \<open>TRAIN_EARLY\<close> fault although nothing is wrong.\<close>

theorem coarse_scale_faults:
  "fault (crossings (fold sim_step
      ([Sim_Command [] ''scale 20'', Sim_Command [] ''train P1 up''] @ replicate 5 (Sim_Tick []))
      (rail_sim_init default_rail_config initial_crossings 10)) ! 0) = CX_FAULT_TRAIN_EARLY"
  by code_simp

end
