(* ===== verification/Communication.thy ===== *)
theory Communication
  imports Protocol
begin

text \<open>
  The IPC layer shared by the controllers: connections to named services
  (\<^verbatim>\<open>common/communication/connection.c\<close>), sending with a timeout (\<^verbatim>\<open>send.c\<close>) and the
  receive loop with its handler table (\<^verbatim>\<open>receive.c\<close>). The QNX calls are arguments: the
  connection id that \<open>name_open\<close> gives for a path, whether \<open>TimerTimeout\<close> armed the timeout,
  the reply that \<open>MsgSend\<close> got, and what \<open>MsgReceive\<close> returned.
\<close>

section \<open>Connections\<close>

record connection =
  coid :: int
  connected :: bool
  connection_msg_printed :: bool
  service_path :: string
  service_name :: string
  mode :: connection_mode

definition connection_init :: "string \<Rightarrow> connection_mode \<Rightarrow> connection" where
  "connection_init name m =
     \<lparr>coid = - 1, connected = False, connection_msg_printed = False,
      service_path = take 127 (''/dev/name/local/'' @ name), service_name = copy_text 63 name, mode = m\<rparr>"

definition connection_init_remote :: "string \<Rightarrow> string \<Rightarrow> connection" where
  "connection_init_remote name remote_vm =
     \<lparr>coid = - 1, connected = False, connection_msg_printed = False,
      service_path = take 127 (''/net/'' @ remote_vm @ ''/dev/name/local/'' @ name),
      service_name = copy_text 63 name, mode = CONN_MODE_GLOBAL\<rparr>"

text \<open>The result says whether the link is newly connected.\<close>

definition connection_try_connect :: "(string \<Rightarrow> int) \<Rightarrow> connection \<Rightarrow> bool \<times> connection" where
  "connection_try_connect name_open conn =
     (if connected conn then (False, conn)
      else let c = name_open (service_path conn) in
        if c \<noteq> - 1 then (True, conn\<lparr>coid := c, connected := True, connection_msg_printed := False\<rparr>)
        else (False, conn))"

definition connection_close :: "connection \<Rightarrow> connection" where
  "connection_close conn = conn\<lparr>coid := - 1, connected := False, connection_msg_printed := False\<rparr>"

text \<open>\<open>connection_parse_args\<close> over the option characters that \<open>getopt\<close> returns, in order.\<close>

definition connection_parse_args :: "char list \<Rightarrow> connection_mode" where
  "connection_parse_args opts =
     fold (\<lambda>opt m. if opt = CHR ''l'' then CONN_MODE_LOCAL else if opt = CHR ''g'' then CONN_MODE_GLOBAL
                   else m) opts CONN_MODE_LOCAL"

definition connection_mode_str :: "connection_mode \<Rightarrow> string" where
  "connection_mode_str m = (if m = CONN_MODE_LOCAL then ''LOCAL'' else ''GLOBAL'')"

section \<open>Sending\<close>

text \<open>What the kernel does with one send: whether the timeout could be armed, and the reply, if one
  came in time.\<close>

record send_outcome =
  timer_armed :: bool
  msg_reply :: "reply option"

type_synonym send_result = "reply option \<times> connection"

text \<open>\<open>None\<close> is the return value \<open>-1\<close>.\<close>

definition send_message_timeout :: "send_outcome \<Rightarrow> connection \<Rightarrow> send_result" where
  "send_message_timeout out conn =
     (if coid conn = - 1 then (None, conn)
      else if \<not> timer_armed out then (None, conn)
      else case msg_reply out of
        None \<Rightarrow> (None, connection_close conn)
      | Some r \<Rightarrow> (Some r, conn))"

definition empty_frame :: "string \<Rightarrow> msg_type \<Rightarrow> controller_type \<Rightarrow> controller_type \<Rightarrow> test_message" where
  "empty_frame now type src dst =
     \<lparr>header = \<lparr>hdr_type = msg_code type, hdr_src = controller_code src, hdr_dst = controller_code dst,
        hdr_reserved = 0, hdr_timestamp = overlay (now @ [NUL]) (replicate TIMESTAMP_SIZE NUL)\<rparr>,
      data = zero_data\<rparr>"

text \<open>The outcome may depend on the link and the frame.\<close>

type_synonym network = "string \<Rightarrow> test_message \<Rightarrow> send_outcome"

definition send_checked :: "network \<Rightarrow> test_message \<Rightarrow> connection \<Rightarrow> send_result" where
  "send_checked net msg conn =
     (if \<not> connected conn then (None, conn)
      else send_message_timeout (net (service_path conn) msg) conn)"

definition send_test_message ::
  "network \<Rightarrow> string \<Rightarrow> controller_type \<Rightarrow> controller_type \<Rightarrow> connection \<Rightarrow> send_result" where
  "send_test_message net now src dst = send_checked net (empty_frame now MSG_TEST src dst)"

definition send_heartbeat ::
  "network \<Rightarrow> string \<Rightarrow> controller_type \<Rightarrow> controller_type \<Rightarrow> connection \<Rightarrow> send_result" where
  "send_heartbeat net now src dst = send_checked net (empty_frame now MSG_HEARTBEAT src dst)"

section \<open>Receiving\<close>

text \<open>A handler returns its result code, the reply it has filled and the new state.\<close>

type_synonym 's handler = "test_message \<Rightarrow> reply \<Rightarrow> 's \<Rightarrow> int \<times> reply \<times> 's"

record 's handler_entry =
  entry_type :: u16
  entry_from :: u16
  entry_handler :: "'s handler"

datatype received = Recv_Error | Recv_Pulse | Recv_Frame test_message

definition zero_reply :: reply where
  "zero_reply = \<lparr>reply_status = 0, reply_timestamp = [], reply_command_id = 0\<rparr>"

definition error_reply :: reply where
  "error_reply = zero_reply\<lparr>reply_status := - 1\<rparr>"

definition find_handler :: "'s handler_entry list \<Rightarrow> u16 \<Rightarrow> u16 \<Rightarrow> 's handler option" where
  "find_handler hs type src =
     map_option entry_handler
       (find (\<lambda>e. entry_type e = type \<and> \<not> (entry_from e \<noteq> 0 \<and> entry_from e \<noteq> src)) hs)"

text \<open>\<open>receive_once\<close> returns its result, the replies sent with \<open>MsgReply\<close> and the new state.\<close>

fun receive_once ::
  "'s handler_entry list \<Rightarrow> string \<Rightarrow> received \<Rightarrow> 's \<Rightarrow> int \<times> reply list \<times> 's" where
  "receive_once hs now Recv_Error s = (- 1, [], s)"
| "receive_once hs now Recv_Pulse s = (0, [], s)"
| "receive_once hs now (Recv_Frame msg) s =
     (if hdr_type (header msg) = msg_code MSG_HEARTBEAT
      then (1, [zero_reply\<lparr>reply_timestamp := now\<rparr>], s)
      else case find_handler hs (hdr_type (header msg)) (hdr_src (header msg)) of
        None \<Rightarrow> (1, [error_reply], s)
      | Some h \<Rightarrow>
          (let (result, r, s1) = h msg zero_reply s
           in (1, [if result = 0 then r else error_reply], s1)))"

section \<open>Properties\<close>

definition link_ok :: "connection \<Rightarrow> bool" where
  "link_ok conn \<longleftrightarrow> (connected conn \<longleftrightarrow> coid conn \<noteq> - 1)"

lemma link_ok_ops [simp]:
  "link_ok (connection_init name m)" "link_ok (connection_init_remote name vm)"
  "link_ok (connection_close conn)"
  "link_ok conn \<Longrightarrow> link_ok (snd (connection_try_connect nopen conn))"
  "link_ok conn \<Longrightarrow> link_ok (snd (send_message_timeout out conn))"
  "link_ok conn \<Longrightarrow> link_ok (snd (send_checked net msg conn))"
  by (auto simp: link_ok_def connection_init_def connection_init_remote_def connection_close_def
      connection_try_connect_def send_message_timeout_def send_checked_def Let_def split: option.split)

text \<open>A failed send on an armed link takes the link down, so that the next attempt reconnects.\<close>

lemma send_failure:
  assumes "link_ok conn" "timer_armed out" "fst (send_message_timeout out conn) = None"
  shows "\<not> connected (snd (send_message_timeout out conn))"
  using assms by (auto simp: link_ok_def send_message_timeout_def connection_close_def split: option.splits)

lemma one_reply:
  "length (fst (snd (receive_once hs now r s))) = (case r of Recv_Frame m \<Rightarrow> 1 | _ \<Rightarrow> 0)"
  by (cases r) (auto simp: split_beta Let_def split: option.split)

lemma heartbeat_pure:
  "hdr_type (header m) = msg_code MSG_HEARTBEAT \<Longrightarrow>
   receive_once hs now (Recv_Frame m) s = (1, [zero_reply\<lparr>reply_timestamp := now\<rparr>], s)"
  by simp

text \<open>Every frame that arrives gets exactly one reply, so no sender stays blocked; a heartbeat is
  answered with success and never changes the controller; a frame no handler accepts is
  answered with an error and changes nothing either.\<close>

theorem receive_once_replies:
  "case receive_once hs now (Recv_Frame m) s of (result, replies, s') \<Rightarrow>
     result = 1 \<and> length replies = 1 \<and>
     (hdr_type (header m) = msg_code MSG_HEARTBEAT \<longrightarrow> reply_status (hd replies) = 0 \<and> s' = s) \<and>
     (hdr_type (header m) \<noteq> msg_code MSG_HEARTBEAT \<and>
        (\<forall>e \<in> set hs. entry_type e \<noteq> hdr_type (header m) \<or>
           entry_from e \<noteq> 0 \<and> entry_from e \<noteq> hdr_src (header m)) \<longrightarrow>
        reply_status (hd replies) = - 1 \<and> s' = s)"
  by (auto simp: zero_reply_def error_reply_def find_handler_def split_beta Let_def find_None_iff
      split: option.split dest: find_SomeD)

theorem receive_once_replies_witness:
  "receive_once [] ''12:00:00'' (Recv_Frame (empty_frame [] MSG_TEST CONTROLLER_TRAIN CONTROLLER_LOCAL)) (7 :: nat)
     = (1, [error_reply], 7)"
  using receive_once_replies [where hs = "[]" and now = "''12:00:00''" and s = "7 :: nat" and
      m = "empty_frame [] MSG_TEST CONTROLLER_TRAIN CONTROLLER_LOCAL"]
  by (simp add: empty_frame_def find_handler_def split_beta)

end
