(* ===== verification/Train_Ui.thy ===== *)
theory Train_Ui
  imports Crossing_Timers
begin

text \<open>
  The display state of the Train controller, \<^verbatim>\<open>ui/train_ui.c\<close> and \<^verbatim>\<open>train_ui.h\<close>: what the
  status screen shows and the setters through which the threads change it. The mutex and
  the printing are left out. The crossing index of a setter is an integer that may
  be out of range, and then nothing happens.
\<close>

datatype ui_screen = UI_SCREEN_MENU | UI_SCREEN_STATUS | UI_SCREEN_COMMAND

datatype flash_state = FLASH_OFF | FLASH_ON

datatype train_frequency = FREQ_PEAK | FREQ_NIGHT

datatype train_signal = SIGNAL_PROCEED | SIGNAL_STOP

datatype connection_status = CONN_CONNECTED | CONN_LOST

datatype crossing_fault = CROSSING_FAULT_NONE | CROSSING_FAULT_GATE_CLOSE_TIMEOUT
  | CROSSING_FAULT_GATE_OPEN_TIMEOUT | CROSSING_FAULT_SENSOR_FAILURE | CROSSING_FAULT_COMM_LOSS

text \<open>\<open>track_state_t\<close> has the values of \<open>cx_track_state_t\<close>, and the code casts one to the other.\<close>

record crossing_view =
  cv_track_up :: cx_track_state
  cv_track_down :: cx_track_state
  cv_boom_gate :: gate_state
  cv_road_flash :: flash_state
  cv_fault :: crossing_fault
  cv_preempt_time :: string
  cv_clear_time :: string

record message_info =
  mi_timestamp :: string
  mi_type :: string
  mi_endpoint :: string

record train_ui =
  ui_central_status :: connection_status
  ui_local_status :: connection_status
  ui_central_last_update :: string
  ui_local_last_update :: string
  ui_frequency :: train_frequency
  ui_time_scale :: int
  ui_signal :: train_signal
  ui_crossings :: "crossing_view list"
  ui_last_sent :: message_info
  ui_last_received :: message_info
  ui_active_faults :: int
  ui_current_screen :: ui_screen
  ui_needs_update :: bool

definition no_time :: string where
  "no_time = ''--:--:--''"

definition train_ui_init :: train_ui where
  "train_ui_init =
     \<lparr>ui_central_status = CONN_LOST, ui_local_status = CONN_LOST, ui_central_last_update = [],
      ui_local_last_update = [], ui_frequency = FREQ_PEAK, ui_time_scale = 10,
      ui_signal = SIGNAL_PROCEED,
      ui_crossings = replicate NUM_CROSSINGS
        \<lparr>cv_track_up = CX_TRACK_NONE, cv_track_down = CX_TRACK_NONE, cv_boom_gate = GATE_OPEN,
         cv_road_flash = FLASH_OFF, cv_fault = CROSSING_FAULT_NONE, cv_preempt_time = no_time,
         cv_clear_time = no_time\<rparr>,
      ui_last_sent = \<lparr>mi_timestamp = no_time, mi_type = ''NONE'', mi_endpoint = ''N/A''\<rparr>,
      ui_last_received = \<lparr>mi_timestamp = no_time, mi_type = ''NONE'', mi_endpoint = ''N/A''\<rparr>,
      ui_active_faults = 0, ui_current_screen = UI_SCREEN_MENU, ui_needs_update = True\<rparr>"

definition train_ui_set_screen :: "ui_screen \<Rightarrow> train_ui \<Rightarrow> train_ui" where
  "train_ui_set_screen sc ui = ui\<lparr>ui_current_screen := sc, ui_needs_update := True\<rparr>"

definition train_ui_request_update :: "train_ui \<Rightarrow> train_ui" where
  "train_ui_request_update ui = ui\<lparr>ui_needs_update := True\<rparr>"

definition train_ui_clear_update_flag :: "train_ui \<Rightarrow> train_ui" where
  "train_ui_clear_update_flag ui = ui\<lparr>ui_needs_update := False\<rparr>"

text \<open>Drawing a screen, whichever one, only clears the flag.\<close>

definition train_ui_display :: "train_ui \<Rightarrow> train_ui" where
  "train_ui_display ui = ui\<lparr>ui_needs_update := False\<rparr>"

definition train_ui_set_connection ::
  "controller_type \<Rightarrow> connection_status \<Rightarrow> string \<Rightarrow> train_ui \<Rightarrow> train_ui" where
  "train_ui_set_connection who st last_update ui =
     (case who of
        CONTROLLER_CENTRAL \<Rightarrow>
          (if ui_central_status ui \<noteq> st
           then ui\<lparr>ui_central_last_update := copy_text 15 last_update, ui_needs_update := True\<rparr>
           else ui)\<lparr>ui_central_status := st\<rparr>
      | CONTROLLER_LOCAL \<Rightarrow>
          (if ui_local_status ui \<noteq> st
           then ui\<lparr>ui_local_last_update := copy_text 15 last_update, ui_needs_update := True\<rparr>
           else ui)\<lparr>ui_local_status := st\<rparr>
      | CONTROLLER_TRAIN \<Rightarrow> ui)"

text \<open>The shape of the setters of one crossing.\<close>

definition update_view :: "int \<Rightarrow> (crossing_view \<Rightarrow> crossing_view) \<Rightarrow> train_ui \<Rightarrow> train_ui" where
  "update_view i f ui =
     (if i < 0 \<or> int NUM_CROSSINGS \<le> i then ui
      else ui\<lparr>ui_crossings := (ui_crossings ui)[nat i := f (ui_crossings ui ! nat i)],
              ui_needs_update := True\<rparr>)"

definition train_ui_set_crossing :: "int \<Rightarrow> crossing_view \<Rightarrow> train_ui \<Rightarrow> train_ui" where
  "train_ui_set_crossing i v = update_view i (\<lambda>_. v)"

definition train_ui_set_track_state :: "int \<Rightarrow> cx_dir \<Rightarrow> cx_track_state \<Rightarrow> train_ui \<Rightarrow> train_ui" where
  "train_ui_set_track_state i d t =
     update_view i (\<lambda>v. if d = CX_TRACK_UP then v\<lparr>cv_track_up := t\<rparr> else v\<lparr>cv_track_down := t\<rparr>)"

definition train_ui_set_gate_state :: "int \<Rightarrow> gate_state \<Rightarrow> train_ui \<Rightarrow> train_ui" where
  "train_ui_set_gate_state i g = update_view i (\<lambda>v. v\<lparr>cv_boom_gate := g\<rparr>)"

definition train_ui_set_crossing_fault :: "int \<Rightarrow> crossing_fault \<Rightarrow> train_ui \<Rightarrow> train_ui" where
  "train_ui_set_crossing_fault i f = update_view i (\<lambda>v. v\<lparr>cv_fault := f\<rparr>)"

definition train_ui_set_preempt_time :: "int \<Rightarrow> string \<Rightarrow> train_ui \<Rightarrow> train_ui" where
  "train_ui_set_preempt_time i now = update_view i (\<lambda>v. v\<lparr>cv_preempt_time := copy_text 15 now\<rparr>)"

definition train_ui_set_clear_time :: "int \<Rightarrow> string \<Rightarrow> train_ui \<Rightarrow> train_ui" where
  "train_ui_set_clear_time i now = update_view i (\<lambda>v. v\<lparr>cv_clear_time := copy_text 15 now\<rparr>)"

definition train_ui_set_frequency :: "train_frequency \<Rightarrow> train_ui \<Rightarrow> train_ui" where
  "train_ui_set_frequency f ui = ui\<lparr>ui_frequency := f, ui_needs_update := True\<rparr>"

definition train_ui_set_signal :: "train_signal \<Rightarrow> train_ui \<Rightarrow> train_ui" where
  "train_ui_set_signal sg ui = ui\<lparr>ui_signal := sg, ui_needs_update := True\<rparr>"

definition train_ui_set_time_scale :: "int \<Rightarrow> train_ui \<Rightarrow> train_ui" where
  "train_ui_set_time_scale n ui = ui\<lparr>ui_time_scale := n, ui_needs_update := True\<rparr>"

definition train_ui_set_last_sent :: "string \<Rightarrow> string \<Rightarrow> string \<Rightarrow> train_ui \<Rightarrow> train_ui" where
  "train_ui_set_last_sent now type dest ui =
     ui\<lparr>ui_last_sent := \<lparr>mi_timestamp = copy_text 15 now, mi_type = copy_text 31 type,
          mi_endpoint = copy_text 15 dest\<rparr>, ui_needs_update := True\<rparr>"

definition train_ui_set_last_received :: "string \<Rightarrow> string \<Rightarrow> string \<Rightarrow> train_ui \<Rightarrow> train_ui" where
  "train_ui_set_last_received now type src ui =
     ui\<lparr>ui_last_received := \<lparr>mi_timestamp = copy_text 15 now, mi_type = copy_text 31 type,
          mi_endpoint = copy_text 15 src\<rparr>, ui_needs_update := True\<rparr>"

definition train_ui_set_active_faults :: "int \<Rightarrow> train_ui \<Rightarrow> train_ui" where
  "train_ui_set_active_faults n ui = ui\<lparr>ui_active_faults := n, ui_needs_update := True\<rparr>"

section \<open>Texts\<close>

primrec track_state_str :: "cx_track_state \<Rightarrow> string" where
  "track_state_str CX_TRACK_NONE = ''NONE''"
| "track_state_str CX_TRACK_APPROACHING = ''APPROACHING''"
| "track_state_str CX_TRACK_ON_CROSSING = ''ON_CROSSING''"
| "track_state_str CX_TRACK_CLEARED = ''CLEARED''"

primrec gate_state_str :: "gate_state \<Rightarrow> string" where
  "gate_state_str GATE_OPEN = ''OPEN''"
| "gate_state_str GATE_CLOSING = ''CLOSING''"
| "gate_state_str GATE_CLOSED = ''CLOSED''"
| "gate_state_str GATE_OPENING = ''OPENING''"
| "gate_state_str GATE_FAULT = ''FAULT''"

primrec crossing_fault_str :: "crossing_fault \<Rightarrow> string" where
  "crossing_fault_str CROSSING_FAULT_NONE = ''NONE''"
| "crossing_fault_str CROSSING_FAULT_GATE_CLOSE_TIMEOUT = ''GATE_CLOSE_TIMEOUT''"
| "crossing_fault_str CROSSING_FAULT_GATE_OPEN_TIMEOUT = ''GATE_OPEN_TIMEOUT''"
| "crossing_fault_str CROSSING_FAULT_SENSOR_FAILURE = ''SENSOR_FAILURE''"
| "crossing_fault_str CROSSING_FAULT_COMM_LOSS = ''COMM_LOSS''"

primrec flash_state_str :: "flash_state \<Rightarrow> string" where
  "flash_state_str FLASH_OFF = ''OFF''"
| "flash_state_str FLASH_ON = ''ON''"

primrec connection_status_str :: "connection_status \<Rightarrow> string" where
  "connection_status_str CONN_CONNECTED = ''CONNECTED''"
| "connection_status_str CONN_LOST = ''LOST''"

primrec frequency_str :: "train_frequency \<Rightarrow> string" where
  "frequency_str FREQ_PEAK = ''PEAK 2 min''"
| "frequency_str FREQ_NIGHT = ''NIGHT 20 min''"

primrec signal_str :: "train_signal \<Rightarrow> string" where
  "signal_str SIGNAL_PROCEED = ''PROCEED''"
| "signal_str SIGNAL_STOP = ''STOP''"

definition crossing_affects :: "int \<Rightarrow> string" where
  "crossing_affects i = (if i = 0 then ''I1, I2'' else if i = 1 then ''I3, I4''
     else if i = 2 then ''I5, I6'' else ''N/A'')"

end
