(* ===== verification/Train_Controller.thy ===== *)
theory Train_Controller
  imports Rail_Sim_Safety Communication Train_Ui
begin

text \<open>
  The Train controller process, \<^verbatim>\<open>train_controller.c\<close>: the outbox between the simulator and the
  sender thread, the crossing callbacks, the message handler, and one round of every
  thread as a function of the controller. A thread takes the locks for each access, so the rounds
  may interleave in any order; \<open>run_callbacks\<close> runs inside the simulator's lock, as in the
  code. Printing is left out. \<open>now\<close> is the text of \<open>get_timestamp\<close>.
\<close>

section \<open>State\<close>

abbreviation (input) OUTBOX_CAPACITY :: nat where "OUTBOX_CAPACITY \<equiv> 64"
abbreviation (input) OUTBOX_CENTRAL :: int where "OUTBOX_CENTRAL \<equiv> - 1"

text \<open>The union of the item is the header and the bytes of the payload after it.\<close>

record outbox_item =
  destination :: int
  type_name :: string
  item_header :: msg_header
  item_payload :: "char list"

record outbox =
  items :: "outbox_item list"
  head :: nat
  count :: nat
  dropped :: nat

record train_controller =
  central_conn :: connection
  local_conns :: "connection list"
  legacy_local_conn :: connection
  tc_mode :: connection_mode
  last_recv_central :: string
  last_recv_local :: string
  last_send_central :: string
  last_send_local :: string
  last_central_update :: string
  last_local_update :: string
  tc_needs_update :: bool
  tc_ui :: train_ui
  tc_outbox :: outbox
  tc_sim :: sim_state

definition on_ui :: "(train_ui \<Rightarrow> train_ui) \<Rightarrow> train_controller \<Rightarrow> train_controller" where
  "on_ui f tc = tc\<lparr>tc_ui := f (tc_ui tc)\<rparr>"

definition msg_type_name :: "u16 \<Rightarrow> string" where
  "msg_type_name t =
     (if t = msg_code MSG_TEST then ''TEST'' else if t = msg_code MSG_HEARTBEAT then ''HEARTBEAT''
      else if t = msg_code MSG_MODE_COMMAND then ''MODE_CMD''
      else if t = msg_code MSG_STATUS_UPDATE then ''STATUS''
      else if t = msg_code MSG_FAULT_ALERT then ''FAULT''
      else if t = msg_code MSG_RAILWAY_PREEMPT then ''PREEMPT''
      else if t = msg_code MSG_TRAIN_CLEAR then ''CLEAR''
      else if t = msg_code MSG_RAILWAY_STATUS then ''RLY_STATUS''
      else if t = msg_code MSG_SENSOR_UPDATE then ''SENSOR''
      else if t = msg_code MSG_PED_REQUEST then ''PED_REQ'' else ''UNKNOWN'')"

section \<open>Links to the Locals\<close>

datatype link = Link_Central | Link_Local nat | Link_Legacy

fun link_of :: "train_controller \<Rightarrow> link \<Rightarrow> connection" where
  "link_of tc Link_Central = central_conn tc"
| "link_of tc (Link_Local i) = local_conns tc ! i"
| "link_of tc Link_Legacy = legacy_local_conn tc"

fun set_link :: "link \<Rightarrow> connection \<Rightarrow> train_controller \<Rightarrow> train_controller" where
  "set_link Link_Central c tc = tc\<lparr>central_conn := c\<rparr>"
| "set_link (Link_Local i) c tc = tc\<lparr>local_conns := (local_conns tc)[i := c]\<rparr>"
| "set_link Link_Legacy c tc = tc\<lparr>legacy_local_conn := c\<rparr>"

definition local_link :: "train_controller \<Rightarrow> nat \<Rightarrow> link option" where
  "local_link tc i =
     (if connected (local_conns tc ! i) then Some (Link_Local i)
      else if i = 0 \<and> connected (legacy_local_conn tc) then Some Link_Legacy
      else None)"

definition update_local_ui_status :: "string \<Rightarrow> train_controller \<Rightarrow> train_controller" where
  "update_local_ui_status now tc =
     (let n = length (filter (\<lambda>i. local_link tc i \<noteq> None) [0..<NUM_INTERSECTIONS])
      in on_ui (train_ui_set_connection CONTROLLER_LOCAL
                 (if 0 < n then CONN_CONNECTED else CONN_LOST) now) tc)"

section \<open>Outbox\<close>

definition outbox_push :: "outbox_item \<Rightarrow> outbox \<Rightarrow> outbox" where
  "outbox_push item ob =
     (if count ob < OUTBOX_CAPACITY
      then ob\<lparr>items := (items ob)[(head ob + count ob) mod OUTBOX_CAPACITY := item], count := count ob + 1\<rparr>
      else ob\<lparr>dropped := dropped ob + 1\<rparr>)"

text \<open>The locked part of \<open>sender_thread\<close>; \<open>None\<close> while it waits.\<close>

definition outbox_pop :: "outbox \<Rightarrow> (outbox_item \<times> outbox) option" where
  "outbox_pop ob =
     (if count ob = 0 then None
      else Some (items ob ! head ob,
                 ob\<lparr>head := (head ob + 1) mod OUTBOX_CAPACITY, count := count ob - 1\<rparr>))"

definition push_item :: "outbox_item \<Rightarrow> train_controller \<Rightarrow> train_controller" where
  "push_item item tc = tc\<lparr>tc_outbox := outbox_push item (tc_outbox tc)\<rparr>"

definition item_frame :: "outbox_item \<Rightarrow> test_message" where
  "item_frame item = \<lparr>header = item_header item, data = item_payload item\<rparr>"

definition dest_name :: "int \<Rightarrow> string" where
  "dest_name d = (if d = OUTBOX_CENTRAL then ''CENTRAL'' else take 15 (''LOCAL I'' @ show_int (d + 1)))"

definition deliver :: "network \<Rightarrow> string \<Rightarrow> outbox_item \<Rightarrow> train_controller \<Rightarrow> train_controller" where
  "deliver net now item tc =
     (case (if destination item = OUTBOX_CENTRAL
            then (if connected (central_conn tc) then Some Link_Central else None)
            else local_link tc (nat (destination item))) of
        None \<Rightarrow> tc
      | Some l \<Rightarrow>
          let (r, conn) = send_message_timeout (net (service_path (link_of tc l)) (item_frame item)) (link_of tc l);
              tc1 = set_link l conn tc
          in if r = None then
               (if destination item = OUTBOX_CENTRAL
                then on_ui (train_ui_set_connection CONTROLLER_CENTRAL CONN_LOST now) tc1
                else update_local_ui_status now tc1)
             else on_ui (train_ui_set_last_sent now (type_name item) (dest_name (destination item))) tc1)"

definition sender_step :: "network \<Rightarrow> string \<Rightarrow> train_controller \<Rightarrow> train_controller" where
  "sender_step net now tc =
     (case outbox_pop (tc_outbox tc) of
        None \<Rightarrow> tc
      | Some (item, ob) \<Rightarrow> deliver net now item (tc\<lparr>tc_outbox := ob\<rparr>))"

section \<open>Crossing callbacks\<close>

definition cx_index :: "crossing \<Rightarrow> int" where
  "cx_index c = uint (cx_id c) - 1"

definition cx_set_flash :: "crossing \<Rightarrow> bool \<Rightarrow> train_controller \<Rightarrow> train_controller" where
  "cx_set_flash c on = on_ui (update_view (cx_index c)
     (\<lambda>v. v\<lparr>cv_road_flash := if on then FLASH_ON else FLASH_OFF\<rparr>))"

definition tc_header :: "string \<Rightarrow> msg_type \<Rightarrow> controller_type \<Rightarrow> msg_header" where
  "tc_header now type dst =
     \<lparr>hdr_type = msg_code type, hdr_src = controller_code CONTROLLER_TRAIN, hdr_dst = controller_code dst,
      hdr_reserved = 0, hdr_timestamp = overlay (now @ [NUL]) (replicate TIMESTAMP_SIZE NUL)\<rparr>"

definition railway_item :: "string \<Rightarrow> int \<Rightarrow> crossing \<Rightarrow> bool \<Rightarrow> u8 \<Rightarrow> outbox_item" where
  "railway_item now warning c preempt l =
     \<lparr>destination = uint l - 1, type_name = (if preempt then ''PREEMPT'' else ''CLEAR''),
      item_header = tc_header now (if preempt then MSG_RAILWAY_PREEMPT else MSG_TRAIN_CLEAR) CONTROLLER_LOCAL,
      item_payload = encode_railway
        \<lparr>rm_intersection_id = cx_id c, rm_active = flag8 preempt,
         rm_eta_seconds = (if preempt then to_u16 warning else 0)\<rparr>\<rparr>"

definition queue_railway_message ::
  "string \<Rightarrow> crossing \<Rightarrow> bool \<Rightarrow> train_controller \<Rightarrow> train_controller" where
  "queue_railway_message now c preempt tc =
     fold (\<lambda>l tc. if l < 1 \<or> of_nat NUM_INTERSECTIONS < l then tc
                  else push_item (railway_item now (warning_sec (tc_sim tc)) c preempt l) tc)
       [local_id_1 c, local_id_2 c] tc"

definition cx_send_preempt :: "string \<Rightarrow> crossing \<Rightarrow> train_controller \<Rightarrow> train_controller" where
  "cx_send_preempt now c tc =
     on_ui (train_ui_set_preempt_time (cx_index c) now) (queue_railway_message now c True tc)"

definition cx_send_clear :: "string \<Rightarrow> crossing \<Rightarrow> train_controller \<Rightarrow> train_controller" where
  "cx_send_clear now c tc =
     on_ui (train_ui_set_clear_time (cx_index c) now) (queue_railway_message now c False tc)"

primrec cx_fault_str :: "cx_fault \<Rightarrow> string" where
  "cx_fault_str CX_FAULT_NONE = ''NONE''"
| "cx_fault_str CX_FAULT_GATE_CLOSE_TIMEOUT = ''GATE_CLOSE_TIMEOUT''"
| "cx_fault_str CX_FAULT_GATE_OPEN_TIMEOUT = ''GATE_OPEN_TIMEOUT''"
| "cx_fault_str CX_FAULT_GATE_UNEXPECTED = ''GATE_UNEXPECTED''"
| "cx_fault_str CX_FAULT_TRAIN_TIMEOUT = ''TRAIN_TIMEOUT''"
| "cx_fault_str CX_FAULT_TRAIN_EARLY = ''TRAIN_EARLY''"
| "cx_fault_str CX_FAULT_INJECTED = ''INJECTED''"

definition fault_item :: "string \<Rightarrow> crossing \<Rightarrow> cx_fault \<Rightarrow> outbox_item" where
  "fault_item now c f =
     \<lparr>destination = OUTBOX_CENTRAL, type_name = ''FAULT'',
      item_header = tc_header now MSG_FAULT_ALERT CONTROLLER_CENTRAL,
      item_payload = encode_fault
        \<lparr>fm_source_id = cx_id c, fm_fault_type = fault_code FAULT_GATE,
         fm_severity = severity_code SEV_CRITICAL, fm_reserved = 0,
         fm_description = overlay (take 31 (cx_name c @ '': '' @ cx_fault_str f)) (replicate 32 NUL)\<rparr>\<rparr>"

definition fault_count :: "crossing list \<Rightarrow> int" where
  "fault_count cs = int (length (filter (\<lambda>c. fault c \<noteq> CX_FAULT_NONE) cs))"

definition cx_fault_alert ::
  "string \<Rightarrow> crossing list \<Rightarrow> crossing \<Rightarrow> cx_fault \<Rightarrow> train_controller \<Rightarrow> train_controller" where
  "cx_fault_alert now cs c f tc =
     on_ui (\<lambda>ui. train_ui_set_signal (if crossing_any_fault cs then SIGNAL_STOP else SIGNAL_PROCEED)
                  (train_ui_set_active_faults (fault_count cs) ui))
       (push_item (fault_item now c f) tc)"

definition ui_fault :: "cx_fault \<Rightarrow> crossing_fault" where
  "ui_fault f =
     (case f of CX_FAULT_NONE \<Rightarrow> CROSSING_FAULT_NONE
      | CX_FAULT_GATE_OPEN_TIMEOUT \<Rightarrow> CROSSING_FAULT_GATE_OPEN_TIMEOUT
      | _ \<Rightarrow> CROSSING_FAULT_GATE_CLOSE_TIMEOUT)"

definition cx_state_changed :: "crossing list \<Rightarrow> crossing \<Rightarrow> train_controller \<Rightarrow> train_controller" where
  "cx_state_changed cs c tc =
     (let i = cx_index c in
      if 0 \<le> i \<and> i < int NUM_CROSSINGS then
        on_ui (\<lambda>ui.
          train_ui_request_update
            (train_ui_set_signal (if 0 < fault_count cs then SIGNAL_STOP else SIGNAL_PROCEED)
              (train_ui_set_active_faults (fault_count cs)
                (train_ui_set_crossing_fault i (ui_fault (fault c))
                  (train_ui_set_gate_state i (gate c)
                    (train_ui_set_track_state i CX_TRACK_DOWN (track_down c)
                      (train_ui_set_track_state i CX_TRACK_UP (track_up c) ui))))))) tc
      else tc)"

text \<open>The effect of a callback on the controller. \<open>cs\<close> is the array of crossings at the call;
  the callbacks of gates and timers act on the simulator only.\<close>

fun callback :: "string \<Rightarrow> crossing list \<Rightarrow> cx_call \<Rightarrow> train_controller \<Rightarrow> train_controller" where
  "callback now cs (c, Set_Flash on) tc = cx_set_flash c on tc"
| "callback now cs (c, Send_Preempt) tc = cx_send_preempt now c tc"
| "callback now cs (c, Send_Clear) tc = cx_send_clear now c tc"
| "callback now cs (c, Fault_Alert f) tc = cx_fault_alert now cs c f tc"
| "callback now cs (c, State_Changed) tc = cx_state_changed cs c tc"
| "callback now cs (c, _) tc = tc"

fun run_callbacks ::
  "string \<Rightarrow> (nat \<times> cx_call) list \<Rightarrow> crossing list \<Rightarrow> train_controller \<Rightarrow> train_controller" where
  "run_callbacks now [] cs tc = tc"
| "run_callbacks now ((i, c, out) # r) cs tc =
     run_callbacks now r (cs[i := c]) (callback now (cs[i := c]) (c, out) tc)"

section \<open>Simulator rounds\<close>

definition tc_sim_command ::
  "string \<Rightarrow> string \<Rightarrow> nat \<Rightarrow> train_controller \<Rightarrow> bool \<times> string \<times> train_controller" where
  "tc_sim_command now cmd reply_len tc =
     (let (ok, reply, calls, s) = rail_sim_command now cmd reply_len (tc_sim tc);
          tc1 = run_callbacks now calls (crossings (tc_sim tc)) (tc\<lparr>tc_sim := s\<rparr>)
      in (ok, reply, on_ui (train_ui_set_time_scale (time_scale (tc_sim tc1))) tc1))"

definition sim_tick_step :: "string \<Rightarrow> train_controller \<Rightarrow> train_controller" where
  "sim_tick_step now tc =
     (let (n, calls, s) = rail_sim_tick now (tc_sim tc)
      in run_callbacks now calls (crossings (tc_sim tc)) (tc\<lparr>tc_sim := s\<rparr>))"

section \<open>Messages from the other controllers\<close>

definition handle_test_message :: "string \<Rightarrow> train_controller handler" where
  "handle_test_message now msg r tc =
     (let src = hdr_src (header msg);
          tc1 =
            (if src = controller_code CONTROLLER_CENTRAL then
               on_ui (train_ui_set_connection CONTROLLER_CENTRAL CONN_CONNECTED now)
                 (tc\<lparr>last_recv_central := copy_text 31 (hdr_timestamp (header msg)),
                     last_central_update := now\<rparr>)
             else if src = controller_code CONTROLLER_LOCAL then
               on_ui (train_ui_set_connection CONTROLLER_LOCAL CONN_CONNECTED now)
                 (tc\<lparr>last_recv_local := copy_text 31 (hdr_timestamp (header msg)),
                     last_local_update := now\<rparr>)
             else tc);
          command = (if src = controller_code CONTROLLER_CENTRAL then copy_text 63 (data msg) else []);
          tc2 = (on_ui (train_ui_set_last_received now (msg_type_name (hdr_type (header msg)))
                   (controller_name src)) tc1)\<lparr>tc_needs_update := True\<rparr>;
          tc3 = (if command = [] then tc2 else snd (snd (tc_sim_command now command 256 tc2)))
      in (0, r\<lparr>reply_status := 0, reply_timestamp := now\<rparr>, tc3))"

definition train_handlers :: "string \<Rightarrow> train_controller handler_entry list" where
  "train_handlers now =
     [\<lparr>entry_type = msg_code MSG_TEST, entry_from = 0, entry_handler = handle_test_message now\<rparr>]"

section \<open>Connection, heartbeat and status rounds\<close>

definition connect_central :: "(string \<Rightarrow> int) \<Rightarrow> network \<Rightarrow> string \<Rightarrow> train_controller \<Rightarrow> train_controller" where
  "connect_central nopen net now tc =
     (let (fresh, conn) = connection_try_connect nopen (central_conn tc);
          tc1 = tc\<lparr>central_conn := conn\<rparr>
      in if fresh then
           let tc2 = on_ui (train_ui_set_connection CONTROLLER_CENTRAL CONN_CONNECTED now)
                       (tc1\<lparr>last_central_update := now, tc_needs_update := True\<rparr>);
               (r, conn2) = send_test_message net now CONTROLLER_TRAIN CONTROLLER_CENTRAL (central_conn tc2)
           in on_ui (train_ui_set_last_sent now ''TEST'' ''CENTRAL'') (tc2\<lparr>central_conn := conn2\<rparr>)
         else tc1)"

definition connect_local ::
  "(string \<Rightarrow> int) \<Rightarrow> network \<Rightarrow> string \<Rightarrow> nat \<Rightarrow> train_controller \<Rightarrow> train_controller" where
  "connect_local nopen net now i tc =
     (let (fresh1, conn1) = connection_try_connect nopen (local_conns tc ! i);
          tc1 = set_link (Link_Local i) conn1 tc;
          legacy = (\<not> fresh1 \<and> i = 0 \<and> \<not> connected conn1);
          l = (if legacy then Link_Legacy else Link_Local i);
          (fresh, tc2) =
            (if legacy then
               let (f, conn2) = connection_try_connect nopen (legacy_local_conn tc1)
               in (f, set_link Link_Legacy conn2 tc1)
             else (fresh1, tc1))
      in if fresh then
           let tc3 = update_local_ui_status now (tc2\<lparr>last_local_update := now, tc_needs_update := True\<rparr>);
               (r, conn3) = send_test_message net now CONTROLLER_TRAIN CONTROLLER_LOCAL (link_of tc3 l)
           in on_ui (train_ui_set_last_sent now ''TEST'' (dest_name (int i))) (set_link l conn3 tc3)
         else tc2)"

definition connection_step :: "(string \<Rightarrow> int) \<Rightarrow> network \<Rightarrow> string \<Rightarrow> train_controller \<Rightarrow> train_controller" where
  "connection_step nopen net now tc =
     fold (connect_local nopen net now) [0..<NUM_INTERSECTIONS] (connect_central nopen net now tc)"

definition heartbeat_central :: "network \<Rightarrow> string \<Rightarrow> train_controller \<Rightarrow> train_controller" where
  "heartbeat_central net now tc =
     (if connected (central_conn tc) then
        let (r, conn) = send_heartbeat net now CONTROLLER_TRAIN CONTROLLER_CENTRAL (central_conn tc);
            tc1 = tc\<lparr>central_conn := conn\<rparr>
        in if r = None then
             on_ui (train_ui_set_connection CONTROLLER_CENTRAL CONN_LOST now)
               (tc1\<lparr>last_central_update := now, tc_needs_update := True\<rparr>)
           else tc1
      else tc)"

definition heartbeat_local :: "network \<Rightarrow> string \<Rightarrow> nat \<Rightarrow> train_controller \<Rightarrow> train_controller" where
  "heartbeat_local net now i tc =
     (case local_link tc i of
        None \<Rightarrow> tc
      | Some l \<Rightarrow>
          let (r, conn) = send_heartbeat net now CONTROLLER_TRAIN CONTROLLER_LOCAL (link_of tc l);
              tc1 = set_link l conn tc
          in if r = None
             then update_local_ui_status now (tc1\<lparr>last_local_update := now, tc_needs_update := True\<rparr>)
             else tc1)"

definition heartbeat_step :: "network \<Rightarrow> string \<Rightarrow> train_controller \<Rightarrow> train_controller" where
  "heartbeat_step net now tc =
     fold (heartbeat_local net now) [0..<NUM_INTERSECTIONS] (heartbeat_central net now tc)"

definition report_train_state :: "crossing \<Rightarrow> train_state" where
  "report_train_state c =
     (if track_up c = CX_TRACK_ON_CROSSING \<or> track_down c = CX_TRACK_ON_CROSSING then TRAIN_AT_CROSSING
      else if track_up c = CX_TRACK_APPROACHING \<or> track_down c = CX_TRACK_APPROACHING then TRAIN_APPROACHING
      else if track_up c = CX_TRACK_CLEARED \<or> track_down c = CX_TRACK_CLEARED then TRAIN_CLEAR
      else TRAIN_NONE)"

primrec track_code :: "cx_track_state \<Rightarrow> u8" where
  "track_code CX_TRACK_NONE = 0"
| "track_code CX_TRACK_APPROACHING = 1"
| "track_code CX_TRACK_ON_CROSSING = 2"
| "track_code CX_TRACK_CLEARED = 3"

definition railway_status_of :: "crossing \<Rightarrow> railway_status_msg" where
  "railway_status_of c =
     \<lparr>rs_crossing_id = cx_id c, rs_train_state = train_code (report_train_state c),
      rs_gate_state = gate_code (gate c),
      rs_fault = fault_code (if fault c \<noteq> CX_FAULT_NONE then FAULT_GATE else FAULT_NONE),
      rs_track_states = 1, rs_up_state = track_code (track_up c), rs_down_state = track_code (track_down c),
      rs_reserved = 0\<rparr>"

definition status_frame :: "string \<Rightarrow> crossing \<Rightarrow> test_message" where
  "status_frame now c = \<lparr>header = tc_header now MSG_RAILWAY_STATUS CONTROLLER_CENTRAL,
     data = encode_railway_status (railway_status_of c)\<rparr>"

text \<open>The loop of \<open>send_railway_status\<close>, with the frames that were sent.\<close>

fun send_statuses ::
  "network \<Rightarrow> string \<Rightarrow> crossing list \<Rightarrow> train_controller \<Rightarrow> test_message list \<times> train_controller" where
  "send_statuses net now [] tc = ([], on_ui (train_ui_set_last_sent now ''RLY_STATUS'' ''CENTRAL'') tc)"
| "send_statuses net now (c # cs) tc =
     (let f = status_frame now c;
          (r, conn) = send_message_timeout (net (service_path (central_conn tc)) f) (central_conn tc);
          tc1 = tc\<lparr>central_conn := conn\<rparr>
      in if r = None then ([], on_ui (train_ui_set_connection CONTROLLER_CENTRAL CONN_LOST now) tc1)
         else let (fs, tc2) = send_statuses net now cs tc1 in (f # fs, tc2))"

definition send_railway_status ::
  "network \<Rightarrow> string \<Rightarrow> crossing list \<Rightarrow> train_controller \<Rightarrow> test_message list \<times> train_controller" where
  "send_railway_status net now snapshot tc =
     (if connected (central_conn tc) then send_statuses net now snapshot tc else ([], tc))"

definition status_step :: "network \<Rightarrow> string \<Rightarrow> train_controller \<Rightarrow> test_message list \<times> train_controller" where
  "status_step net now tc =
     send_railway_status net now (rail_sim_snapshot NUM_CROSSINGS (tc_sim tc)) tc"

section \<open>Console\<close>

text \<open>The round of \<open>ui_refresh_thread\<close>: whether it redraws.\<close>

definition ui_refresh_step :: "train_controller \<Rightarrow> bool \<times> train_controller" where
  "ui_refresh_step tc =
     (if ui_current_screen (tc_ui tc) = UI_SCREEN_STATUS then
        let tc1 = tc\<lparr>tc_needs_update := False\<rparr>
        in if tc_needs_update tc \<or> ui_needs_update (tc_ui tc1)
           then (True, on_ui train_ui_display tc1) else (False, tc1)
      else (False, tc))"

fun send_local_all :: "network \<Rightarrow> string \<Rightarrow> nat list \<Rightarrow> train_controller \<Rightarrow> nat \<times> train_controller" where
  "send_local_all net now [] tc = (0, tc)"
| "send_local_all net now (i # is) tc =
     (case local_link tc i of
        None \<Rightarrow> send_local_all net now is tc
      | Some l \<Rightarrow>
          let (r, conn) = send_test_message net now CONTROLLER_TRAIN CONTROLLER_LOCAL (link_of tc l);
              (n, tc1) = send_local_all net now is (set_link l conn tc)
          in (if r = None then n else Suc n, tc1))"

definition execute_command :: "network \<Rightarrow> string \<Rightarrow> string \<Rightarrow> train_controller \<Rightarrow> int \<times> train_controller" where
  "execute_command net now cmd tc =
     (if cmd = ''send-central'' then
        if \<not> connected (central_conn tc) then (- 1, tc)
        else
          let (r, conn) = send_test_message net now CONTROLLER_TRAIN CONTROLLER_CENTRAL (central_conn tc);
              tc1 = tc\<lparr>central_conn := conn\<rparr>
          in if r = None then (- 1, tc1)
             else (0, on_ui (train_ui_set_last_sent now ''TEST'' ''CENTRAL'')
                        (tc1\<lparr>last_send_central := now, tc_needs_update := True\<rparr>))
      else if cmd = ''send-local'' then
        let (n, tc1) = send_local_all net now [0..<NUM_INTERSECTIONS] tc
        in if n = 0 then (- 1, update_local_ui_status now tc1)
           else (0, on_ui (train_ui_set_last_sent now ''TEST'' ''LOCAL'')
                      (tc1\<lparr>last_send_local := now, tc_needs_update := True\<rparr>))
      else
        let (ok, reply, tc1) = tc_sim_command now cmd 512 tc
        in (if ok then 0 else if starts_with ''ERROR:'' reply then - 1 else 0, tc1))"

text \<open>One line of input in the main loop; \<open>False\<close> when the loop ends.\<close>

definition main_input :: "network \<Rightarrow> string \<Rightarrow> string \<Rightarrow> train_controller \<Rightarrow> bool \<times> train_controller" where
  "main_input net now input tc =
     (let goto = (\<lambda>sc. (True, on_ui train_ui_display (on_ui (train_ui_set_screen sc) tc)));
          redraw = (\<lambda>tc. (True, on_ui train_ui_display tc))
      in case ui_current_screen (tc_ui tc) of
        UI_SCREEN_MENU \<Rightarrow>
          if input = ''1'' then goto UI_SCREEN_STATUS
          else if input = ''2'' then goto UI_SCREEN_COMMAND
          else if input = ''3'' \<or> input = ''quit'' \<or> input = ''exit'' then (False, tc)
          else if input \<noteq> [] then (True, tc)
          else redraw tc
      | UI_SCREEN_STATUS \<Rightarrow>
          if input = ''q'' \<or> input = ''Q'' then goto UI_SCREEN_MENU else redraw tc
      | UI_SCREEN_COMMAND \<Rightarrow>
          if input = ''q'' \<or> input = ''Q'' then goto UI_SCREEN_MENU
          else if input \<noteq> [] then redraw (snd (execute_command net now input tc))
          else redraw tc)"

section \<open>Start-up\<close>

definition intersection_service :: "nat \<Rightarrow> string" where
  "intersection_service i = ''traffic_local_I'' @ show_nat (i + 1)"

definition service_link :: "connection_mode \<Rightarrow> string \<Rightarrow> string \<Rightarrow> connection" where
  "service_link m name vm =
     (if m = CONN_MODE_GLOBAL then connection_init_remote name vm else connection_init name m)"

definition empty_item :: outbox_item where
  "empty_item = \<lparr>destination = 0, type_name = [], item_header =
     \<lparr>hdr_type = 0, hdr_src = 0, hdr_dst = 0, hdr_reserved = 0, hdr_timestamp = replicate TIMESTAMP_SIZE NUL\<rparr>,
     item_payload = []\<rparr>"

definition outbox_init :: outbox where
  "outbox_init = \<lparr>items = replicate OUTBOX_CAPACITY empty_item, head = 0, count = 0, dropped = 0\<rparr>"

definition train_start :: "rail_config \<Rightarrow> connection_mode \<Rightarrow> train_controller" where
  "train_start cfg m =
     \<lparr>central_conn = service_link m CENTRAL_SERVICE_NAME ''vm3_central_controller'',
      local_conns = map (\<lambda>i. service_link m (intersection_service i) ''vm1_local_intersection'')
        [0..<NUM_INTERSECTIONS],
      legacy_local_conn = service_link m LOCAL_SERVICE_NAME ''vm1_local_intersection'',
      tc_mode = m, last_recv_central = [], last_recv_local = [], last_send_central = [],
      last_send_local = [], last_central_update = [], last_local_update = [], tc_needs_update = True,
      tc_ui = train_ui_set_time_scale 10 train_ui_init, tc_outbox = outbox_init,
      tc_sim = rail_sim_init cfg initial_crossings 10\<rparr>"

definition train_stop :: "train_controller \<Rightarrow> train_controller" where
  "train_stop tc = tc\<lparr>tc_sim := rail_sim_destroy (tc_sim tc), central_conn := connection_close (central_conn tc),
     local_conns := map connection_close (local_conns tc),
     legacy_local_conn := connection_close (legacy_local_conn tc)\<rparr>"

end
