(* ===== verification/Crossing_Outputs.thy ===== *)
theory Crossing_Outputs
  imports Crossing_Timers
begin

text \<open>
  What a crossing tells the outside: every handler ends with a report of its result, the calls that switch
  the lights agree with the state, and the railway messages agree with the trains.
\<close>

section \<open>The reports of a handler\<close>

text \<open>A handler that calls anything ends by reporting its result, and one that calls nothing has
  changed nothing that is shown.\<close>

lemma handle_last:
  assumes "snd (crossing_handle_event now ev c) \<noteq> []"
  shows "last (snd (crossing_handle_event now ev c)) = (fst (crossing_handle_event now ev c), State_Changed)"
  using assms
  by (cases ev)
    (auto simp: crossing_handle_event_def on_approach_def on_enter_def on_exit_def
      on_gate_closed_def on_reset_def on_timer_def on_gate_opened_def start_gate_close_def start_gate_open_def
      enter_fault_def split_beta Let_def split: if_splits timer_id.splits)

definition shown :: "crossing \<Rightarrow> cx_track_state \<times> cx_track_state \<times> gate_state \<times> cx_fault" where
  "shown c = (track_up c, track_down c, gate c, fault c)"

lemma handle_silent:
  assumes "snd (crossing_handle_event now ev c) = []"
  shows "shown (fst (crossing_handle_event now ev c)) = shown c \<and>
    flash_on (fst (crossing_handle_event now ev c)) = flash_on c"
  using assms
  by (cases ev)
    (auto simp: shown_def crossing_handle_event_def on_approach_def on_enter_def on_exit_def
      on_gate_closed_def on_reset_def on_timer_def on_gate_opened_def start_gate_close_def start_gate_open_def
      enter_fault_def split_beta Let_def split: if_splits timer_id.splits)

fun flash_effect :: "cx_call list \<Rightarrow> bool \<Rightarrow> bool" where
  "flash_effect [] b = b"
| "flash_effect ((c, Set_Flash on) # r) b = flash_effect r on"
| "flash_effect ((c, _) # r) b = flash_effect r b"

lemma flash_effect_append [simp]: "flash_effect (xs @ ys) b = flash_effect ys (flash_effect xs b)"
  by (induction xs b rule: flash_effect.induct) auto

lemma flash_effect_none: "(\<And>on. Set_Flash on \<notin> set (map snd xs)) \<Longrightarrow> flash_effect xs b = b"
  by (induction xs b rule: flash_effect.induct) auto

lemma cancel_timers_flash [simp]:
  "flash_effect (snd (cancel_timers ts c)) b = b" "flash_on (fst (cancel_timers ts c)) = flash_on c"
  by (induction ts arbitrary: c) (simp_all add: split_beta Let_def)

lemma gate_flash [simp]:
  "flash_effect (snd (start_gate_close c)) b = b" "flash_on (fst (start_gate_close c)) = flash_on c"
  "flash_effect (snd (start_gate_open c)) b = b" "flash_on (fst (start_gate_open c)) = flash_on c"
  "flash_effect (snd (enter_fault f c)) (flash_on c) = True" "flash_on (fst (enter_fault f c))"
  by (simp_all add: start_gate_close_def start_gate_open_def enter_fault_def split_beta Let_def)

lemma set_track_flash [simp]: "flash_on (set_track d x c) = flash_on c"
  by (cases d) simp_all

lemma clear_cleared_flash [simp]: "flash_on (clear_cleared c) = flash_on c"
  by (simp add: clear_cleared_def Let_def)

lemma handle_flash:
  "flash_effect (snd (crossing_handle_event now ev c)) (flash_on c) = flash_on (fst (crossing_handle_event now ev c))"
  by (cases ev)
    (auto simp: crossing_handle_event_def on_approach_def on_enter_def on_exit_def
      on_gate_closed_def on_reset_def on_timer_def on_gate_opened_def split_beta Let_def split: timer_id.split)

text \<open>Who a crossing is never changes.\<close>

definition ident :: "crossing \<Rightarrow> u8 \<times> string \<times> u8 \<times> u8" where
  "ident c = (cx_id c, cx_name c, local_id_1 c, local_id_2 c)"

lemma ident_update [simp]:
  "ident (bump_gen t c) = ident c" "ident (set_track d x c) = ident c" "ident (clear_cleared c) = ident c"
  "ident (c\<lparr>gate := g\<rparr>) = ident c" "ident (c\<lparr>flash_on := b\<rparr>) = ident c"
  "ident (c\<lparr>fault := f\<rparr>) = ident c" "ident (c\<lparr>close_delay_pending := b\<rparr>) = ident c"
  "ident (c\<lparr>reset_pending := b\<rparr>) = ident c" "ident (c\<lparr>preempt_time := n\<rparr>) = ident c"
  "ident (c\<lparr>clear_time := n\<rparr>) = ident c" "ident (c\<lparr>track_up := x\<rparr>) = ident c"
  "ident (c\<lparr>track_down := x\<rparr>) = ident c"
  by (cases d; simp add: ident_def bump_gen_def clear_cleared_def Let_def)+

definition same_ident :: "crossing \<Rightarrow> cx_result \<Rightarrow> bool" where
  "same_ident c r \<longleftrightarrow> ident (fst r) = ident c \<and> (\<forall>x \<in> set (snd r). ident (fst x) = ident c)"

lemma cancel_timers_ident: "same_ident c (cancel_timers ts c)"
  by (induction ts arbitrary: c) (auto simp: same_ident_def split_beta Let_def)

lemma gate_ident:
  "same_ident c (start_gate_close c)" "same_ident c (start_gate_open c)" "same_ident c (enter_fault f c)"
  using cancel_timers_ident [of "c\<lparr>fault := f, gate := GATE_FAULT, close_delay_pending := False, flash_on := True\<rparr>" all_timers]
  by (auto simp: same_ident_def start_gate_close_def start_gate_open_def enter_fault_def split_beta Let_def)

lemma handle_ident: "same_ident c (crossing_handle_event now ev c)"
proof -
  have f: "ident (fst (start_gate_close x)) = ident x" "ident (fst (start_gate_open x)) = ident x"
    "ident (fst (enter_fault f x)) = ident x" for x f
    using gate_ident(3) [of x f] gate_ident(1,2) [of x] by (simp_all add: same_ident_def)
  have o: "y \<in> set (snd (start_gate_close x)) \<Longrightarrow> ident (fst y) = ident x"
    "y \<in> set (snd (start_gate_open x)) \<Longrightarrow> ident (fst y) = ident x"
    "y \<in> set (snd (enter_fault f x)) \<Longrightarrow> ident (fst y) = ident x" for x y f
    using gate_ident(3) [of x f] gate_ident(1,2) [of x] by (simp_all add: same_ident_def)
  show ?thesis
    by (cases ev)
    (auto simp: same_ident_def crossing_handle_event_def on_approach_def on_enter_def on_exit_def f
      on_gate_closed_def on_reset_def on_timer_def on_gate_opened_def split_beta Let_def
      split: timer_id.split dest!: o)
qed

section \<open>What the Locals were told last\<close>

fun last_told :: "cx_call list \<Rightarrow> bool option \<Rightarrow> bool option" where
  "last_told [] m = m"
| "last_told ((c, Send_Preempt) # r) m = last_told r (Some True)"
| "last_told ((c, Send_Clear) # r) m = last_told r (Some False)"
| "last_told ((c, _) # r) m = last_told r m"

lemma last_told_append [simp]: "last_told (xs @ ys) m = last_told ys (last_told xs m)"
  by (induction xs m rule: last_told.induct) auto

lemma last_told_none:
  "Send_Preempt \<notin> snd ` set xs \<Longrightarrow> Send_Clear \<notin> snd ` set xs \<Longrightarrow> last_told xs m = m"
  by (induction xs m rule: last_told.induct) auto

lemma gate_told [simp]:
  "last_told (snd (start_gate_close c)) m = m" "last_told (snd (start_gate_open c)) m = m"
  "last_told (snd (enter_fault f c)) m = m"
proof -
  show "last_told (snd (start_gate_close c)) m = m"
    by (rule last_told_none) (use start_gate_close_outputs [of c] in auto)
  show "last_told (snd (start_gate_open c)) m = m"
    by (rule last_told_none) (use start_gate_open_outputs [of c] in auto)
  show "last_told (snd (enter_fault f c)) m = m"
    by (rule last_told_none) (use enter_fault_outputs [of f c] in auto)
qed

definition occupied :: "crossing \<Rightarrow> bool" where
  "occupied c \<longleftrightarrow> track_up c \<noteq> CX_TRACK_NONE \<or> track_down c \<noteq> CX_TRACK_NONE"

lemma gate_tracks [simp]:
  "track_up (fst (start_gate_close c)) = track_up c" "track_down (fst (start_gate_close c)) = track_down c"
  "track_up (fst (start_gate_open c)) = track_up c" "track_down (fst (start_gate_open c)) = track_down c"
  "track_up (fst (enter_fault f c)) = track_up c" "track_down (fst (enter_fault f c)) = track_down c"
  by (simp_all add: start_gate_close_def start_gate_open_def enter_fault_def split_beta Let_def)

lemma occupied_trackI: "track d c \<noteq> CX_TRACK_NONE \<Longrightarrow> occupied c"
  by (cases d) (simp_all add: occupied_def)

lemma handle_told:
  assumes ok: "cx_ok c" and m: "occupied c \<longrightarrow> m = Some True"
    and r: "r = crossing_handle_event now ev c"
  shows "occupied (fst r) \<longrightarrow> last_told (snd r) m = Some True"
proof (cases ev)
  case (CX_EVENT_TRAIN_APPROACH d)
  have "last_told (snd (on_approach now d c)) m = (if track d c = CX_TRACK_NONE then Some True else m)"
    by (simp add: on_approach_def split_beta Let_def)
  moreover have "fst (on_approach now d c) = c" if "track d c \<noteq> CX_TRACK_NONE"
    using that by (simp add: on_approach_def)
  ultimately show ?thesis using m r CX_EVENT_TRAIN_APPROACH by (auto simp: crossing_handle_event_def)
next
  case (CX_EVENT_TRAIN_ENTER d)
  then show ?thesis using m r occupied_trackI [of d c]
    by (auto simp: crossing_handle_event_def on_enter_def Let_def)
next
  case (CX_EVENT_TRAIN_EXIT d)
  then show ?thesis using m r occupied_trackI [of d c]
    by (auto simp: crossing_handle_event_def on_exit_def split_beta Let_def)
next
  case CX_EVENT_GATE_CLOSED
  then show ?thesis using m r
    by (auto simp: crossing_handle_event_def on_gate_closed_def split_beta Let_def occupied_def)
next
  case CX_EVENT_GATE_OPENED
  have "crossing_both_tracks_clear c \<Longrightarrow> fault c = CX_FAULT_NONE \<Longrightarrow> gate c = GATE_OPENING \<Longrightarrow> \<not> occupied c"
    using ok by (auto simp: crossing_both_tracks_clear_def track_clear_def cx_ok_def cx_fields_ok_def occupied_def)
  with CX_EVENT_GATE_OPENED show ?thesis using m r
    by (auto simp: crossing_handle_event_def on_gate_opened_def split_beta Let_def occupied_def crossing_both_tracks_clear_def)
next
  case (CX_EVENT_TIMER t g)
  then show ?thesis using m r
    by (auto simp: crossing_handle_event_def on_timer_def occupied_def split: timer_id.split)
next
  case CX_EVENT_INJECT_FAULT
  then show ?thesis using m r by (simp add: crossing_handle_event_def occupied_def)
next
  case CX_EVENT_RESET_FAULT
  then show ?thesis using m r by (auto simp: crossing_handle_event_def on_reset_def Let_def occupied_def)
qed

definition told_step :: "string \<times> crossing_event \<Rightarrow> crossing \<times> bool option \<Rightarrow> crossing \<times> bool option" where
  "told_step i x = (let r = crossing_handle_event (fst i) (snd i) (fst x) in (fst r, last_told (snd r) (snd x)))"

interpretation told: inv_machine told_step "\<lambda>_. True"
  "\<lambda>(c, m). cx_ok c \<and> (occupied c \<longrightarrow> m = Some True)"
proof
  fix x :: "crossing \<times> bool option" and i :: "string \<times> crossing_event"
  assume "case x of (c, m) \<Rightarrow> cx_ok c \<and> (occupied c \<longrightarrow> m = Some True)"
  then show "case told_step i x of (c, m) \<Rightarrow> cx_ok c \<and> (occupied c \<longrightarrow> m = Some True)"
    using handle_told [of "fst x" "snd x" _ "fst i" "snd i"] handle_event_ok [of "fst x" "fst i" "snd i"]
    by (cases x) (auto simp: told_step_def Let_def)
qed

text \<open>C20: Whenever a train is known on a track of a crossing, whatever has happened before, the last railway
  message for its intersections was a \<open>PREEMPT\<close>: they are never released while a train is near.\<close>

theorem occupied_means_preempted:
  "case fold told_step evs (crossing_init i name l1 l2, None) of (c, told) \<Rightarrow>
     told = Some True \<or> track_up c = CX_TRACK_NONE \<and> track_down c = CX_TRACK_NONE"
proof -
  have "\<not> occupied (crossing_init i name l1 l2)" by (simp add: occupied_def crossing_init_def)
  then have "case fold told_step evs (crossing_init i name l1 l2, None) of (c, m) \<Rightarrow>
      cx_ok c \<and> (occupied c \<longrightarrow> m = Some True)"
    by (intro told.run_inv) (simp_all add: crossing_init_ok)
  then show ?thesis by (auto simp: occupied_def)
qed

end
