(* ===== verification/Train_Display.thy ===== *)
theory Train_Display
  imports Train_Controller Crossing_Outputs
begin

text \<open>
  The status screen of the Train controller follows the crossings: after the callbacks of any handler,
  tick or command, the views of the crossings, the fault count and the signal are those of the
  simulator's state.
\<close>

section \<open>The display\<close>

definition view_shows :: "crossing \<Rightarrow> crossing_view \<Rightarrow> bool" where
  "view_shows c v \<longleftrightarrow> cv_track_up v = track_up c \<and> cv_track_down v = track_down c \<and>
     cv_boom_gate v = gate c \<and> cv_fault v = ui_fault (fault c) \<and>
     (cv_road_flash v = FLASH_ON \<longleftrightarrow> flash_on c)"

definition ui_shows :: "crossing list \<Rightarrow> train_ui \<Rightarrow> bool" where
  "ui_shows cs ui \<longleftrightarrow> list_all2 view_shows cs (ui_crossings ui) \<and> ui_active_faults ui = fault_count cs \<and>
     ui_signal ui = (if 0 < fault_count cs then SIGNAL_STOP else SIGNAL_PROCEED)"

definition numbered :: "crossing list \<Rightarrow> bool" where
  "numbered cs \<longleftrightarrow> map ident cs = map ident initial_crossings"

lemma numberedD: "numbered cs \<Longrightarrow> length cs = 3" "numbered cs \<Longrightarrow> i < 3 \<Longrightarrow> cx_index (cs ! i) = int i"
proof -
  assume n: "numbered cs"
  then have m: "map ident cs = map ident initial_crossings" by (simp add: numbered_def)
  then show l: "length cs = 3" using map_eq_imp_length_eq [OF m] by (simp add: initial_crossings_def)
  assume i: "i < 3"
  then have "ident (cs ! i) = ident (initial_crossings ! i)"
    using m l by (metis nth_map length_map)
  moreover have "i = 0 \<or> i = 1 \<or> i = 2" using i by auto
  ultimately show "cx_index (cs ! i) = int i"
    by (auto simp: cx_index_def ident_def initial_crossings_def crossing_init_def)
qed

lemma on_ui_sel [simp]: "tc_ui (on_ui f tc) = f (tc_ui tc)" "tc_sim (on_ui f tc) = tc_sim tc"
  "tc_outbox (on_ui f tc) = tc_outbox tc" "central_conn (on_ui f tc) = central_conn tc"
  "local_conns (on_ui f tc) = local_conns tc" "legacy_local_conn (on_ui f tc) = legacy_local_conn tc"
  by (simp_all add: on_ui_def)

lemma push_item_sel [simp]: "tc_ui (push_item x tc) = tc_ui tc" "tc_sim (push_item x tc) = tc_sim tc"
  "central_conn (push_item f tc) = central_conn tc"
  "local_conns (push_item f tc) = local_conns tc" "legacy_local_conn (push_item f tc) = legacy_local_conn tc"
  by (simp_all add: push_item_def)

lemma queue_railway_sel [simp]:
  "tc_ui (queue_railway_message now c p tc) = tc_ui tc" "tc_sim (queue_railway_message now c p tc) = tc_sim tc"
  "central_conn (queue_railway_message now c p tc) = central_conn tc"
  "local_conns (queue_railway_message now c p tc) = local_conns tc"
  "legacy_local_conn (queue_railway_message now c p tc) = legacy_local_conn tc"
  by (simp_all add: queue_railway_message_def)

lemma update_view_crossings:
  "i < 3 \<Longrightarrow> ui_crossings (update_view (int i) f ui) = (ui_crossings ui)[i := f (ui_crossings ui ! i)]"
  by (simp add: update_view_def)

lemmas ui_setters = train_ui_set_preempt_time_def train_ui_set_clear_time_def train_ui_set_track_state_def
  train_ui_set_gate_state_def train_ui_set_crossing_fault_def train_ui_set_signal_def
  train_ui_set_active_faults_def train_ui_request_update_def

text \<open>A callback of crossing \<open>i\<close> touches only its own view.\<close>

lemma callback_view:
  assumes "cx_index (fst x) = int i" "i < 3" "length (ui_crossings (tc_ui tc)) = 3"
  shows "length (ui_crossings (tc_ui (callback now cs x tc))) = 3"
    and "j \<noteq> i \<Longrightarrow> ui_crossings (tc_ui (callback now cs x tc)) ! j = ui_crossings (tc_ui tc) ! j"
    and "cv_road_flash (ui_crossings (tc_ui (callback now cs x tc)) ! i) = FLASH_ON \<longleftrightarrow>
      flash_effect [x] (cv_road_flash (ui_crossings (tc_ui tc) ! i) = FLASH_ON)"
  using assms
  by (cases "(now, cs, x, tc)" rule: callback.cases;
      auto simp: cx_set_flash_def cx_send_preempt_def cx_send_clear_def cx_fault_alert_def
        cx_state_changed_def ui_setters update_view_def Let_def)+

lemma flash_Cons: "flash_effect (x # xs) b = flash_effect xs (flash_effect [x] b)"
  using flash_effect_append [of "[x]" xs b] by simp

lemma callbacks_view:
  assumes "\<forall>x \<in> set xs. cx_index (fst x) = int i" "i < 3" "length (ui_crossings (tc_ui tc)) = 3"
  shows "length (ui_crossings (tc_ui (run_callbacks now (map (Pair i) xs) cs tc))) = 3"
    and "j \<noteq> i \<Longrightarrow> ui_crossings (tc_ui (run_callbacks now (map (Pair i) xs) cs tc)) ! j = ui_crossings (tc_ui tc) ! j"
    and "cv_road_flash (ui_crossings (tc_ui (run_callbacks now (map (Pair i) xs) cs tc)) ! i) = FLASH_ON \<longleftrightarrow>
      flash_effect xs (cv_road_flash (ui_crossings (tc_ui tc) ! i) = FLASH_ON)"
  using assms
proof (induction xs arbitrary: cs tc)
  case (Cons x xs)
  obtain c out where x: "x = (c, out)" by force
  {
    case 1
    with Cons.IH(1) callback_view(1) [of x i tc] show ?case by (simp add: x)
  next
    case 2
    with Cons.IH(2) callback_view(1,2) [of x i tc] show ?case by (simp add: x)
  next
    case 3
    with Cons.IH(3) callback_view(1,3) [of x i tc] flash_Cons [of x xs] show ?case by (simp add: x)
  }
qed simp_all

fun call_array :: "(nat \<times> cx_call) list \<Rightarrow> crossing list \<Rightarrow> crossing list" where
  "call_array [] cs = cs"
| "call_array ((i, c, out) # r) cs = call_array r (cs[i := c])"

lemma run_callbacks_append:
  "run_callbacks now (xs @ ys) cs tc = run_callbacks now ys (call_array xs cs) (run_callbacks now xs cs tc)"
  "call_array (xs @ ys) cs = call_array ys (call_array xs cs)"
  by (induction xs cs arbitrary: tc rule: call_array.induct) simp_all

lemma call_array_one:
  "length cs = 3 \<Longrightarrow> i < 3 \<Longrightarrow> xs \<noteq> [] \<Longrightarrow> call_array (map (Pair i) xs) cs = cs[i := fst (last xs)]"
proof (induction xs arbitrary: cs)
  case (Cons x xs)
  then show ?case by (cases x; cases "xs = []") auto
qed simp

lemma fault_count_cong: "map fault cs = map fault ds \<Longrightarrow> fault_count cs = fault_count ds"
proof -
  have "fault_count cs = int (length (filter (\<lambda>f. f \<noteq> CX_FAULT_NONE) (map fault cs)))" for cs
    by (simp add: fault_count_def filter_map comp_def)
  then show "map fault cs = map fault ds \<Longrightarrow> fault_count cs = fault_count ds" by metis
qed

lemma state_changed_view:
  assumes "cx_index c = int i" "i < 3" "length (ui_crossings (tc_ui tc)) = 3"
  shows "let ui = tc_ui (cx_state_changed cs c tc); v = ui_crossings ui ! i
    in cv_track_up v = track_up c \<and> cv_track_down v = track_down c \<and> cv_boom_gate v = gate c \<and>
       cv_fault v = ui_fault (fault c) \<and> ui_active_faults ui = fault_count cs \<and>
       ui_signal ui = (if 0 < fault_count cs then SIGNAL_STOP else SIGNAL_PROCEED)"
  using assms by (simp add: cx_state_changed_def Let_def ui_setters update_view_def)

text \<open>The display, the array the callbacks see and the crossings stay together through a handler.\<close>

definition in_step :: "string \<Rightarrow> crossing list \<Rightarrow> train_controller \<Rightarrow> (nat \<times> cx_call) list \<Rightarrow> sim_state \<Rightarrow> bool" where
  "in_step now cs0 tc0 calls s \<longleftrightarrow> numbered (crossings s) \<and> length (call_array calls cs0) = 3 \<and>
     map fault (call_array calls cs0) = map fault (crossings s) \<and>
     ui_shows (crossings s) (tc_ui (run_callbacks now calls cs0 tc0))"

lemma handle_at_crossings: "crossings (snd (handle_at now i ev s)) =
    (crossings s)[i := fst (crossing_handle_event now ev (crossings s ! i))]"
  "fst (handle_at now i ev s) = map (Pair i) (snd (crossing_handle_event now ev (crossings s ! i)))"
  by (simp_all add: handle_at_def split_beta Let_def)

lemma numbered_update:
  assumes "numbered cs" "i < 3" "ident c = ident (cs ! i)"
  shows "numbered (cs[i := c])"
  using assms numberedD(1) [OF assms(1)] by (simp add: numbered_def map_update) (metis list_update_id map_update nth_map)

lemma cx_index_ident: "ident c = ident d \<Longrightarrow> cx_index c = cx_index d"
  by (simp add: ident_def cx_index_def)

text \<open>The callbacks of a handler whose last call reports its result bring the display to that result.\<close>

lemma callbacks_show:
  assumes l: "calls \<noteq> []" "last calls = (c', State_Changed)"
    and id: "\<forall>x \<in> set calls. cx_index (fst x) = int i" and i: "i < 3" and arr: "length arr = 3"
    and fl: "flash_effect calls (flash_on (cs ! i)) = flash_on c'"
    and len: "length cs = 3" and views: "list_all2 view_shows cs (ui_crossings (tc_ui tc))"
    and mf: "map fault arr = map fault cs"
  shows "ui_shows (cs[i := c']) (tc_ui (run_callbacks now (map (Pair i) calls) arr tc))"
proof -
  let ?pre = "butlast calls"
  have split: "calls = ?pre @ [(c', State_Changed)]" using l by (metis append_butlast_last_id)
  let ?tc1 = "run_callbacks now (map (Pair i) ?pre) arr tc"
  let ?tc2 = "run_callbacks now (map (Pair i) calls) arr tc"
  have ulen: "length (ui_crossings (tc_ui tc)) = 3" using views len by (simp add: list_all2_lengthD [symmetric])
  have idp: "\<forall>x \<in> set ?pre. cx_index (fst x) = int i" "cx_index c' = int i"
    using id l last_in_set [OF l(1)] by (auto dest: in_set_butlastD)
  have arr1: "(call_array (map (Pair i) ?pre) arr)[i := c'] = arr[i := c']"
    using call_array_one [OF arr i l(1)] l(2) by (subst (asm) split) (simp add: run_callbacks_append)
  have tc2: "?tc2 = cx_state_changed (arr[i := c']) c' ?tc1"
    by (subst split) (simp add: run_callbacks_append arr1)
  note sv = state_changed_view [OF idp(2) i callbacks_view(1) [OF idp(1) i ulen, of now arr], of "arr[i := c']", folded tc2]
  have flash: "cv_road_flash (ui_crossings (tc_ui ?tc2) ! i) = FLASH_ON \<longleftrightarrow> flash_on c'"
    using callbacks_view(3) [OF id i ulen, of now arr] views i len fl
    by (simp add: list_all2_conv_all_nth view_shows_def)
  have "view_shows (cs[i := c'] ! j) (ui_crossings (tc_ui ?tc2) ! j)" if "j < 3" for j
    using sv flash callbacks_view(2) [OF id i ulen, of j now arr] views that len
    by (cases "j = i") (simp_all add: view_shows_def Let_def list_all2_conv_all_nth)
  then have v: "list_all2 view_shows (cs[i := c']) (ui_crossings (tc_ui ?tc2))"
    using callbacks_view(1) [OF id i ulen, of now arr] len by (simp add: list_all2_conv_all_nth)
  have "map fault (arr[i := c']) = map fault (cs[i := c'])" using mf by (simp add: map_update)
  from fault_count_cong [OF this] v sv show ?thesis by (simp add: ui_shows_def Let_def)
qed

lemma in_step_handle:
  assumes I: "in_step now cs0 tc0 calls s" and i: "i < 3"
  shows "in_step now cs0 tc0 (calls @ fst (handle_at now i ev s)) (snd (handle_at now i ev s))"
proof -
  let ?c = "crossings s ! i"
  let ?r = "crossing_handle_event now ev ?c"
  let ?cs = "(crossings s)[i := fst ?r]"
  let ?tc = "run_callbacks now calls cs0 tc0"
  have I': "numbered (crossings s)" "length (call_array calls cs0) = 3"
    "map fault (call_array calls cs0) = map fault (crossings s)" "ui_shows (crossings s) (tc_ui ?tc)"
    using I by (auto simp: in_step_def)
  have len: "length (crossings s) = 3" using numberedD(1) [OF I'(1)] .
  have views: "list_all2 view_shows (crossings s) (ui_crossings (tc_ui ?tc))" using I'(4) by (simp add: ui_shows_def)
  have id: "ident (fst ?r) = ident ?c" "\<forall>x \<in> set (snd ?r). cx_index (fst x) = int i"
    using handle_ident [of ?c now ev] numberedD(2) [OF I'(1) i]
    by (simp_all add: same_ident_def) (metis cx_index_ident)
  have num: "numbered ?cs" using numbered_update [OF I'(1) i id(1)] .
  show ?thesis
  proof (cases "snd ?r = []")
    case True
    have sh: "shown (fst ?r) = shown ?c" "flash_on (fst ?r) = flash_on ?c" using handle_silent [OF True] by auto
    then have "fault (fst ?r) = fault ?c" by (simp add: shown_def)
    then have mf: "map fault ?cs = map fault (crossings s)"
      using i len by (simp add: map_update) (metis list_update_id nth_map)
    have "list_all2 view_shows ?cs (ui_crossings (tc_ui ?tc))"
      using views sh i len by (auto simp: list_all2_conv_all_nth nth_list_update view_shows_def shown_def)
    with I' num mf fault_count_cong [OF mf] True show ?thesis
      by (simp add: in_step_def handle_at_crossings ui_shows_def)
  next
    case False
    have "ui_shows ?cs (tc_ui (run_callbacks now (map (Pair i) (snd ?r)) (call_array calls cs0) ?tc))"
      by (rule callbacks_show [OF False handle_last [OF False] id(2) i I'(2) handle_flash len views I'(3)])
    moreover have "call_array (map (Pair i) (snd ?r)) (call_array calls cs0) = (call_array calls cs0)[i := fst ?r]"
      using call_array_one [OF I'(2) i False] handle_last [OF False] by simp
    ultimately show ?thesis using num I'(2,3)
      by (simp add: in_step_def handle_at_crossings run_callbacks_append map_update)
  qed
qed

section \<open>Ticks and commands keep the display in step\<close>

lemma in_step_frame [simp]:
  "in_step now cs tc calls (s\<lparr>gates := g\<rparr>) = in_step now cs tc calls s"
  "in_step now cs tc calls (s\<lparr>events := es\<rparr>) = in_step now cs tc calls s"
  "in_step now cs tc calls (s\<lparr>time_scale := n\<rparr>) = in_step now cs tc calls s"
  "in_step now cs tc calls (advance_time s) = in_step now cs tc calls s"
  by (simp_all add: in_step_def advance_time_def)

lemma in_step_cong:
  "crossings s' = crossings s \<Longrightarrow> in_step now cs tc calls s' = in_step now cs tc calls s"
  by (simp add: in_step_def)

lemma tick_gate_in_step:
  assumes "in_step now cs tc (fst (snd r)) (snd (snd r))" "i < 3"
  shows "in_step now cs tc (fst (snd (tick_gate now i r))) (snd (snd (tick_gate now i r)))"
  using assms in_step_handle [of now cs tc "fst (snd r)" "(snd (snd r))\<lparr>gates := (gates (snd (snd r)))[i := - 1]\<rparr>" i]
  by (auto simp: tick_gate_def split_beta Let_def split: prod.split)

lemma tick_event_in_step:
  assumes ok: "sim_ok (snd (snd r))" and "k < MAX_PENDING_EVENTS"
    and I: "in_step now cs tc (fst (snd r)) (snd (snd r))"
  shows "in_step now cs tc (fst (snd (tick_event now k r))) (snd (snd (tick_event now k r)))"
proof -
  let ?s = "snd (snd r)"
  have "active (events ?s ! k) \<Longrightarrow> ev_cx (events ?s ! k) < 3"
    using sim_okD(1,5) [OF ok] assms(2) by (auto simp: host_ok_def queue_ok_def)
  with I in_step_handle [OF I, of "ev_cx (events ?s ! k)"] show ?thesis
    by (auto simp: tick_event_def split_beta Let_def split: prod.split)
qed

lemma tick_in_step:
  assumes ok: "sim_ok s" and I: "in_step now cs tc [] s"
  shows "in_step now cs tc (fst (snd (rail_sim_tick now s))) (snd (snd (rail_sim_tick now s)))"
proof -
  let ?J = "\<lambda>r. sim_ok (snd (snd r)) \<and> in_step now cs tc (fst (snd r)) (snd (snd r))"
  have "?J (fold (tick_gate now) [0..<3] (0, [], advance_time s))"
    by (rule fold_ok [where P = ?J]) (use ok I tick_gate_ok tick_gate_in_step in auto)
  then have "?J (fold (tick_event now) [0..<MAX_PENDING_EVENTS] (fold (tick_gate now) [0..<3] (0, [], advance_time s)))"
    by (rule fold_ok [where P = ?J, rotated]) (use tick_event_ok tick_event_in_step in auto)
  then show ?thesis using sim_okD(4,6) [OF ok] by (simp add: rail_sim_tick_def)
qed

lemma line_crossings [simp]:
  "crossings (queue_line d a p is s) = crossings s" "crossings (simulate_train_on_line d s) = crossings s"
  "crossings (fold simulate_train_on_line ds s) = crossings s"
proof -
  show q: "crossings (queue_line d a p is s) = crossings s" for d a p "is" s
    by (induction d a p "is" s rule: queue_line.induct) (simp_all add: Let_def)
  show l: "crossings (simulate_train_on_line d s) = crossings s" for d s
    by (simp add: simulate_train_on_line_def q)
  show "crossings (fold simulate_train_on_line ds s) = crossings s"
    by (induction ds arbitrary: s) (simp_all add: l)
qed

definition quiet :: "sim_state \<Rightarrow> command_result \<Rightarrow> bool" where
  "quiet s r \<longleftrightarrow> fst (snd (snd r)) = [] \<and> crossings (snd (snd (snd r))) = crossings s"

lemma train_quiet: "quiet s (line_train ds ok s)" "quiet s (single_train ne a b s)"
  by (simp_all add: quiet_def line_train_def single_train_def simulate_train_at_crossing_def Let_def
      split: option.split)

lemma command_in_step:
  assumes ok: "sim_ok s" and I: "in_step now cs tc [] s"
  shows "in_step now cs tc (fst (snd (snd (command_locked now text s)))) (snd (snd (snd (command_locked now text s))))"
proof -
  have q: "in_step now cs tc (fst (snd (snd r))) (snd (snd (snd r)))" if "quiet s r" for r
    using that I in_step_cong [of "snd (snd (snd r))" s] by (simp add: quiet_def)
  have c: "in_step now cs tc (fst (snd (snd (crossing_command ev a b i now s))))
      (snd (snd (snd (crossing_command ev a b i now s))))" for ev a b i
  proof (cases "find_crossing i s")
    case (Some k)
    then have "k < 3" using sim_okD(4) [OF ok] by (auto simp: find_crossing_def dest: find_SomeD)
    with Some in_step_handle [OF I, of k ev] show ?thesis by (simp add: crossing_command_def split_beta)
  qed (simp add: crossing_command_def I)
  show ?thesis using I c q [OF train_quiet(1)] q [OF train_quiet(2)]
    by (simp add: command_locked_def Let_def split_beta rail_sim_set_time_scale_def)
qed

end
