(* ===== verification/Train_Safety.thy ===== *)
theory Train_Safety
  imports Train_Display
begin

text \<open>
  Correctness of the Train controller under every interleaving of its threads: the outbox is a bounded
  queue, the display is truthful, and only Central commands the simulator.
\<close>

section \<open>The outbox\<close>

definition outbox_ok :: "outbox \<Rightarrow> bool" where
  "outbox_ok ob \<longleftrightarrow> length (items ob) = OUTBOX_CAPACITY \<and> head ob < OUTBOX_CAPACITY \<and> count ob \<le> OUTBOX_CAPACITY"

definition outbox_contents :: "outbox \<Rightarrow> outbox_item list" where
  "outbox_contents ob = map (\<lambda>k. items ob ! ((head ob + k) mod OUTBOX_CAPACITY)) [0..<count ob]"

lemma mod_add_neq:
  assumes "k < c" "c < (n :: nat)"
  shows "(h + k) mod n \<noteq> (h + c) mod n"
proof
  assume "(h + k) mod n = (h + c) mod n"
  then have "n dvd (h + c) - (h + k)" using assms by (metis add_left_mono less_imp_le mod_eq_dvd_iff_nat)
  moreover have "0 < c - k" "c - k < n" using assms by auto
  ultimately show False by (simp add: nat_dvd_not_less)
qed

lemma outbox_init_ok: "outbox_ok outbox_init"
  by (simp add: outbox_ok_def outbox_init_def)

interpretation outbox: bounded_fifo outbox_push outbox_pop outbox_contents outbox_ok OUTBOX_CAPACITY
proof
  fix q x
  assume ok: "outbox_ok q"
  show "outbox_ok (outbox_push x q)" using ok by (auto simp: outbox_ok_def outbox_push_def)
  have "items (outbox_push x q) ! ((head q + k) mod OUTBOX_CAPACITY) = items q ! ((head q + k) mod OUTBOX_CAPACITY)"
    if "k < count q" "count q < OUTBOX_CAPACITY" for k
    using mod_add_neq [OF that, of "head q"] that by (simp add: outbox_push_def)
  then show "outbox_contents (outbox_push x q) =
      (if length (outbox_contents q) < OUTBOX_CAPACITY then outbox_contents q @ [x] else outbox_contents q)"
    using ok by (auto simp: outbox_contents_def outbox_push_def outbox_ok_def)
next
  fix q x q'
  assume "outbox_ok q" "outbox_pop q = Some (x, q')"
  then show "outbox_ok q'" by (auto simp: outbox_ok_def outbox_pop_def split: if_splits)
next
  fix q
  assume ok: "outbox_ok q"
  have "outbox_contents q = items q ! head q #
      outbox_contents (q\<lparr>head := (head q + 1) mod OUTBOX_CAPACITY, count := count q - 1\<rparr>)" if "count q \<noteq> 0"
  proof -
    have "[0..<count q] = 0 # map Suc [0..<count q - 1]" using that by (cases "count q") (simp_all add: upt_conv_Cons map_Suc_upt del: upt_Suc)
    then show ?thesis using ok by (simp add: outbox_contents_def outbox_ok_def mod_simps comp_def)
  qed
  then show "outbox_contents q = (case outbox_pop q of None \<Rightarrow> [] | Some (x, q') \<Rightarrow> x # outbox_contents q')"
    by (simp add: outbox_pop_def) (simp add: outbox_contents_def)
qed

text \<open>C23: The ring buffer between the simulator and the sender thread is a bounded queue: under every
  interleaving of pushes and pops, the sender gets the accepted messages in the order they were queued, and a
  message is refused only when sixty-four are waiting.\<close>

theorem outbox_is_bounded_fifo:
  "map_prod outbox_contents id (fold (fifo_step outbox_push outbox_pop) ops (outbox_init, [])) =
   fold (list_step OUTBOX_CAPACITY) ops ([], [])"
proof -
  have "outbox_contents outbox_init = []" by (simp add: outbox_contents_def outbox_init_def)
  then show ?thesis using outbox.run_refines [OF outbox_init_ok, of ops "[]"] by simp
qed

section \<open>Rounds of the Train controller\<close>

lemma callback_frame:
  "tc_sim (callback now cs x tc) = tc_sim tc" "central_conn (callback now cs x tc) = central_conn tc"
  "local_conns (callback now cs x tc) = local_conns tc"
  "legacy_local_conn (callback now cs x tc) = legacy_local_conn tc"
  by (cases "(now, cs, x, tc)" rule: callback.cases;
      simp add: cx_set_flash_def cx_send_preempt_def cx_send_clear_def cx_fault_alert_def
        cx_state_changed_def Let_def)+

lemma callbacks_frame [simp]:
  "tc_sim (run_callbacks now xs cs tc) = tc_sim tc" "central_conn (run_callbacks now xs cs tc) = central_conn tc"
  "local_conns (run_callbacks now xs cs tc) = local_conns tc"
  "legacy_local_conn (run_callbacks now xs cs tc) = legacy_local_conn tc"
  by (induction now xs cs tc rule: run_callbacks.induct) (simp_all add: callback_frame)

text \<open>A destination is Central or the index of one of the six links.\<close>

definition valid_dest :: "outbox_item \<Rightarrow> bool" where
  "valid_dest x \<longleftrightarrow> destination x = OUTBOX_CENTRAL \<or> 0 \<le> destination x \<and> destination x < int NUM_INTERSECTIONS"

definition outbox_good :: "outbox \<Rightarrow> bool" where
  "outbox_good ob \<longleftrightarrow> outbox_ok ob \<and> (\<forall>x \<in> set (outbox_contents ob). valid_dest x)"

lemma push_item_ok: "outbox_good (tc_outbox tc) \<Longrightarrow> valid_dest x \<Longrightarrow> outbox_good (tc_outbox (push_item x tc))"
  by (auto simp: push_item_def outbox_good_def outbox.push_ok outbox.push_contents)

lemma pop_good: "outbox_good ob \<Longrightarrow> outbox_pop ob = Some (x, ob') \<Longrightarrow> outbox_good ob' \<and> valid_dest x"
  using outbox.pop_contents [of ob] outbox.pop_ok [of ob x ob'] by (simp add: outbox_good_def)

lemma queue_railway_ok: "outbox_good (tc_outbox tc) \<Longrightarrow> outbox_good (tc_outbox (queue_railway_message now c p tc))"
proof -
  have "valid_dest (railway_item now w c p l)" if "\<not> (l < 1 \<or> of_nat NUM_INTERSECTIONS < l)" for w l
    using that by (simp add: valid_dest_def railway_item_def word_less_def)
  then show "outbox_good (tc_outbox tc) \<Longrightarrow> outbox_good (tc_outbox (queue_railway_message now c p tc))"
    by (simp add: queue_railway_message_def push_item_ok)
qed

lemma callback_outbox: "outbox_good (tc_outbox tc) \<Longrightarrow> outbox_good (tc_outbox (callback now cs x tc))"
  by (cases "(now, cs, x, tc)" rule: callback.cases)
    (simp_all add: cx_set_flash_def cx_send_preempt_def cx_send_clear_def cx_fault_alert_def
        cx_state_changed_def Let_def queue_railway_ok push_item_ok valid_dest_def fault_item_def)

lemma callbacks_outbox: "outbox_good (tc_outbox tc) \<Longrightarrow> outbox_good (tc_outbox (run_callbacks now xs cs tc))"
  by (induction now xs cs tc rule: run_callbacks.induct) (simp_all add: callback_outbox)

definition links_ok :: "train_controller \<Rightarrow> bool" where
  "links_ok tc \<longleftrightarrow> link_ok (central_conn tc) \<and> link_ok (legacy_local_conn tc) \<and>
     length (local_conns tc) = NUM_INTERSECTIONS \<and> (\<forall>c \<in> set (local_conns tc). link_ok c)"

definition display_ok :: "train_controller \<Rightarrow> bool" where
  "display_ok tc \<longleftrightarrow> numbered (crossings (tc_sim tc)) \<and> ui_shows (crossings (tc_sim tc)) (tc_ui tc)"

definition train_ok :: "train_controller \<Rightarrow> bool" where
  "train_ok tc \<longleftrightarrow> sim_ok (tc_sim tc) \<and> display_ok tc \<and> outbox_good (tc_outbox tc) \<and> links_ok tc"

definition same_view :: "train_ui \<Rightarrow> train_ui \<Rightarrow> bool" where
  "same_view ui ui' \<longleftrightarrow> ui_crossings ui' = ui_crossings ui \<and> ui_active_faults ui' = ui_active_faults ui \<and>
     ui_signal ui' = ui_signal ui"

lemma same_view_setters [simp]:
  "same_view ui (train_ui_set_connection who st now ui)" "same_view ui (train_ui_set_last_sent a b c ui)"
  "same_view ui (train_ui_set_last_received a b c ui)" "same_view ui (train_ui_set_time_scale n ui)"
  "same_view ui (train_ui_set_screen sc ui)" "same_view ui (train_ui_display ui)"
  by (cases who; simp add: same_view_def train_ui_set_connection_def train_ui_set_last_sent_def
      train_ui_set_last_received_def train_ui_set_time_scale_def train_ui_set_screen_def
      train_ui_display_def)+

lemma same_view_trans: "same_view a b \<Longrightarrow> same_view b c \<Longrightarrow> same_view a c"
  by (simp add: same_view_def)

lemma same_view_refl [simp]: "same_view a a"
  by (simp add: same_view_def)

text \<open>What the rounds of the network threads do: links and the rest of the display.\<close>

definition link_round :: "train_controller \<Rightarrow> train_controller \<Rightarrow> bool" where
  "link_round tc tc' \<longleftrightarrow> tc_sim tc' = tc_sim tc \<and> tc_outbox tc' = tc_outbox tc \<and>
     (links_ok tc \<longrightarrow> links_ok tc') \<and> same_view (tc_ui tc) (tc_ui tc')"

lemma link_round_ok: "train_ok tc \<Longrightarrow> link_round tc tc' \<Longrightarrow> train_ok tc'"
  by (auto simp: train_ok_def display_ok_def link_round_def same_view_def ui_shows_def)

lemma link_round_refl: "link_round tc tc"
  by (simp add: link_round_def)

lemma link_round_trans: "link_round a b \<Longrightarrow> link_round b c \<Longrightarrow> link_round a c"
  by (auto simp: link_round_def intro: same_view_trans)

lemma link_round_ui: "(\<And>ui. same_view ui (f ui)) \<Longrightarrow> link_round tc (on_ui f tc)"
  by (simp add: link_round_def links_ok_def)

lemma link_round_local_ui: "link_round tc (update_local_ui_status now tc)"
  by (simp add: update_local_ui_status_def Let_def link_round_ui)

lemma link_round_fields:
  "link_round tc (tc\<lparr>last_central_update := a, tc_needs_update := b\<rparr>)"
  "link_round tc (tc\<lparr>last_local_update := a, tc_needs_update := b\<rparr>)"
  "link_round tc (tc\<lparr>last_send_central := a, tc_needs_update := b\<rparr>)"
  "link_round tc (tc\<lparr>last_send_local := a, tc_needs_update := b\<rparr>)"
  "link_round tc (tc\<lparr>last_recv_local := a, last_local_update := c\<rparr>)"
  "link_round tc (tc\<lparr>last_recv_central := a, last_central_update := c\<rparr>)"
  "link_round tc (tc\<lparr>tc_needs_update := b\<rparr>)"
  by (simp_all add: link_round_def links_ok_def)

definition good_link :: "link \<Rightarrow> bool" where
  "good_link l \<longleftrightarrow> (case l of Link_Local i \<Rightarrow> i < NUM_INTERSECTIONS | _ \<Rightarrow> True)"

lemma link_round_set:
  assumes "good_link l" "link_ok (link_of tc l) \<Longrightarrow> link_ok conn"
  shows "link_round tc (set_link l conn tc)"
  using assms by (cases l) (auto simp: link_round_def links_ok_def good_link_def nth_mem dest!: set_update_subset_insert [THEN subsetD])

lemma local_link_good: "local_link tc i = Some l \<Longrightarrow> i < NUM_INTERSECTIONS \<Longrightarrow> good_link l"
  by (auto simp: local_link_def good_link_def split: if_splits)

lemma link_round_fold:
  "(\<And>i tc. i \<in> set is \<Longrightarrow> link_round tc (f i tc)) \<Longrightarrow> link_round tc (fold f is tc)"
  by (induction "is" arbitrary: tc) (auto intro: link_round_refl link_round_trans)

lemmas link_rounds = link_round_refl link_round_ui link_round_local_ui link_round_fields link_round_set

lemma send_round:
  assumes "good_link l" "link_round (set_link l (snd (send_message_timeout out (link_of tc l))) tc) tc'"
  shows "link_round tc tc'"
  using link_round_trans [OF link_round_set [OF assms(1)] assms(2)] by simp

lemma send_checked_round:
  assumes "good_link l" "link_round (set_link l (snd (send_checked net m (link_of tc l))) tc) tc'"
  shows "link_round tc tc'"
  using link_round_trans [OF link_round_set [OF assms(1)] assms(2)] by simp

lemma test_round:
  assumes "good_link l"
  shows "link_round tc (on_ui (train_ui_set_last_sent a b d)
    (set_link l (snd (send_test_message net now src dst (link_of tc l))) tc))"
  unfolding send_test_message_def
  by (rule send_checked_round [OF assms, of net "empty_frame now MSG_TEST src dst"]) (simp add: link_round_ui)

lemma deliver_round:
  assumes "valid_dest item"
  shows "link_round tc (deliver net now item tc)"
proof -
  let ?t = "if destination item = OUTBOX_CENTRAL then (if connected (central_conn tc) then Some Link_Central else None)
            else local_link tc (nat (destination item))"
  show ?thesis
  proof (cases ?t)
    case (Some l)
    then have l: "good_link l"
      using assms local_link_good [of tc "nat (destination item)" l]
      by (auto simp: valid_dest_def good_link_def split: if_splits)
    show ?thesis
      by (rule send_round [OF l, where out = "net (service_path (link_of tc l)) (item_frame item)"])
        (simp add: deliver_def Some split_beta Let_def link_round_ui link_round_local_ui)
  qed (simp add: deliver_def link_round_refl)
qed

lemma sender_ok: "train_ok tc \<Longrightarrow> train_ok (sender_step net now tc)"
proof (cases "outbox_pop (tc_outbox tc)")
  case (Some p)
  obtain x ob where p: "p = (x, ob)" by force
  assume ok: "train_ok tc"
  then have g: "outbox_good ob" "valid_dest x" using pop_good [of "tc_outbox tc" x ob] Some p by (auto simp: train_ok_def)
  have "train_ok (tc\<lparr>tc_outbox := ob\<rparr>)" using ok g(1) by (simp add: train_ok_def display_ok_def links_ok_def)
  from link_round_ok [OF this deliver_round [OF g(2)]] show ?thesis by (simp add: sender_step_def Some p)
qed (simp add: sender_step_def)

lemma connect_central_round: "link_round tc (connect_central nopen net now tc)"
proof -
  let ?c = "snd (connection_try_connect nopen (central_conn tc))"
  let ?tc1 = "set_link Link_Central ?c tc"
  let ?tc2 = "on_ui (train_ui_set_connection CONTROLLER_CENTRAL CONN_CONNECTED now)
                       (?tc1\<lparr>last_central_update := now, tc_needs_update := True\<rparr>)"
  have 1: "link_round tc ?tc1" by (rule link_round_set) (simp_all add: good_link_def)
  have 2: "link_round ?tc1 ?tc2"
    by (rule link_round_trans [OF link_round_fields(1) link_round_ui]) simp
  have "good_link Link_Central" by (simp add: good_link_def)
  note 3 = test_round [OF this, of ?tc2]
  show ?thesis using 1 link_round_trans [OF link_round_trans [OF 1 2] 3]
    by (simp add: connect_central_def split_beta Let_def)
qed

lemma connect_local_round:
  assumes "i < NUM_INTERSECTIONS"
  shows "link_round tc (connect_local nopen net now i tc)"
proof -
  have fresh: "link_round tc0 (let tc3 = update_local_ui_status now (tc0\<lparr>last_local_update := now, tc_needs_update := True\<rparr>);
               (r, conn3) = send_test_message net now CONTROLLER_TRAIN CONTROLLER_LOCAL (link_of tc3 l)
           in on_ui (train_ui_set_last_sent now ''TEST'' (dest_name (int i))) (set_link l conn3 tc3))"
    if "good_link l" for tc0 l
    unfolding Let_def split_beta
    by (rule link_round_trans [OF link_round_trans [OF link_round_fields(2) link_round_local_ui] test_round [OF that]])
  let ?A = "set_link (Link_Local i) (snd (connection_try_connect nopen (local_conns tc ! i))) tc"
  let ?B = "set_link Link_Legacy (snd (connection_try_connect nopen (legacy_local_conn ?A))) ?A"
  have gl: "good_link (Link_Local i)" "good_link Link_Legacy" using assms by (simp_all add: good_link_def)
  have A: "link_round tc ?A" by (rule link_round_set [OF gl(1)]) simp
  have B: "link_round tc ?B" by (rule link_round_trans [OF A link_round_set [OF gl(2)]]) simp
  show ?thesis
    using A B link_round_trans [OF A fresh [OF gl(1), of ?A]] link_round_trans [OF B fresh [OF gl(2), of ?B]]
    by (cases "\<not> fst (connection_try_connect nopen (local_conns tc ! i)) \<and> i = 0 \<and>
          \<not> connected (snd (connection_try_connect nopen (local_conns tc ! i)))")
      (auto simp add: connect_local_def split_beta Let_def)
qed

lemma connection_round: "link_round tc (connection_step nopen net now tc)"
  unfolding connection_step_def
  by (rule link_round_trans [OF connect_central_round link_round_fold]) (simp add: connect_local_round)

lemma heartbeat_central_round: "link_round tc (heartbeat_central net now tc)"
proof -
  have "link_round tc0 (on_ui (train_ui_set_connection CONTROLLER_CENTRAL CONN_LOST now)
               (tc0\<lparr>last_central_update := now, tc_needs_update := True\<rparr>))" for tc0
    by (rule link_round_trans [OF link_round_fields(1) link_round_ui]) simp
  moreover have "link_round tc (set_link Link_Central (snd (send_checked net m (central_conn tc))) tc)" for m
    by (rule link_round_set) (simp_all add: good_link_def)
  ultimately show ?thesis
    by (auto simp: heartbeat_central_def send_heartbeat_def split_beta Let_def link_round_refl intro: link_round_trans)
qed

lemma heartbeat_local_round:
  assumes "i < NUM_INTERSECTIONS"
  shows "link_round tc (heartbeat_local net now i tc)"
proof (cases "local_link tc i")
  case (Some l)
  have lost: "link_round t (update_local_ui_status now (t\<lparr>last_local_update := now, tc_needs_update := True\<rparr>))" for t
    by (rule link_round_trans [OF link_round_fields(2) link_round_local_ui])
  show ?thesis
    by (rule send_checked_round [OF local_link_good [OF Some assms], of net "empty_frame now MSG_HEARTBEAT CONTROLLER_TRAIN CONTROLLER_LOCAL"])
      (simp add: heartbeat_local_def Some send_heartbeat_def split_beta Let_def lost link_round_refl)
qed (simp add: heartbeat_local_def link_round_refl)

lemma heartbeat_round: "link_round tc (heartbeat_step net now tc)"
  unfolding heartbeat_step_def
  by (rule link_round_trans [OF heartbeat_central_round link_round_fold]) (simp add: heartbeat_local_round)

lemma statuses_round: "link_round tc (snd (send_statuses net now cs tc))"
proof (induction cs arbitrary: tc)
  case (Cons c cs)
  show ?case
    by (rule send_round [of Link_Central, where out = "net (service_path (central_conn tc)) (status_frame now c)"])
      (simp_all add: good_link_def split_beta Let_def Cons link_round_ui)
qed (simp add: link_round_ui)

lemma status_round: "link_round tc (snd (status_step net now tc))"
  by (simp add: status_step_def send_railway_status_def statuses_round link_round_refl)

lemma send_local_round: "\<forall>i \<in> set is. i < NUM_INTERSECTIONS \<Longrightarrow> link_round tc (snd (send_local_all net now is tc))"
proof (induction "is" arbitrary: tc)
  case (Cons i "is")
  show ?case
  proof (cases "local_link tc i")
    case (Some l)
    show ?thesis
      by (rule send_checked_round [OF local_link_good [OF Some], of net "empty_frame now MSG_TEST CONTROLLER_TRAIN CONTROLLER_LOCAL"])
       (use Cons Some in \<open>simp_all add: send_test_message_def split_beta Let_def\<close>)
  qed (use Cons in simp)
qed (simp add: link_round_refl)


lemma execute_round:
  assumes "cmd = ''send-central'' \<or> cmd = ''send-local''"
  shows "link_round tc (snd (execute_command net now cmd tc))"
proof -
  have c: "link_round tc (tc\<lparr>central_conn := snd (send_test_message net now CONTROLLER_TRAIN CONTROLLER_CENTRAL (central_conn tc))\<rparr>)"
    using link_round_set [of Link_Central tc] by (simp add: good_link_def send_test_message_def)
  have s: "link_round t (on_ui (train_ui_set_last_sent a b d) (t\<lparr>last_send_central := e, tc_needs_update := True\<rparr>))"
    "link_round t (on_ui (train_ui_set_last_sent a b d) (t\<lparr>last_send_local := e, tc_needs_update := True\<rparr>))" for t a b d e
    by (rule link_round_trans [OF link_round_fields(3) link_round_ui] link_round_trans [OF link_round_fields(4) link_round_ui], simp)+
  have l: "link_round tc (snd (send_local_all net now [0..<NUM_INTERSECTIONS] tc))"
    by (rule send_local_round) simp
  show ?thesis using assms c link_round_trans [OF c s(1)] link_round_trans [OF l s(2)]
      link_round_trans [OF l link_round_local_ui] link_round_refl
    by (auto simp: execute_command_def split_beta Let_def)
qed

lemma sim_round_ok:
  assumes ok: "train_ok tc" and s: "sim_ok s'"
    and I: "in_step now (crossings (tc_sim tc)) (tc\<lparr>tc_sim := s'\<rparr>) calls s'"
  shows "train_ok (run_callbacks now calls (crossings (tc_sim tc)) (tc\<lparr>tc_sim := s'\<rparr>))"
  using assms by (simp add: train_ok_def display_ok_def in_step_def links_ok_def callbacks_outbox)

lemma in_step_start:
  assumes "train_ok tc"
  shows "in_step now (crossings (tc_sim tc)) (tc\<lparr>tc_sim := s'\<rparr>) [] (tc_sim tc)"
  using assms by (simp add: in_step_def train_ok_def display_ok_def numberedD(1))

lemma tick_round_ok:
  assumes "train_ok tc"
  shows "train_ok (sim_tick_step now tc)"
proof -
  have s: "sim_ok (tc_sim tc)" using assms by (simp add: train_ok_def)
  show ?thesis
    using sim_round_ok [OF assms tick_ok [OF s] tick_in_step [OF s in_step_start [OF assms]]]
    by (simp add: sim_tick_step_def split_beta Let_def)
qed

lemma command_round_ok:
  assumes "train_ok tc"
  shows "train_ok (snd (snd (tc_sim_command now cmd n tc)))"
proof -
  have s: "sim_ok (tc_sim tc)" using assms by (simp add: train_ok_def)
  let ?r = "command_locked now cmd (tc_sim tc)"
  let ?s' = "snd (snd (snd ?r))"
  have "train_ok (run_callbacks now (fst (snd (snd ?r))) (crossings (tc_sim tc)) (tc\<lparr>tc_sim := ?s'\<rparr>))"
    by (rule sim_round_ok [OF assms command_ok [OF s] command_in_step [OF s in_step_start [OF assms]]])
  from link_round_ok [OF this link_round_ui, of "train_ui_set_time_scale (time_scale ?s')"] show ?thesis
    by (simp add: tc_sim_command_def rail_sim_command_def split_beta Let_def)
qed

lemma test_message_ok:
  assumes "train_ok tc"
  shows "train_ok (snd (snd (handle_test_message now msg r tc)))"
proof -
  have recv: "link_round t ((on_ui (train_ui_set_last_received a b d) t)\<lparr>tc_needs_update := True\<rparr>)" for t a b d
    by (rule link_round_trans [OF link_round_ui link_round_fields(7)]) simp
  have c: "link_round tc (on_ui (train_ui_set_connection CONTROLLER_CENTRAL CONN_CONNECTED now)
      (tc\<lparr>last_recv_central := a, last_central_update := now\<rparr>))"
    "link_round tc (on_ui (train_ui_set_connection CONTROLLER_LOCAL CONN_CONNECTED now)
      (tc\<lparr>last_recv_local := a, last_local_update := now\<rparr>))" for a
    by (rule link_round_trans [OF link_round_fields(6) link_round_ui] link_round_trans [OF link_round_fields(5) link_round_ui], simp)+
  note ok = link_round_ok [OF assms]
  show ?thesis
    using ok [OF link_round_trans [OF c(1) recv]] ok [OF link_round_trans [OF c(2) recv]] ok [OF recv]
    by (simp add: handle_test_message_def Let_def command_round_ok)
qed

section \<open>Runs\<close>

datatype train_event =
    Train_Tick string
  | Train_Send network string
  | Train_Receive string received
  | Train_Connect "string \<Rightarrow> int" network string
  | Train_Heartbeat network string
  | Train_Status network string
  | Train_Refresh
  | Train_Input network string string

fun train_step :: "train_event \<Rightarrow> train_controller \<Rightarrow> train_controller" where
  "train_step (Train_Tick now) tc = sim_tick_step now tc"
| "train_step (Train_Send net now) tc = sender_step net now tc"
| "train_step (Train_Receive now r) tc = snd (snd (receive_once (train_handlers now) now r tc))"
| "train_step (Train_Connect nopen net now) tc = connection_step nopen net now tc"
| "train_step (Train_Heartbeat net now) tc = heartbeat_step net now tc"
| "train_step (Train_Status net now) tc = snd (status_step net now tc)"
| "train_step Train_Refresh tc = snd (ui_refresh_step tc)"
| "train_step (Train_Input net now input) tc = snd (main_input net now input tc)"

lemma receive_ok:
  assumes "train_ok tc"
  shows "train_ok (snd (snd (receive_once (train_handlers now) now r tc)))"
  using assms test_message_ok [OF assms]
  by (cases r) (auto simp: train_handlers_def find_handler_def split_beta Let_def)

lemma display_round: "link_round tc (on_ui train_ui_display tc)" "link_round tc (on_ui (train_ui_set_screen sc) tc)"
  by (simp_all add: link_round_ui)

lemma execute_ok:
  assumes "train_ok tc"
  shows "train_ok (snd (execute_command net now cmd tc))"
proof (cases "cmd = ''send-central'' \<or> cmd = ''send-local''")
  case True
  then show ?thesis by (rule link_round_ok [OF assms execute_round])
next
  case False
  then show ?thesis using command_round_ok [OF assms] by (simp add: execute_command_def split_beta Let_def)
qed

lemma input_ok:
  assumes "train_ok tc"
  shows "train_ok (snd (main_input net now input tc))"
proof -
  have goto: "train_ok (on_ui train_ui_display (on_ui (train_ui_set_screen sc) tc))" for sc
    by (rule link_round_ok [OF assms link_round_trans [OF display_round(2) display_round(1)]])
  have redraw: "train_ok t \<Longrightarrow> train_ok (on_ui train_ui_display t)" for t
    by (rule link_round_ok [OF _ display_round(1)])
  show ?thesis using assms goto redraw [OF assms] redraw [OF execute_ok [OF assms]]
    by (cases "ui_current_screen (tc_ui tc)") (simp_all add: main_input_def Let_def)
qed

lemma refresh_ok: "train_ok tc \<Longrightarrow> train_ok (snd (ui_refresh_step tc))"
  using link_round_ok [of tc "tc\<lparr>tc_needs_update := False\<rparr>"] link_round_fields(7) display_round(1)
  by (simp add: ui_refresh_step_def Let_def) (metis link_round_ok)

interpretation train: inv_machine train_step "\<lambda>_. True" train_ok
proof
  fix tc e
  assume "train_ok tc"
  then show "train_ok (train_step e tc)"
    by (cases e) (simp_all add: tick_round_ok sender_ok receive_ok link_round_ok [OF _ connection_round]
        link_round_ok [OF _ heartbeat_round] link_round_ok [OF _ status_round] refresh_ok input_ok)
qed

lemma train_start_ok: "train_ok (train_start cfg m)"
proof -
  let ?tc = "train_start cfg m"
  have sel: "tc_sim ?tc = rail_sim_init cfg initial_crossings 10"
    "crossings (rail_sim_init cfg initial_crossings 10) = initial_crossings"
    by (simp_all add: train_start_def rail_sim_init_def apply_config_locked_def split_beta Let_def)
  have "numbered initial_crossings" by (simp add: numbered_def)
  moreover have "ui_shows initial_crossings (tc_ui ?tc)"
    by (simp add: ui_shows_def view_shows_def train_start_def initial_crossings_def crossing_init_def
        train_ui_set_time_scale_def train_ui_init_def fault_count_def ui_fault_def eval_nat_numeral)
  moreover have "outbox_good (tc_outbox ?tc)"
    by (simp add: train_start_def outbox_good_def outbox_init_ok) (simp add: outbox_contents_def outbox_init_def)
  moreover have "links_ok ?tc"
    by (auto simp: links_ok_def train_start_def service_link_def)
  ultimately show ?thesis by (simp add: train_ok_def display_ok_def sel initial_ok)
qed

lemma train_run_ok: "train_ok (fold train_step evs (train_start cfg m))"
  by (rule train.run_inv) (simp_all add: train_start_ok)

text \<open>Under every interleaving of the threads and every behaviour of the network, the status
  screen shows the tracks, gate, lights and fault of every crossing, the number of faulty crossings, and \<open>STOP\<close>
  exactly when there is a fault.\<close>

theorem train_display_truthful:
  "let tc = fold train_step evs (train_start cfg m) in ui_shows (crossings (tc_sim tc)) (tc_ui tc)"
  using train_run_ok [of evs cfg m] by (simp add: train_ok_def display_ok_def Let_def)

text \<open>Every message that waits in the outbox is for Central or for the index of an existing link, so
  the sender never reads outside its array of connections.\<close>

theorem train_destinations_in_range:
  "let tc = fold train_step evs (train_start cfg m)
   in list_all (\<lambda>item. destination item = OUTBOX_CENTRAL \<or>
        0 \<le> destination item \<and> destination item < int (length (local_conns tc))) (outbox_contents (tc_outbox tc))"
  using train_run_ok [of evs cfg m]
  by (auto simp: train_ok_def outbox_good_def valid_dest_def links_ok_def Let_def list_all_iff)

text \<open>A frame that does not come from Central never starts a train, injects a fault or changes
  anything in the simulator, and queues no message; it is answered all the same.\<close>

theorem only_central_commands:
  assumes "hdr_src (header msg) \<noteq> controller_code CONTROLLER_CENTRAL"
  shows "case receive_once (train_handlers now) now (Recv_Frame msg) tc of (_, replies, tc') \<Rightarrow>
    tc_sim tc' = tc_sim tc \<and> tc_outbox tc' = tc_outbox tc \<and> length replies = 1"
  using assms
  by (auto simp: train_handlers_def find_handler_def handle_test_message_def split_beta Let_def)

theorem only_central_commands_witness:
  "tc_sim (snd (snd (receive_once (train_handlers []) []
      (Recv_Frame \<lparr>header = tc_header [] MSG_TEST CONTROLLER_TRAIN, data = ''train-up''\<rparr>)
      (train_start default_rail_config CONN_MODE_LOCAL)))) =
   rail_sim_init default_rail_config initial_crossings 10"
proof -
  let ?m = "\<lparr>header = tc_header [] MSG_TEST CONTROLLER_TRAIN, data = ''train-up''\<rparr>"
  have "hdr_src (header ?m) \<noteq> controller_code CONTROLLER_CENTRAL" by (simp add: tc_header_def)
  from only_central_commands [OF this, where now = "[]" and tc = "train_start default_rail_config CONN_MODE_LOCAL"]
  show ?thesis by (simp add: split_beta train_start_def)
qed

section \<open>Messages to the neighbours\<close>

lemma outbox_room:
  "outbox_ok ob \<Longrightarrow> length (outbox_contents ob) < OUTBOX_CAPACITY \<Longrightarrow>
   outbox_contents (outbox_push x ob) = outbox_contents ob @ [x]"
  by (simp add: outbox.push_contents)

lemma neighbours_told:
  assumes "train_ok tc" "i < 3" "length (outbox_contents (tc_outbox tc)) + 2 \<le> OUTBOX_CAPACITY"
  shows "outbox_contents (tc_outbox (queue_railway_message now (crossings (tc_sim tc) ! i) p tc)) =
    outbox_contents (tc_outbox tc) @
      map (railway_item now (warning_sec (tc_sim tc)) (crossings (tc_sim tc) ! i) p)
        [of_nat (2 * i + 1), of_nat (2 * i + 2)]"
proof -
  let ?c = "crossings (tc_sim tc) ! i"
  have "map ident (crossings (tc_sim tc)) = map ident initial_crossings" "length (crossings (tc_sim tc)) = 3"
    using assms(1) numberedD(1) by (auto simp: train_ok_def display_ok_def numbered_def)
  then have "ident ?c = ident (initial_crossings ! i)" using assms(2) by (metis nth_map length_map)
  moreover have "i = 0 \<or> i = 1 \<or> i = 2" using assms(2) by auto
  ultimately have l: "local_id_1 ?c = of_nat (2 * i + 1)" "local_id_2 ?c = of_nat (2 * i + 2)"
    by (auto simp: ident_def initial_crossings_def crossing_init_def)
  have ok: "outbox_ok (tc_outbox tc)" using assms(1) by (simp add: train_ok_def outbox_good_def)
  have g: "\<not> local_id_1 ?c < 1" "\<not> 6 < local_id_1 ?c" "\<not> local_id_2 ?c < 1" "\<not> 6 < local_id_2 ?c"
    using l \<open>i = 0 \<or> i = 1 \<or> i = 2\<close> by auto
  show ?thesis using assms(3) g ok
    by (simp add: queue_railway_message_def push_item_def outbox_room outbox.push_ok l)
qed

end
