(* ===== verification/Central_Commands.thy ===== *)
theory Central_Commands
  imports Protocol
begin

text \<open>
  The operator's commands to the intersections: \<^verbatim>\<open>commands.c\<close> of the Central controller. A command
  line becomes a message for Local; the mode and coordination commands are structs in the data area,
  the simulation commands are the text \<open>SIM1 target id START|STOP|TIME minute\<close>. A C string is the HOL
  string of the characters before its NUL; an \<open>unsigned\<close> is a \<open>nat\<close>, kept small by the parsers.
\<close>

section \<open>Words of a command\<close>

definition parse_target :: "string \<Rightarrow> nat option" where
  "parse_target text =
     (if text = ''all'' then Some INTERSECTION_ALL
      else case text of
        [i, c] \<Rightarrow> if i = CHR ''I'' \<and> CHR ''1'' \<le> c \<and> c \<le> CHR ''6''
                   then Some (of_char c - of_char CHR ''1'') else None
      | _ \<Rightarrow> None)"

definition parse_number :: "string \<Rightarrow> nat \<Rightarrow> nat \<Rightarrow> nat option" where
  "parse_number text minimum maximum =
     (if text = [] then None
      else case parse_digits maximum 0 text of
        None \<Rightarrow> None
      | Some value \<Rightarrow> if value < minimum then None else Some value)"

definition parse_mode :: "string \<Rightarrow> u8 option" where
  "parse_mode text =
     (if text = ''fixed'' then Some (mode_code MODE_FIXED)
      else if text = ''sensor'' then Some (mode_code MODE_SENSOR) else None)"

definition parse_phase :: "string \<Rightarrow> u8 option" where
  "parse_phase text =
     (if text = ''NS'' then Some (phase_code PHASE_NS_GREEN)
      else if text = ''EW'' then Some (phase_code PHASE_EW_GREEN) else None)"

definition initialize_message :: "msg_type \<Rightarrow> test_message" where
  "initialize_message type =
     \<lparr>header = \<lparr>hdr_type = msg_code type, hdr_src = controller_code CONTROLLER_CENTRAL,
                hdr_dst = controller_code CONTROLLER_LOCAL, hdr_reserved = 0,
                hdr_timestamp = replicate TIMESTAMP_SIZE NUL\<rparr>,
      data = zero_data\<rparr>"

section \<open>Simulation commands\<close>

datatype central_sim_action = CENTRAL_SIM_START | CENTRAL_SIM_STOP | CENTRAL_SIM_TIME

record central_sim_command =
  cs_target :: nat
  cs_command_id :: u16
  cs_action :: central_sim_action
  cs_minute :: nat

text \<open>\<open>snprintf\<close> into the zeroed 64 bytes.\<close>

definition print_data :: "string \<Rightarrow> char list" where
  "print_data text = take 63 text @ replicate (DATA_SIZE - length (take 63 text)) NUL"

definition simulation_text :: "central_sim_command \<Rightarrow> string" where
  "simulation_text command =
     ''SIM1 '' @ show_nat (cs_target command) @ '' '' @ show_nat (unat (cs_command_id command)) @ '' '' @
     (case cs_action command of
        CENTRAL_SIM_TIME \<Rightarrow> ''TIME '' @ show_nat (cs_minute command)
      | CENTRAL_SIM_START \<Rightarrow> ''START''
      | CENTRAL_SIM_STOP \<Rightarrow> ''STOP'')"

definition simulation_encode :: "central_sim_command \<Rightarrow> test_message \<Rightarrow> test_message" where
  "simulation_encode command message = message\<lparr>data := print_data (simulation_text command)\<rparr>"

text \<open>The loop over \<open>buffer\<close> that cuts it at every space into at most five tokens; \<open>token\<close> is what the
  current token has so far.\<close>

fun sim_fields :: "nat \<Rightarrow> string \<Rightarrow> string \<Rightarrow> string list option" where
  "sim_fields count token [] = Some [token]"
| "sim_fields count token (c # cs) =
     (if c = CHR '' '' then
        (if count = 5 then None else map_option ((#) token) (sim_fields (Suc count) [] cs))
      else sim_fields count (token @ [c]) cs)"

definition sim_action_fields :: "string list \<Rightarrow> (central_sim_action \<times> nat) option" where
  "sim_action_fields tokens =
     (if length tokens = 4 \<and> tokens ! 3 = ''START'' then Some (CENTRAL_SIM_START, 0)
      else if length tokens = 4 \<and> tokens ! 3 = ''STOP'' then Some (CENTRAL_SIM_STOP, 0)
      else if length tokens = 5 \<and> tokens ! 3 = ''TIME'' then
        (case parse_number (tokens ! 4) 0 1439 of
           Some minute \<Rightarrow> Some (CENTRAL_SIM_TIME, minute) | None \<Rightarrow> None)
      else None)"

definition sim_parse_fields :: "string list \<Rightarrow> central_sim_command option" where
  "sim_parse_fields tokens =
     (if length tokens < 4 \<or> tokens ! 0 \<noteq> ''SIM1'' then None
      else case parse_number (tokens ! 1) 0 INTERSECTION_ALL of
        None \<Rightarrow> None
      | Some target \<Rightarrow>
          if NUM_INTERSECTIONS \<le> target \<and> target \<noteq> INTERSECTION_ALL then None
          else (case parse_number (tokens ! 2) 0 65535 of
            None \<Rightarrow> None
          | Some number \<Rightarrow>
              (case sim_action_fields tokens of
                 None \<Rightarrow> None
               | Some (action, minute) \<Rightarrow>
                   Some \<lparr>cs_target = target, cs_command_id = word_of_nat number, cs_action = action,
                         cs_minute = minute\<rparr>)))"

definition sim_header_ok :: "msg_header \<Rightarrow> bool" where
  "sim_header_ok h \<longleftrightarrow>
     hdr_type h = msg_code MSG_TEST \<and> hdr_src h = controller_code CONTROLLER_CENTRAL \<and>
     hdr_dst h = controller_code CONTROLLER_LOCAL \<and> hdr_reserved h = 0 \<and> has_nul (hdr_timestamp h)"

definition central_simulation_decode :: "test_message \<Rightarrow> central_sim_command option" where
  "central_simulation_decode message =
     (if \<not> sim_header_ok (header message) then None
      else if \<not> has_nul (data message) then None
      else if \<not> list_all (\<lambda>c. c = NUL) (drop (Suc (length (cstr (data message)))) (data message)) then None
      else case sim_fields 1 [] (cstr (data message)) of
        None \<Rightarrow> None
      | Some tokens \<Rightarrow>
          (case sim_parse_fields tokens of
             None \<Rightarrow> None
           | Some command \<Rightarrow>
               if data (simulation_encode command message) \<noteq> data message then None
               else Some command))"

definition parse_simulation_time :: "string \<Rightarrow> nat option" where
  "parse_simulation_time text =
     (case text of
        [h1, h2, colon, m1, m2] \<Rightarrow>
          if colon = CHR '':'' \<and> is_digit h1 \<and> is_digit h2 \<and> is_digit m1 \<and> is_digit m2 then
            let hours = (of_char h1 - 48) * 10 + (of_char h2 - 48);
                minutes = (of_char m1 - 48) * 10 + (of_char m2 - 48)
            in if 23 < hours \<or> 59 < minutes then None else Some (hours * 60 + minutes)
          else None
      | _ \<Rightarrow> None)"

section \<open>The command line\<close>

text \<open>The tokenising loop: words between white space, at most four; \<open>None\<close> for a fifth.\<close>

function line_tokens :: "nat \<Rightarrow> string \<Rightarrow> string list option" where
  "line_tokens count cursor =
     (let rest = dropWhile is_space cursor in
      if rest = [] then Some []
      else if count = 4 then None
      else map_option ((#) (takeWhile (\<lambda>c. \<not> is_space c) rest))
             (line_tokens (Suc count) (tl (dropWhile (\<lambda>c. \<not> is_space c) rest))))"
  by pat_completeness auto
termination
proof (relation "measure (\<lambda>(_, cursor). length cursor)", goal_cases)
  case (2 count cursor rest)
  have "length (tl (dropWhile (\<lambda>c. \<not> is_space c) rest)) \<le> length rest - 1"
    by (simp add: diff_le_mono length_dropWhile_le)
  moreover have "length rest \<le> length cursor" "0 < length rest"
    using 2 by (simp_all add: length_dropWhile_le)
  ultimately show ?case by (simp only: in_measure prod.case)
qed simp

declare line_tokens.simps [simp del]

definition mode_message :: "u8 \<Rightarrow> u8 \<Rightarrow> u16 \<Rightarrow> test_message" where
  "mode_message new_mode action duration =
     (initialize_message MSG_MODE_COMMAND)\<lparr>data := overlay (encode_mode_cmd
        \<lparr>mc_intersection_id = 0, mc_new_mode = new_mode, mc_action = action,
         mc_priority = CMD_PRIO_OPERATOR, mc_duration_sec = duration, mc_command_id = 0\<rparr>) zero_data\<rparr>"

definition coordination_message :: "u8 \<Rightarrow> u16 \<Rightarrow> test_message" where
  "coordination_message phase offset =
     (initialize_message MSG_COORDINATION_COMMAND)\<lparr>data := overlay (encode_coordination
        \<lparr>cc_intersection_id = 0, cc_mode = mode_code MODE_FIXED, cc_phase = phase, cc_reserved = 0,
         cc_cycle_offset_sec = offset, cc_command_id = 0\<rparr>) zero_data\<rparr>"

definition parse_mode_set :: "traffic_light_mode \<Rightarrow> string list \<Rightarrow> (test_message \<times> nat) option" where
  "parse_mode_set mode args =
     (case args of
        [] \<Rightarrow> Some (mode_message (mode_code mode) (action_code CMD_SET_MODE) 0, INTERSECTION_ALL)
      | [t] \<Rightarrow> (case parse_target t of
           None \<Rightarrow> None
         | Some target \<Rightarrow> Some (mode_message (mode_code mode) (action_code CMD_SET_MODE) 0, target))
      | _ \<Rightarrow> None)"

definition parse_mode_temp :: "string list \<Rightarrow> (test_message \<times> nat) option" where
  "parse_mode_temp args =
     (case args of
        [t, m, n] \<Rightarrow>
          (case (parse_target t, parse_number n 1 65535, parse_mode m) of
             (Some target, Some seconds, Some mode) \<Rightarrow>
               Some (mode_message mode (action_code CMD_TEMPORARY) (word_of_nat seconds), target)
           | _ \<Rightarrow> None)
      | _ \<Rightarrow> None)"

definition parse_mode_revert :: "string list \<Rightarrow> (test_message \<times> nat) option" where
  "parse_mode_revert args =
     (case args of
        [t] \<Rightarrow> (case parse_target t of
                  None \<Rightarrow> None
                | Some target \<Rightarrow> Some (mode_message 0 (action_code CMD_REVERT) 0, target))
      | _ \<Rightarrow> None)"

definition parse_coordinate :: "string list \<Rightarrow> (test_message \<times> nat) option" where
  "parse_coordinate args =
     (case args of
        [t, p, n] \<Rightarrow>
          (case (parse_target t, parse_number n 0 (COORDINATION_MAX_CYCLE_SEC - 1), parse_phase p) of
             (Some target, Some seconds, Some phase) \<Rightarrow>
               Some (coordination_message phase (word_of_nat seconds), target)
           | _ \<Rightarrow> None)
      | _ \<Rightarrow> None)"

definition simulation_message :: "nat \<Rightarrow> central_sim_action \<Rightarrow> nat \<Rightarrow> test_message" where
  "simulation_message target action minute =
     simulation_encode \<lparr>cs_target = target, cs_command_id = 0, cs_action = action, cs_minute = minute\<rparr>
       (initialize_message MSG_TEST)"

definition parse_simulation :: "central_sim_action \<Rightarrow> string list \<Rightarrow> (test_message \<times> nat) option" where
  "parse_simulation action args =
     (case args of
        [t] \<Rightarrow>
          if action = CENTRAL_SIM_TIME then None
          else (case parse_target t of
                  None \<Rightarrow> None
                | Some target \<Rightarrow> Some (simulation_message target action 0, target))
      | [t, clock] \<Rightarrow>
          if action \<noteq> CENTRAL_SIM_TIME then None
          else (case (parse_target t, parse_simulation_time clock) of
                  (Some target, Some minute) \<Rightarrow> Some (simulation_message target action minute, target)
                | _ \<Rightarrow> None)
      | _ \<Rightarrow> None)"

definition central_parse_command :: "string \<Rightarrow> (test_message \<times> nat) option" where
  "central_parse_command line =
     (if 256 \<le> length line then None
      else case line_tokens 0 line of
        Some (verb # args) \<Rightarrow>
          if verb = ''mode-fixed'' then parse_mode_set MODE_FIXED args
          else if verb = ''mode-sensor'' then parse_mode_set MODE_SENSOR args
          else if verb = ''mode-temp'' then parse_mode_temp args
          else if verb = ''mode-revert'' then parse_mode_revert args
          else if verb = ''coordinate'' then parse_coordinate args
          else if verb = ''sim-start'' then parse_simulation CENTRAL_SIM_START args
          else if verb = ''sim-stop'' then parse_simulation CENTRAL_SIM_STOP args
          else if verb = ''sim-time'' then parse_simulation CENTRAL_SIM_TIME args
          else None
      | _ \<Rightarrow> None)"

section \<open>Identifier and target of a message\<close>

definition central_command_id :: "test_message \<Rightarrow> u16" where
  "central_command_id message =
     (if hdr_type (header message) = msg_code MSG_MODE_COMMAND then
        mc_command_id (decode_mode_cmd (data message))
      else if hdr_type (header message) = msg_code MSG_COORDINATION_COMMAND then
        cc_command_id (decode_coordination (data message))
      else case central_simulation_decode message of
        Some simulation \<Rightarrow> cs_command_id simulation
      | None \<Rightarrow> 0)"

definition central_command_target :: "test_message \<Rightarrow> nat" where
  "central_command_target message =
     (if hdr_type (header message) = msg_code MSG_MODE_COMMAND then
        unat (mc_intersection_id (decode_mode_cmd (data message)))
      else if hdr_type (header message) = msg_code MSG_COORDINATION_COMMAND then
        unat (cc_intersection_id (decode_coordination (data message)))
      else case central_simulation_decode message of
        Some simulation \<Rightarrow> cs_target simulation
      | None \<Rightarrow> NUM_INTERSECTIONS)"

definition central_command_set_id :: "u16 \<Rightarrow> test_message \<Rightarrow> test_message" where
  "central_command_set_id ident message =
     (if hdr_type (header message) = msg_code MSG_MODE_COMMAND then
        message\<lparr>data := overlay (encode_mode_cmd
          ((decode_mode_cmd (data message))\<lparr>mc_command_id := ident\<rparr>)) (data message)\<rparr>
      else if hdr_type (header message) = msg_code MSG_COORDINATION_COMMAND then
        message\<lparr>data := overlay (encode_coordination
          ((decode_coordination (data message))\<lparr>cc_command_id := ident\<rparr>)) (data message)\<rparr>
      else case central_simulation_decode message of
        Some simulation \<Rightarrow> simulation_encode (simulation\<lparr>cs_command_id := ident\<rparr>) message
      | None \<Rightarrow> message)"

definition central_command_set_target :: "nat \<Rightarrow> test_message \<Rightarrow> test_message" where
  "central_command_set_target target message =
     (if NUM_INTERSECTIONS \<le> target \<and> target \<noteq> INTERSECTION_ALL then message
      else if hdr_type (header message) = msg_code MSG_MODE_COMMAND then
        message\<lparr>data := overlay (encode_mode_cmd
          ((decode_mode_cmd (data message))\<lparr>mc_intersection_id := word_of_nat target\<rparr>)) (data message)\<rparr>
      else if hdr_type (header message) = msg_code MSG_COORDINATION_COMMAND then
        message\<lparr>data := overlay (encode_coordination
          ((decode_coordination (data message))\<lparr>cc_intersection_id := word_of_nat target\<rparr>)) (data message)\<rparr>
      else case central_simulation_decode message of
        Some simulation \<Rightarrow> simulation_encode (simulation\<lparr>cs_target := target\<rparr>) message
      | None \<Rightarrow> message)"

section \<open>The text codec\<close>

text \<open>A well-formed simulation command: what the parsers build, and what \<open>central_simulation_decode\<close> returns.\<close>

definition sim_command_ok :: "central_sim_command \<Rightarrow> bool" where
  "sim_command_ok c \<longleftrightarrow>
     (cs_target c < NUM_INTERSECTIONS \<or> cs_target c = INTERSECTION_ALL) \<and> cs_minute c < 1440 \<and>
     (cs_action c \<noteq> CENTRAL_SIM_TIME \<longrightarrow> cs_minute c = 0)"

lemma sim_fields_last: "CHR '' '' \<notin> set w \<Longrightarrow> sim_fields n t w = Some [t @ w]"
  by (induction w arbitrary: t) auto

lemma sim_fields_cut:
  "CHR '' '' \<notin> set w \<Longrightarrow> n \<noteq> 5 \<Longrightarrow>
   sim_fields n t (w @ CHR '' '' # r) = map_option ((#) (t @ w)) (sim_fields (Suc n) [] r)"
  by (induction w arbitrary: t) auto

lemma parse_number_show:
  "minimum \<le> n \<Longrightarrow> n \<le> maximum \<Longrightarrow> parse_number (show_nat n) minimum maximum = Some n"
  by (simp add: parse_number_def parse_show_nat)

lemma parse_number_bounds:
  "parse_number text minimum maximum = Some n \<Longrightarrow> minimum \<le> n \<and> n \<le> maximum"
  by (auto simp: parse_number_def parse_digits_exact split: option.splits if_splits)

lemmas sim_cuts =
  sim_fields_cut [OF show_nat_no_space] sim_fields_last [OF show_nat_no_space]

lemma simulation_text_fields:
  assumes "sim_command_ok c"
  shows "sim_fields 1 [] (simulation_text c) =
     Some ([''SIM1'', show_nat (cs_target c), show_nat (unat (cs_command_id c))] @
       (case cs_action c of CENTRAL_SIM_TIME \<Rightarrow> [''TIME'', show_nat (cs_minute c)]
        | CENTRAL_SIM_START \<Rightarrow> [''START''] | CENTRAL_SIM_STOP \<Rightarrow> [''STOP'']))"
  by (cases "cs_action c") (simp_all add: simulation_text_def sim_cuts)

lemma simulation_text_parsed:
  assumes "sim_command_ok c"
  shows "\<exists>ts. sim_fields 1 [] (simulation_text c) = Some ts \<and> sim_parse_fields ts = Some c"
proof -
  have "unat (cs_command_id c) \<le> 65535" using unat_u16_lt [of "cs_command_id c"] by simp
  moreover have "cs_target c \<le> 255" "cs_minute c \<le> 1439" using assms by (auto simp: sim_command_ok_def)
  ultimately show ?thesis
    using assms unfolding simulation_text_fields [OF assms]
    by (cases "cs_action c")
       (auto simp: sim_command_ok_def sim_parse_fields_def sim_action_fields_def parse_number_show)
qed

lemma simulation_text_short:
  assumes "sim_command_ok c"
  shows "length (simulation_text c) \<le> 30"
proof -
  have "length (show_nat (cs_target c)) \<le> 3" "length (show_nat (cs_minute c)) \<le> 4"
    "length (show_nat (unat (cs_command_id c))) \<le> 5"
    using assms show_nat_length [of "cs_target c" 2] show_nat_length [of "cs_minute c" 3]
      show_nat_length [of "unat (cs_command_id c)" 4] unat_u16_lt [of "cs_command_id c"]
    by (simp_all add: sim_command_ok_def) linarith
  then show ?thesis by (cases "cs_action c") (simp_all add: simulation_text_def)
qed

lemma simulation_text_no_nul: "NUL \<notin> set (simulation_text c)"
  by (cases "cs_action c") (auto simp: simulation_text_def dest: show_nat_no_nul [THEN notE])

lemma print_data_short:
  "length t \<le> 63 \<Longrightarrow> NUL \<notin> set t \<Longrightarrow>
   length (print_data t) = 64 \<and> has_nul (print_data t) \<and> cstr (print_data t) = t \<and>
   list_all (\<lambda>c. c = NUL) (drop (Suc (length t)) (print_data t))"
proof -
  assume "length t \<le> 63" and nul: "NUL \<notin> set t"
  then have "print_data t = t @ NUL # replicate (63 - length t) NUL"
    by (simp add: print_data_def flip: replicate_Suc)
  then show ?thesis using nul \<open>length t \<le> 63\<close>
    by (simp add: has_nul_def cstr_append_nul list_all_iff)
qed

lemmas simulation_data = print_data_short [OF order_trans [OF simulation_text_short] simulation_text_no_nul]

text \<open>\<open>central_simulation_decode\<close> accepts exactly the messages \<open>simulation_encode\<close> builds, and gives
  the command back.\<close>

lemma simulation_decode_encode:
  assumes "sim_command_ok c" "sim_header_ok (header m)"
  shows "central_simulation_decode (simulation_encode c m) = Some c"
  using simulation_text_parsed [OF assms(1)] simulation_data [OF assms(1)] assms(2)
  by (auto simp: central_simulation_decode_def simulation_encode_def)

lemma sim_parse_fields_ok: "sim_parse_fields ts = Some c \<Longrightarrow> sim_command_ok c"
  by (auto simp: sim_parse_fields_def sim_action_fields_def sim_command_ok_def
           dest!: parse_number_bounds split: option.splits if_splits)

lemma simulation_decode_SomeD:
  "central_simulation_decode m = Some c \<Longrightarrow>
   sim_command_ok c \<and> sim_header_ok (header m) \<and> data m = print_data (simulation_text c)"
  by (auto simp: central_simulation_decode_def simulation_encode_def
           dest: sim_parse_fields_ok split: option.splits if_splits)

lemma simulation_decode_iff:
  "central_simulation_decode m = Some c \<longleftrightarrow>
   sim_command_ok c \<and> sim_header_ok (header m) \<and> data m = print_data (simulation_text c)"
proof
  assume *: "sim_command_ok c \<and> sim_header_ok (header m) \<and> data m = print_data (simulation_text c)"
  then have "simulation_encode c m = m" by (simp add: simulation_encode_def)
  with * show "central_simulation_decode m = Some c" using simulation_decode_encode [of c m] by simp
qed (rule simulation_decode_SomeD)

section \<open>What the parser builds\<close>

text \<open>The three kinds of message a command line can become, with the payload of its kind.\<close>

datatype operator_request =
    Mode_Request u8 u8 u16
  | Coordination_Request u8 u16
  | Simulation_Request central_sim_action nat

primrec request_ok :: "operator_request \<Rightarrow> bool" where
  "request_ok (Mode_Request mode action duration) \<longleftrightarrow>
     mode \<le> mode_code MODE_SENSOR \<and> action \<le> action_code CMD_REVERT \<and>
     (if action = action_code CMD_TEMPORARY then duration \<noteq> 0 else duration = 0)"
| "request_ok (Coordination_Request p offset) \<longleftrightarrow>
     (p = phase_code PHASE_NS_GREEN \<or> p = phase_code PHASE_EW_GREEN) \<and> unat offset < COORDINATION_MAX_CYCLE_SEC"
| "request_ok (Simulation_Request action minute) \<longleftrightarrow>
     minute < 1440 \<and> (action \<noteq> CENTRAL_SIM_TIME \<longrightarrow> minute = 0)"

text \<open>The message of a request for one intersection under one command identifier.\<close>

primrec request_message :: "nat \<Rightarrow> u16 \<Rightarrow> operator_request \<Rightarrow> test_message" where
  "request_message i n (Mode_Request mode action duration) =
     (initialize_message MSG_MODE_COMMAND)\<lparr>data := overlay (encode_mode_cmd
        \<lparr>mc_intersection_id = word_of_nat i, mc_new_mode = mode, mc_action = action,
         mc_priority = CMD_PRIO_OPERATOR, mc_duration_sec = duration, mc_command_id = n\<rparr>) zero_data\<rparr>"
| "request_message i n (Coordination_Request p offset) =
     (initialize_message MSG_COORDINATION_COMMAND)\<lparr>data := overlay (encode_coordination
        \<lparr>cc_intersection_id = word_of_nat i, cc_mode = mode_code MODE_FIXED, cc_phase = p, cc_reserved = 0,
         cc_cycle_offset_sec = offset, cc_command_id = n\<rparr>) zero_data\<rparr>"
| "request_message i n (Simulation_Request action minute) =
     simulation_encode \<lparr>cs_target = i, cs_command_id = n, cs_action = action, cs_minute = minute\<rparr>
       (initialize_message MSG_TEST)"

declare request_message.simps [simp del]

definition target_ok :: "nat \<Rightarrow> bool" where
  "target_ok t \<longleftrightarrow> t < NUM_INTERSECTIONS \<or> t = INTERSECTION_ALL"

lemma message_requests:
  "mode_message mode action duration = request_message 0 0 (Mode_Request mode action duration)"
  "coordination_message p offset = request_message 0 0 (Coordination_Request p offset)"
  "simulation_message t act minute = request_message t 0 (Simulation_Request act minute)"
  by (simp_all add: mode_message_def coordination_message_def simulation_message_def request_message.simps)

lemma parse_target_ok: "parse_target t = Some n \<Longrightarrow> target_ok n"
  by (auto simp: parse_target_def target_ok_def less_eq_char_def split: if_splits list.splits)

lemma parse_mode_ok: "parse_mode t = Some m \<Longrightarrow> m \<le> mode_code MODE_SENSOR"
  by (auto simp: parse_mode_def split: if_splits)

lemma parse_phase_ok:
  "parse_phase t = Some p \<Longrightarrow> p = phase_code PHASE_NS_GREEN \<or> p = phase_code PHASE_EW_GREEN"
  by (auto simp: parse_phase_def split: if_splits)

lemma parse_simulation_time_ok: "parse_simulation_time t = Some n \<Longrightarrow> n < 1440"
  by (auto simp: parse_simulation_time_def Let_def split: list.splits if_splits)

text \<open>A parser of arguments is sound when what it returns is a well-formed request, still without
  intersection and identifier, for a valid target.\<close>

definition builds_request :: "(test_message \<times> nat) option \<Rightarrow> bool" where
  "builds_request r \<longleftrightarrow> (\<forall>m t. r = Some (m, t) \<longrightarrow>
     target_ok t \<and> (\<exists>q i. request_ok q \<and> target_ok i \<and> m = request_message i 0 q))"

lemma builds_requestI:
  "target_ok t \<Longrightarrow> request_ok q \<Longrightarrow> target_ok i \<Longrightarrow> builds_request (Some (request_message i 0 q, t))"
  by (auto simp: builds_request_def)

lemma builds_None: "builds_request None"
  by (simp add: builds_request_def)

lemma target_ok_0: "target_ok 0"
  by (simp add: target_ok_def)

lemmas builds_rules = builds_requestI builds_None target_ok_0

lemma builds_mode_set: "mode = MODE_FIXED \<or> mode = MODE_SENSOR \<Longrightarrow> builds_request (parse_mode_set mode args)"
  unfolding parse_mode_set_def message_requests
  by (auto split: list.splits option.splits dest: parse_target_ok intro!: builds_rules simp: target_ok_def)

lemma seconds_word: "parse_number n 1 65535 = Some s \<Longrightarrow> (word_of_nat s :: u16) \<noteq> 0"
  using parse_number_bounds [of n 1 65535 s] by (auto simp: word_of_nat_eq_0_iff)

lemma builds_mode_temp: "builds_request (parse_mode_temp args)"
  unfolding parse_mode_temp_def message_requests
  by (auto split: list.splits option.splits dest!: parse_target_ok parse_mode_ok seconds_word
      intro!: builds_rules simp del: One_nat_def)

lemma builds_mode_revert: "builds_request (parse_mode_revert args)"
  unfolding parse_mode_revert_def message_requests
  by (auto split: list.splits option.splits dest: parse_target_ok intro!: builds_rules)

lemma offset_word: "parse_number n 0 63 = Some s \<Longrightarrow> unat (word_of_nat s :: u16) < 64"
  using parse_number_bounds [of n 0 63 s] by (auto simp: unat_of_nat)

lemma builds_coordinate: "builds_request (parse_coordinate args)"
  unfolding parse_coordinate_def message_requests
  by (auto split: list.splits option.splits dest!: parse_target_ok parse_phase_ok offset_word
      intro!: builds_rules)

lemma builds_simulation: "builds_request (parse_simulation act args)"
  unfolding parse_simulation_def message_requests
  by (auto split: list.splits option.splits if_splits dest!: parse_target_ok parse_simulation_time_ok
      intro!: builds_rules)

lemma central_parse_command_builds: "builds_request (central_parse_command line)"
  unfolding central_parse_command_def
  by (simp add: builds_mode_set builds_mode_temp builds_mode_revert builds_coordinate
      builds_simulation builds_None split: option.split list.split)

section \<open>Addressing\<close>

lemma target_word: "target_ok i \<Longrightarrow> unat (word_of_nat i :: u8) = i"
  by (auto simp: target_ok_def unat_of_nat)

lemma initialize_header:
  "hdr_type (header (initialize_message type)) = msg_code type"
  "hdr_src (header (initialize_message type)) = controller_code CONTROLLER_CENTRAL"
  "hdr_dst (header (initialize_message type)) = controller_code CONTROLLER_LOCAL"
  "hdr_reserved (header (initialize_message type)) = 0"
  "hdr_timestamp (header (initialize_message type)) = replicate TIMESTAMP_SIZE NUL"
  by (simp_all add: initialize_message_def)

lemma initialize_sim_header: "sim_header_ok (header (initialize_message MSG_TEST))"
  by (simp add: sim_header_ok_def initialize_message_def has_nul_def)

lemma request_header:
  "header (request_message i n q) = header (initialize_message
     (case q of Mode_Request _ _ _ \<Rightarrow> MSG_MODE_COMMAND | Coordination_Request _ _ \<Rightarrow> MSG_COORDINATION_COMMAND
      | Simulation_Request _ _ \<Rightarrow> MSG_TEST))"
  by (cases q) (simp_all add: simulation_encode_def request_message.simps)

lemma request_simulation_decode:
  assumes "target_ok i" "request_ok (Simulation_Request action minute)"
  shows "central_simulation_decode (request_message i n (Simulation_Request action minute)) =
     Some \<lparr>cs_target = i, cs_command_id = n, cs_action = action, cs_minute = minute\<rparr>"
  using assms by (simp add: request_message.simps simulation_decode_encode initialize_sim_header sim_command_ok_def target_ok_def)

lemma simulation_encode_twice [simp]:
  "simulation_encode c (simulation_encode d m) = simulation_encode c m"
  by (simp add: simulation_encode_def)

text \<open>Decoding the payload of a request, whatever its intersection and identifier.\<close>

lemma request_mode_decode:
  "decode_mode_cmd (data (request_message i n (Mode_Request mode action duration))) =
     \<lparr>mc_intersection_id = word_of_nat i, mc_new_mode = mode, mc_action = action,
      mc_priority = CMD_PRIO_OPERATOR, mc_duration_sec = duration, mc_command_id = n\<rparr>"
  by (simp add: request_message.simps mode_cmd_codec.dec_overlay)

lemma request_coordination_decode:
  "decode_coordination (data (request_message i n (Coordination_Request p offset))) =
     \<lparr>cc_intersection_id = word_of_nat i, cc_mode = mode_code MODE_FIXED, cc_phase = p, cc_reserved = 0,
      cc_cycle_offset_sec = offset, cc_command_id = n\<rparr>"
  by (simp add: request_message.simps coordination_codec.dec_overlay)

lemmas request_decode = request_mode_decode request_coordination_decode request_simulation_decode

lemma set_id_request:
  assumes "request_ok q" "target_ok i"
  shows "central_command_set_id n (request_message i k q) = request_message i n q"
proof (cases q)
  case (Simulation_Request action minute)
  with assms show ?thesis
    by (simp add: central_command_set_id_def request_header initialize_header request_decode)
       (simp add: request_message.simps)
qed (simp_all add: central_command_set_id_def request_header initialize_header request_decode,
     simp_all add: request_message.simps mode_cmd_codec.dec_replace coordination_codec.dec_replace)

lemma set_target_request:
  assumes "request_ok q" "target_ok i" "target_ok j"
  shows "central_command_set_target j (request_message i n q) = request_message j n q"
proof (cases q)
  case (Simulation_Request action minute)
  with assms show ?thesis
    by (simp add: central_command_set_target_def request_header initialize_header request_decode target_ok_def)
       (auto simp: request_message.simps)
qed (use assms(3) in \<open>simp_all add: central_command_set_target_def request_header initialize_header
       request_decode target_ok_def\<close>,
     auto simp: request_message.simps mode_cmd_codec.dec_replace coordination_codec.dec_replace)

lemma request_id: "request_ok q \<Longrightarrow> target_ok i \<Longrightarrow> central_command_id (request_message i n q) = n"
  by (cases q) (simp_all add: central_command_id_def request_header initialize_header request_decode)

lemma request_target: "request_ok q \<Longrightarrow> target_ok i \<Longrightarrow> central_command_target (request_message i n q) = i"
  by (cases q) (simp_all add: central_command_target_def request_header initialize_header request_decode
      target_word)

text \<open>C26: A simulation command survives its text form, and nothing else is taken for one:
  \<open>central_simulation_decode\<close> returns a command exactly on the messages with a correct header whose 64
  data bytes are the canonical text of that command followed by zeros. So leading zeros, extra spaces,
  bytes after the terminating NUL, unknown targets and minutes past 23:59 are all refused.\<close>

theorem simulation_decode_exact:
  "central_simulation_decode m = Some c \<longleftrightarrow>
   sim_command_ok c \<and> sim_header_ok (header m) \<and> data (simulation_encode c m) = data m"
  using simulation_decode_iff [of m c] by (auto simp: simulation_encode_def)

text \<open>The bounded decimal parser computes the decimal value exactly: it returns the value when the
  text is a non-empty string of digits whose value lies in the given range, and nothing otherwise. No
  intermediate value passes the maximum, however long the text.\<close>

theorem parse_number_exact:
  "parse_number text minimum maximum =
     (if text \<noteq> [] \<and> list_all is_digit text \<and> minimum \<le> decimal_value 0 text \<and> decimal_value 0 text \<le> maximum
      then Some (decimal_value 0 text) else None)"
  by (simp add: parse_number_def parse_digits_exact)

section \<open>What a typed line means\<close>

text \<open>The words of a line: what white space separates.\<close>

fun words :: "string \<Rightarrow> string \<Rightarrow> string list" where
  "words w [] = (if w = [] then [] else [w])"
| "words w (c # cs) = (if is_space c then (if w = [] then words [] cs else w # words [] cs) else words (w @ [c]) cs)"

lemma words_space: "words [] (dropWhile is_space cs) = words [] cs"
  by (induction cs) simp_all

lemma words_word:
  "words w cs = (if w @ takeWhile (\<lambda>c. \<not> is_space c) cs = [] then words [] (tl cs)
     else (w @ takeWhile (\<lambda>c. \<not> is_space c) cs) # words [] (tl (dropWhile (\<lambda>c. \<not> is_space c) cs)))"
  by (induction cs arbitrary: w) auto

lemma words_Cons:
  assumes "dropWhile is_space line = c # cs"
  shows "words [] line = takeWhile (\<lambda>c. \<not> is_space c) (c # cs) # words [] (tl (dropWhile (\<lambda>c. \<not> is_space c) (c # cs)))"
proof -
  have "\<not> is_space c" using assms by (simp add: dropWhile_eq_Cons_conv)
  then show ?thesis
    using words_word [of "[]" "c # cs"] words_space [of line] assms by simp
qed

lemma words_Nil: "dropWhile is_space line = [] \<Longrightarrow> words [] line = []"
  by (metis words.simps(1) words_space)

lemma line_tokens_words:
  "n \<le> 4 \<Longrightarrow> line_tokens n line = (if n + length (words [] line) \<le> 4 then Some (words [] line) else None)"
proof (induction n line rule: line_tokens.induct)
  case (1 n line)
  show ?case
  proof (cases "dropWhile is_space line")
    case Nil
    then show ?thesis using 1(2) by (subst line_tokens.simps) (simp add: words_Nil)
  next
    case (Cons c cs)
    show ?thesis
    proof (cases "n = 4")
      case True
      then show ?thesis using Cons by (subst line_tokens.simps) (simp add: words_Cons [OF Cons])
    next
      case False
      have "line_tokens n line = map_option ((#) (takeWhile (\<lambda>c. \<not> is_space c) (c # cs)))
          (line_tokens (Suc n) (tl (dropWhile (\<lambda>c. \<not> is_space c) (c # cs))))"
        using False Cons by (subst line_tokens.simps) (simp only: Let_def if_False list.distinct)
      also have "line_tokens (Suc n) (tl (dropWhile (\<lambda>c. \<not> is_space c) (c # cs))) =
          (let ws = words [] (tl (dropWhile (\<lambda>c. \<not> is_space c) (c # cs))) in if Suc n + length ws \<le> 4 then Some ws else None)"
        using 1(1) [OF refl, unfolded Cons] False 1(2) by (simp add: Let_def)
      finally show ?thesis by (simp only: words_Cons [OF Cons] Let_def) simp
    qed
  qed
qed

definition two_digits :: "nat \<Rightarrow> string" where
  "two_digits n = [''0123456789'' ! (n div 10), ''0123456789'' ! (n mod 10)]"

text \<open>The words for a target, a number and a time of day.\<close>

definition names_target :: "string \<Rightarrow> nat \<Rightarrow> bool" where
  "names_target w target \<longleftrightarrow> w = ''all'' \<and> target = 255 \<or> target < 6 \<and> w = [CHR ''I'', ''123456'' ! target]"

definition names_number :: "string \<Rightarrow> nat \<Rightarrow> bool" where
  "names_number w n \<longleftrightarrow> w \<noteq> [] \<and> set w \<subseteq> set ''0123456789'' \<and> decimal_value 0 w = n"

definition names_minute :: "string \<Rightarrow> nat \<Rightarrow> bool" where
  "names_minute w n \<longleftrightarrow> (\<exists>h < 24. \<exists>m < 60. w = two_digits h @ '':'' @ two_digits m \<and> n = 60 * h + m)"

text \<open>The command language: the words of a line, the request they make and whom they address.\<close>

inductive command_means :: "string list \<Rightarrow> operator_request \<Rightarrow> nat \<Rightarrow> bool" where
  fixed_all: "command_means [''mode-fixed''] (Mode_Request 0 (action_code CMD_SET_MODE) 0) 255"
| sensor_all: "command_means [''mode-sensor''] (Mode_Request 1 (action_code CMD_SET_MODE) 0) 255"
| fixed: "names_target w t \<Longrightarrow> command_means [''mode-fixed'', w] (Mode_Request 0 (action_code CMD_SET_MODE) 0) t"
| sensor: "names_target w t \<Longrightarrow> command_means [''mode-sensor'', w] (Mode_Request 1 (action_code CMD_SET_MODE) 0) t"
| temp_fixed: "names_target w t \<Longrightarrow> names_number d n \<Longrightarrow> 1 \<le> n \<Longrightarrow> n \<le> 65535 \<Longrightarrow>
    command_means [''mode-temp'', w, ''fixed'', d] (Mode_Request 0 (action_code CMD_TEMPORARY) (word_of_nat n)) t"
| temp_sensor: "names_target w t \<Longrightarrow> names_number d n \<Longrightarrow> 1 \<le> n \<Longrightarrow> n \<le> 65535 \<Longrightarrow>
    command_means [''mode-temp'', w, ''sensor'', d] (Mode_Request 1 (action_code CMD_TEMPORARY) (word_of_nat n)) t"
| revert: "names_target w t \<Longrightarrow> command_means [''mode-revert'', w] (Mode_Request 0 (action_code CMD_REVERT) 0) t"
| north_south: "names_target w t \<Longrightarrow> names_number d n \<Longrightarrow> n \<le> 63 \<Longrightarrow>
    command_means [''coordinate'', w, ''NS'', d] (Coordination_Request (phase_code PHASE_NS_GREEN) (word_of_nat n)) t"
| east_west: "names_target w t \<Longrightarrow> names_number d n \<Longrightarrow> n \<le> 63 \<Longrightarrow>
    command_means [''coordinate'', w, ''EW'', d] (Coordination_Request (phase_code PHASE_EW_GREEN) (word_of_nat n)) t"
| sim_start: "names_target w t \<Longrightarrow> command_means [''sim-start'', w] (Simulation_Request CENTRAL_SIM_START 0) t"
| sim_stop: "names_target w t \<Longrightarrow> command_means [''sim-stop'', w] (Simulation_Request CENTRAL_SIM_STOP 0) t"
| sim_time: "names_target w t \<Longrightarrow> names_minute c n \<Longrightarrow>
    command_means [''sim-time'', w, c] (Simulation_Request CENTRAL_SIM_TIME n) t"

lemma target_named: "parse_target w = Some t \<longleftrightarrow> names_target w t"
proof -
  have digit: "CHR ''1'' \<le> c \<and> c \<le> CHR ''6'' \<and> of_char c - of_char CHR ''1'' = t \<longleftrightarrow> t < 6 \<and> c = ''123456'' ! t" for c and t :: nat
  proof
    assume *: "t < 6 \<and> c = ''123456'' ! t"
    then consider "t = 0" | "t = 1" | "t = 2" | "t = 3" | "t = 4" | "t = 5" by linarith
    then show "CHR ''1'' \<le> c \<and> c \<le> CHR ''6'' \<and> of_char c - of_char CHR ''1'' = t"
      using * by cases (simp_all add: less_eq_char_def)
  next
    assume *: "CHR ''1'' \<le> c \<and> c \<le> CHR ''6'' \<and> of_char c - of_char CHR ''1'' = t"
    then have b: "49 \<le> (of_char c :: nat)" "(of_char c :: nat) \<le> 54" "(of_char c :: nat) - 49 = t"
      by (simp_all add: less_eq_char_def)
    then have t: "t < 6" "of_char c = 49 + t" by linarith+
    then consider "t = 0" | "t = 1" | "t = 2" | "t = 3" | "t = 4" | "t = 5" by linarith
    then have "of_char (''123456'' ! t) = (49 + t :: nat)" by cases simp_all
    with t show "t < 6 \<and> c = ''123456'' ! t" by (metis of_char_eq_iff)
  qed
  show ?thesis
    using digit by (auto simp: parse_target_def names_target_def split: list.split)
qed

lemma digit_nth: "k < 10 \<Longrightarrow> of_char (''0123456789'' ! k) = (48 + k :: nat)"
proof -
  assume "k < 10"
  then have "k = 0 \<or> k = 1 \<or> k = 2 \<or> k = 3 \<or> k = 4 \<or> k = 5 \<or> k = 6 \<or> k = 7 \<or> k = 8 \<or> k = 9" by presburger
  then show ?thesis by (elim disjE) simp_all
qed

lemma digit_char: "is_digit c \<longleftrightarrow> (\<exists>k < 10. c = ''0123456789'' ! k)" "k < 10 \<Longrightarrow> c = ''0123456789'' ! k \<longleftrightarrow> of_char c = 48 + k"
proof -
  show iff: "c = ''0123456789'' ! k \<longleftrightarrow> of_char c = 48 + k" if "k < 10" for k
    using digit_nth [OF that] by (metis of_char_eq_iff)
  show "is_digit c \<longleftrightarrow> (\<exists>k < 10. c = ''0123456789'' ! k)"
  proof
    assume "is_digit c"
    then have "48 \<le> (of_char c :: nat)" "(of_char c :: nat) \<le> 57" by (simp_all add: is_digit_def less_eq_char_def)
    then have "of_char c - 48 < (10 :: nat)" "of_char c = (48 + (of_char c - 48) :: nat)" by simp_all
    then show "\<exists>k < 10. c = ''0123456789'' ! k" using iff by blast
  next
    assume "\<exists>k < 10. c = ''0123456789'' ! k"
    then obtain k where "k < 10" "of_char c = (48 + k :: nat)" using iff by blast
    then show "is_digit c" by (simp add: is_digit_def less_eq_char_def)
  qed
qed

lemma digits_set: "list_all is_digit w \<longleftrightarrow> set w \<subseteq> set ''0123456789''"
proof -
  have d: "is_digit c \<longleftrightarrow> c \<in> set ''0123456789''" for c
  proof -
    have n: "length ''0123456789'' = 10" by simp
    have "c \<in> set ''0123456789'' \<longleftrightarrow> (\<exists>k < 10. ''0123456789'' ! k = c)"
      by (simp only: in_set_conv_nth n)
    then show ?thesis by (simp only: digit_char(1) eq_commute [of c])
  qed
  show ?thesis unfolding list_all_iff subset_eq by (intro ball_cong refl d)
qed

lemma number_named:
  "parse_number w lo hi = Some n \<longleftrightarrow> names_number w n \<and> lo \<le> n \<and> n \<le> hi"
  by (auto simp: parse_number_def parse_digits_exact names_number_def digits_set)

lemma two_digits_iff:
  assumes "n < 100"
  shows "[a, b] = two_digits n \<longleftrightarrow> is_digit a \<and> is_digit b \<and> (of_char a - 48) * 10 + (of_char b - 48) = n"
proof
  have n: "n div 10 < 10" "n mod 10 < 10" using assms by simp_all
  assume "[a, b] = two_digits n"
  then have "a = ''0123456789'' ! (n div 10)" "b = ''0123456789'' ! (n mod 10)" by (simp_all only: two_digits_def list.inject)
  then show "is_digit a \<and> is_digit b \<and> (of_char a - 48) * 10 + (of_char b - 48) = n"
    using digit_nth [OF n(1)] digit_nth [OF n(2)] n unfolding digit_char(1) by (metis add_diff_cancel_left' div_mult_mod_eq)
next
  assume *: "is_digit a \<and> is_digit b \<and> (of_char a - 48) * 10 + (of_char b - 48) = n"
  then obtain k l where kl: "k < 10" "a = ''0123456789'' ! k" "l < 10" "b = ''0123456789'' ! l"
    unfolding digit_char(1) by blast
  then have "n = k * 10 + l" using * digit_nth [of k] digit_nth [of l] by simp
  then have "n div 10 = k" "n mod 10 = l" using kl by simp_all
  then show "[a, b] = two_digits n" using kl by (simp only: two_digits_def)
qed

lemma minute_named: "parse_simulation_time w = Some n \<longleftrightarrow> names_minute w n"
proof
  assume "parse_simulation_time w = Some n"
  then obtain a b c d where w: "w = [a, b, CHR '':'', c, d]" "is_digit a" "is_digit b" "is_digit c" "is_digit d"
    "(of_char a - 48) * 10 + (of_char b - 48) < (24 :: nat)" "(of_char c - 48) * 10 + (of_char d - 48) < (60 :: nat)"
    "n = ((of_char a - 48) * 10 + (of_char b - 48)) * 60 + ((of_char c - 48) * 10 + (of_char d - 48))"
    by (auto simp: parse_simulation_time_def Let_def split: list.splits if_splits)
  define h where "h = (of_char a - 48) * 10 + (of_char b - 48 :: nat)"
  define m where "m = (of_char c - 48) * 10 + (of_char d - 48 :: nat)"
  note hm = w(6-8) [folded h_def m_def]
  have "[a, b] = two_digits h" using two_digits_iff [of h a b] hm(1) w(2,3) by (simp add: h_def)
  moreover have "[c, d] = two_digits m" using two_digits_iff [of m c d] hm(2) w(4,5) by (simp add: m_def)
  ultimately have "w = two_digits h @ '':'' @ two_digits m" using w(1) by (metis append.simps)
  with hm show "names_minute w n" unfolding names_minute_def by (intro exI [of _ h] exI [of _ m]) auto
next
  assume "names_minute w n"
  then obtain h m where hm: "h < 24" "m < 60" "w = two_digits h @ '':'' @ two_digits m" "n = 60 * h + m"
    unfolding names_minute_def by blast
  obtain a b where ab: "two_digits h = [a, b]" by (simp add: two_digits_def)
  obtain c d where cd: "two_digits m = [c, d]" by (simp add: two_digits_def)
  have "is_digit a \<and> is_digit b \<and> (of_char a - 48) * 10 + (of_char b - 48) = h"
    using two_digits_iff [of h a b] ab hm(1) by simp
  moreover have "is_digit c \<and> is_digit d \<and> (of_char c - 48) * 10 + (of_char d - 48) = m"
    using two_digits_iff [of m c d] cd hm(2) by simp
  ultimately show "parse_simulation_time w = Some n"
    using hm by (simp add: ab cd parse_simulation_time_def Let_def)
qed

lemma mode_named: "parse_mode w = Some m \<longleftrightarrow> w = ''fixed'' \<and> m = 0 \<or> w = ''sensor'' \<and> m = 1"
  by (auto simp: parse_mode_def)

lemma phase_named: "parse_phase w = Some p \<longleftrightarrow> w = ''NS'' \<and> p = phase_code PHASE_NS_GREEN \<or> w = ''EW'' \<and> p = phase_code PHASE_EW_GREEN"
  by (auto simp: parse_phase_def)

text \<open>The message of a parsed line: mode and coordination messages get their intersection when they are queued.\<close>

definition typed_message :: "operator_request \<Rightarrow> nat \<Rightarrow> test_message" where
  "typed_message q target = request_message (case q of Simulation_Request _ _ \<Rightarrow> target | _ \<Rightarrow> 0) 0 q"

inductive_cases mode_fixed_means: "command_means (''mode-fixed'' # ws) q t"
inductive_cases mode_sensor_means: "command_means (''mode-sensor'' # ws) q t"
inductive_cases mode_temp_means: "command_means (''mode-temp'' # ws) q t"
inductive_cases mode_revert_means: "command_means (''mode-revert'' # ws) q t"
inductive_cases coordinate_means: "command_means (''coordinate'' # ws) q t"
inductive_cases sim_start_means: "command_means (''sim-start'' # ws) q t"
inductive_cases sim_stop_means: "command_means (''sim-stop'' # ws) q t"
inductive_cases sim_time_means: "command_means (''sim-time'' # ws) q t"

definition parses_as :: "(test_message \<times> nat) option \<Rightarrow> string list \<Rightarrow> bool" where
  "parses_as r ws \<longleftrightarrow> (\<forall>m t. r = Some (m, t) \<longleftrightarrow> (\<exists>q. command_means ws q t \<and> m = typed_message q t))"

lemmas named = target_named number_named minute_named mode_named phase_named
lemmas named_back = target_named [THEN iffD2] minute_named [THEN iffD2] number_named [THEN iffD2]

lemma parses_asI:
  "(\<And>m t. r = Some (m, t) \<Longrightarrow> \<exists>q. command_means ws q t \<and> m = typed_message q t) \<Longrightarrow>
   (\<And>q t. command_means ws q t \<Longrightarrow> r = Some (typed_message q t, t)) \<Longrightarrow> parses_as r ws"
  unfolding parses_as_def by fastforce

lemmas typed_messages = message_requests typed_message_def

lemma fixed_parses: "parses_as (parse_mode_set MODE_FIXED args) (''mode-fixed'' # args)"
  by (rule parses_asI)
    ((auto simp: parse_mode_set_def typed_messages named intro!: command_means.intros split: list.splits option.splits) [1],
     auto simp: parse_mode_set_def typed_messages named_back elim!: mode_fixed_means)

lemma sensor_parses: "parses_as (parse_mode_set MODE_SENSOR args) (''mode-sensor'' # args)"
  by (rule parses_asI)
    ((auto simp: parse_mode_set_def typed_messages named intro!: command_means.intros split: list.splits option.splits) [1],
     auto simp: parse_mode_set_def typed_messages named_back elim!: mode_sensor_means)

lemma temp_parses: "parses_as (parse_mode_temp args) (''mode-temp'' # args)"
  by (rule parses_asI)
    ((auto simp: parse_mode_temp_def typed_messages named simp del: One_nat_def intro!: command_means.intros split: list.splits option.splits) [1],
     auto simp: parse_mode_temp_def typed_messages named_back parse_mode_def elim!: mode_temp_means)

lemma revert_parses: "parses_as (parse_mode_revert args) (''mode-revert'' # args)"
  by (rule parses_asI)
    ((auto simp: parse_mode_revert_def typed_messages named intro!: command_means.intros split: list.splits option.splits) [1],
     auto simp: parse_mode_revert_def typed_messages named_back elim!: mode_revert_means)

lemma coordinate_parses: "parses_as (parse_coordinate args) (''coordinate'' # args)"
  by (rule parses_asI)
    ((auto simp: parse_coordinate_def typed_messages named intro!: command_means.intros split: list.splits option.splits) [1],
     auto simp: parse_coordinate_def typed_messages named_back parse_phase_def elim!: coordinate_means)

lemma start_parses: "parses_as (parse_simulation CENTRAL_SIM_START args) (''sim-start'' # args)"
  by (rule parses_asI)
    ((auto simp: parse_simulation_def typed_messages named intro!: command_means.intros split: list.splits option.splits if_splits) [1],
     auto simp: parse_simulation_def typed_messages named_back elim!: sim_start_means)

lemma stop_parses: "parses_as (parse_simulation CENTRAL_SIM_STOP args) (''sim-stop'' # args)"
  by (rule parses_asI)
    ((auto simp: parse_simulation_def typed_messages named intro!: command_means.intros split: list.splits option.splits if_splits) [1],
     auto simp: parse_simulation_def typed_messages named_back elim!: sim_stop_means)

lemma time_parses: "parses_as (parse_simulation CENTRAL_SIM_TIME args) (''sim-time'' # args)"
  by (rule parses_asI)
    ((auto simp: parse_simulation_def typed_messages named intro!: command_means.intros split: list.splits option.splits if_splits) [1],
     auto simp: parse_simulation_def typed_messages named_back elim!: sim_time_means)

lemmas all_parses = fixed_parses sensor_parses temp_parses revert_parses coordinate_parses start_parses stop_parses time_parses

lemma means_verb: "command_means (v # ws) q t \<Longrightarrow>
   v \<in> {''mode-fixed'', ''mode-sensor'', ''mode-temp'', ''mode-revert'', ''coordinate'', ''sim-start'', ''sim-stop'', ''sim-time''}"
  by (erule command_means.cases) simp_all

lemma means_length: "command_means ws q t \<Longrightarrow> 1 \<le> length ws \<and> length ws \<le> 4"
  by (erule command_means.cases) simp_all

text \<open>The parser accepts exactly the lines of the language and builds exactly their message.\<close>

lemma parse_command_exact:
  "central_parse_command line = Some (m, t) \<longleftrightarrow>
   length line < 256 \<and> (\<exists>q. command_means (words [] line) q t \<and> m = typed_message q t)"
proof -
  let ?r = "case words [] line of [] \<Rightarrow> None | verb # args \<Rightarrow>
          if verb = ''mode-fixed'' then parse_mode_set MODE_FIXED args
          else if verb = ''mode-sensor'' then parse_mode_set MODE_SENSOR args
          else if verb = ''mode-temp'' then parse_mode_temp args
          else if verb = ''mode-revert'' then parse_mode_revert args
          else if verb = ''coordinate'' then parse_coordinate args
          else if verb = ''sim-start'' then parse_simulation CENTRAL_SIM_START args
          else if verb = ''sim-stop'' then parse_simulation CENTRAL_SIM_STOP args
          else if verb = ''sim-time'' then parse_simulation CENTRAL_SIM_TIME args
          else None"
  have "parses_as ?r (words [] line)"
  proof (cases "words [] line")
    case Nil
    then show ?thesis by (auto simp: parses_as_def dest: means_length)
  next
    case (Cons verb args)
    then show ?thesis using all_parses [of args] means_verb [of verb args]
      by (simp split: if_split) (auto simp: parses_as_def)
  qed
  then have "?r = Some (m, t) \<longleftrightarrow> (\<exists>q. command_means (words [] line) q t \<and> m = typed_message q t)"
    by (simp add: parses_as_def)
  moreover have "central_parse_command line = (if length line < 256 \<and> length (words [] line) \<le> 4 then ?r else None)"
    by (simp add: central_parse_command_def line_tokens_words not_less split: list.split)
  ultimately show ?thesis using means_length [of "words [] line"] by auto
qed

text \<open>C0: The command language of the operator, exactly: a line is understood precisely when it is shorter than
  256 characters and its words, separated by white space, are one of the forms \<open>command_means\<close> lists: the verb, a
  target (\<open>I1\<close> to \<open>I6\<close> or \<open>all\<close>, which the two mode verbs may leave out), then the mode and seconds from 1 to 65535,
  the road and an offset from 0 to 63, or a time of day \<open>HH:MM\<close>. The message is the request those words make;
  every other line, one with a word too many included, is refused.\<close>

theorem command_language_exact:
  "central_parse_command line = Some (m, t) \<longleftrightarrow>
   length line < 256 \<and> (\<exists>q. command_means (words [] line) q t \<and>
     m = request_message (case q of Simulation_Request _ _ \<Rightarrow> t | _ \<Rightarrow> 0) 0 q)"
  unfolding parse_command_exact typed_message_def ..

end
