(* ===== verification/Central_Ipc.thy ===== *)
theory Central_Ipc
  imports Central_Commands
begin

text \<open>
  Frames and replies of the Central controller: \<^verbatim>\<open>ipc.c\<close> up to \<open>validate_reply\<close>, and its receiver. A frame
  on the wire is a header of 40 bytes and the rest of its bytes in \<open>data\<close>, so its size is
  \<open>40 + length data\<close>; an envelope (\<open>test_message_t\<close>) has 104 bytes, the compact structs of
  \<^verbatim>\<open>protocol.h\<close> fewer. A \<open>reply_t\<close> has 36 bytes: the status, 32 bytes of timestamp, a padding byte and the
  command identifier.
\<close>

section \<open>Frames\<close>

abbreviation (input) HEADER_SIZE :: nat where "HEADER_SIZE \<equiv> 40"
abbreviation (input) ENVELOPE_SIZE :: nat where "ENVELOPE_SIZE \<equiv> 104"
abbreviation (input) REPLY_SIZE :: nat where "REPLY_SIZE \<equiv> 36"

text \<open>\<open>stamp\<close> is the text of \<open>central_timestamp\<close>, empty when the clock cannot be read.\<close>

definition central_message_init ::
  "string \<Rightarrow> msg_type \<Rightarrow> controller_type \<Rightarrow> controller_type \<Rightarrow> test_message" where
  "central_message_init stamp type source destination =
     \<lparr>header = \<lparr>hdr_type = msg_code type, hdr_src = controller_code source,
                hdr_dst = controller_code destination, hdr_reserved = 0,
                hdr_timestamp = overlay (take 31 stamp) (replicate TIMESTAMP_SIZE NUL)\<rparr>,
      data = zero_data\<rparr>"

definition controller_valid :: "u16 \<Rightarrow> bool" where
  "controller_valid controller \<longleftrightarrow>
     controller_code CONTROLLER_LOCAL \<le> controller \<and> controller \<le> controller_code CONTROLLER_CENTRAL"

definition frame_target_valid :: "nat \<Rightarrow> bool" where
  "frame_target_valid target \<longleftrightarrow> target < NUM_INTERSECTIONS \<or> target = INTERSECTION_ALL"

definition source_count :: "u16 \<Rightarrow> nat" where
  "source_count source =
     (if source = controller_code CONTROLLER_TRAIN then NUM_CROSSINGS else NUM_INTERSECTIONS)"

definition test_payload_valid :: "test_message \<Rightarrow> u16 \<Rightarrow> bool" where
  "test_payload_valid message destination \<longleftrightarrow>
     (if hdr_src (header message) = controller_code CONTROLLER_CENTRAL \<and>
         destination = controller_code CONTROLLER_LOCAL \<and> take 3 (data message) = ''SIM''
      then (case central_simulation_decode message of
              None \<Rightarrow> False
            | Some simulation \<Rightarrow> cs_command_id simulation \<noteq> 0 \<and> cs_target simulation < NUM_INTERSECTIONS)
      else has_nul (data message))"

definition heartbeat_payload_valid :: "heartbeat_msg \<Rightarrow> u16 \<Rightarrow> bool" where
  "heartbeat_payload_valid v source \<longleftrightarrow> unat (hb_sender_id v) < source_count source \<and> hb_healthy v \<le> 1"

definition status_payload_valid :: "status_msg \<Rightarrow> bool" where
  "status_payload_valid v \<longleftrightarrow>
     unat (st_intersection_id v) < NUM_INTERSECTIONS \<and> st_mode v \<le> mode_code MODE_FAILSAFE \<and>
     st_phase v \<le> phase_code PHASE_RAILWAY_HOLD \<and> st_ns_state v \<le> light_code LIGHT_GREEN \<and>
     st_ew_state v \<le> light_code LIGHT_GREEN \<and> st_pedestrian_ns v \<le> 1 \<and> st_pedestrian_ew v \<le> 1 \<and>
     st_railway_preempt v \<le> 1 \<and> st_telemetry_version v \<le> STATUS_TELEMETRY_VERSION \<and> st_reserved v = 0 \<and>
     st_pedestrian_ns_request v \<le> 1 \<and> st_pedestrian_ew_request v \<le> 1 \<and> st_sim_running v \<le> 1 \<and>
     st_train_pending v \<le> 1 \<and> st_train_active v \<le> 1 \<and> st_manual_mode_override v \<le> 1 \<and>
     st_manual_sensor_override v \<le> 1 \<and> st_coordination_pending v \<le> 1 \<and> st_fault_active v \<le> 1 \<and>
     st_fault_type v \<le> fault_code FAULT_NOT_WORKING \<and> st_fault_severity v \<le> severity_code SEV_CRITICAL \<and>
     (st_telemetry_version v = 0 \<or> unat (st_sim_minute_of_day v) < 24 * 60)"

definition railway_payload_valid :: "railway_status_msg \<Rightarrow> bool" where
  "railway_payload_valid v \<longleftrightarrow>
     unat (rs_crossing_id v) < NUM_CROSSINGS \<and> rs_train_state v \<le> train_code TRAIN_CLEAR \<and>
     rs_gate_state v \<le> gate_code GATE_FAULT \<and> rs_fault v \<le> fault_code FAULT_NOT_WORKING \<and>
     rs_track_states v \<le> 1 \<and> rs_up_state v \<le> train_code TRAIN_CLEAR \<and>
     rs_down_state v \<le> train_code TRAIN_CLEAR \<and> rs_reserved v = 0"

definition fault_payload_valid :: "fault_msg \<Rightarrow> u16 \<Rightarrow> bool" where
  "fault_payload_valid v source \<longleftrightarrow>
     unat (fm_source_id v) < source_count source \<and> fm_fault_type v \<le> fault_code FAULT_NOT_WORKING \<and>
     severity_code SEV_LOW \<le> fm_severity v \<and> fm_severity v \<le> severity_code SEV_CRITICAL \<and>
     fm_reserved v = 0 \<and> has_nul (fm_description v)"

definition mode_payload_valid :: "mode_cmd_msg \<Rightarrow> bool" where
  "mode_payload_valid v \<longleftrightarrow>
     frame_target_valid (unat (mc_intersection_id v)) \<and> mc_new_mode v \<le> mode_code MODE_SENSOR \<and>
     mc_action v \<le> action_code CMD_REVERT \<and> CMD_PRIO_SCHEDULE \<le> mc_priority v \<and>
     mc_priority v \<le> CMD_PRIO_OPERATOR \<and> mc_command_id v \<noteq> 0 \<and>
     (if mc_action v = action_code CMD_TEMPORARY then mc_duration_sec v \<noteq> 0 else mc_duration_sec v = 0)"

definition coordination_payload_valid :: "coordination_command_msg \<Rightarrow> bool" where
  "coordination_payload_valid v \<longleftrightarrow>
     frame_target_valid (unat (cc_intersection_id v)) \<and> cc_mode v = mode_code MODE_FIXED \<and>
     (cc_phase v = phase_code PHASE_NS_GREEN \<or> cc_phase v = phase_code PHASE_EW_GREEN) \<and>
     cc_reserved v = 0 \<and> cc_command_id v \<noteq> 0 \<and> unat (cc_cycle_offset_sec v) < COORDINATION_MAX_CYCLE_SEC"

definition central_frame_valid :: "test_message \<Rightarrow> nat \<Rightarrow> u16 \<Rightarrow> bool" where
  "central_frame_valid message len destination \<longleftrightarrow>
     (let h = header message; d = data message; ty = hdr_type h; source = hdr_src h;
          from_central = (source = controller_code CONTROLLER_CENTRAL \<and>
                          destination = controller_code CONTROLLER_LOCAL)
      in len = ENVELOPE_SIZE \<and> controller_valid destination \<and> controller_valid source \<and>
         hdr_dst h = destination \<and> hdr_reserved h = 0 \<and> has_nul (hdr_timestamp h) \<and>
         (if ty = msg_code MSG_TEST then test_payload_valid message destination
          else if ty = msg_code MSG_HEARTBEAT then heartbeat_payload_valid (decode_heartbeat d) source
          else if ty = msg_code MSG_STATUS_UPDATE then
            source = controller_code CONTROLLER_LOCAL \<and> destination = controller_code CONTROLLER_CENTRAL \<and>
            status_payload_valid (decode_status d)
          else if ty = msg_code MSG_RAILWAY_STATUS then
            source = controller_code CONTROLLER_TRAIN \<and> destination = controller_code CONTROLLER_CENTRAL \<and>
            railway_payload_valid (decode_railway_status d)
          else if ty = msg_code MSG_FAULT_ALERT then
            (source = controller_code CONTROLLER_LOCAL \<or> source = controller_code CONTROLLER_TRAIN) \<and>
            destination = controller_code CONTROLLER_CENTRAL \<and> fault_payload_valid (decode_fault d) source
          else if ty = msg_code MSG_MODE_COMMAND then from_central \<and> mode_payload_valid (decode_mode_cmd d)
          else if ty = msg_code MSG_COORDINATION_COMMAND then
            from_central \<and> coordination_payload_valid (decode_coordination d)
          else False))"

text \<open>The size of the compact struct of a message type, with the part of it that is payload; the older
  Train builds send only the first four payload bytes of a railway status.\<close>

definition compact_payload :: "u16 \<Rightarrow> nat \<Rightarrow> nat option" where
  "compact_payload ty len =
     (if ty = msg_code MSG_HEARTBEAT then (if len = HEADER_SIZE + 4 then Some 4 else None)
      else if ty = msg_code MSG_STATUS_UPDATE then (if len = HEADER_SIZE + 36 then Some 36 else None)
      else if ty = msg_code MSG_FAULT_ALERT then (if len = HEADER_SIZE + 36 then Some 36 else None)
      else if ty = msg_code MSG_RAILWAY_STATUS then
        (if len = HEADER_SIZE + 4 then Some 4 else if len = HEADER_SIZE + 8 then Some 8 else None)
      else None)"

text \<open>The compact status and fault frames of Train carry crossing numbers 1 to 3.\<close>

definition renumber_crossing :: "test_message \<Rightarrow> test_message option" where
  "renumber_crossing candidate =
     (if hdr_src (header candidate) = controller_code CONTROLLER_TRAIN \<and>
         (hdr_type (header candidate) = msg_code MSG_RAILWAY_STATUS \<or>
          hdr_type (header candidate) = msg_code MSG_FAULT_ALERT)
      then let ident = unat (get8 (data candidate) 0) in
           if ident < 1 \<or> NUM_CROSSINGS < ident then None
           else Some (candidate\<lparr>data := (data candidate)[0 := u8_char (word_of_nat (ident - 1))]\<rparr>)
      else Some candidate)"

definition central_frame_normalize :: "test_message \<Rightarrow> nat \<Rightarrow> u16 \<Rightarrow> test_message option" where
  "central_frame_normalize frame len destination =
     (if len < HEADER_SIZE \<or> ENVELOPE_SIZE < len then None
      else
        case (if len = ENVELOPE_SIZE then Some frame
              else case compact_payload (hdr_type (header frame)) len of
                None \<Rightarrow> None
              | Some n \<Rightarrow> renumber_crossing (frame\<lparr>data := overlay (take n (data frame)) zero_data\<rparr>)) of
          None \<Rightarrow> None
        | Some candidate \<Rightarrow>
            if central_frame_valid candidate ENVELOPE_SIZE destination then Some candidate else None)"

section \<open>Replies\<close>

text \<open>A reply buffer is its 36 bytes.\<close>

definition decode_reply :: "char list \<Rightarrow> reply" where
  "decode_reply b =
     \<lparr>reply_status = sint (get8 b 0), reply_timestamp = take TIMESTAMP_SIZE (drop 1 b),
      reply_command_id = get16 b 34\<rparr>"

definition pending_byte :: "char \<Rightarrow> char" where
  "pending_byte expected = (if expected = CHR 0xA5 then CHR 0x5A else CHR 0xA5)"

definition prepare_reply :: "test_message \<Rightarrow> char list" where
  "prepare_reply request = replicate 34 (CHR 0xA5) @ map pending_byte (put16 (central_command_id request))"

datatype send_status = CENTRAL_SEND_OK | CENTRAL_SEND_TRANSPORT | CENTRAL_SEND_REJECTED | CENTRAL_SEND_PROTOCOL

definition validate_reply :: "test_message \<Rightarrow> reply \<Rightarrow> int \<Rightarrow> send_status" where
  "validate_reply request reply kernel_status =
     (let ident = central_command_id request in
      if kernel_status \<noteq> 0 \<or> \<not> has_nul (reply_timestamp reply) then CENTRAL_SEND_PROTOCOL
      else if reply_status reply = - 1 then
        (if central_simulation_decode request \<noteq> None
         then (if reply_command_id reply = ident then CENTRAL_SEND_REJECTED else CENTRAL_SEND_PROTOCOL)
         else (if reply_command_id reply = 0 \<or> reply_command_id reply = ident
               then CENTRAL_SEND_REJECTED else CENTRAL_SEND_PROTOCOL))
      else if reply_status reply \<noteq> 0 \<or> reply_command_id reply \<noteq> ident then CENTRAL_SEND_PROTOCOL
      else CENTRAL_SEND_OK)"

text \<open>What \<open>central_send\<close> refuses before it asks the link.\<close>

definition central_send_admissible :: "test_message \<Rightarrow> bool" where
  "central_send_admissible message \<longleftrightarrow> central_frame_valid message ENVELOPE_SIZE (hdr_dst (header message))"

definition heartbeat_probe :: "string \<Rightarrow> controller_type \<Rightarrow> test_message" where
  "heartbeat_probe stamp destination =
     (central_message_init stamp MSG_HEARTBEAT CONTROLLER_CENTRAL destination)\<lparr>data := overlay (encode_heartbeat
        \<lparr>hb_sender_id = 0, hb_healthy = 1, hb_sequence = 0\<rparr>) zero_data\<rparr>"

section \<open>The receiver\<close>

text \<open>What \<open>MsgReceive\<close> and the completing \<open>MsgRead\<close> deliver: a pulse, or a message with its declared
  source length, the length that arrived, the room for the reply, and its bytes. A message whose first
  word is in the system range (\<open>_IO_CONNECT\<close> or another \<open>_IO_\<close> type) is not a frame. Arming the
  reply timeout is taken to succeed; \<open>in_read\<close> is \<open>None\<close> when the missing bytes could not be read.\<close>

record incoming =
  in_srcmsglen :: int
  in_msglen :: int
  in_dstmsglen :: int
  in_read :: "int option"
  in_io_connect :: bool
  in_io_open :: bool
  in_io_other :: bool
  in_frame :: test_message

datatype receive_event = Receive_Timeout | Receive_Failed | Receive_Pulse | Receive_Message incoming

datatype receive_reply = No_Reply | Reply_Error | Reply_Empty | Reply_With reply

text \<open>\<open>buffer_size\<close> is the size of the union that receives the message (at least that of an envelope).\<close>

definition message_complete :: "int \<Rightarrow> incoming \<Rightarrow> bool" where
  "message_complete buffer_size i \<longleftrightarrow>
     (let wanted = min (in_srcmsglen i) buffer_size in
      wanted \<le> in_msglen i \<or> in_read i = Some (wanted - in_msglen i))"

definition received_size :: "int \<Rightarrow> incoming \<Rightarrow> int" where
  "received_size buffer_size i = max (in_msglen i) (min (in_srcmsglen i) buffer_size)"

text \<open>\<open>receive_frame\<close> with the registered handler. Its result, what the sender is told, the state.\<close>

definition receive_message ::
  "int \<Rightarrow> u16 \<Rightarrow> string \<Rightarrow> (test_message \<Rightarrow> reply \<Rightarrow> 's \<Rightarrow> int \<times> reply \<times> 's) \<Rightarrow> incoming \<Rightarrow> 's \<Rightarrow> receive_reply \<times> 's" where
  "receive_message buffer_size self now handler i s =
     (if in_srcmsglen i < 2 \<or> in_msglen i < 0 \<or> in_srcmsglen i < in_msglen i \<or> buffer_size < in_msglen i
      then (Reply_Error, s)
      else if \<not> message_complete buffer_size i then (Reply_Error, s)
      else if in_io_connect i then (if in_io_open i then Reply_Empty else Reply_Error, s)
      else if in_io_other i then (Reply_Error, s)
      else if received_size buffer_size i \<noteq> in_srcmsglen i \<or> in_dstmsglen i \<noteq> int REPLY_SIZE then (Reply_Error, s)
      else case central_frame_normalize (in_frame i) (nat (in_srcmsglen i)) self of
        None \<Rightarrow> (Reply_Error, s)
      | Some normalized \<Rightarrow>
          let (result, r, s1) = handler normalized
                \<lparr>reply_status = 0, reply_timestamp = [], reply_command_id = central_command_id normalized\<rparr> s;
              r1 = (if result \<noteq> 0 then r\<lparr>reply_status := - 1\<rparr> else r)
          in (Reply_With (r1\<lparr>reply_timestamp := now\<rparr>), s1))"

fun receive_frame ::
  "int \<Rightarrow> u16 \<Rightarrow> string \<Rightarrow> (test_message \<Rightarrow> reply \<Rightarrow> 's \<Rightarrow> int \<times> reply \<times> 's) \<Rightarrow> receive_event \<Rightarrow> 's \<Rightarrow>
   int \<times> receive_reply \<times> 's" where
  "receive_frame buffer_size self now handler Receive_Failed s = (- 1, No_Reply, s)"
| "receive_frame buffer_size self now handler Receive_Timeout s = (0, No_Reply, s)"
| "receive_frame buffer_size self now handler Receive_Pulse s = (0, No_Reply, s)"
| "receive_frame buffer_size self now handler (Receive_Message i) s =
     (0, receive_message buffer_size self now handler i s)"

text \<open>\<open>central_receiver_run\<close> over the events the kernel delivers until it is stopped or fails.\<close>

fun central_receiver_run ::
  "int \<Rightarrow> u16 \<Rightarrow> string \<Rightarrow> (test_message \<Rightarrow> reply \<Rightarrow> 's \<Rightarrow> int \<times> reply \<times> 's) \<Rightarrow> receive_event list \<Rightarrow> 's \<Rightarrow>
   receive_reply list \<times> 's" where
  "central_receiver_run buffer_size self now handler [] s = ([], s)"
| "central_receiver_run buffer_size self now handler (e # es) s =
     (let (result, told, s1) = receive_frame buffer_size self now handler e s in
      if result = - 1 then ([], s1)
      else let (rest, s2) = central_receiver_run buffer_size self now handler es s1 in (told # rest, s2))"

section \<open>Replies cut short\<close>

lemma le16_inject: "le16 a b = le16 c d \<longleftrightarrow> a = c \<and> b = d"
proof
  assume eq: "le16 a b = le16 c d"
  have small: "unat (word_of_nat k :: u16) = k" if "k < 65536" for k using that by (simp add: unat_of_nat)
  have val: "unat (le16 x y) = unat (char_u8 x) + 256 * unat (char_u8 y)" for x y
    unfolding le16_def
    by (rule small) (use unat_u8_lt [of "char_u8 x"] unat_u8_lt [of "char_u8 y"] in linarith)
  have "unat (le16 a b) = unat (le16 c d)" by (simp only: eq)
  then have "unat (char_u8 a) + 256 * unat (char_u8 b) = unat (char_u8 c) + 256 * unat (char_u8 d)"
    by (simp only: val)
  then have "(unat (char_u8 a) + 256 * unat (char_u8 b)) mod 256 = (unat (char_u8 c) + 256 * unat (char_u8 d)) mod 256"
    "(unat (char_u8 a) + 256 * unat (char_u8 b)) div 256 = (unat (char_u8 c) + 256 * unat (char_u8 d)) div 256"
    by (simp_all only:)
  then have "unat (char_u8 a) = unat (char_u8 c) \<and> unat (char_u8 b) = unat (char_u8 d)"
    using unat_u8_lt [of "char_u8 a"] unat_u8_lt [of "char_u8 c"] by simp
  then have "char_u8 a = char_u8 c \<and> char_u8 b = char_u8 d" by (simp add: word_unat_eq_iff)
  then show "a = c \<and> b = d" by (metis u8_char_char_u8)
qed simp

lemma pending_byte_differs: "pending_byte c \<noteq> c \<and> pending_byte c \<noteq> NUL"
  by (simp add: pending_byte_def)

text \<open>When not even the last byte of the identifier was written, the identifier read is neither the
  expected one nor zero.\<close>

lemma short_reply_id:
  assumes "length bs < REPLY_SIZE"
  shows "reply_command_id (decode_reply (overlay bs (prepare_reply m))) \<noteq> central_command_id m"
    and "reply_command_id (decode_reply (overlay bs (prepare_reply m))) \<noteq> 0"
proof -
  let ?w = "central_command_id m" and ?b = "overlay bs (prepare_reply m)"
  obtain lo hi where p: "put16 ?w = [lo, hi]" by (simp add: put16_def)
  then have w: "?w = le16 lo hi" using le16_split [of ?w] by (simp add: put16_def)
  have prep: "prepare_reply m = replicate 34 (CHR 0xA5) @ [pending_byte lo, pending_byte hi]"
    by (simp add: prepare_reply_def p)
  have "?b ! 35 = prepare_reply m ! 35"
    by (rule nth_overlay_beyond) (use assms in \<open>simp_all add: prep\<close>)
  then have hi: "?b ! 35 = pending_byte hi" by (simp add: prep nth_append)
  have r: "reply_command_id (decode_reply ?b) = le16 (?b ! 34) (pending_byte hi)"
    by (simp add: decode_reply_def get16_def hi)
  then show "reply_command_id (decode_reply ?b) \<noteq> ?w"
    by (simp add: w le16_inject pending_byte_differs)
  have z: "(0 :: u16) = le16 NUL NUL" by (simp add: le16_def char_u8_def)
  show "reply_command_id (decode_reply ?b) \<noteq> 0"
    unfolding r z by (simp only: le16_inject pending_byte_differs) simp
qed

text \<open>C31: A reply that was cut short is never believed. Central fills its reply buffer before it sends; when
  the peer wrote fewer than the 36 bytes of a reply, whatever they are and whatever the request, the
  verdict is neither acceptance nor rejection but a protocol error, so the outcome stays unconfirmed.\<close>

theorem short_reply_unconfirmed:
  assumes "length bs < REPLY_SIZE"
  shows "validate_reply m (decode_reply (overlay bs (prepare_reply m))) status = CENTRAL_SEND_PROTOCOL"
  using short_reply_id [OF assms, of m] by (simp add: validate_reply_def Let_def)

text \<open>An acknowledgement of which only the first 35 bytes arrived.\<close>

theorem short_reply_unconfirmed_witness:
  "validate_reply (request_message 1 65535 (Mode_Request 1 0 0))
     (decode_reply (overlay (replicate 35 NUL) (prepare_reply (request_message 1 65535 (Mode_Request 1 0 0))))) 0
   = CENTRAL_SEND_PROTOCOL"
  by (rule short_reply_unconfirmed) simp

section \<open>Commands that may be sent\<close>

lemma request_admissible:
  assumes "request_ok q" "i < NUM_INTERSECTIONS" "n \<noteq> 0"
  shows "central_send_admissible (request_message i n q)"
proof -
  have i: "target_ok i" using assms(2) by (simp add: target_ok_def)
  show ?thesis
  proof (cases q)
    case (Mode_Request mode action duration)
    with assms i show ?thesis
      by (simp add: central_send_admissible_def central_frame_valid_def Let_def request_header initialize_header
          controller_valid_def has_nul_def request_decode mode_payload_valid_def frame_target_valid_def target_word)
  next
    case (Coordination_Request p offset)
    with assms i show ?thesis
      by (simp add: central_send_admissible_def central_frame_valid_def Let_def request_header initialize_header
          controller_valid_def has_nul_def request_decode coordination_payload_valid_def frame_target_valid_def
          target_word)
  next
    case (Simulation_Request action minute)
    have "take 3 (data (request_message i n q)) = ''SIM''"
      by (simp add: Simulation_Request request_message.simps simulation_encode_def print_data_def simulation_text_def)
    with assms i Simulation_Request show ?thesis
      by (simp add: central_send_admissible_def central_frame_valid_def Let_def request_header initialize_header
          controller_valid_def has_nul_def test_payload_valid_def request_decode)
  qed
qed

end
