(* ===== verification/Central_Link.thy ===== *)
theory Central_Link
  imports Central_Ipc
begin

text \<open>
  The link of the Central controller to one peer: \<open>central_link_state\<close> of \<^verbatim>\<open>ipc.c\<close>, shared under a mutex
  by the thread that calls \<open>run_job\<close>, the worker thread that does the blocking kernel calls, and the
  threads that close or destroy the link. Every definition is what one thread does between taking and
  releasing the mutex; \<open>link_step\<close> interleaves them in any order, with the kernel free to answer late,
  wrongly or not at all.
\<close>

section \<open>State\<close>

datatype central_job = JOB_NONE | JOB_CONNECT | JOB_SEND

datatype link_error = E_OK | E_NOTCONN | E_BUSY | E_CANCELED | E_PROTO | E_TIMEDOUT | E_OTHER int

record central_link =
  lk_coid :: int
  lk_connected :: bool
  lk_close_requested :: bool
  lk_stopping :: bool
  lk_exited :: bool
  lk_detached :: bool
  lk_busy :: bool
  lk_done :: bool
  lk_abandoned :: bool
  lk_job :: central_job
  lk_generation :: u64
  lk_job_generation :: u64
  lk_request :: test_message
  lk_reply :: reply
  lk_result :: int
  lk_error :: link_error

primrec send_code :: "send_status \<Rightarrow> int" where
  "send_code CENTRAL_SEND_OK = 0"
| "send_code CENTRAL_SEND_TRANSPORT = - 1"
| "send_code CENTRAL_SEND_REJECTED = - 2"
| "send_code CENTRAL_SEND_PROTOCOL = - 3"

definition zero_message :: test_message where
  "zero_message = \<lparr>header = \<lparr>hdr_type = 0, hdr_src = 0, hdr_dst = 0, hdr_reserved = 0,
     hdr_timestamp = replicate TIMESTAMP_SIZE NUL\<rparr>, data = zero_data\<rparr>"

definition central_link_init :: central_link where
  "central_link_init = \<lparr>lk_coid = - 1, lk_connected = False, lk_close_requested = False, lk_stopping = False,
     lk_exited = False, lk_detached = False, lk_busy = False, lk_done = False, lk_abandoned = False,
     lk_job = JOB_NONE, lk_generation = 0, lk_job_generation = 0, lk_request = zero_message,
     lk_reply = decode_reply (replicate REPLY_SIZE NUL), lk_result = 0, lk_error = E_OK\<rparr>"

section \<open>The calling thread\<close>

definition job_failure :: "central_job \<Rightarrow> int" where
  "job_failure job = (if job = JOB_CONNECT then 0 else send_code CENTRAL_SEND_TRANSPORT)"

text \<open>\<open>run_job\<close> up to the wait: refused with an error, or the job is in place.\<close>

definition run_job_submit :: "central_job \<Rightarrow> test_message \<Rightarrow> central_link \<Rightarrow> link_error + central_link" where
  "run_job_submit job message l =
     (if lk_stopping l \<or> lk_busy l \<or> lk_close_requested l \<or>
         (if job = JOB_CONNECT then lk_connected l else \<not> lk_connected l)
      then Inl (if lk_busy l then E_BUSY else E_NOTCONN)
      else Inr (l\<lparr>lk_busy := True, lk_done := False, lk_abandoned := False, lk_job := job,
                  lk_job_generation := lk_generation l, lk_request := message\<rparr>))"

text \<open>\<open>run_job\<close> after the wait ended without an answer.\<close>

definition run_job_give_up :: "central_link \<Rightarrow> central_link" where
  "run_job_give_up l =
     (if lk_job l \<noteq> JOB_NONE then l\<lparr>lk_job := JOB_NONE, lk_busy := False\<rparr>
      else l\<lparr>lk_abandoned := True\<rparr>)"

text \<open>\<open>run_job\<close> with the answer: its result and error, the reply when the caller gets one (only
  \<open>central_send\<close> passes a place for it), the link.\<close>

definition run_job_collect ::
  "central_job \<Rightarrow> central_link \<Rightarrow> (int \<times> link_error \<times> reply option) \<times> central_link" where
  "run_job_collect job l =
     ((lk_result l, lk_error l,
       if job = JOB_SEND \<and>
          (lk_result l = send_code CENTRAL_SEND_OK \<or> lk_result l = send_code CENTRAL_SEND_REJECTED)
       then Some (lk_reply l) else None),
      l\<lparr>lk_busy := False, lk_done := False\<rparr>)"

definition central_link_is_connected :: "central_link \<Rightarrow> bool" where
  "central_link_is_connected l = lk_connected l"

definition central_link_close :: "central_link \<Rightarrow> central_link" where
  "central_link_close l =
     (let l1 = l\<lparr>lk_connected := False, lk_close_requested := True, lk_generation := lk_generation l + 1\<rparr>
      in if lk_job l1 \<noteq> JOB_NONE
         then l1\<lparr>lk_result := job_failure (lk_job l1), lk_error := E_CANCELED, lk_job := JOB_NONE, lk_done := True\<rparr>
         else l1)"

text \<open>The two critical sections of \<open>central_link_destroy\<close>: the request to stop, and giving the state away
  to a worker that has not exited in time.\<close>

definition central_link_stop :: "central_link \<Rightarrow> central_link" where
  "central_link_stop l = l\<lparr>lk_stopping := True, lk_connected := False, lk_generation := lk_generation l + 1\<rparr>"

definition central_link_detach :: "central_link \<Rightarrow> central_link" where
  "central_link_detach l = (if lk_exited l then l else l\<lparr>lk_detached := True\<rparr>)"

section \<open>The worker thread\<close>

text \<open>Where the worker is: at the top of its loop, waiting for the condition, closing a connection, in a
  kernel call for a job (with what it copied out of the state), closing a connection that came too late
  (with the answer it will report), or gone.\<close>

datatype worker =
    W_Top
  | W_Waiting
  | W_Closing int
  | W_Running central_job u64 int test_message
  | W_Late int int link_error reply
  | W_Exited

definition worker_rest :: "central_link \<Rightarrow> worker \<times> central_link" where
  "worker_rest l =
     (if lk_stopping l then (W_Exited, l\<lparr>lk_exited := True\<rparr>)
      else if lk_job l = JOB_NONE then (W_Waiting, l)
      else (W_Running (lk_job l) (lk_job_generation l) (lk_coid l) (lk_request l), l\<lparr>lk_job := JOB_NONE\<rparr>))"

definition worker_top :: "central_link \<Rightarrow> worker \<times> central_link" where
  "worker_top l =
     (if lk_close_requested l \<or> lk_stopping l then
        let l1 = l\<lparr>lk_coid := - 1, lk_connected := False, lk_close_requested := False\<rparr>
        in if lk_coid l \<noteq> - 1 then (W_Closing (lk_coid l), l1) else worker_rest l1
      else worker_rest l)"

text \<open>What the kernel does: whether the timeout could be armed, what \<open>name_open\<close> returns (a connection, at
  least 0, or an error), and what \<open>MsgSend\<close> does (an error, or the peer's status and the bytes the peer
  wrote over the reply buffer).\<close>

record kernel_io =
  io_timer_error :: "link_error option"
  io_open :: "link_error + nat"
  io_send :: "link_error + int \<times> char list"

text \<open>The kernel calls of one job: result, error, discovered connection, reply.\<close>

definition worker_io :: "kernel_io \<Rightarrow> central_job \<Rightarrow> test_message \<Rightarrow> int \<times> link_error \<times> int \<times> reply" where
  "worker_io io job request =
     (let prepared = prepare_reply request; transport = send_code CENTRAL_SEND_TRANSPORT in
      case io_timer_error io of
        Some e \<Rightarrow> (transport, e, - 1, decode_reply prepared)
      | None \<Rightarrow>
          if job = JOB_CONNECT then
            (case io_open io of
               Inl e \<Rightarrow> (transport, e, - 1, decode_reply prepared)
             | Inr coid \<Rightarrow> (transport, E_OK, int coid, decode_reply prepared))
          else
            (case io_send io of
               Inl e \<Rightarrow> (transport, e, - 1, decode_reply prepared)
             | Inr (status, bytes) \<Rightarrow>
                 let r = decode_reply (overlay (take REPLY_SIZE bytes) prepared);
                     v = validate_reply request r status
                 in (send_code v, if v = CENTRAL_SEND_PROTOCOL then E_PROTO else E_OK, - 1, r)))"

definition worker_complete :: "int \<Rightarrow> link_error \<Rightarrow> reply \<Rightarrow> central_link \<Rightarrow> worker \<times> central_link" where
  "worker_complete result error r l =
     (let l1 = l\<lparr>lk_result := result, lk_error := error, lk_reply := r\<rparr>
      in (W_Top, if lk_abandoned l1 then l1\<lparr>lk_busy := False, lk_abandoned := False\<rparr> else l1\<lparr>lk_done := True\<rparr>))"

definition worker_finish ::
  "central_job \<Rightarrow> u64 \<Rightarrow> int \<times> link_error \<times> int \<times> reply \<Rightarrow> central_link \<Rightarrow> worker \<times> central_link" where
  "worker_finish job generation outcome l =
     (let (result, error, discovered, r) = outcome;
          current = (\<not> lk_stopping l \<and> \<not> lk_close_requested l \<and> generation = lk_generation l)
      in if job = JOB_CONNECT then
           (if current \<and> \<not> lk_abandoned l \<and> discovered \<noteq> - 1
            then worker_complete 1 error r (l\<lparr>lk_coid := discovered, lk_connected := True\<rparr>)
            else if discovered \<noteq> - 1 then (W_Late discovered 0 error r, l)
            else worker_complete 0 error r l)
         else if \<not> current then worker_complete (send_code CENTRAL_SEND_TRANSPORT) E_CANCELED r l
         else worker_complete result error r l)"

section \<open>Interleavings\<close>

text \<open>The link, the worker, and the job of the thread that is inside \<open>run_job\<close>, if one is. The other fields
  only record: the number of jobs submitted so far (the last one is the current one), the jobs whose
  kernel call was started, those withdrawn before that, and the answers callers got.\<close>

record link_world =
  w_link :: central_link
  w_worker :: worker
  w_client :: "(central_job \<times> test_message) option"
  w_ticket :: nat
  w_started :: "nat list"
  w_withdrawn :: "nat list"
  w_answers :: "(nat \<times> central_job \<times> test_message \<times> int \<times> reply option) list"

definition initial_world :: link_world where
  "initial_world = \<lparr>w_link = central_link_init, w_worker = W_Top, w_client = None, w_ticket = 0,
     w_started = [], w_withdrawn = [], w_answers = []\<rparr>"

definition move_worker :: "worker \<times> central_link \<Rightarrow> link_world \<Rightarrow> link_world" where
  "move_worker wl w =
     (let (k, l) = wl in
      w\<lparr>w_link := l, w_worker := k,
        w_started := (case k of W_Running _ _ _ _ \<Rightarrow> w_started w @ [w_ticket w] | _ \<Rightarrow> w_started w)\<rparr>)"

text \<open>What \<open>central_link_connect\<close> and \<open>central_send\<close> submit.\<close>

definition job_admissible :: "central_job \<Rightarrow> test_message \<Rightarrow> bool" where
  "job_admissible job m \<longleftrightarrow>
     job = JOB_CONNECT \<and> m = zero_message \<or> job = JOB_SEND \<and> central_send_admissible m"

text \<open>The job of the current ticket is withdrawn when it had not been taken yet.\<close>

definition withdraw :: "link_world \<Rightarrow> nat list" where
  "withdraw w = (if lk_job (w_link w) \<noteq> JOB_NONE then w_withdrawn w @ [w_ticket w] else w_withdrawn w)"

inductive link_step :: "link_world \<Rightarrow> link_world \<Rightarrow> bool" where
  submit: "w_client w = None \<Longrightarrow> job_admissible job m \<Longrightarrow> run_job_submit job m (w_link w) = Inr l \<Longrightarrow>
     link_step w (w\<lparr>w_link := l, w_client := Some (job, m), w_ticket := Suc (w_ticket w)\<rparr>)"
| collect: "w_client w = Some (job, m) \<Longrightarrow> lk_done (w_link w) \<Longrightarrow>
     run_job_collect job (w_link w) = ((result, error, r), l) \<Longrightarrow>
     link_step w (w\<lparr>w_link := l, w_client := None,
       w_answers := w_answers w @ [(w_ticket w, job, m, result, r)]\<rparr>)"
| give_up: "w_client w = Some c \<Longrightarrow> \<not> lk_done (w_link w) \<Longrightarrow>
     link_step w (w\<lparr>w_link := run_job_give_up (w_link w), w_client := None, w_withdrawn := withdraw w\<rparr>)"
| wake: "w_worker w = W_Top \<or> w_worker w = W_Waiting \<Longrightarrow> link_step w (move_worker (worker_top (w_link w)) w)"
| closed: "w_worker w = W_Closing c \<Longrightarrow> link_step w (move_worker (worker_rest (w_link w)) w)"
| io: "w_worker w = W_Running job generation c m \<Longrightarrow>
     link_step w (move_worker (worker_finish job generation (worker_io k job m) (w_link w)) w)"
| late: "w_worker w = W_Late c result error r \<Longrightarrow>
     link_step w (move_worker (worker_complete result error r (w_link w)) w)"
| close: "link_step w (w\<lparr>w_link := central_link_close (w_link w), w_withdrawn := withdraw w\<rparr>)"
| stop: "link_step w (w\<lparr>w_link := central_link_stop (w_link w)\<rparr>)"
| detach: "link_step w (w\<lparr>w_link := central_link_detach (w_link w)\<rparr>)"

inductive_cases link_stepE: "link_step w w'"

section \<open>Invariants\<close>

fun in_flight :: "worker \<Rightarrow> bool" where
  "in_flight (W_Running _ _ _ _) = True"
| "in_flight (W_Late _ _ _ _) = True"
| "in_flight _ = False"

text \<open>A busy link is in exactly one of three phases: the job is pending, in flight, or answered. A caller
  waits for it unless it has given up, which it can do only while the job is in flight.\<close>

definition phase_ok :: "central_link \<Rightarrow> worker \<Rightarrow> bool \<Rightarrow> bool" where
  "phase_ok l k waiting \<longleftrightarrow>
     (lk_busy l \<longleftrightarrow> lk_job l \<noteq> JOB_NONE \<or> in_flight k \<or> lk_done l) \<and>
     (lk_job l \<noteq> JOB_NONE \<longrightarrow> \<not> in_flight k \<and> \<not> lk_done l) \<and>
     (in_flight k \<longrightarrow> \<not> lk_done l) \<and>
     (waiting \<longleftrightarrow> lk_busy l \<and> \<not> lk_abandoned l) \<and>
     (lk_abandoned l \<longrightarrow> in_flight k)"

text \<open>A connected link has a connection, and a send job is pending only on a connected link.\<close>

definition conn_ok :: "central_link \<Rightarrow> worker \<Rightarrow> bool" where
  "conn_ok l k \<longleftrightarrow>
     (lk_connected l \<longrightarrow> lk_coid l \<noteq> - 1 \<and> \<not> lk_close_requested l) \<and>
     (lk_close_requested l \<longrightarrow> lk_job l = JOB_NONE) \<and>
     (lk_job l = JOB_SEND \<longrightarrow> lk_connected l \<or> lk_stopping l) \<and>
     (\<forall>g c m. k = W_Running JOB_SEND g c m \<longrightarrow> c \<noteq> - 1)"

lemma worker_rest_phase:
  "phase_ok l k b \<Longrightarrow> \<not> in_flight k \<Longrightarrow> worker_rest l = (k', l') \<Longrightarrow> phase_ok l' k' b"
  by (auto simp: phase_ok_def worker_rest_def split: if_splits)

lemma worker_top_phase:
  assumes "phase_ok l k b" "\<not> in_flight k" "worker_top l = (k', l')"
  shows "phase_ok l' k' b"
proof -
  let ?l1 = "l\<lparr>lk_coid := - 1, lk_connected := False, lk_close_requested := False\<rparr>"
  have p1: "phase_ok ?l1 k b" using assms(1) by (simp add: phase_ok_def)
  show ?thesis
  proof (cases "(lk_close_requested l \<or> lk_stopping l) \<and> lk_coid l \<noteq> - 1")
    case True
    with p1 assms(2,3) show ?thesis by (auto simp: worker_top_def phase_ok_def)
  next
    case False
    then have "worker_top l = worker_rest (if lk_close_requested l \<or> lk_stopping l then ?l1 else l)"
      by (auto simp: worker_top_def)
    with worker_rest_phase [OF _ assms(2)] p1 assms(1,3) show ?thesis by (metis (full_types))
  qed
qed

lemma worker_complete_phase:
  "phase_ok l k b \<Longrightarrow> in_flight k \<Longrightarrow> worker_complete result e r l = (k', l') \<Longrightarrow> phase_ok l' k' b"
  by (auto simp: phase_ok_def worker_complete_def Let_def split: if_splits)

lemma worker_finish_cases:
  obtains (connected) d where "job = JOB_CONNECT" "\<not> lk_stopping l" "\<not> lk_close_requested l" "d \<noteq> - 1"
      "worker_finish job g out l =
       worker_complete 1 (fst (snd out)) (snd (snd (snd out))) (l\<lparr>lk_coid := d, lk_connected := True\<rparr>)"
    | (late) d where "job = JOB_CONNECT" "worker_finish job g out l = (W_Late d 0 (fst (snd out)) (snd (snd (snd out))), l)"
    | (answered) result e where "worker_finish job g out l = worker_complete result e (snd (snd (snd out))) l"
      "if job = JOB_CONNECT then result = 0 else result = - 1 \<or> result = fst out"
proof (cases out)
  case (fields res e d r)
  show thesis
  proof (cases "job = JOB_CONNECT")
    case True
    consider "\<not> lk_stopping l \<and> \<not> lk_close_requested l \<and> g = lk_generation l \<and> \<not> lk_abandoned l \<and> d \<noteq> - 1"
      | "\<not> (\<not> lk_stopping l \<and> \<not> lk_close_requested l \<and> g = lk_generation l \<and> \<not> lk_abandoned l)" "d \<noteq> - 1"
      | "d = - 1" by blast
    then show thesis
    proof cases
      case 1
      with True fields show thesis by (intro connected [of d]) (simp_all add: worker_finish_def)
    next
      case 2
      with True fields show thesis by (intro late [of d]) (auto simp: worker_finish_def)
    next
      case 3
      with True fields show thesis by (intro answered [of 0 e]) (simp_all add: worker_finish_def)
    qed
  next
    case False
    show thesis
    proof (cases "\<not> lk_stopping l \<and> \<not> lk_close_requested l \<and> g = lk_generation l")
      case True
      with False fields show thesis by (intro answered [of res e]) (simp_all add: worker_finish_def)
    next
      case stale: False
      with False fields show thesis by (intro answered [of "- 1" E_CANCELED]) (auto simp: worker_finish_def)
    qed
  qed
qed

lemma worker_finish_phase:
  assumes "phase_ok l k b" "in_flight k" "worker_finish job g out l = (k', l')"
  shows "phase_ok l' k' b"
proof (cases rule: worker_finish_cases [of job l g out])
  case (connected d)
  have "phase_ok (l\<lparr>lk_coid := d, lk_connected := True\<rparr>) k b" using assms(1) by (simp add: phase_ok_def)
  with connected assms show ?thesis by (auto intro: worker_complete_phase)
next
  case (late d)
  with assms show ?thesis by (auto simp: phase_ok_def)
next
  case (answered result e)
  with assms show ?thesis by (auto intro: worker_complete_phase)
qed

text \<open>What an accepted submission found and left.\<close>

lemma run_job_submit_InrD:
  "run_job_submit job m l = Inr l' \<Longrightarrow>
   \<not> lk_stopping l \<and> \<not> lk_busy l \<and> \<not> lk_close_requested l \<and> (lk_connected l \<longleftrightarrow> job \<noteq> JOB_CONNECT) \<and>
   l' = l\<lparr>lk_busy := True, lk_done := False, lk_abandoned := False, lk_job := job,
          lk_job_generation := lk_generation l, lk_request := m\<rparr>"
  by (cases "job = JOB_CONNECT") (simp_all add: run_job_submit_def split: if_splits)

lemma job_admissible_not_none: "job_admissible job m \<Longrightarrow> job \<noteq> JOB_NONE"
  by (auto simp: job_admissible_def)

lemma idle_phase: "phase_ok l k b \<Longrightarrow> \<not> lk_busy l \<Longrightarrow> lk_job l = JOB_NONE \<and> \<not> in_flight k \<and> \<not> lk_done l"
  by (simp add: phase_ok_def)

definition world_phase :: "link_world \<Rightarrow> bool" where
  "world_phase w \<longleftrightarrow> phase_ok (w_link w) (w_worker w) (w_client w \<noteq> None)"

lemma move_worker_fields [simp]:
  "w_link (move_worker wl w) = snd wl" "w_worker (move_worker wl w) = fst wl"
  "w_client (move_worker wl w) = w_client w" "w_ticket (move_worker wl w) = w_ticket w"
  "w_withdrawn (move_worker wl w) = w_withdrawn w" "w_answers (move_worker wl w) = w_answers w"
  by (simp_all add: move_worker_def split_beta)

lemma move_worker_phase:
  "phase_ok (snd wl) (fst wl) (w_client w \<noteq> None) \<Longrightarrow> world_phase (move_worker wl w)"
  by (simp add: world_phase_def)

lemmas worker_phases =
  worker_top_phase [OF _ _ surjective_pairing] worker_rest_phase [OF _ _ surjective_pairing]
  worker_finish_phase [OF _ _ surjective_pairing] worker_complete_phase [OF _ _ surjective_pairing]

lemma step_phase: "link_step w w' \<Longrightarrow> world_phase w \<Longrightarrow> world_phase w'"
proof (induction rule: link_step.induct)
  case (submit w job m l)
  from run_job_submit_InrD [OF submit(3)] idle_phase [OF submit(4) [unfolded world_phase_def]]
    job_admissible_not_none [OF submit(2)]
  show ?case by (simp add: world_phase_def phase_ok_def)
next
  case (collect w job m result error r l)
  then show ?case by (auto simp: world_phase_def phase_ok_def run_job_collect_def)
next
  case (give_up w c)
  then show ?case by (auto simp: world_phase_def phase_ok_def run_job_give_up_def)
next
  case (wake w)
  then have "\<not> in_flight (w_worker w)" by auto
  with wake(2) show ?case unfolding world_phase_def
    by (intro move_worker_phase [unfolded world_phase_def] worker_phases)
next
  case (closed w c)
  then have "\<not> in_flight (w_worker w)" by simp
  with closed(2) show ?case unfolding world_phase_def
    by (intro move_worker_phase [unfolded world_phase_def] worker_phases)
next
  case (io w job generation c m k)
  then have "in_flight (w_worker w)" by simp
  with io(2) show ?case unfolding world_phase_def
    by (intro move_worker_phase [unfolded world_phase_def] worker_phases)
next
  case (late w c result error r)
  then have "in_flight (w_worker w)" by simp
  with late(2) show ?case unfolding world_phase_def
    by (intro move_worker_phase [unfolded world_phase_def] worker_phases)
next
  case (close w)
  then show ?case by (auto simp: world_phase_def phase_ok_def central_link_close_def Let_def)
qed (simp_all add: world_phase_def phase_ok_def central_link_stop_def central_link_detach_def)

lemma worker_rest_conn: "conn_ok l k \<Longrightarrow> conn_ok (snd (worker_rest l)) (fst (worker_rest l))"
  by (auto simp: conn_ok_def worker_rest_def)

text \<open>The top of the loop in three cases.\<close>

lemma worker_top_cases:
  obtains (closing) "lk_close_requested l \<or> lk_stopping l"
      "worker_top l = (W_Closing (lk_coid l), l\<lparr>lk_coid := - 1, lk_connected := False, lk_close_requested := False\<rparr>)"
    | (closed) "lk_close_requested l \<or> lk_stopping l"
      "worker_top l = worker_rest (l\<lparr>lk_coid := - 1, lk_connected := False, lk_close_requested := False\<rparr>)"
    | (plain) "worker_top l = worker_rest l"
  by (cases "lk_close_requested l \<or> lk_stopping l"; cases "lk_coid l = - 1") (simp_all add: worker_top_def Let_def)

lemma worker_top_conn:
  assumes "conn_ok l k"
  shows "conn_ok (snd (worker_top l)) (fst (worker_top l))"
proof (cases rule: worker_top_cases [of l])
  case closing
  then show ?thesis using assms by (auto simp: conn_ok_def)
next
  case closed
  then have "conn_ok (l\<lparr>lk_coid := - 1, lk_connected := False, lk_close_requested := False\<rparr>) W_Top"
    using assms by (auto simp: conn_ok_def)
  then show ?thesis unfolding closed(2) by (rule worker_rest_conn)
next
  case plain
  show ?thesis unfolding plain by (rule worker_rest_conn [OF assms])
qed

lemma worker_complete_conn:
  "conn_ok l k \<Longrightarrow> conn_ok (snd (worker_complete result e r l)) (fst (worker_complete result e r l))"
  by (simp add: conn_ok_def worker_complete_def Let_def)

lemma worker_finish_conn:
  assumes "conn_ok l k"
  shows "conn_ok (snd (worker_finish job g out l)) (fst (worker_finish job g out l))"
proof (cases rule: worker_finish_cases [of job l g out])
  case (connected d)
  then have "conn_ok (l\<lparr>lk_coid := d, lk_connected := True\<rparr>) W_Top" using assms by (simp add: conn_ok_def)
  then show ?thesis using connected by (simp add: worker_complete_conn)
next
  case (late d)
  then show ?thesis using assms by (simp add: conn_ok_def)
next
  case (answered result e)
  then show ?thesis using worker_complete_conn [OF assms] by simp
qed

lemma step_conn: "link_step w w' \<Longrightarrow> conn_ok (w_link w) (w_worker w) \<Longrightarrow> conn_ok (w_link w') (w_worker w')"
proof (induction rule: link_step.induct)
  case (submit w job m l)
  from run_job_submit_InrD [OF submit(3)] submit(4) show ?case by (auto simp: conn_ok_def)
next
  case (collect w job m result error r l)
  then show ?case by (auto simp: conn_ok_def run_job_collect_def)
next
  case (give_up w c)
  then show ?case by (auto simp: conn_ok_def run_job_give_up_def)
next
  case (close w)
  then show ?case by (auto simp: conn_ok_def central_link_close_def Let_def)
qed (simp_all add: worker_top_conn worker_rest_conn worker_finish_conn worker_complete_conn,
     simp_all add: conn_ok_def central_link_stop_def central_link_detach_def)

text \<open>The answer a caller is about to get is about its own request.\<close>

definition verdict_ok :: "test_message \<Rightarrow> int \<Rightarrow> reply \<Rightarrow> bool" where
  "verdict_ok m result r \<longleftrightarrow>
     (result = send_code CENTRAL_SEND_OK \<longrightarrow> validate_reply m r 0 = CENTRAL_SEND_OK) \<and>
     (result = send_code CENTRAL_SEND_REJECTED \<longrightarrow> validate_reply m r 0 = CENTRAL_SEND_REJECTED)"

definition caller_ok :: "central_link \<Rightarrow> worker \<Rightarrow> central_job \<Rightarrow> test_message \<Rightarrow> bool" where
  "caller_ok l k j m \<longleftrightarrow>
     (lk_job l \<noteq> JOB_NONE \<longrightarrow> lk_job l = j \<and> lk_request l = m) \<and>
     (case k of W_Running j' _ _ m' \<Rightarrow> j' = j \<and> m' = m | W_Late _ _ _ _ \<Rightarrow> j = JOB_CONNECT | _ \<Rightarrow> True) \<and>
     (lk_done l \<and> j = JOB_SEND \<longrightarrow> verdict_ok m (lk_result l) (lk_reply l))"

lemma validate_reply_status:
  "validate_reply m r status = CENTRAL_SEND_OK \<or> validate_reply m r status = CENTRAL_SEND_REJECTED \<Longrightarrow> status = 0"
  by (auto simp: validate_reply_def Let_def split: if_splits)

lemma send_code_inject [simp]: "send_code a = send_code b \<longleftrightarrow> a = b"
  by (cases a; cases b) simp_all

lemma worker_io_verdict:
  "j = JOB_SEND \<Longrightarrow> verdict_ok m (fst (worker_io io j m)) (snd (snd (snd (worker_io io j m))))"
proof (cases "io_timer_error io")
  case None
  assume "j = JOB_SEND"
  show ?thesis
  proof (cases "io_send io")
    case (Inr p)
    obtain status bytes where p: "p = (status, bytes)" by (cases p)
    let ?r = "decode_reply (overlay (take REPLY_SIZE bytes) (prepare_reply m))"
    have "verdict_ok m (send_code (validate_reply m ?r status)) ?r"
      using validate_reply_status [of m ?r status] unfolding verdict_ok_def send_code_inject by auto
    with None \<open>j = JOB_SEND\<close> Inr p show ?thesis by (simp add: worker_io_def Let_def)
  qed (use None \<open>j = JOB_SEND\<close> in \<open>simp add: worker_io_def verdict_ok_def\<close>)
qed (simp add: worker_io_def verdict_ok_def)

lemma worker_rest_caller: "caller_ok l k j m \<Longrightarrow> caller_ok (snd (worker_rest l)) (fst (worker_rest l)) j m"
  by (auto simp: caller_ok_def worker_rest_def)

lemma worker_top_caller:
  assumes "caller_ok l k j m"
  shows "caller_ok (snd (worker_top l)) (fst (worker_top l)) j m"
proof (cases rule: worker_top_cases [of l])
  case closing
  then show ?thesis using assms by (auto simp: caller_ok_def)
next
  case closed
  have "caller_ok (l\<lparr>lk_coid := - 1, lk_connected := False, lk_close_requested := False\<rparr>) k j m"
    using assms by (simp add: caller_ok_def)
  then show ?thesis unfolding closed(2) by (rule worker_rest_caller)
next
  case plain
  show ?thesis unfolding plain by (rule worker_rest_caller [OF assms])
qed

lemma worker_complete_caller:
  "caller_ok l k j m \<Longrightarrow> j = JOB_SEND \<longrightarrow> verdict_ok m result r \<Longrightarrow>
   caller_ok (snd (worker_complete result e r l)) (fst (worker_complete result e r l)) j m"
  by (auto simp: caller_ok_def worker_complete_def Let_def)

lemma worker_finish_caller:
  assumes "caller_ok l (W_Running j g c m) j' m'" "out = worker_io io j m"
  shows "caller_ok (snd (worker_finish j g out l)) (fst (worker_finish j g out l)) j' m'"
proof (cases rule: worker_finish_cases [of j l g out])
  case (connected d)
  then have "caller_ok (l\<lparr>lk_coid := d, lk_connected := True\<rparr>) W_Top j' m'" "j' = JOB_CONNECT"
    using assms(1) by (auto simp: caller_ok_def)
  then show ?thesis using connected by (simp add: worker_complete_caller)
next
  case (late d)
  then show ?thesis using assms(1) by (auto simp: caller_ok_def)
next
  case (answered result e)
  have "j' = JOB_SEND \<longrightarrow> verdict_ok m' result (snd (snd (snd out)))"
    using answered(2) assms worker_io_verdict [of j m io] by (auto simp: caller_ok_def verdict_ok_def split: if_splits)
  then show ?thesis using worker_complete_caller [OF assms(1)] answered(1) by simp
qed

definition world_caller :: "link_world \<Rightarrow> bool" where
  "world_caller w \<longleftrightarrow> (\<forall>j m. w_client w = Some (j, m) \<longrightarrow> caller_ok (w_link w) (w_worker w) j m)"

lemma step_caller:
  "link_step w w' \<Longrightarrow> world_phase w \<Longrightarrow> world_caller w \<Longrightarrow> world_caller w'"
proof (induction rule: link_step.induct)
  case (submit w job m l)
  from run_job_submit_InrD [OF submit(3)] idle_phase [OF submit(4) [unfolded world_phase_def]]
  show ?case by (cases "w_worker w") (auto simp: world_caller_def caller_ok_def)
next
  case (io w job generation c m k)
  then show ?case by (auto simp: world_caller_def intro!: worker_finish_caller)
next
  case (late w c result error r)
  have "caller_ok (snd (worker_complete result error r (w_link w))) (fst (worker_complete result error r (w_link w))) j m"
    if "w_client w = Some (j, m)" for j m
  proof (rule worker_complete_caller)
    show "caller_ok (w_link w) (w_worker w) j m" using late(3) that by (simp add: world_caller_def)
    then show "j = JOB_SEND \<longrightarrow> verdict_ok m result r" using late(1) by (simp add: caller_ok_def)
  qed
  then show ?case by (simp add: world_caller_def)
next
  case (close w)
  have "verdict_ok m (job_failure JOB_SEND) r" for m r by (simp add: verdict_ok_def job_failure_def)
  with close show ?case by (auto simp: world_caller_def caller_ok_def central_link_close_def Let_def)
next
  case (wake w)
  from wake(3) show ?case by (auto simp: world_caller_def intro: worker_top_caller)
next
  case (closed w c)
  from closed(3) show ?case by (auto simp: world_caller_def intro: worker_rest_caller)
qed (simp_all add: world_caller_def central_link_stop_def central_link_detach_def, simp_all add: caller_ok_def)

text \<open>The record of started and withdrawn jobs.\<close>

definition tickets_ok :: "link_world \<Rightarrow> bool" where
  "tickets_ok w \<longleftrightarrow>
     (\<forall>t \<in> set (w_started w) \<union> set (w_withdrawn w). t \<le> w_ticket w) \<and>
     sorted_wrt (<) (w_started w) \<and> set (w_started w) \<inter> set (w_withdrawn w) = {} \<and>
     (lk_job (w_link w) \<noteq> JOB_NONE \<longrightarrow> w_ticket w \<notin> set (w_started w) \<union> set (w_withdrawn w)) \<and>
     (in_flight (w_worker w) \<longrightarrow> w_ticket w \<in> set (w_started w)) \<and>
     (lk_done (w_link w) \<longrightarrow> w_ticket w \<in> set (w_started w) \<or>
        (\<exists>j m. w_client w = Some (j, m) \<and> lk_result (w_link w) = job_failure j))"

text \<open>A move of the worker that takes no job.\<close>

fun is_running :: "worker \<Rightarrow> bool" where
  "is_running (W_Running _ _ _ _) = True"
| "is_running _ = False"

lemma move_worker_started:
  "w_started (move_worker wl w) = (if is_running (fst wl) then w_started w @ [w_ticket w] else w_started w)"
  by (cases "fst wl") (simp_all add: move_worker_def split_beta)

text \<open>What the top of the worker's loop does to a pending job: it leaves it and its own place is out of
  flight, or it takes it.\<close>

lemma worker_rest_job:
  "(\<not> in_flight (fst (worker_rest l)) \<and> lk_job (snd (worker_rest l)) = lk_job l \<or>
    is_running (fst (worker_rest l)) \<and> lk_job l \<noteq> JOB_NONE \<and> lk_job (snd (worker_rest l)) = JOB_NONE) \<and>
   lk_done (snd (worker_rest l)) = lk_done l \<and> lk_result (snd (worker_rest l)) = lk_result l"
  by (simp add: worker_rest_def)

lemma worker_top_job:
  "(\<not> in_flight (fst (worker_top l)) \<and> lk_job (snd (worker_top l)) = lk_job l \<or>
    is_running (fst (worker_top l)) \<and> lk_job l \<noteq> JOB_NONE \<and> lk_job (snd (worker_top l)) = JOB_NONE) \<and>
   lk_done (snd (worker_top l)) = lk_done l \<and> lk_result (snd (worker_top l)) = lk_result l"
  using worker_rest_job [of l] worker_rest_job [of "l\<lparr>lk_coid := - 1, lk_connected := False, lk_close_requested := False\<rparr>"]
  by (auto simp: worker_top_def Let_def)

lemma is_running_in_flight: "is_running k \<Longrightarrow> in_flight k"
  by (cases k) simp_all

lemma tickets_taken:
  assumes "tickets_ok w" "\<not> in_flight (w_worker w)"
    "(\<not> in_flight (fst wl) \<and> lk_job (snd wl) = lk_job (w_link w) \<or>
      is_running (fst wl) \<and> lk_job (w_link w) \<noteq> JOB_NONE \<and> lk_job (snd wl) = JOB_NONE) \<and>
     lk_done (snd wl) = lk_done (w_link w) \<and> lk_result (snd wl) = lk_result (w_link w)"
  shows "tickets_ok (move_worker wl w)"
proof (cases "is_running (fst wl)")
  case True
  then have "in_flight (fst wl)" by (rule is_running_in_flight)
  with assms(3) have job: "lk_job (w_link w) \<noteq> JOB_NONE" "lk_job (snd wl) = JOB_NONE"
    "lk_done (snd wl) = lk_done (w_link w)" "lk_result (snd wl) = lk_result (w_link w)" by auto
  with assms(1) have old: "w_ticket w \<notin> set (w_started w)" "w_ticket w \<notin> set (w_withdrawn w)"
    "\<forall>t \<in> set (w_started w) \<union> set (w_withdrawn w). t \<le> w_ticket w" "sorted_wrt (<) (w_started w)"
    "set (w_started w) \<inter> set (w_withdrawn w) = {}"
    by (simp_all add: tickets_ok_def)
  then have "\<forall>t \<in> set (w_started w). t < w_ticket w" by (metis UnI1 le_neq_implies_less)
  with old True job show ?thesis
    by (simp add: tickets_ok_def move_worker_started sorted_wrt_append)
next
  case False
  with assms have "\<not> in_flight (fst wl)" "lk_job (snd wl) = lk_job (w_link w)" by auto
  with assms(1,3) False show ?thesis by (simp add: tickets_ok_def move_worker_started)
qed

lemma tickets_flight:
  assumes "tickets_ok w" "in_flight (w_worker w)" "\<not> is_running (fst wl)" "lk_job (snd wl) = JOB_NONE"
  shows "tickets_ok (move_worker wl w)"
  using assms by (simp add: tickets_ok_def move_worker_started)

lemma worker_complete_job:
  "\<not> is_running (fst (worker_complete result e r l))" "lk_job (snd (worker_complete result e r l)) = lk_job l"
  by (simp_all add: worker_complete_def Let_def)

lemma worker_finish_job:
  "\<not> is_running (fst (worker_finish job g out l)) \<and> lk_job (snd (worker_finish job g out l)) = lk_job l"
  by (cases rule: worker_finish_cases [of job l g out]) (simp_all add: worker_complete_job)

lemma flight_no_job: "world_phase w \<Longrightarrow> in_flight (w_worker w) \<Longrightarrow> lk_job (w_link w) = JOB_NONE"
  by (auto simp: world_phase_def phase_ok_def)

lemma tickets_withdraw:
  assumes "tickets_ok w" "lk_job l = JOB_NONE"
    "lk_done l \<longrightarrow> lk_done (w_link w) \<and> lk_result l = lk_result (w_link w) \<and> c = w_client w \<or>
       (\<exists>j m. c = Some (j, m) \<and> lk_result l = job_failure j)"
  shows "tickets_ok (w\<lparr>w_link := l, w_client := c, w_withdrawn := withdraw w\<rparr>)"
  using assms by (auto simp: tickets_ok_def withdraw_def)

lemma step_tickets:
  "link_step w w' \<Longrightarrow> world_phase w \<Longrightarrow> world_caller w \<Longrightarrow> tickets_ok w \<Longrightarrow> tickets_ok w'"
proof (induction rule: link_step.induct)
  case (submit w job m l)
  have "Suc (w_ticket w) \<notin> set (w_started w) \<union> set (w_withdrawn w)"
    using submit(6) by (auto simp: tickets_ok_def dest!: bspec)
  with run_job_submit_InrD [OF submit(3)] idle_phase [OF submit(4) [unfolded world_phase_def]] submit(6)
  show ?case by (simp add: tickets_ok_def le_SucI)
next
  case (collect w job m result error r l)
  then show ?case by (auto simp: tickets_ok_def run_job_collect_def)
next
  case (give_up w c)
  then show ?case by (intro tickets_withdraw) (auto simp: run_job_give_up_def)
next
  case (wake w)
  then show ?case by (intro tickets_taken worker_top_job) auto
next
  case (closed w c)
  then show ?case by (intro tickets_taken worker_rest_job) auto
next
  case (io w job generation c m k)
  then show ?case by (intro tickets_flight) (simp_all add: worker_finish_job flight_no_job)
next
  case (late w c result error r)
  then show ?case by (intro tickets_flight) (simp_all add: worker_complete_job flight_no_job)
next
  case (close w)
  have same: "w\<lparr>w_link := l, w_withdrawn := t\<rparr> = w\<lparr>w_link := l, w_client := w_client w, w_withdrawn := t\<rparr>" for l t
    by simp
  have "\<exists>j m. w_client w = Some (j, m) \<and> lk_job (w_link w) = j" if "lk_job (w_link w) \<noteq> JOB_NONE"
    using close(1,2) that by (auto simp: world_phase_def phase_ok_def world_caller_def caller_ok_def)
  with close show ?case unfolding same
    by (intro tickets_withdraw) (auto simp: central_link_close_def Let_def)
qed (simp_all add: tickets_ok_def central_link_stop_def central_link_detach_def)

definition answer_ok :: "nat list \<Rightarrow> nat \<times> central_job \<times> test_message \<times> int \<times> reply option \<Rightarrow> bool" where
  "answer_ok started a \<longleftrightarrow>
     (case a of (t, j, m, result, r) \<Rightarrow>
        j = JOB_SEND \<longrightarrow>
        (\<forall>v \<in> {CENTRAL_SEND_OK, CENTRAL_SEND_REJECTED}. result = send_code v \<longrightarrow>
           t \<in> set started \<and> (\<exists>rp. r = Some rp \<and> validate_reply m rp 0 = v)))"

lemma step_answers:
  assumes "link_step w w'" "world_caller w" "tickets_ok w" "\<forall>a \<in> set (w_answers w). answer_ok (w_started w) a"
  shows "\<forall>a \<in> set (w_answers w'). answer_ok (w_started w') a"
proof -
  have mono: "answer_ok (xs @ ys) a" if "answer_ok xs a" for xs ys a
    using that by (auto simp: answer_ok_def split: prod.splits)
  have moved: "\<forall>a \<in> set (w_answers w). answer_ok (w_started (move_worker wl w)) a" for wl
    using assms(4) mono by (simp add: move_worker_started)
  from assms(1) show ?thesis
  proof cases
    case (collect job m result error r l)
    have "answer_ok (w_started w) (w_ticket w, job, m, result, r)"
      using assms(2,3) collect
      by (auto simp: answer_ok_def world_caller_def caller_ok_def verdict_ok_def tickets_ok_def run_job_collect_def
          job_failure_def)
    with collect(1) assms(4) show ?thesis by simp
  qed (use assms(4) moved in simp_all)
qed

section \<open>Properties\<close>

definition world_ok :: "link_world \<Rightarrow> bool" where
  "world_ok w \<longleftrightarrow> world_phase w \<and> conn_ok (w_link w) (w_worker w) \<and> world_caller w \<and> tickets_ok w \<and>
     (\<forall>a \<in> set (w_answers w). answer_ok (w_started w) a)"

lemma initial_world_ok: "world_ok initial_world"
  by (simp add: world_ok_def initial_world_def central_link_init_def world_phase_def phase_ok_def conn_ok_def
      world_caller_def tickets_ok_def)

lemma reachable_ok: "link_step\<^sup>*\<^sup>* initial_world w \<Longrightarrow> world_ok w"
proof (induction rule: rtranclp_induct)
  case (step w w')
  then show ?case unfolding world_ok_def
    using step_phase step_conn step_caller step_tickets step_answers by blast
qed (rule initial_world_ok)

text \<open>C32: Under every interleaving of callers, worker, closing and stopping threads, and whatever the kernel
  does, each accepted job is handed to the kernel at most once and in the order of submission; a job that
  its caller gave up on, or that a close cancelled, before the worker took it is never handed to the kernel
  later; and no message is sent over a connection that has been closed.\<close>

theorem withdrawn_job_never_started:
  assumes "link_step\<^sup>*\<^sup>* initial_world w"
  shows "sorted_wrt (<) (w_started w) \<and> set (w_started w) \<inter> set (w_withdrawn w) = {} \<and>
     (case w_worker w of W_Running job g c m \<Rightarrow> job = JOB_SEND \<longrightarrow> c \<noteq> - 1 | _ \<Rightarrow> True)"
  using reachable_ok [OF assms] by (cases "w_worker w") (auto simp: world_ok_def tickets_ok_def conn_ok_def)

text \<open>A connect job is submitted and the link is closed before the worker wakes.\<close>

theorem withdrawn_job_never_started_witness:
  "\<exists>w. link_step\<^sup>*\<^sup>* initial_world w \<and> w_withdrawn w = [1] \<and> set (w_started w) \<inter> set (w_withdrawn w) = {}"
proof -
  define w1 where "w1 = initial_world\<lparr>w_link := central_link_init\<lparr>lk_busy := True, lk_job := JOB_CONNECT,
    lk_request := zero_message\<rparr>, w_client := Some (JOB_CONNECT, zero_message), w_ticket := Suc 0\<rparr>"
  define w2 where "w2 = w1\<lparr>w_link := central_link_close (w_link w1), w_withdrawn := withdraw w1\<rparr>"
  have "run_job_submit JOB_CONNECT zero_message (w_link initial_world) = Inr (w_link w1)"
    by (simp add: w1_def initial_world_def run_job_submit_def central_link_init_def)
  from link_step.submit [OF _ _ this] have "link_step initial_world w1"
    by (simp add: initial_world_def job_admissible_def) (simp add: w1_def initial_world_def)
  moreover have "link_step w1 w2" unfolding w2_def by (rule link_step.close)
  ultimately have run: "link_step\<^sup>*\<^sup>* initial_world w2" by simp
  moreover have "w_withdrawn w2 = [1]" by (simp add: w2_def w1_def withdraw_def initial_world_def)
  ultimately show ?thesis using withdrawn_job_never_started [OF run] by blast
qed

text \<open>C33: What \<open>central_send\<close> tells its caller is true of the caller's own message. In every reachable state,
  an answer OK (or REJECTED) recorded for a send means that this very message was handed to the kernel
  once, that the kernel reported success, and that the reply returned to the caller is one that
  \<open>validate_reply\<close> accepts as an acknowledgement (or a refusal) of this message, with its identifier. An
  abandoned or cancelled request, a reply that came late or after a close never yields such an answer.\<close>

theorem send_answer_genuine:
  assumes "link_step\<^sup>*\<^sup>* initial_world w" "(t, JOB_SEND, m, send_code v, r) \<in> set (w_answers w)"
    "v = CENTRAL_SEND_OK \<or> v = CENTRAL_SEND_REJECTED"
  shows "t \<in> set (w_started w) \<and> (\<exists>rp. r = Some rp \<and> validate_reply m rp 0 = v)"
  using reachable_ok [OF assms(1)] assms(2,3) by (fastforce simp: world_ok_def answer_ok_def simp del: send_code.simps)

text \<open>An idle link: nobody waits, the worker is at rest, and the link is open or not.\<close>

definition idle_world :: "bool \<Rightarrow> link_world \<Rightarrow> bool" where
  "idle_world connected w \<longleftrightarrow>
     w_client w = None \<and> (w_worker w = W_Top \<or> w_worker w = W_Waiting) \<and> (lk_connected (w_link w) \<longleftrightarrow> connected) \<and>
     \<not> lk_busy (w_link w) \<and> \<not> lk_stopping (w_link w) \<and> \<not> lk_close_requested (w_link w)"

text \<open>One undisturbed job, from its submission to the caller's return.\<close>

lemma undisturbed_job:
  assumes idle: "idle_world (job \<noteq> JOB_CONNECT) w" and adm: "job_admissible job m"
    and out: "worker_io io job m = (result, e, d, r)" and opened: "job = JOB_CONNECT \<Longrightarrow> d \<noteq> - 1"
  shows "\<exists>w' rp. link_step\<^sup>*\<^sup>* w w' \<and> idle_world True w' \<and>
     w_answers w' = w_answers w @ [(Suc (w_ticket w), job, m, if job = JOB_CONNECT then 1 else result, rp)]"
proof -
  let ?l = "w_link w"
  define l1 where "l1 = ?l\<lparr>lk_busy := True, lk_done := False, lk_abandoned := False, lk_job := job,
    lk_job_generation := lk_generation ?l, lk_request := m\<rparr>"
  define w1 where "w1 = w\<lparr>w_link := l1, w_client := Some (job, m), w_ticket := Suc (w_ticket w)\<rparr>"
  have not_none: "job \<noteq> JOB_NONE" using adm by (rule job_admissible_not_none)
  have "run_job_submit job m ?l = Inr l1"
    using idle by (simp add: run_job_submit_def idle_world_def l1_def)
  with idle adm have s1: "link_step w w1" unfolding w1_def by (intro link_step.submit) (auto simp: idle_world_def)
  define k where "k = W_Running job (lk_generation ?l) (lk_coid l1) m"
  have top: "worker_top l1 = (k, l1\<lparr>lk_job := JOB_NONE\<rparr>)"
    using idle not_none by (simp add: worker_top_def worker_rest_def l1_def k_def idle_world_def)
  define w2 where "w2 = move_worker (worker_top l1) w1"
  have s2: "link_step w1 w2"
    using link_step.wake [of w1] idle by (auto simp: w2_def w1_def idle_world_def)
  have "w_worker w2 = k" "w_link w2 = l1\<lparr>lk_job := JOB_NONE\<rparr>" by (simp_all add: w2_def top)
  define f where "f = worker_finish job (lk_generation ?l) (result, e, d, r) (l1\<lparr>lk_job := JOB_NONE\<rparr>)"
  define w3 where "w3 = move_worker f w2"
  have s3: "link_step w2 w3"
    using link_step.io [of w2 job "lk_generation ?l" "lk_coid l1" m io] out
    by (simp add: w3_def f_def \<open>w_worker w2 = k\<close> \<open>w_link w2 = _\<close> k_def)
  have f: "fst f = W_Top" "lk_done (snd f)" "lk_connected (snd f)" "\<not> lk_stopping (snd f)"
    "\<not> lk_close_requested (snd f)" "lk_result (snd f) = (if job = JOB_CONNECT then 1 else result)"
    using idle opened
    by (cases "job = JOB_CONNECT", simp_all add: f_def worker_finish_def worker_complete_def Let_def l1_def idle_world_def)
  define c where "c = run_job_collect job (snd f)"
  define w4 where "w4 = w3\<lparr>w_link := snd c, w_client := None,
    w_answers := w_answers w3 @ [(w_ticket w3, job, m, fst (fst c), snd (snd (fst c)))]\<rparr>"
  have "link_step w3 w4" unfolding w4_def
    by (rule link_step.collect [where error = "fst (snd (fst c))"])
       (simp_all add: w3_def w2_def w1_def f c_def)
  with s1 s2 s3 have "link_step\<^sup>*\<^sup>* w w4"
    by (meson converse_rtranclp_into_rtranclp rtranclp.rtrancl_refl)
  moreover have "idle_world True w4"
    by (simp add: idle_world_def w4_def c_def run_job_collect_def w3_def f)
  moreover have "w_answers w4 = w_answers w @
      [(Suc (w_ticket w), job, m, if job = JOB_CONNECT then 1 else result, snd (snd (fst c)))]"
    by (simp add: w4_def w3_def w2_def w1_def c_def run_job_collect_def f)
  ultimately show ?thesis by blast
qed


text \<open>A heartbeat is sent over a connection just made, and acknowledged.\<close>

definition sample_io :: kernel_io where
  "sample_io = \<lparr>io_timer_error = None, io_open = Inr 7, io_send = Inr (0, replicate 36 NUL)\<rparr>"

definition sample_send :: test_message where
  "sample_send = heartbeat_probe [] CONTROLLER_LOCAL"


lemma sample_admissible: "central_send_admissible sample_send"
  by code_simp

lemma sample_connected: "\<exists>w. link_step\<^sup>*\<^sup>* initial_world w \<and> idle_world True w"
proof -
  have idle: "idle_world (JOB_CONNECT \<noteq> JOB_CONNECT) initial_world"
    by (simp add: idle_world_def initial_world_def central_link_init_def)
  obtain e r where out: "worker_io sample_io JOB_CONNECT zero_message = (- 1, e, 7, r)"
    by (simp add: worker_io_def sample_io_def Let_def)
  from undisturbed_job [OF idle _ out] show ?thesis by (auto simp: job_admissible_def)
qed

lemma sample_verdict:
  "validate_reply sample_send (decode_reply (overlay (take REPLY_SIZE (replicate 36 NUL)) (prepare_reply sample_send))) 0 =
   CENTRAL_SEND_OK"
  by code_simp


theorem send_answer_genuine_witness:
  "\<exists>w t r rp. link_step\<^sup>*\<^sup>* initial_world w \<and>
     (t, JOB_SEND, sample_send, send_code CENTRAL_SEND_OK, r) \<in> set (w_answers w) \<and>
     t \<in> set (w_started w) \<and> r = Some rp \<and> validate_reply sample_send rp 0 = CENTRAL_SEND_OK"
proof -
  obtain w where w: "link_step\<^sup>*\<^sup>* initial_world w" "idle_world True w" using sample_connected by blast
  obtain e d r where out: "worker_io sample_io JOB_SEND sample_send = (send_code CENTRAL_SEND_OK, e, d, r)"
    by (simp add: worker_io_def sample_io_def Let_def sample_verdict [simplified])
  have "idle_world (JOB_SEND \<noteq> JOB_CONNECT) w" using w(2) by simp
  from undisturbed_job [OF this _ out] sample_admissible obtain w' rp where
    "link_step\<^sup>*\<^sup>* w w'" and
    ans: "w_answers w' = w_answers w @ [(Suc (w_ticket w), JOB_SEND, sample_send, send_code CENTRAL_SEND_OK, rp)]"
    by (auto simp: job_admissible_def simp del: send_code.simps)
  with w(1) have run: "link_step\<^sup>*\<^sup>* initial_world w'" by (rule_tac rtranclp_trans)
  have mem: "(Suc (w_ticket w), JOB_SEND, sample_send, send_code CENTRAL_SEND_OK, rp) \<in> set (w_answers w')"
    by (simp add: ans)
  from send_answer_genuine [OF run mem] run mem show ?thesis by blast
qed

end
