(* ===== verification/Central_Policy.thy ===== *)
theory Central_Policy
  imports Central_Commands
begin

text \<open>
  What the operator wants of the intersections: \<^verbatim>\<open>operator_policy.c\<close> of the Central controller. The Train
  command line and its canonical form, the daily schedule file and the mode it asks for at a given minute,
  and the record of operator overrides that suspends the schedule.
\<close>

section \<open>Words\<close>

text \<open>\<open>iscntrl\<close> in the C locale.\<close>

definition is_cntrl :: "char \<Rightarrow> bool" where
  "is_cntrl c \<longleftrightarrow> (of_char c :: nat) < 32 \<or> c = CHR 0x7F"

text \<open>Where the scan of one word stops.\<close>

definition word_end :: "bool \<Rightarrow> char \<Rightarrow> bool" where
  "word_end allow_comment c \<longleftrightarrow> is_space c \<or> (allow_comment \<and> c = CHR ''#'') \<or> is_cntrl c"

function tokenize_loop :: "bool \<Rightarrow> nat \<Rightarrow> string \<Rightarrow> string list option" where
  "tokenize_loop allow_comment count cursor =
     (let rest = dropWhile is_space cursor in
      if rest = [] \<or> (allow_comment \<and> hd rest = CHR ''#'') then Some []
      else if count = 4 then None
      else
        let token = takeWhile (\<lambda>c. \<not> word_end allow_comment c) rest;
            after = dropWhile (\<lambda>c. \<not> word_end allow_comment c) rest
        in if after = [] then Some [token]
           else if is_space (hd after) then
             map_option ((#) token) (tokenize_loop allow_comment (Suc count) (tl after))
           else if allow_comment \<and> hd after = CHR ''#'' then Some [token]
           else None)"
  by pat_completeness auto
termination
proof (relation "measure (\<lambda>(_, _, cursor). length cursor)", goal_cases)
  case (2 allow count cursor rest token after)
  have "length after \<le> length rest" "length rest \<le> length cursor"
    by (simp_all add: 2(1,5) length_dropWhile_le)
  moreover have "length (tl after) < length after" using 2 by (cases after) auto
  ultimately show ?case by simp
qed simp

declare tokenize_loop.simps [simp del]

definition tokenize :: "string \<Rightarrow> bool \<Rightarrow> string list option" where
  "tokenize line allow_comment = (if 256 \<le> length line then None else tokenize_loop allow_comment 0 line)"

definition parse_unsigned :: "string \<Rightarrow> nat \<Rightarrow> nat \<Rightarrow> nat option" where
  "parse_unsigned token minimum maximum =
     (if token = [] then None
      else case parse_digits maximum 0 token of
        None \<Rightarrow> None
      | Some parsed \<Rightarrow> if parsed < minimum then None else Some parsed)"

section \<open>Train commands\<close>

definition parse_crossing :: "string \<Rightarrow> nat option" where
  "parse_crossing token =
     (case token of
        [p, c] \<Rightarrow> if (p = CHR ''P'' \<or> p = CHR ''p'') \<and> CHR ''1'' \<le> c \<and> c \<le> CHR ''3''
                   then Some (of_char c - of_char CHR ''0'') else None
      | _ \<Rightarrow> None)"

definition parse_direction :: "string \<Rightarrow> string option" where
  "parse_direction token =
     (if token = ''up'' \<or> token = ''UP'' then Some ''up''
      else if token = ''down'' \<or> token = ''DOWN'' then Some ''down'' else None)"

definition is_fault_word :: "string \<Rightarrow> bool" where
  "is_fault_word token \<longleftrightarrow>
     length token = 8 \<and> (hd token = CHR ''p'' \<or> hd token = CHR ''P'') \<and>
     CHR ''1'' \<le> token ! 1 \<and> token ! 1 \<le> CHR ''3'' \<and> drop 2 token = ''-fault''"

text \<open>The canonical text, before it is padded to the 64 bytes of the payload.\<close>

definition canonical_train_text :: "string list \<Rightarrow> string option" where
  "canonical_train_text tokens =
     (case tokens of
        [t0] \<Rightarrow>
          if t0 = ''train-up'' \<or> t0 = ''train-down'' \<or> t0 = ''train-both'' \<or> t0 = ''status'' then Some t0
          else if is_fault_word t0 then Some (''p'' @ [t0 ! 1] @ ''-fault'')
          else None
      | [t0, t1] \<Rightarrow>
          if t0 = ''reset'' then
            (case parse_crossing t1 of Some n \<Rightarrow> Some (''reset P'' @ show_nat n) | None \<Rightarrow> None)
          else if t0 = ''scale'' then
            (case parse_unsigned t1 1 100 of Some n \<Rightarrow> Some (''scale '' @ show_nat n) | None \<Rightarrow> None)
          else None
      | [t0, t1, t2] \<Rightarrow>
          if t0 = ''train'' \<or> t0 = ''noexit'' then
            (case (parse_crossing t1, parse_direction t2) of
               (Some n, Some d) \<Rightarrow> Some (t0 @ '' P'' @ show_nat n @ '' '' @ d)
             | _ \<Rightarrow> None)
          else None
      | _ \<Rightarrow> None)"

definition central_parse_train_command :: "string \<Rightarrow> char list option" where
  "central_parse_train_command line =
     (case tokenize line False of
        None \<Rightarrow> None
      | Some tokens \<Rightarrow> map_option print_data (canonical_train_text tokens))"

section \<open>The daily schedule\<close>

record central_schedule_entry =
  se_minute_of_day :: nat
  se_target :: nat
  se_mode :: u8

text \<open>The first \<open>count\<close> entries of the array.\<close>

type_synonym central_schedule = "central_schedule_entry list"

abbreviation (input) CENTRAL_SCHEDULE_MAX_ENTRIES :: nat where "CENTRAL_SCHEDULE_MAX_ENTRIES \<equiv> 32"
abbreviation (input) CENTRAL_SCHEDULE_MAX_FILE_LINES :: nat where "CENTRAL_SCHEDULE_MAX_FILE_LINES \<equiv> 1024"

definition valid_target :: "nat \<Rightarrow> bool" where
  "valid_target target \<longleftrightarrow> target < NUM_INTERSECTIONS \<or> target = INTERSECTION_ALL"

definition valid_entry :: "central_schedule_entry \<Rightarrow> bool" where
  "valid_entry entry \<longleftrightarrow>
     se_minute_of_day entry < 24 * 60 \<and> valid_target (se_target entry) \<and>
     (se_mode entry = mode_code MODE_FIXED \<or> se_mode entry = mode_code MODE_SENSOR)"

datatype line_result = Line_Error | Line_Empty | Line_Entry central_schedule_entry

definition parse_clock :: "string \<Rightarrow> nat option" where
  "parse_clock text =
     (case text of
        [h1, h2, colon, m1, m2] \<Rightarrow>
          if colon = CHR '':'' \<and> is_digit h1 \<and> is_digit h2 \<and> is_digit m1 \<and> is_digit m2 then
            let hour = (of_char h1 - 48) * 10 + (of_char h2 - 48);
                minute = (of_char m1 - 48) * 10 + (of_char m2 - 48)
            in if 24 \<le> hour \<or> 60 \<le> minute then None else Some (hour * 60 + minute)
          else None
      | _ \<Rightarrow> None)"

definition parse_schedule_target :: "string \<Rightarrow> nat option" where
  "parse_schedule_target text =
     (if text = ''all'' then Some INTERSECTION_ALL
      else case text of
        [i, c] \<Rightarrow> if i = CHR ''I'' \<and> CHR ''1'' \<le> c \<and> c \<le> CHR ''6''
                   then Some (of_char c - of_char CHR ''1'') else None
      | _ \<Rightarrow> None)"

definition central_schedule_parse_line :: "string \<Rightarrow> line_result" where
  "central_schedule_parse_line line =
     (case tokenize line True of
        None \<Rightarrow> Line_Error
      | Some [] \<Rightarrow> Line_Empty
      | Some [t0, t1, t2] \<Rightarrow>
          (case parse_clock t0 of
             None \<Rightarrow> Line_Error
           | Some minute \<Rightarrow>
               (case (if t1 = ''fixed'' then Some (mode_code MODE_FIXED)
                      else if t1 = ''sensor'' then Some (mode_code MODE_SENSOR) else None) of
                  None \<Rightarrow> Line_Error
                | Some mode \<Rightarrow>
                    (case parse_schedule_target t2 of
                       None \<Rightarrow> Line_Error
                     | Some target \<Rightarrow>
                         Line_Entry \<lparr>se_minute_of_day = minute, se_target = target, se_mode = mode\<rparr>)))
      | Some _ \<Rightarrow> Line_Error)"

definition entry_conflict :: "central_schedule_entry \<Rightarrow> central_schedule_entry \<Rightarrow> bool" where
  "entry_conflict existing entry \<longleftrightarrow>
     se_minute_of_day existing = se_minute_of_day entry \<and>
     (se_target existing = se_target entry \<or> se_target existing = INTERSECTION_ALL \<or>
      se_target entry = INTERSECTION_ALL)"

definition central_schedule_add ::
  "central_schedule_entry \<Rightarrow> central_schedule \<Rightarrow> central_schedule option" where
  "central_schedule_add entry schedule =
     (if \<not> valid_entry entry \<or> CENTRAL_SCHEDULE_MAX_ENTRIES \<le> length schedule then None
      else if list_ex (\<lambda>existing. entry_conflict existing entry) schedule then None
      else Some (schedule @ [entry]))"

text \<open>The message of a failed load; \<open>error_size\<close> is the caller's buffer.\<close>

definition load_error :: "nat \<Rightarrow> nat \<Rightarrow> string \<Rightarrow> string" where
  "load_error error_size line description =
     (if error_size = 0 then []
      else take (error_size - 1)
        (if line \<noteq> 0 then ''Schedule line '' @ show_nat line @ '': '' @ description else description))"

text \<open>One complete line: the parsed entry is added, a bad line or a refused entry ends the load.\<close>

definition load_line ::
  "nat \<Rightarrow> nat \<Rightarrow> string \<Rightarrow> central_schedule \<Rightarrow> string + central_schedule" where
  "load_line error_size line_number line parsed =
     (case central_schedule_parse_line line of
        Line_Error \<Rightarrow> Inl (load_error error_size line_number ''Expected HH:MM fixed|sensor I1..I6|all'')
      | Line_Empty \<Rightarrow> Inr parsed
      | Line_Entry entry \<Rightarrow>
          (case central_schedule_add entry parsed of
             None \<Rightarrow> Inl (load_error error_size line_number
                        ''Conflicting time/target or more than 32 entries'')
           | Some parsed' \<Rightarrow> Inr parsed'))"

text \<open>The reading loop. \<open>read_failed\<close> is \<open>ferror\<close> at the end of the bytes that could be read.\<close>

fun load_loop ::
  "nat \<Rightarrow> bool \<Rightarrow> char list \<Rightarrow> nat \<Rightarrow> string \<Rightarrow> central_schedule \<Rightarrow> string + central_schedule" where
  "load_loop error_size read_failed [] line_number line parsed =
     (if read_failed then Inl (load_error error_size line_number ''Read failed'')
      else if line = [] then Inr parsed
      else load_line error_size line_number line parsed)"
| "load_loop error_size read_failed (c # cs) line_number line parsed =
     (if CENTRAL_SCHEDULE_MAX_FILE_LINES < line_number then
        Inl (load_error error_size line_number ''Too many physical lines'')
      else if c = NUL then Inl (load_error error_size line_number ''NUL byte is not valid text'')
      else if c \<noteq> CHR 0x0A then
        (if length line = 255 then Inl (load_error error_size line_number ''Line exceeds 255 bytes'')
         else load_loop error_size read_failed cs line_number (line @ [c]) parsed)
      else case load_line error_size line_number line parsed of
        Inl e \<Rightarrow> Inl e
      | Inr parsed' \<Rightarrow> load_loop error_size read_failed cs (Suc line_number) [] parsed')"

text \<open>The file as the operating system presents it: \<open>None\<close> when it cannot be opened.\<close>

record schedule_file =
  file_bytes :: "char list"
  file_read_failed :: bool
  file_close_ok :: bool

definition central_schedule_load ::
  "nat \<Rightarrow> string \<Rightarrow> schedule_file option \<Rightarrow> string + central_schedule" where
  "central_schedule_load error_size open_error file =
     (case file of
        None \<Rightarrow> Inl (load_error error_size 0 open_error)
      | Some f \<Rightarrow>
          (case load_loop error_size (file_read_failed f) (file_bytes f) 1 [] [] of
             Inl e \<Rightarrow> Inl e
           | Inr parsed \<Rightarrow>
               if file_close_ok f then Inr parsed
               else Inl (load_error error_size 0 ''Closing schedule file failed'')))"

text \<open>The search loop of \<open>central_schedule_mode\<close>: the distance of the nearest entry so far and its mode;
  \<open>None\<close> when an invalid entry ends the search.\<close>

definition elapsed_since :: "nat \<Rightarrow> central_schedule_entry \<Rightarrow> nat" where
  "elapsed_since minute_of_day entry = (minute_of_day + 24 * 60 - se_minute_of_day entry) mod (24 * 60)"

definition entry_applies :: "nat \<Rightarrow> central_schedule_entry \<Rightarrow> bool" where
  "entry_applies target entry \<longleftrightarrow> se_target entry = INTERSECTION_ALL \<or> se_target entry = target"

fun nearest_entry ::
  "nat \<Rightarrow> nat \<Rightarrow> central_schedule \<Rightarrow> nat \<Rightarrow> u8 \<Rightarrow> (nat \<times> u8) option" where
  "nearest_entry target minute_of_day [] nearest selected = Some (nearest, selected)"
| "nearest_entry target minute_of_day (entry # rest) nearest selected =
     (if \<not> valid_entry entry then None
      else if \<not> entry_applies target entry then nearest_entry target minute_of_day rest nearest selected
      else if elapsed_since minute_of_day entry < nearest
      then nearest_entry target minute_of_day rest (elapsed_since minute_of_day entry) (se_mode entry)
      else nearest_entry target minute_of_day rest nearest selected)"

definition central_schedule_mode :: "central_schedule \<Rightarrow> nat \<Rightarrow> nat \<Rightarrow> u8 option" where
  "central_schedule_mode schedule target minute_of_day =
     (if NUM_INTERSECTIONS \<le> target \<or> 24 * 60 \<le> minute_of_day \<or>
         CENTRAL_SCHEDULE_MAX_ENTRIES < length schedule then None
      else case nearest_entry target minute_of_day schedule (24 * 60) 0 of
        None \<Rightarrow> None
      | Some (nearest, selected) \<Rightarrow> if nearest = 24 * 60 then None else Some selected)"

section \<open>Operator overrides\<close>

record central_operator_policy =
  persistent_active :: "bool list"
  persistent_mode :: "u8 list"
  temporary_mode :: "u8 list"
  temporary_until_ns :: "u64 list"

definition initial_policy :: central_operator_policy where
  "initial_policy = \<lparr>persistent_active = replicate NUM_INTERSECTIONS False,
     persistent_mode = replicate NUM_INTERSECTIONS 0, temporary_mode = replicate NUM_INTERSECTIONS 0,
     temporary_until_ns = replicate NUM_INTERSECTIONS 0\<rparr>"

abbreviation (input) NS_PER_SECOND :: u64 where "NS_PER_SECOND \<equiv> 1000000000"

definition target_range :: "nat \<Rightarrow> nat list" where
  "target_range target = (if target = INTERSECTION_ALL then [0..<NUM_INTERSECTIONS] else [target..<target + 1])"

text \<open>The checks of \<open>central_policy_note_operator\<close>, with the expiry time they compute.\<close>

definition operator_expiry :: "u8 \<Rightarrow> u8 \<Rightarrow> nat \<Rightarrow> u64 \<Rightarrow> u64 option" where
  "operator_expiry action mode duration_sec now_ns =
     (if action = action_code CMD_SET_MODE \<or> action = action_code CMD_TEMPORARY then
        if mode \<noteq> mode_code MODE_FIXED \<and> mode \<noteq> mode_code MODE_SENSOR then None
        else if action = action_code CMD_SET_MODE \<and> duration_sec \<noteq> 0 then None
        else if action = action_code CMD_TEMPORARY then
          if duration_sec = 0 \<or> 65535 < duration_sec then None
          else
            let duration = word_of_nat duration_sec * NS_PER_SECOND in
            if - 1 - duration < now_ns then None else Some (now_ns + duration)
        else Some 0
      else if action \<noteq> action_code CMD_REVERT \<or> duration_sec \<noteq> 0 then None
      else Some 0)"

definition note_target ::
  "u8 \<Rightarrow> u8 \<Rightarrow> u64 \<Rightarrow> nat \<Rightarrow> central_operator_policy \<Rightarrow> central_operator_policy" where
  "note_target action mode expires i policy =
     (if action = action_code CMD_SET_MODE then
        policy\<lparr>persistent_active := (persistent_active policy)[i := True],
               persistent_mode := (persistent_mode policy)[i := mode],
               temporary_until_ns := (temporary_until_ns policy)[i := 0]\<rparr>
      else if action = action_code CMD_TEMPORARY then
        policy\<lparr>temporary_mode := (temporary_mode policy)[i := mode],
               temporary_until_ns := (temporary_until_ns policy)[i := expires]\<rparr>
      else policy\<lparr>temporary_until_ns := (temporary_until_ns policy)[i := 0]\<rparr>)"

text \<open>The updated policy; \<open>None\<close> for a refused request, which leaves it unchanged.\<close>

definition central_policy_note_operator ::
  "nat \<Rightarrow> u8 \<Rightarrow> u8 \<Rightarrow> nat \<Rightarrow> u64 \<Rightarrow> central_operator_policy \<Rightarrow> central_operator_policy option" where
  "central_policy_note_operator target action mode duration_sec now_ns policy =
     (if \<not> valid_target target then None
      else case operator_expiry action mode duration_sec now_ns of
        None \<Rightarrow> None
      | Some expires \<Rightarrow> Some (fold (note_target action mode expires) (target_range target) policy))"

definition central_policy_resume_schedule ::
  "nat \<Rightarrow> central_operator_policy \<Rightarrow> central_operator_policy option" where
  "central_policy_resume_schedule target policy =
     (if \<not> valid_target target then None
      else Some (fold (\<lambda>i p. p\<lparr>persistent_active := (persistent_active p)[i := False],
                               temporary_until_ns := (temporary_until_ns p)[i := 0]\<rparr>)
                   (target_range target) policy))"

definition central_policy_operator_active :: "central_operator_policy \<Rightarrow> nat \<Rightarrow> u64 \<Rightarrow> bool" where
  "central_policy_operator_active policy target now_ns \<longleftrightarrow>
     target < NUM_INTERSECTIONS \<and>
     (persistent_active policy ! target \<or> now_ns < temporary_until_ns policy ! target)"

definition central_policy_desired_mode ::
  "central_operator_policy \<Rightarrow> central_schedule \<Rightarrow> nat \<Rightarrow> nat \<Rightarrow> u64 \<Rightarrow> (u8 \<times> u8) option" where
  "central_policy_desired_mode policy schedule target minute_of_day now_ns =
     (if NUM_INTERSECTIONS \<le> target \<or> 24 * 60 \<le> minute_of_day then None
      else if now_ns < temporary_until_ns policy ! target then
        Some (temporary_mode policy ! target, CMD_PRIO_OPERATOR)
      else if persistent_active policy ! target then
        Some (persistent_mode policy ! target, CMD_PRIO_OPERATOR)
      else case central_schedule_mode schedule target minute_of_day of
        None \<Rightarrow> None
      | Some selected \<Rightarrow> Some (selected, CMD_PRIO_SCHEDULE))"

section \<open>What a loaded schedule says\<close>

definition schedule_ok :: "central_schedule \<Rightarrow> bool" where
  "schedule_ok sch \<longleftrightarrow>
     length sch \<le> CENTRAL_SCHEDULE_MAX_ENTRIES \<and> list_all valid_entry sch \<and>
     sorted_wrt (\<lambda>a b. \<not> entry_conflict a b) sch"

lemma central_schedule_add_eq:
  "schedule_ok sch \<Longrightarrow>
   central_schedule_add e sch = (if schedule_ok (sch @ [e]) then Some (sch @ [e]) else None)"
  by (auto simp: central_schedule_add_def schedule_ok_def sorted_wrt_append list_ex_iff)

lemma schedule_ok_prefix: "schedule_ok (xs @ ys) \<Longrightarrow> schedule_ok xs"
  by (simp add: schedule_ok_def sorted_wrt_append)

text \<open>The physical lines of a file: a last line without a newline counts, an empty rest does not.\<close>

fun split_lines :: "string \<Rightarrow> char list \<Rightarrow> string list" where
  "split_lines line [] = (if line = [] then [] else [line])"
| "split_lines line (c # cs) =
     (if c = CHR 0x0A then line # split_lines [] cs else split_lines (line @ [c]) cs)"

definition line_entries :: "string \<Rightarrow> central_schedule_entry list" where
  "line_entries line = (case central_schedule_parse_line line of Line_Entry e \<Rightarrow> [e] | _ \<Rightarrow> [])"

definition schedule_entries :: "string list \<Rightarrow> central_schedule" where
  "schedule_entries ls = concat (map line_entries ls)"

lemma schedule_entries_simps [simp]:
  "schedule_entries [] = []" "schedule_entries (l # ls) = line_entries l @ schedule_entries ls"
  by (simp_all add: schedule_entries_def)

definition line_ok :: "string \<Rightarrow> bool" where
  "line_ok l \<longleftrightarrow> length l \<le> 255 \<and> central_schedule_parse_line l \<noteq> Line_Error"

lemma split_lines_Nil: "split_lines line bytes = [] \<longleftrightarrow> line = [] \<and> bytes = []"
  by (induction bytes arbitrary: line) auto

lemma split_lines_prefix: "line \<noteq> [] \<Longrightarrow> \<exists>l \<in> set (split_lines line bytes). length line \<le> length l"
proof (induction bytes arbitrary: line)
  case (Cons c cs)
  show ?case
  proof (cases "c = CHR 0x0A")
    case False
    from Cons.IH [of "line @ [c]"] obtain l where
      "l \<in> set (split_lines (line @ [c]) cs)" "length (line @ [c]) \<le> length l" by auto
    with False show ?thesis by (auto intro!: bexI [of _ l])
  qed auto
qed auto

lemma load_line_iff:
  assumes "schedule_ok parsed" "length line \<le> 255"
  shows "load_line es n line parsed = Inr sch \<longleftrightarrow>
     line_ok line \<and> sch = parsed @ line_entries line \<and> schedule_ok (parsed @ line_entries line)"
  using assms by (auto simp: load_line_def line_ok_def line_entries_def central_schedule_add_eq
      split: line_result.splits if_splits)

text \<open>The reading loop, exactly.\<close>

definition loads ::
  "bool \<Rightarrow> char list \<Rightarrow> nat \<Rightarrow> string \<Rightarrow> central_schedule \<Rightarrow> central_schedule \<Rightarrow> bool" where
  "loads read_failed bytes n line parsed sch \<longleftrightarrow>
     (let ls = split_lines line bytes in
      \<not> read_failed \<and> NUL \<notin> set bytes \<and> (\<forall>l \<in> set ls. line_ok l) \<and>
      (bytes \<noteq> [] \<longrightarrow> n + length ls \<le> Suc CENTRAL_SCHEDULE_MAX_FILE_LINES) \<and>
      sch = parsed @ schedule_entries ls \<and> schedule_ok sch)"

lemma load_loop_iff:
  "schedule_ok parsed \<Longrightarrow> length line \<le> 255 \<Longrightarrow>
   load_loop es rf bytes n line parsed = Inr sch \<longleftrightarrow> loads rf bytes n line parsed sch"
proof (induction bytes arbitrary: n line parsed)
  case Nil
  then show ?case by (auto simp: loads_def load_line_iff)
next
  case (Cons c cs)
  show ?case
  proof (cases "c = CHR 0x0A")
    case newline: True
    have "load_loop es rf (c # cs) n line parsed = Inr sch \<longleftrightarrow>
        n \<le> 1024 \<and> line_ok line \<and> schedule_ok (parsed @ line_entries line) \<and>
        load_loop es rf cs (Suc n) [] (parsed @ line_entries line) = Inr sch"
    proof (cases "load_line es n line parsed")
      case (Inl e)
      with load_line_iff [OF Cons.prems, of es n "parsed @ line_entries line"]
      have "\<not> (line_ok line \<and> schedule_ok (parsed @ line_entries line))" by simp
      with newline Inl show ?thesis by auto
    next
      case (Inr p)
      with load_line_iff [OF Cons.prems, of es n p] newline show ?thesis by auto
    qed
    also have "\<dots> \<longleftrightarrow> n \<le> 1024 \<and> line_ok line \<and> schedule_ok (parsed @ line_entries line) \<and>
        loads rf cs (Suc n) [] (parsed @ line_entries line) sch"
      using Cons.IH [of "parsed @ line_entries line" "[]" "Suc n"] by auto
    also have "\<dots> \<longleftrightarrow> loads rf (c # cs) n line parsed sch"
      using newline schedule_ok_prefix [of "parsed @ line_entries line" "schedule_entries (split_lines [] cs)"]
      by (auto simp: loads_def Let_def)
    finally show ?thesis .
  next
    case plain: False
    show ?thesis
    proof (cases "length line = 255")
      case True
      from split_lines_prefix [of "line @ [c]" cs] True obtain l where
        "l \<in> set (split_lines (line @ [c]) cs)" "\<not> line_ok l" by (auto simp: line_ok_def)
      with plain have "\<not> loads rf (c # cs) n line parsed sch" by (auto simp: loads_def Let_def)
      with True plain show ?thesis by simp
    next
      case False
      let ?L = "length (split_lines (line @ [c]) cs)"
      have arith: "n \<le> 1024 \<and> (\<not> b \<longrightarrow> n + L \<le> 1025) \<longleftrightarrow> n + L \<le> 1025"
        if "0 < L" "b \<Longrightarrow> L = 1" for b and L :: nat
        using that by (cases b) auto
      have count: "n \<le> 1024 \<and> (cs \<noteq> [] \<longrightarrow> n + ?L \<le> 1025) \<longleftrightarrow> n + ?L \<le> 1025"
        by (rule arith) (simp_all add: split_lines_Nil)
      have "load_loop es rf (c # cs) n line parsed = Inr sch \<longleftrightarrow>
          c \<noteq> NUL \<and> n \<le> 1024 \<and> loads rf cs n (line @ [c]) parsed sch"
        using False plain Cons.prems Cons.IH [of parsed "line @ [c]" n] by auto
      also have "\<dots> \<longleftrightarrow> loads rf (c # cs) n line parsed sch"
        using plain count by (simp add: loads_def Let_def) blast
      finally show ?thesis .
    qed
  qed
qed

lemma schedule_load_loads:
  "central_schedule_load es oe (Some f) = Inr sch \<longleftrightarrow>
   file_close_ok f \<and> loads (file_read_failed f) (file_bytes f) 1 [] [] sch"
proof -
  have "schedule_ok []" by (simp add: schedule_ok_def)
  from load_loop_iff [OF this, of "[]" es "file_read_failed f" "file_bytes f" 1 sch] show ?thesis
    by (auto simp: central_schedule_load_def split: sum.splits)
qed

lemma schedule_load_ok:
  assumes "central_schedule_load es oe fl = Inr sch"
  shows "schedule_ok sch"
proof (cases fl)
  case None
  with assms show ?thesis by (simp add: central_schedule_load_def)
next
  case (Some f)
  with assms have "loads (file_read_failed f) (file_bytes f) 1 [] [] sch" by (simp add: schedule_load_loads)
  then show ?thesis by (auto simp: loads_def Let_def)
qed

section \<open>The mode of the day\<close>

lemma nearest_entry_spec:
  "list_all valid_entry es \<Longrightarrow> \<exists>n' s'.
     nearest_entry t m es n s = Some (n', s') \<and> n' \<le> n \<and>
     (\<forall>e \<in> set es. entry_applies t e \<longrightarrow> n' \<le> elapsed_since m e) \<and>
     (n' = n \<and> s' = s \<or>
      (\<exists>e \<in> set es. entry_applies t e \<and> elapsed_since m e = n' \<and> se_mode e = s' \<and> n' < n))"
proof (induction es arbitrary: n s)
  case (Cons e es)
  define b where "b \<longleftrightarrow> entry_applies t e \<and> elapsed_since m e < n"
  define n1 s1 where "n1 = (if b then elapsed_since m e else n)" and "s1 = (if b then se_mode e else s)"
  have step: "nearest_entry t m (e # es) n s = nearest_entry t m es n1 s1"
    using Cons.prems by (simp add: b_def n1_def s1_def)
  from Cons.IH [of n1 s1] Cons.prems obtain n' s' where
    "nearest_entry t m es n1 s1 = Some (n', s')" "n' \<le> n1"
    "\<forall>e \<in> set es. entry_applies t e \<longrightarrow> n' \<le> elapsed_since m e"
    "n' = n1 \<and> s' = s1 \<or>
     (\<exists>e \<in> set es. entry_applies t e \<and> elapsed_since m e = n' \<and> se_mode e = s' \<and> n' < n1)" by auto
  then show ?case unfolding step
    by (cases b) (auto simp: b_def n1_def s1_def)
qed simp

lemma elapsed_since_less: "elapsed_since m e < 24 * 60"
  by (simp add: elapsed_since_def)

lemma elapsed_since_inj:
  assumes "m < 1440" "valid_entry e" "valid_entry e'" "elapsed_since m e = elapsed_since m e'"
  shows "se_minute_of_day e = se_minute_of_day e'"
proof -
  have val: "(m + 1440 - a) mod 1440 = (if a \<le> m then m - a else m + 1440 - a)" if "a < 1440" for a
    using that assms(1) by (simp add: mod_if)
  from assms(2-4) show ?thesis
    by (simp add: elapsed_since_def valid_entry_def val split: if_splits)
qed

lemma sorted_wrt_conflict:
  "sorted_wrt (\<lambda>a b. \<not> entry_conflict a b) es \<Longrightarrow> e \<in> set es \<Longrightarrow> e' \<in> set es \<Longrightarrow>
   entry_conflict e e' \<Longrightarrow> e = e'"
proof (induction es)
  case (Cons x es)
  have "entry_conflict e' e" using Cons.prems(4) by (auto simp: entry_conflict_def)
  with Cons show ?case by auto
qed simp

definition latest_entry :: "central_schedule \<Rightarrow> nat \<Rightarrow> nat \<Rightarrow> central_schedule_entry \<Rightarrow> bool" where
  "latest_entry sch target minute e \<longleftrightarrow>
     e \<in> set sch \<and> entry_applies target e \<and>
     (\<forall>e' \<in> set sch. entry_applies target e' \<longrightarrow> elapsed_since minute e \<le> elapsed_since minute e')"

lemma latest_entry_unique:
  assumes "schedule_ok sch" "minute < 1440" "latest_entry sch t minute e" "latest_entry sch t minute e'"
  shows "e = e'"
proof -
  have "elapsed_since minute e = elapsed_since minute e'"
    using assms(3,4) by (auto simp: latest_entry_def intro!: antisym)
  with assms have "se_minute_of_day e = se_minute_of_day e'"
    by (intro elapsed_since_inj) (auto simp: schedule_ok_def list_all_iff latest_entry_def)
  with assms(3,4) have "entry_conflict e e'"
    by (auto simp: entry_conflict_def latest_entry_def entry_applies_def)
  with assms show ?thesis
    by (auto simp: schedule_ok_def latest_entry_def dest: sorted_wrt_conflict)
qed

lemma schedule_mode_latest:
  assumes ok: "schedule_ok sch" and t: "target < NUM_INTERSECTIONS" and m: "minute < 24 * 60"
  shows "central_schedule_mode sch target minute = Some mode \<longleftrightarrow>
     (\<exists>e. latest_entry sch target minute e \<and> se_mode e = mode)"
proof -
  from ok have "list_all valid_entry sch" by (simp add: schedule_ok_def)
  from nearest_entry_spec [OF this, of target minute "24 * 60" 0] obtain n s where
    near: "nearest_entry target minute sch (24 * 60) 0 = Some (n, s)"
    and least: "\<forall>e \<in> set sch. entry_applies target e \<longrightarrow> n \<le> elapsed_since minute e"
    and which: "n = 24 * 60 \<and> s = 0 \<or> (\<exists>e \<in> set sch. entry_applies target e \<and> elapsed_since minute e = n \<and>
      se_mode e = s \<and> n < 24 * 60)" by blast
  have eq: "central_schedule_mode sch target minute = (if n = 24 * 60 then None else Some s)"
    using near ok t m by (simp add: central_schedule_mode_def schedule_ok_def)
  show ?thesis
  proof (cases "n = 24 * 60")
    case True
    with least elapsed_since_less have "\<not> latest_entry sch target minute e" for e
      by (metis latest_entry_def not_le)
    with True eq show ?thesis by simp
  next
    case False
    with which obtain e where e: "e \<in> set sch" "entry_applies target e" "elapsed_since minute e = n" "se_mode e = s"
      by blast
    with least have latest: "latest_entry sch target minute e" unfolding latest_entry_def by simp
    have "e' = e" if "latest_entry sch target minute e'" for e'
      using latest_entry_unique [OF ok _ that latest] m by simp
    with e latest have "(\<exists>e. latest_entry sch target minute e \<and> se_mode e = mode) \<longleftrightarrow> s = mode" by blast
    with False eq show ?thesis by simp
  qed
qed

section \<open>Overrides\<close>

definition policy_ok :: "central_operator_policy \<Rightarrow> bool" where
  "policy_ok p \<longleftrightarrow>
     length (persistent_active p) = NUM_INTERSECTIONS \<and> length (persistent_mode p) = NUM_INTERSECTIONS \<and>
     length (temporary_mode p) = NUM_INTERSECTIONS \<and> length (temporary_until_ns p) = NUM_INTERSECTIONS"

lemma initial_policy_ok: "policy_ok initial_policy"
  by (simp add: policy_ok_def initial_policy_def)

lemma note_target_ok: "policy_ok p \<Longrightarrow> policy_ok (note_target action mode expires i p)"
  by (simp add: policy_ok_def note_target_def)

lemma note_operator_ok:
  "policy_ok p \<Longrightarrow> central_policy_note_operator t action mode d now p = Some p' \<Longrightarrow> policy_ok p'"
  by (auto simp: central_policy_note_operator_def split: if_splits option.splits intro!: fold_ok note_target_ok)

lemma resume_schedule_ok:
  "policy_ok p \<Longrightarrow> central_policy_resume_schedule t p = Some p' \<Longrightarrow> policy_ok p'"
  by (auto simp: central_policy_resume_schedule_def policy_ok_def split: if_splits
      intro!: fold_ok [where P = policy_ok, unfolded policy_ok_def])

text \<open>Writing one array over a range of targets.\<close>

lemma length_fold_update:
  "length (fold (\<lambda>i xs. xs[i := v]) is xs) = length xs"
  by (induction "is" arbitrary: xs) simp_all

lemma nth_fold_update:
  "j < length xs \<Longrightarrow> fold (\<lambda>i xs. xs[i := v]) is xs ! j = (if j \<in> set is then v else xs ! j)"
  by (induction "is" arbitrary: xs) (auto simp: nth_list_update)

lemma fold_note_target:
  "persistent_active (fold (note_target action mode expires) is p) =
     (if action = action_code CMD_SET_MODE then fold (\<lambda>i xs. xs[i := True]) is (persistent_active p)
      else persistent_active p)"
  "persistent_mode (fold (note_target action mode expires) is p) =
     (if action = action_code CMD_SET_MODE then fold (\<lambda>i xs. xs[i := mode]) is (persistent_mode p)
      else persistent_mode p)"
  "temporary_mode (fold (note_target action mode expires) is p) =
     (if action = action_code CMD_TEMPORARY then fold (\<lambda>i xs. xs[i := mode]) is (temporary_mode p)
      else temporary_mode p)"
  "temporary_until_ns (fold (note_target action mode expires) is p) =
     fold (\<lambda>i xs. xs[i := (if action = action_code CMD_TEMPORARY then expires else 0)]) is (temporary_until_ns p)"
  by (induction "is" arbitrary: p) (simp_all add: note_target_def)

lemma expiry_exact:
  assumes "0 < d" "d \<le> 65535" "- 1 - word_of_nat d * NS_PER_SECOND \<ge> (now :: u64)"
  shows "unat (now + word_of_nat d * NS_PER_SECOND) = unat now + d * 1000000000"
proof -
  have "unat (word_of_nat d * NS_PER_SECOND) = d * 1000000000"
    using assms(2) by (simp add: unat_word_ariths unat_of_nat)
  moreover have "unat (- 1 - word_of_nat d * NS_PER_SECOND) = 2 ^ 64 - 1 - unat (word_of_nat d * NS_PER_SECOND)"
    by (simp add: unat_sub unsigned_minus_1_eq_mask mask_eq_exp_minus_1)
  ultimately show ?thesis using assms(3) by (simp add: unat_word_ariths word_le_nat_alt)
qed

lemma desired_after_note:
  assumes "policy_ok p" "i < NUM_INTERSECTIONS" "minute < 24 * 60"
    "central_policy_note_operator t (action_code CMD_TEMPORARY) mode d now p = Some p'"
  shows "central_policy_desired_mode p' sch i minute later =
     (if i \<in> set (target_range t) then
        if unat later < unat now + d * 1000000000 then Some (mode, CMD_PRIO_OPERATOR)
        else central_policy_desired_mode (p\<lparr>temporary_until_ns := (temporary_until_ns p)[i := 0]\<rparr>) sch i minute later
      else central_policy_desired_mode p sch i minute later)"
proof -
  let ?until = "now + word_of_nat d * NS_PER_SECOND"
  from assms(4) have d: "0 < d" "d \<le> 65535" "now \<le> - 1 - word_of_nat d * NS_PER_SECOND"
    and p': "p' = fold (note_target (action_code CMD_TEMPORARY) mode ?until) (target_range t) p"
    by (auto simp: central_policy_note_operator_def operator_expiry_def Let_def split: if_splits)
  have "later < ?until \<longleftrightarrow> unat later < unat now + d * 1000000000"
    by (simp add: word_less_nat_alt expiry_exact [OF d])
  then show ?thesis
    using assms(1-3) by (simp add: p' central_policy_desired_mode_def fold_note_target nth_fold_update
        length_fold_update policy_ok_def)
qed

section \<open>Properties\<close>

text \<open>C27: Loading a schedule file is all or nothing, and exact: the load succeeds precisely when the file
  can be read and closed, holds no NUL byte, has at most 1024 lines of at most 255 characters, every line
  is empty, a comment or an entry, and the entries, in the order of the file, number at most 32 and never
  set two modes for one intersection at one minute; the schedule is then the list of those entries.\<close>

theorem schedule_load_exact:
  "central_schedule_load error_size open_error (Some f) = Inr sch \<longleftrightarrow>
     (let ls = split_lines [] (file_bytes f) in
      file_close_ok f \<and> \<not> file_read_failed f \<and> NUL \<notin> set (file_bytes f) \<and>
      list_all line_ok ls \<and> length ls \<le> CENTRAL_SCHEDULE_MAX_FILE_LINES \<and>
      sch = schedule_entries ls \<and> schedule_ok sch)"
proof -
  have "length (split_lines [] (file_bytes f)) = 0" if "file_bytes f = []" using that by simp
  then show ?thesis
    by (cases "file_bytes f = []") (auto simp: schedule_load_loads loads_def Let_def list_all_iff)
qed

text \<open>What a schedule says, read off its entries alone: that it sets a mode for an intersection at a time of
  day, by an entry for that intersection or one for all of them (target 255).\<close>

definition schedule_sets :: "central_schedule \<Rightarrow> nat \<Rightarrow> nat \<Rightarrow> u8 \<Rightarrow> bool" where
  "schedule_sets sch target clock mode \<longleftrightarrow>
     (\<exists>e \<in> set sch. se_minute_of_day e = clock \<and> (se_target e = target \<or> se_target e = 255) \<and> se_mode e = mode)"

lemma back_elapsed:
  assumes "minute < 1440" "valid_entry e" "back < 1440"
  shows "se_minute_of_day e = (minute + 1440 - back) mod 1440 \<longleftrightarrow> elapsed_since minute e = back"
proof -
  from assms(2) have "se_minute_of_day e < 1440" by (simp add: valid_entry_def)
  then show ?thesis using assms(1,3) by (simp add: elapsed_since_def mod_if) arith
qed

lemma sets_elapsed:
  assumes "list_all valid_entry sch" "minute < 1440" "back < 1440"
  shows "schedule_sets sch target ((minute + 1440 - back) mod 1440) mode \<longleftrightarrow>
     (\<exists>e \<in> set sch. entry_applies target e \<and> elapsed_since minute e = back \<and> se_mode e = mode)"
proof -
  from assms(1) have "\<forall>e \<in> set sch. valid_entry e" by (simp add: list_all_iff)
  with back_elapsed [OF assms(2) _ assms(3)] show ?thesis
    by (auto simp: schedule_sets_def entry_applies_def)
qed

text \<open>C28: The mode a loaded schedule asks of an intersection at a time of day is found by turning the clock
  back from that time, minute by minute for up to a day and past midnight: it is the mode the file sets for
  that intersection, or for all of them, at the first time at which it sets one, wherever the entry stands
  in the file. When the file sets none for the intersection there is no mode.\<close>

theorem loaded_schedule_mode:
  assumes "central_schedule_load error_size open_error fl = Inr sch"
    "target < NUM_INTERSECTIONS" "minute < 24 * 60"
  shows "central_schedule_mode sch target minute = Some mode \<longleftrightarrow>
     (\<exists>back < 1440. schedule_sets sch target ((minute + 1440 - back) mod 1440) mode \<and>
        (\<forall>later < back. \<nexists>m. schedule_sets sch target ((minute + 1440 - later) mod 1440) m))"
proof -
  have ok: "schedule_ok sch" using assms(1) by (rule schedule_load_ok)
  then have valid: "list_all valid_entry sch" by (simp add: schedule_ok_def)
  have "minute < 1440" using assms(3) by simp
  note sets = sets_elapsed [OF valid this]
  have "(\<exists>e. latest_entry sch target minute e \<and> se_mode e = mode) \<longleftrightarrow>
      (\<exists>back < 1440. (\<exists>e \<in> set sch. entry_applies target e \<and> elapsed_since minute e = back \<and> se_mode e = mode) \<and>
        (\<forall>later < back. \<nexists>m. \<exists>e \<in> set sch. entry_applies target e \<and> elapsed_since minute e = later \<and> se_mode e = m))"
    using elapsed_since_less [of minute] unfolding latest_entry_def by (fastforce simp: not_less [symmetric])
  also have "\<dots> \<longleftrightarrow> (\<exists>back < 1440. schedule_sets sch target ((minute + 1440 - back) mod 1440) mode \<and>
        (\<forall>later < back. \<nexists>m. schedule_sets sch target ((minute + 1440 - later) mod 1440) m))"
    by (intro ex_cong1 conj_cong refl all_cong) (simp_all add: sets)
  finally show ?thesis using schedule_mode_latest [OF ok assms(2,3)] by simp
qed

text \<open>A file with two entries: at 05:00 the evening entry of the day before still holds.\<close>

definition sample_file :: schedule_file where
  "sample_file = \<lparr>file_bytes = ''07:30 sensor all # morning'' @ [CHR 0x0A] @ ''19:00 fixed I2'',
     file_read_failed = False, file_close_ok = True\<rparr>"

definition sample_schedule :: central_schedule where
  "sample_schedule = [\<lparr>se_minute_of_day = 450, se_target = 255, se_mode = 1\<rparr>,
     \<lparr>se_minute_of_day = 1140, se_target = 1, se_mode = 0\<rparr>]"

theorem loaded_schedule_mode_witness:
  "central_schedule_load 256 [] (Some sample_file) = Inr sample_schedule \<and>
   (\<exists>back < 1440. schedule_sets sample_schedule 1 ((300 + 1440 - back) mod 1440) (mode_code MODE_FIXED) \<and>
      (\<forall>later < back. \<nexists>m. schedule_sets sample_schedule 1 ((300 + 1440 - later) mod 1440) m))"
proof -
  have load: "central_schedule_load 256 [] (Some sample_file) = Inr sample_schedule" by code_simp
  have "central_schedule_mode sample_schedule 1 300 = Some (mode_code MODE_FIXED)" by code_simp
  then show ?thesis using load loaded_schedule_mode [OF load, of 1 300 "mode_code MODE_FIXED"] by simp
qed

text \<open>C29: A temporary override holds for exactly its duration and leaves no trace: for the intersections
  it names the desired mode is the temporary one until \<open>d\<close> seconds after it was recorded, and from then on
  what it would be had no temporary override been set (the persistent override, or else the schedule).
  Every other intersection is unaffected. The 64-bit deadline never wraps.\<close>

theorem temporary_override_expires:
  assumes "policy_ok p" "i < NUM_INTERSECTIONS" "minute < 24 * 60"
    "central_policy_note_operator t (action_code CMD_TEMPORARY) mode d now p = Some p'"
  shows "central_policy_desired_mode p' sch i minute later =
     (if i \<in> set (target_range t) then
        if unat later < unat now + d * 1000000000 then Some (mode, CMD_PRIO_OPERATOR)
        else central_policy_desired_mode (p\<lparr>temporary_until_ns := (temporary_until_ns p)[i := 0]\<rparr>) sch i minute later
      else central_policy_desired_mode p sch i minute later)"
  using assms by (rule desired_after_note)

theorem temporary_override_expires_witness:
  "\<exists>p'. central_policy_note_operator 2 (action_code CMD_TEMPORARY) 1 60 5 initial_policy = Some p' \<and>
        central_policy_desired_mode p' sample_schedule 2 480 60000000004 = Some (1, CMD_PRIO_OPERATOR) \<and>
        central_policy_desired_mode p' sample_schedule 2 480 60000000005 = Some (1, CMD_PRIO_SCHEDULE)"
proof -
  define p' where "p' = (initial_policy\<lparr>temporary_mode := [0, 0, 1, 0, 0, 0],
    temporary_until_ns := [0, 0, 60000000005, 0, 0, 0]\<rparr>)"
  have noted: "central_policy_note_operator 2 (action_code CMD_TEMPORARY) 1 60 5 initial_policy = Some p'"
  proof -
    have "target_range 2 = [2]" by code_simp
    moreover have "(replicate 6 0)[2 := x] = [0, 0, x, 0, 0, 0]" "(replicate 6 0)[2 := y] = [0, 0, y, 0, 0, 0]"
      for x :: u8 and y :: u64
      by (simp_all add: numeral_eq_Suc)
    ultimately show ?thesis
      by (simp add: p'_def central_policy_note_operator_def operator_expiry_def note_target_def
          valid_target_def initial_policy_def word_less_def)
  qed
  have sch: "central_policy_desired_mode (initial_policy\<lparr>temporary_until_ns := (temporary_until_ns initial_policy)[2 := 0]\<rparr>)
      sample_schedule 2 480 60000000005 = Some (1, CMD_PRIO_SCHEDULE)"
  proof -
    have "central_schedule_mode sample_schedule 2 480 = Some 1" by code_simp
    then show ?thesis by (simp add: central_policy_desired_mode_def initial_policy_def)
  qed
  have here: "2 \<in> set (target_range 2)" by (simp add: target_range_def)
  have times: "unat (60000000004 :: u64) < unat (5 :: u64) + 60 * 1000000000"
    "\<not> unat (60000000005 :: u64) < unat (5 :: u64) + 60 * 1000000000" by simp_all
  have "(2 :: nat) < 6" "(480 :: nat) < 24 * 60" by simp_all
  note held = temporary_override_expires [OF initial_policy_ok this noted, of sample_schedule]
  have "central_policy_desired_mode p' sample_schedule 2 480 60000000004 = Some (1, CMD_PRIO_OPERATOR)"
    by (simp only: held here times if_True)
  moreover have "central_policy_desired_mode p' sample_schedule 2 480 60000000005 = Some (1, CMD_PRIO_SCHEDULE)"
    by (simp only: held here times if_True if_False sch)
  ultimately show ?thesis using noted by blast
qed

end
