(* ===== verification/Central_Monitor.thy ===== *)
theory Central_Monitor
  imports Protocol
begin

text \<open>
  What Central knows about its peers: \<^verbatim>\<open>monitor.c\<close> of the Central controller. The monitor keeps, for each
  peer, whether it is connected and when it was last heard; for each intersection and crossing, the last
  accepted status, when it came and whether it is still synchronised with a live peer; and the reported
  health. Times are nanoseconds of the monotonic clock.
\<close>

section \<open>State\<close>

record central_reported_health =
  rh_seen :: bool
  rh_healthy :: nat
  rh_received_at :: u64

record central_peer_status =
  pr_connected :: bool
  pr_seen :: bool
  pr_last_seen :: u64

record central_intersection_status =
  iv_valid :: bool
  iv_synchronized :: bool
  iv_received_at :: u64
  iv_status :: status_msg

record central_crossing_status =
  cv_valid :: bool
  cv_synchronized :: bool
  cv_received_at :: u64
  cv_status :: railway_status_msg

record central_monitor =
  status_max_age_ns :: u64
  mon_peers :: "central_peer_status list"
  mon_health :: "central_reported_health list list"
  mon_intersections :: "central_intersection_status list"
  mon_crossings :: "central_crossing_status list"

abbreviation (input) CENTRAL_NSEC :: u64 where "CENTRAL_NSEC \<equiv> 1000000000"
abbreviation (input) CENTRAL_STATUS_STALE_SEC :: nat where "CENTRAL_STATUS_STALE_SEC \<equiv> 5"

definition central_monitor_init :: "nat \<Rightarrow> central_monitor" where
  "central_monitor_init max_age_seconds =
     \<lparr>status_max_age_ns =
        word_of_nat (if max_age_seconds \<noteq> 0 then max_age_seconds else CENTRAL_STATUS_STALE_SEC) * CENTRAL_NSEC,
      mon_peers = replicate 2 \<lparr>pr_connected = False, pr_seen = False, pr_last_seen = 0\<rparr>,
      mon_health = replicate 2 (replicate NUM_INTERSECTIONS
        \<lparr>rh_seen = False, rh_healthy = 0, rh_received_at = 0\<rparr>),
      mon_intersections = replicate NUM_INTERSECTIONS
        \<lparr>iv_valid = False, iv_synchronized = False, iv_received_at = 0, iv_status = decode_status zero_data\<rparr>,
      mon_crossings = replicate NUM_CROSSINGS
        \<lparr>cv_valid = False, cv_synchronized = False, cv_received_at = 0,
         cv_status = decode_railway_status zero_data\<rparr>\<rparr>"

definition central_monitor_status_max_age_ns :: "central_monitor \<Rightarrow> u64" where
  "central_monitor_status_max_age_ns m =
     (if status_max_age_ns m \<noteq> 0 then status_max_age_ns m
      else word_of_nat CENTRAL_STATUS_STALE_SEC * CENTRAL_NSEC)"

section \<open>Peers\<close>

definition central_peer_index :: "u16 \<Rightarrow> nat option" where
  "central_peer_index source =
     (if source = controller_code CONTROLLER_LOCAL then Some 0
      else if source = controller_code CONTROLLER_TRAIN then Some 1 else None)"

definition sender_count :: "u16 \<Rightarrow> nat" where
  "sender_count source =
     (if source = controller_code CONTROLLER_TRAIN then NUM_CROSSINGS else NUM_INTERSECTIONS)"

text \<open>-1 unknown, 0 degraded, 1 healthy.\<close>

definition central_monitor_health :: "central_monitor \<Rightarrow> u16 \<Rightarrow> nat \<Rightarrow> int" where
  "central_monitor_health m source sender_id =
     (case central_peer_index source of
        None \<Rightarrow> - 1
      | Some index \<Rightarrow>
          if sender_count source \<le> sender_id \<or> \<not> rh_seen (mon_health m ! index ! sender_id) then - 1
          else int (rh_healthy (mon_health m ! index ! sender_id)))"

definition central_peer_online :: "central_monitor \<Rightarrow> u16 \<Rightarrow> u64 \<Rightarrow> bool" where
  "central_peer_online m source now \<longleftrightarrow>
     (case central_peer_index source of
        None \<Rightarrow> False
      | Some index \<Rightarrow>
          let peer = mon_peers m ! index in
          pr_seen peer \<and> pr_last_seen peer \<le> now \<and>
          now - pr_last_seen peer < word_of_nat HEARTBEAT_MISS_LIMIT * CENTRAL_NSEC)"

definition central_peer_disconnected :: "u16 \<Rightarrow> central_monitor \<Rightarrow> central_monitor" where
  "central_peer_disconnected source m =
     (case central_peer_index source of
        None \<Rightarrow> m
      | Some index \<Rightarrow>
          let m1 = m\<lparr>mon_peers := (mon_peers m)
                [index := (mon_peers m ! index)\<lparr>pr_connected := False, pr_seen := False\<rparr>]\<rparr>
          in if source = controller_code CONTROLLER_LOCAL
             then m1\<lparr>mon_intersections := map (\<lambda>e. e\<lparr>iv_synchronized := False\<rparr>) (mon_intersections m1)\<rparr>
             else m1\<lparr>mon_crossings := map (\<lambda>e. e\<lparr>cv_synchronized := False\<rparr>) (mon_crossings m1)\<rparr>)"

text \<open>Whether contact was restored, and the monitor.\<close>

definition central_observe_peer :: "u16 \<Rightarrow> u64 \<Rightarrow> central_monitor \<Rightarrow> bool \<times> central_monitor" where
  "central_observe_peer source now m =
     (case central_peer_index source of
        None \<Rightarrow> (False, m)
      | Some index \<Rightarrow>
          let restored = \<not> central_peer_online m source now;
              connected = pr_connected (mon_peers m ! index);
              m1 = (if restored
                    then (let m' = central_peer_disconnected source m
                          in m'\<lparr>mon_peers := (mon_peers m')
                               [index := (mon_peers m' ! index)\<lparr>pr_connected := connected\<rparr>]\<rparr>)
                    else m)
          in (restored, m1\<lparr>mon_peers := (mon_peers m1)
                [index := (mon_peers m1 ! index)\<lparr>pr_seen := True, pr_last_seen := now\<rparr>]\<rparr>))"

section \<open>Reports\<close>

definition central_monitor_heartbeat ::
  "u16 \<Rightarrow> heartbeat_msg \<Rightarrow> u64 \<Rightarrow> central_monitor \<Rightarrow> bool \<times> central_monitor" where
  "central_monitor_heartbeat source heartbeat now m =
     (case central_peer_index source of
        None \<Rightarrow> (False, m)
      | Some index \<Rightarrow>
          if sender_count source \<le> unat (hb_sender_id heartbeat) \<or> 1 < hb_healthy heartbeat then (False, m)
          else
            let m1 = snd (central_observe_peer source now m);
                sender = unat (hb_sender_id heartbeat)
            in if hb_sender_id heartbeat = 0 \<and> hb_healthy heartbeat = 0 \<and> hb_sequence heartbeat = 0
               then (True, m1)
               else (True, m1\<lparr>mon_health := (mon_health m1)[index := (mon_health m1 ! index)
                      [sender := \<lparr>rh_seen = True, rh_healthy = unat (hb_healthy heartbeat),
                                  rh_received_at = now\<rparr>]]\<rparr>))"

definition status_in_range :: "status_msg \<Rightarrow> bool" where
  "status_in_range s \<longleftrightarrow>
     unat (st_intersection_id s) < NUM_INTERSECTIONS \<and> st_mode s \<le> mode_code MODE_FAILSAFE \<and>
     st_phase s \<le> phase_code PHASE_RAILWAY_HOLD \<and> st_ns_state s \<le> light_code LIGHT_GREEN \<and>
     st_ew_state s \<le> light_code LIGHT_GREEN \<and> st_pedestrian_ns s \<le> 1 \<and> st_pedestrian_ew s \<le> 1 \<and>
     st_railway_preempt s \<le> 1 \<and> st_telemetry_version s \<le> STATUS_TELEMETRY_VERSION \<and> st_reserved s = 0 \<and>
     st_pedestrian_ns_request s \<le> 1 \<and> st_pedestrian_ew_request s \<le> 1 \<and> st_sim_running s \<le> 1 \<and>
     st_train_pending s \<le> 1 \<and> st_train_active s \<le> 1 \<and> st_manual_mode_override s \<le> 1 \<and>
     st_manual_sensor_override s \<le> 1 \<and> st_coordination_pending s \<le> 1 \<and> st_fault_active s \<le> 1 \<and>
     st_fault_type s \<le> fault_code FAULT_NOT_WORKING \<and> st_fault_severity s \<le> severity_code SEV_CRITICAL \<and>
     (st_telemetry_version s = 0 \<or> unat (st_sim_minute_of_day s) < 24 * 60)"

definition central_monitor_status :: "status_msg \<Rightarrow> u64 \<Rightarrow> central_monitor \<Rightarrow> bool \<times> central_monitor" where
  "central_monitor_status s now m =
     (if \<not> status_in_range s then (False, m)
      else
        let m1 = snd (central_observe_peer (controller_code CONTROLLER_LOCAL) now m)
        in (True, m1\<lparr>mon_intersections := (mon_intersections m1)
             [unat (st_intersection_id s) :=
                \<lparr>iv_valid = True, iv_synchronized = True, iv_received_at = now, iv_status = s\<rparr>]\<rparr>))"

definition railway_in_range :: "railway_status_msg \<Rightarrow> bool" where
  "railway_in_range s \<longleftrightarrow>
     unat (rs_crossing_id s) < NUM_CROSSINGS \<and> rs_train_state s \<le> train_code TRAIN_CLEAR \<and>
     rs_gate_state s \<le> gate_code GATE_FAULT \<and> rs_fault s \<le> fault_code FAULT_NOT_WORKING \<and>
     rs_track_states s \<le> 1 \<and> rs_up_state s \<le> train_code TRAIN_CLEAR \<and>
     rs_down_state s \<le> train_code TRAIN_CLEAR \<and> rs_reserved s = 0"

definition central_monitor_railway ::
  "railway_status_msg \<Rightarrow> u64 \<Rightarrow> central_monitor \<Rightarrow> bool \<times> central_monitor" where
  "central_monitor_railway s now m =
     (if \<not> railway_in_range s then (False, m)
      else
        let m1 = snd (central_observe_peer (controller_code CONTROLLER_TRAIN) now m)
        in (True, m1\<lparr>mon_crossings := (mon_crossings m1)
             [unat (rs_crossing_id s) :=
                \<lparr>cv_valid = True, cv_synchronized = True, cv_received_at = now, cv_status = s\<rparr>]\<rparr>))"

definition central_can_command :: "central_monitor \<Rightarrow> nat \<Rightarrow> u64 \<Rightarrow> bool" where
  "central_can_command m target now \<longleftrightarrow>
     target < NUM_INTERSECTIONS \<and> pr_connected (mon_peers m ! 0) \<and>
     central_peer_online m (controller_code CONTROLLER_LOCAL) now \<and>
     central_monitor_health m (controller_code CONTROLLER_LOCAL) target \<noteq> 0 \<and>
     (let entry = mon_intersections m ! target in
      iv_valid entry \<and> iv_synchronized entry \<and> iv_received_at entry \<le> now \<and>
      now - iv_received_at entry < central_monitor_status_max_age_ns m)"

section \<open>Well-formed monitors\<close>

named_theorems monitor_frame \<open>what an operation of the monitor leaves alone\<close>

definition slots_ok :: "central_intersection_status list \<Rightarrow> bool" where
  "slots_ok xs \<longleftrightarrow> length xs = NUM_INTERSECTIONS \<and>
     (\<forall>i < length xs. iv_valid (xs ! i) \<longrightarrow>
        status_in_range (iv_status (xs ! i)) \<and> unat (st_intersection_id (iv_status (xs ! i))) = i)"

definition crossings_ok :: "central_crossing_status list \<Rightarrow> bool" where
  "crossings_ok xs \<longleftrightarrow> length xs = NUM_CROSSINGS \<and>
     (\<forall>i < length xs. cv_valid (xs ! i) \<longrightarrow>
        railway_in_range (cv_status (xs ! i)) \<and> unat (rs_crossing_id (cv_status (xs ! i))) = i)"

definition health_ok :: "central_reported_health list list \<Rightarrow> bool" where
  "health_ok hs \<longleftrightarrow> length hs = 2 \<and>
     (\<forall>h \<in> set hs. length h = NUM_INTERSECTIONS \<and> (\<forall>r \<in> set h. rh_healthy r \<le> 1))"

definition monitor_ok :: "central_monitor \<Rightarrow> bool" where
  "monitor_ok m \<longleftrightarrow> length (mon_peers m) = 2 \<and> health_ok (mon_health m) \<and>
     slots_ok (mon_intersections m) \<and> crossings_ok (mon_crossings m)"

lemma peer_index_less: "central_peer_index source = Some i \<Longrightarrow> i < 2"
  by (auto simp: central_peer_index_def split: if_splits)

lemma disconnected_frame [monitor_frame]:
  "length (mon_peers (central_peer_disconnected source m)) = length (mon_peers m)"
  "mon_health (central_peer_disconnected source m) = mon_health m"
  "status_max_age_ns (central_peer_disconnected source m) = status_max_age_ns m"
  by (simp_all add: central_peer_disconnected_def Let_def split: option.split)

lemma observe_frame [monitor_frame]:
  "length (mon_peers (snd (central_observe_peer source now m))) = length (mon_peers m)"
  "mon_health (snd (central_observe_peer source now m)) = mon_health m"
  "status_max_age_ns (snd (central_observe_peer source now m)) = status_max_age_ns m"
  by (simp_all add: central_observe_peer_def Let_def disconnected_frame split: option.split)

text \<open>Observing a peer changes the slots only by taking synchronisation away from all of them.\<close>

lemma desync_slots_ok: "slots_ok xs \<Longrightarrow> slots_ok (map (\<lambda>e. e\<lparr>iv_synchronized := False\<rparr>) xs)"
  by (simp add: slots_ok_def)

lemma desync_crossings_ok: "crossings_ok xs \<Longrightarrow> crossings_ok (map (\<lambda>e. e\<lparr>cv_synchronized := False\<rparr>) xs)"
  by (simp add: crossings_ok_def)

lemma disconnected_ok: "monitor_ok m \<Longrightarrow> monitor_ok (central_peer_disconnected source m)"
  by (simp add: monitor_ok_def central_peer_disconnected_def Let_def desync_slots_ok desync_crossings_ok
      split: option.split)

lemma observe_ok: "monitor_ok m \<Longrightarrow> monitor_ok (snd (central_observe_peer source now m))"
  using disconnected_ok [of m source]
  by (simp add: central_observe_peer_def Let_def monitor_ok_def split: option.split)

lemma health_update_ok:
  assumes "health_ok hs" "rh_healthy r \<le> 1"
  shows "health_ok (hs[i := (hs ! i)[j := r]])"
proof (cases "i < length hs")
  case True
  then have mem: "hs ! i \<in> set hs" by simp
  have inner: "rh_healthy q \<le> 1" if "q \<in> set ((hs ! i)[j := r])" for q
    using that assms mem set_update_subset_insert [of "hs ! i" j r] by (auto simp: health_ok_def)
  show ?thesis using assms mem inner set_update_subset_insert [of hs i "(hs ! i)[j := r]"]
    by (fastforce simp: health_ok_def)
next
  case False
  then show ?thesis using assms by (simp add: list_update_beyond)
qed

lemma heartbeat_ok:
  assumes "monitor_ok m"
  shows "monitor_ok (snd (central_monitor_heartbeat source hb now m))"
proof (cases "central_peer_index source")
  case (Some i)
  show ?thesis using assms Some observe_ok [OF assms, of source now]
    by (auto simp: central_monitor_heartbeat_def Let_def monitor_ok_def word_less_nat_alt not_less
        intro!: health_update_ok)
qed (simp add: central_monitor_heartbeat_def assms)

lemma slots_update_ok:
  "slots_ok xs \<Longrightarrow> status_in_range s \<Longrightarrow>
   slots_ok (xs[unat (st_intersection_id s) :=
     \<lparr>iv_valid = True, iv_synchronized = y, iv_received_at = t, iv_status = s\<rparr>])"
  by (auto simp: slots_ok_def nth_update_if)

lemma crossings_update_ok:
  "crossings_ok xs \<Longrightarrow> railway_in_range s \<Longrightarrow>
   crossings_ok (xs[unat (rs_crossing_id s) :=
     \<lparr>cv_valid = True, cv_synchronized = y, cv_received_at = t, cv_status = s\<rparr>])"
  by (auto simp: crossings_ok_def nth_update_if)

lemma status_ok: "monitor_ok m \<Longrightarrow> monitor_ok (snd (central_monitor_status s now m))"
  using observe_ok [of m "controller_code CONTROLLER_LOCAL" now]
  by (simp add: central_monitor_status_def Let_def monitor_ok_def slots_update_ok)

lemma railway_ok: "monitor_ok m \<Longrightarrow> monitor_ok (snd (central_monitor_railway s now m))"
  using observe_ok [of m "controller_code CONTROLLER_TRAIN" now]
  by (simp add: central_monitor_railway_def Let_def monitor_ok_def crossings_update_ok)

lemma central_monitor_init_ok: "monitor_ok (central_monitor_init n)"
  by (simp add: monitor_ok_def central_monitor_init_def health_ok_def slots_ok_def crossings_ok_def)

section \<open>The monitor as a machine\<close>

text \<open>Everything that happens to a monitor: the reports it receives, the probe that observed a peer, and the
  peer thread's notes of a connection made or lost.\<close>

datatype monitor_event =
    Heard_Heartbeat u16 heartbeat_msg u64
  | Heard_Status status_msg u64
  | Heard_Railway railway_status_msg u64
  | Probe_Answered u16 u64
  | Peer_Connected nat
  | Peer_Lost u16
  | Slots_Lost "nat list"

primrec monitor_step :: "monitor_event \<Rightarrow> central_monitor \<Rightarrow> central_monitor" where
  "monitor_step (Heard_Heartbeat source hb now) m = snd (central_monitor_heartbeat source hb now m)"
| "monitor_step (Heard_Status s now) m = snd (central_monitor_status s now m)"
| "monitor_step (Heard_Railway s now) m = snd (central_monitor_railway s now m)"
| "monitor_step (Probe_Answered source now) m = snd (central_observe_peer source now m)"
| "monitor_step (Peer_Connected i) m =
     m\<lparr>mon_peers := (mon_peers m)[i := (mon_peers m ! i)\<lparr>pr_connected := True\<rparr>]\<rparr>"
| "monitor_step (Peer_Lost source) m = central_peer_disconnected source m"
| "monitor_step (Slots_Lost targets) m =
     m\<lparr>mon_intersections := fold (\<lambda>i xs. xs[i := (xs ! i)\<lparr>iv_synchronized := False\<rparr>]) targets (mon_intersections m)\<rparr>"

lemma desync_one_ok: "slots_ok xs \<Longrightarrow> slots_ok (xs[i := (xs ! i)\<lparr>iv_synchronized := False\<rparr>])"
  by (auto simp: slots_ok_def nth_update_if)

lemma monitor_step_ok: "monitor_ok m \<Longrightarrow> monitor_ok (monitor_step e m)"
proof (cases e)
  case (Slots_Lost targets)
  assume "monitor_ok m"
  with Slots_Lost show ?thesis
    by (auto simp: monitor_ok_def intro!: fold_ok [where P = slots_ok] desync_one_ok)
qed (simp_all add: heartbeat_ok status_ok railway_ok observe_ok disconnected_ok, simp add: monitor_ok_def)

interpretation monitor: inv_machine monitor_step "\<lambda>_. True" monitor_ok
  by unfold_locales (rule monitor_step_ok)

section \<open>What stands behind a permission to command\<close>

text \<open>The report that keeps intersection \<open>t\<close> synchronised, in a history with the latest event first: the
  last accepted status of that intersection, unless the peer or the intersection's endpoint was lost since.\<close>

fun backing :: "nat \<Rightarrow> monitor_event list \<Rightarrow> (status_msg \<times> u64) option" where
  "backing t [] = None"
| "backing t (Heard_Status s now # h) =
     (if status_in_range s \<and> unat (st_intersection_id s) = t then Some (s, now) else backing t h)"
| "backing t (Peer_Lost source # h) =
     (if source = controller_code CONTROLLER_LOCAL then None else backing t h)"
| "backing t (Slots_Lost targets # h) = (if t \<in> set targets then None else backing t h)"
| "backing t (_ # h) = backing t h"

text \<open>The times at which Local was heard.\<close>

fun local_contact :: "monitor_event \<Rightarrow> u64 set" where
  "local_contact (Heard_Heartbeat source hb now) =
     (if source = controller_code CONTROLLER_LOCAL \<and> unat (hb_sender_id hb) < NUM_INTERSECTIONS \<and> hb_healthy hb \<le> 1
      then {now} else {})"
| "local_contact (Heard_Status s now) = (if status_in_range s then {now} else {})"
| "local_contact (Probe_Answered source now) = (if source = controller_code CONTROLLER_LOCAL then {now} else {})"
| "local_contact _ = {}"

text \<open>Operations that concern Train leave the intersections alone; observing Local at most takes
  synchronisation away.\<close>

lemma observe_slots:
  assumes "iv_synchronized (mon_intersections (snd (central_observe_peer source now m)) ! t)"
    "t < length (mon_intersections m)"
  shows "mon_intersections (snd (central_observe_peer source now m)) ! t = mon_intersections m ! t"
  using assms
  by (auto simp: central_observe_peer_def central_peer_disconnected_def Let_def split: option.splits if_splits)

lemma heartbeat_slots:
  "mon_intersections (snd (central_monitor_heartbeat source hb now m)) =
     (if \<exists>i. central_peer_index source = Some i \<and>
          \<not> (sender_count source \<le> unat (hb_sender_id hb) \<or> 1 < hb_healthy hb)
      then mon_intersections (snd (central_observe_peer source now m)) else mon_intersections m)"
  by (auto simp: central_monitor_heartbeat_def Let_def split: option.splits)

lemma railway_slots:
  "mon_intersections (snd (central_monitor_railway s now m)) = mon_intersections m"
  by (simp add: central_monitor_railway_def central_observe_peer_def central_peer_disconnected_def
      central_peer_index_def Let_def)

definition slot_backed :: "nat \<Rightarrow> monitor_event list \<Rightarrow> central_intersection_status list \<Rightarrow> bool" where
  "slot_backed t h xs \<longleftrightarrow>
     (iv_synchronized (xs ! t) \<longrightarrow> backing t h = Some (iv_status (xs ! t), iv_received_at (xs ! t)))"

lemma slot_backed_kept:
  "slot_backed t h xs \<Longrightarrow> backing t (e # h) = backing t h \<Longrightarrow>
   (iv_synchronized (ys ! t) \<Longrightarrow> ys ! t = xs ! t) \<Longrightarrow> slot_backed t (e # h) ys"
  by (auto simp: slot_backed_def)

lemma desync_nth:
  "t < length xs \<Longrightarrow>
   fold (\<lambda>i xs. xs[i := (xs ! i)\<lparr>iv_synchronized := False\<rparr>]) targets xs ! t =
     (if t \<in> set targets then (xs ! t)\<lparr>iv_synchronized := False\<rparr> else xs ! t)"
  by (induction targets arbitrary: xs) (auto simp: nth_update_if)

lemma slot_backed_step:
  assumes "slot_backed t h (mon_intersections m)" "t < NUM_INTERSECTIONS" "monitor_ok m"
  shows "slot_backed t (e # h) (mon_intersections (monitor_step e m))"
proof -
  have len: "t < length (mon_intersections m)"
    using assms by (simp add: monitor_ok_def slots_ok_def)
  show ?thesis
  proof (cases e)
    case (Heard_Heartbeat source hb now)
    show ?thesis unfolding Heard_Heartbeat
      using assms(1) by (rule slot_backed_kept) (auto simp: heartbeat_slots len intro: observe_slots split: if_splits)
  next
    case (Heard_Status s now)
    let ?m1 = "snd (central_observe_peer (controller_code CONTROLLER_LOCAL) now m)"
    have len1: "t < length (mon_intersections ?m1)"
      using observe_ok [OF assms(3)] assms(2) by (simp add: monitor_ok_def slots_ok_def)
    have "slot_backed t h (mon_intersections ?m1)"
      using assms(1) observe_slots [OF _ len, of "controller_code CONTROLLER_LOCAL" now] by (auto simp: slot_backed_def)
    with assms(1) len1 show ?thesis unfolding Heard_Status
      by (auto simp: slot_backed_def central_monitor_status_def Let_def nth_update_if)
  next
    case (Probe_Answered source now)
    show ?thesis unfolding Probe_Answered
      using assms(1) by (rule slot_backed_kept) (auto simp: len intro: observe_slots)
  next
    case (Peer_Lost source)
    with assms(1) len show ?thesis
      by (auto simp: slot_backed_def central_peer_disconnected_def central_peer_index_def Let_def)
  next
    case (Slots_Lost targets)
    with assms(1) len show ?thesis by (simp add: slot_backed_def desync_nth)
  qed (use assms(1) in \<open>simp_all add: slot_backed_def railway_slots\<close>)
qed

lemma run_slot_backed:
  assumes "t < NUM_INTERSECTIONS"
  shows "slot_backed t (rev es) (mon_intersections (fold monitor_step es (central_monitor_init n)))"
proof (induction es rule: rev_induct)
  case Nil
  show ?case using assms by (simp add: slot_backed_def central_monitor_init_def)
next
  case (snoc e es)
  from slot_backed_step [OF snoc assms monitor.run_inv [OF central_monitor_init_ok]] show ?case by simp
qed

text \<open>Local's \<open>last_seen\<close> is a time at which Local was heard.\<close>

definition contact_backed :: "u64 set \<Rightarrow> central_monitor \<Rightarrow> bool" where
  "contact_backed ts m \<longleftrightarrow> (pr_seen (mon_peers m ! 0) \<longrightarrow> pr_last_seen (mon_peers m ! 0) \<in> ts)"

lemma observe_peers:
  assumes "monitor_ok m"
  shows "mon_peers (snd (central_observe_peer source now m)) ! 0 =
     (if source = controller_code CONTROLLER_LOCAL
      then (mon_peers m ! 0)\<lparr>pr_seen := True, pr_last_seen := now\<rparr> else mon_peers m ! 0)"
  using assms by (auto simp: central_observe_peer_def central_peer_disconnected_def central_peer_index_def
      Let_def monitor_ok_def)

lemma contact_backed_step:
  assumes "contact_backed ts m" "monitor_ok m"
  shows "contact_backed (ts \<union> local_contact e) (monitor_step e m)"
proof (cases e)
  case (Heard_Heartbeat source hb now)
  with assms show ?thesis
    by (auto simp: contact_backed_def central_monitor_heartbeat_def Let_def observe_peers sender_count_def
        central_peer_index_def not_less not_le)
qed (use assms in \<open>auto simp: contact_backed_def central_monitor_status_def central_monitor_railway_def
       Let_def observe_peers central_peer_disconnected_def central_peer_index_def monitor_ok_def
       nth_update_if split: option.splits\<close>)

lemma run_contact_backed:
  "contact_backed (\<Union>e \<in> set es. local_contact e) (fold monitor_step es (central_monitor_init n))"
proof (induction es rule: rev_induct)
  case Nil
  show ?case by (simp add: contact_backed_def central_monitor_init_def)
next
  case (snoc e es)
  from contact_backed_step [OF snoc monitor.run_inv [OF central_monitor_init_ok], of e] show ?case
    by (simp add: Un_commute)
qed

lemma monitor_step_max_age: "status_max_age_ns (monitor_step e m) = status_max_age_ns m"
  by (cases e) (simp_all add: central_monitor_heartbeat_def central_monitor_status_def
      central_monitor_railway_def Let_def monitor_frame split: option.split)

lemma run_max_age: "status_max_age_ns (fold monitor_step es m) = status_max_age_ns m"
  by (induction es arbitrary: m) (simp_all add: monitor_step_max_age)

lemma max_age_value:
  assumes "0 < n" "n \<le> 60"
  shows "unat (central_monitor_status_max_age_ns (fold monitor_step es (central_monitor_init n))) = n * 1000000000"
proof -
  have v: "unat (word_of_nat n * 1000000000 :: u64) = n * 1000000000"
    using assms by (simp add: unat_word_ariths unat_of_nat)
  then have "word_of_nat n * 1000000000 \<noteq> (0 :: u64)" using assms by (auto simp: unat_eq_zero)
  with v assms show ?thesis
    by (simp add: central_monitor_status_max_age_ns_def run_max_age central_monitor_init_def)
qed

lemma age_bound:
  "at \<le> now \<Longrightarrow> now - at < limit \<Longrightarrow> unat at \<le> unat now \<and> unat now < unat at + unat limit" for now :: u64
  by (simp add: word_le_nat_alt word_less_nat_alt unat_sub)

text \<open>C30: Central sends a command only on fresh knowledge. Whenever \<open>central_can_command\<close> allows commands to
  an intersection, after any sequence of reports, probes, connections and losses, Central holds a
  well-formed status of that very intersection, received less than the configured age ago, with no loss of
  the Local peer or of that intersection's endpoint in between, and Local was heard less than three
  seconds ago.\<close>

theorem can_command_backed:
  assumes "central_can_command (fold monitor_step es (central_monitor_init n)) t now" "0 < n" "n \<le> 60"
  shows "(\<exists>s at. backing t (rev es) = Some (s, at) \<and> status_in_range s \<and> unat (st_intersection_id s) = t \<and>
            unat at \<le> unat now \<and> unat now < unat at + n * 1000000000) \<and>
         (\<exists>at \<in> (\<Union>e \<in> set es. local_contact e). unat at \<le> unat now \<and> unat now < unat at + 3000000000)"
proof
  let ?m = "fold monitor_step es (central_monitor_init n)"
  let ?slot = "mon_intersections ?m ! t"
  have m: "monitor_ok ?m" by (rule monitor.run_inv [OF central_monitor_init_ok]) simp
  from assms(1) have t: "t < 6" and slot: "iv_valid ?slot" "iv_synchronized ?slot"
    and age: "iv_received_at ?slot \<le> now" "now - iv_received_at ?slot < central_monitor_status_max_age_ns ?m"
    and online: "central_peer_online ?m (controller_code CONTROLLER_LOCAL) now"
    by (simp_all add: central_can_command_def Let_def)
  from run_slot_backed [OF t, of es n] slot have "backing t (rev es) = Some (iv_status ?slot, iv_received_at ?slot)"
    by (simp add: slot_backed_def)
  moreover have "status_in_range (iv_status ?slot)" "unat (st_intersection_id (iv_status ?slot)) = t"
    using m t slot by (simp_all add: monitor_ok_def slots_ok_def)
  ultimately show "\<exists>s at. backing t (rev es) = Some (s, at) \<and> status_in_range s \<and>
      unat (st_intersection_id s) = t \<and> unat at \<le> unat now \<and> unat now < unat at + n * 1000000000"
    using age_bound [OF age] by (simp add: max_age_value assms(2,3))
  let ?peer = "mon_peers ?m ! 0"
  from online have peer: "pr_seen ?peer" "pr_last_seen ?peer \<le> now" "now - pr_last_seen ?peer < 3000000000"
    by (simp_all add: central_peer_online_def central_peer_index_def Let_def)
  from run_contact_backed [of es n] peer(1) have "pr_last_seen ?peer \<in> (\<Union>e \<in> set es. local_contact e)"
    by (simp add: contact_backed_def)
  then show "\<exists>at \<in> (\<Union>e \<in> set es. local_contact e). unat at \<le> unat now \<and> unat now < unat at + 3000000000"
    using age_bound [OF peer(2,3)] by (intro bexI) simp
qed

definition sample_status :: status_msg where
  "sample_status = (decode_status zero_data)\<lparr>st_intersection_id := 3\<rparr>"

theorem can_command_backed_witness:
  "central_can_command (fold monitor_step [Peer_Connected 0, Heard_Status sample_status 7] (central_monitor_init 5)) 3 9 \<and>
   (\<exists>s at. backing 3 (rev [Peer_Connected 0, Heard_Status sample_status 7]) = Some (s, at) \<and> unat at \<le> unat (9 :: u64))"
proof -
  have can: "central_can_command
      (fold monitor_step [Peer_Connected 0, Heard_Status sample_status 7] (central_monitor_init 5)) 3 9"
    by code_simp
  have "(0 :: nat) < 5" "(5 :: nat) \<le> 60" by simp_all
  from can_command_backed [OF can this] show ?thesis using can by blast
qed

end
