(* ===== verification/Ring.thy ===== *)
theory Ring
  imports Prelude
begin

text \<open>
  Ring buffers as Central keeps them: an array, the index of the first element and the number of elements.
  \<open>ring_list\<close> is the abstraction; every operation on the array is shown to be the list operation its
  callers mean: append, tail, update, removal at a position with the rest shifted down, and the in-place
  compaction that keeps some of the elements in order.
\<close>

record 'a ring =
  ring_slots :: "'a list"
  ring_head :: nat
  ring_count :: nat

definition ring_slot :: "'a ring \<Rightarrow> nat \<Rightarrow> nat" where
  "ring_slot r i = (ring_head r + i) mod length (ring_slots r)"

definition ring_nth :: "'a ring \<Rightarrow> nat \<Rightarrow> 'a" where
  "ring_nth r i = ring_slots r ! ring_slot r i"

definition ring_set :: "nat \<Rightarrow> 'a \<Rightarrow> 'a ring \<Rightarrow> 'a ring" where
  "ring_set i x r = r\<lparr>ring_slots := (ring_slots r)[ring_slot r i := x]\<rparr>"

definition ring_push :: "'a \<Rightarrow> 'a ring \<Rightarrow> 'a ring" where
  "ring_push x r = (ring_set (ring_count r) x r)\<lparr>ring_count := Suc (ring_count r)\<rparr>"

definition ring_pop :: "'a ring \<Rightarrow> 'a ring" where
  "ring_pop r = r\<lparr>ring_head := ring_slot r 1, ring_count := ring_count r - 1\<rparr>"

text \<open>The loop that closes the gap at \<open>i\<close>.\<close>

definition ring_remove :: "nat \<Rightarrow> 'a ring \<Rightarrow> 'a ring" where
  "ring_remove i r =
     (fold (\<lambda>j r. ring_set j (ring_nth r (Suc j)) r) [i..<ring_count r - 1] r)\<lparr>ring_count := ring_count r - 1\<rparr>"

definition ring_list :: "'a ring \<Rightarrow> 'a list" where
  "ring_list r = map (ring_nth r) [0..<ring_count r]"

definition ring_ok :: "'a ring \<Rightarrow> bool" where
  "ring_ok r \<longleftrightarrow> ring_head r < length (ring_slots r) \<and> ring_count r \<le> length (ring_slots r)"

section \<open>Refinement\<close>

lemma length_ring_list [simp]: "length (ring_list r) = ring_count r"
  by (simp add: ring_list_def)

lemma ring_list_nth: "i < ring_count r \<Longrightarrow> ring_list r ! i = ring_nth r i"
  by (simp add: ring_list_def)

lemma ring_slot_less: "ring_ok r \<Longrightarrow> ring_slot r i < length (ring_slots r)"
  unfolding ring_slot_def by (rule mod_less_divisor) (auto simp: ring_ok_def)

lemma ring_slot_inj:
  assumes "ring_ok r" "i < length (ring_slots r)" "j < length (ring_slots r)"
  shows "ring_slot r i = ring_slot r j \<longleftrightarrow> i = j"
proof -
  let ?n = "length (ring_slots r)" and ?h = "ring_head r"
  have val: "(?h + k) mod ?n = (if ?h + k < ?n then ?h + k else ?h + k - ?n)" if "k < ?n" for k
    using that assms(1) by (auto simp: ring_ok_def mod_if)
  show ?thesis using assms by (simp add: ring_slot_def val split: if_splits) (auto simp: ring_ok_def)
qed

lemma ring_set_fields [simp]:
  "ring_head (ring_set i x r) = ring_head r" "ring_count (ring_set i x r) = ring_count r"
  "length (ring_slots (ring_set i x r)) = length (ring_slots r)"
  "ring_slot (ring_set i x r) j = ring_slot r j" "ring_ok (ring_set i x r) = ring_ok r"
  by (simp_all add: ring_set_def ring_slot_def ring_ok_def)

lemma ring_nth_set:
  assumes "ring_ok r" "i < length (ring_slots r)" "j < length (ring_slots r)"
  shows "ring_nth (ring_set i x r) j = (if i = j then x else ring_nth r j)"
  using ring_slot_inj [OF assms] ring_slot_less [OF assms(1), of j]
  by (auto simp: ring_nth_def ring_set_def ring_slot_def nth_update_if)

lemma ring_list_set:
  assumes "ring_ok r" "i < ring_count r"
  shows "ring_list (ring_set i x r) = (ring_list r)[i := x]"
  using assms by (intro nth_equalityI) (auto simp: ring_list_nth ring_nth_set ring_ok_def nth_list_update)

lemma ring_push_ok: "ring_ok r \<Longrightarrow> ring_count r < length (ring_slots r) \<Longrightarrow> ring_ok (ring_push x r)"
  by (simp add: ring_push_def ring_ok_def ring_set_def)

lemma ring_nth_count [simp]: "ring_nth (r\<lparr>ring_count := n\<rparr>) = ring_nth r"
  by (rule ext) (simp add: ring_nth_def ring_slot_def)

lemma ring_list_push:
  assumes "ring_ok r" "ring_count r < length (ring_slots r)"
  shows "ring_list (ring_push x r) = ring_list r @ [x]"
  using assms
  by (intro nth_equalityI)
     (auto simp: ring_push_def ring_list_nth ring_nth_set nth_append less_Suc_eq ring_list_def simp del: upt_Suc)

lemma ring_pop_ok: "ring_ok r \<Longrightarrow> ring_ok (ring_pop r)"
  using ring_slot_less [of r 1] by (auto simp: ring_pop_def ring_ok_def)

lemma ring_list_pop:
  assumes "ring_ok r" "0 < ring_count r"
  shows "ring_list r = ring_nth r 0 # ring_list (ring_pop r)"
proof -
  have "ring_nth (ring_pop r) i = ring_nth r (Suc i)" for i
    by (simp add: ring_nth_def ring_slot_def ring_pop_def mod_simps)
  then have "ring_list (ring_pop r) = map (ring_nth r) (map Suc [0..<ring_count r - 1])"
    by (simp add: ring_list_def ring_pop_def)
  also have "map Suc [0..<ring_count r - 1] = [1..<ring_count r]" using assms(2) by (simp add: map_Suc_upt)
  finally show ?thesis using assms(2) by (simp add: ring_list_def upt_conv_Cons)
qed

lemma ring_clear [simp]: "ring_list (r\<lparr>ring_head := 0, ring_count := 0\<rparr>) = []"
  by (simp add: ring_list_def)

text \<open>Closing a gap.\<close>

lemma ring_shift:
  assumes "ring_ok r" "b < length (ring_slots r)"
  shows "ring_ok (fold (\<lambda>j r. ring_set j (ring_nth r (Suc j)) r) [a..<b] r) \<and>
     ring_count (fold (\<lambda>j r. ring_set j (ring_nth r (Suc j)) r) [a..<b] r) = ring_count r \<and>
     length (ring_slots (fold (\<lambda>j r. ring_set j (ring_nth r (Suc j)) r) [a..<b] r)) = length (ring_slots r) \<and>
     (\<forall>k < length (ring_slots r). ring_nth (fold (\<lambda>j r. ring_set j (ring_nth r (Suc j)) r) [a..<b] r) k =
        (if a \<le> k \<and> k < b then ring_nth r (Suc k) else ring_nth r k))"
  using assms(2)
proof (induction b)
  case 0
  then show ?case using assms(1) by simp
next
  case (Suc b)
  show ?case
  proof (cases "a \<le> b")
    case True
    define q where "q = fold (\<lambda>j r. ring_set j (ring_nth r (Suc j)) r) [a..<b] r"
    from Suc have q: "ring_ok q" "ring_count q = ring_count r" "length (ring_slots q) = length (ring_slots r)"
      "\<forall>k < length (ring_slots r). ring_nth q k = (if a \<le> k \<and> k < b then ring_nth r (Suc k) else ring_nth r k)"
      by (simp_all add: q_def)
    have "fold (\<lambda>j r. ring_set j (ring_nth r (Suc j)) r) [a..<Suc b] r = ring_set b (ring_nth q (Suc b)) q"
      using True by (simp add: q_def)
    then show ?thesis using q Suc.prems True by (auto simp: ring_nth_set less_Suc_eq)
  qed (use assms(1) in auto)
qed

lemma ring_remove_ok: "ring_ok r \<Longrightarrow> 0 < ring_count r \<Longrightarrow> ring_ok (ring_remove i r)"
  using ring_shift [of r "ring_count r - 1" i] by (simp add: ring_remove_def ring_ok_def) linarith

lemma ring_list_remove:
  assumes "ring_ok r" "i < ring_count r"
  shows "ring_list (ring_remove i r) = take i (ring_list r) @ drop (Suc i) (ring_list r)"
proof -
  let ?n = "ring_count r"
  let ?q = "fold (\<lambda>j r. ring_set j (ring_nth r (Suc j)) r) [i..<?n - 1] r"
  have b: "?n - 1 < length (ring_slots r)" using assms by (auto simp: ring_ok_def)
  note shift = ring_shift [OF assms(1) b, of i]
  have "ring_nth ?q k = (if i \<le> k then ring_nth r (Suc k) else ring_nth r k)" if "k < ?n - 1" for k
    using shift that b by auto
  then show ?thesis
    using assms by (intro nth_equalityI)
      (auto simp: ring_remove_def ring_list_def nth_append min_def simp del: upt_Suc)
qed

text \<open>Keeping, in place and in order, the elements of which \<open>keep\<close> holds. The loop also carries a state
  that its body changes.\<close>

fun ring_compact ::
  "('a \<Rightarrow> 's \<Rightarrow> bool) \<Rightarrow> ('a \<Rightarrow> 's \<Rightarrow> 's) \<Rightarrow> nat list \<Rightarrow> nat \<Rightarrow> 'a ring \<Rightarrow> 's \<Rightarrow> nat \<times> 'a ring \<times> 's" where
  "ring_compact drop_it act [] kept r s = (kept, r, s)"
| "ring_compact drop_it act (i # is) kept r s =
     (let x = ring_nth r i in
      if drop_it x s then ring_compact drop_it act is kept r (act x s)
      else ring_compact drop_it act is (Suc kept) (ring_set kept x r) s)"

lemma ring_compact_list:
  assumes "ring_ok r" "i \<le> ring_count r" "kept \<le> i"
    "\<And>x y s. drop_it x (act y s) = drop_it x s"
  shows "\<exists>k r' s'. ring_compact drop_it act [i..<ring_count r] kept r s = (k, r', s') \<and>
     ring_ok r' \<and> ring_count r' = ring_count r \<and> ring_head r' = ring_head r \<and>
     length (ring_slots r') = length (ring_slots r) \<and> k \<le> ring_count r \<and>
     take k (ring_list r') = take kept (ring_list r) @ filter (\<lambda>x. \<not> drop_it x s) (drop i (ring_list r)) \<and>
     s' = fold act (filter (\<lambda>x. drop_it x s) (drop i (ring_list r))) s"
  using assms(1-3)
proof (induction "ring_count r - i" arbitrary: i kept r s)
  case 0
  then show ?case by simp
next
  case (Suc n)
  then have i: "i < ring_count r" by simp
  then have split: "[i..<ring_count r] = i # [Suc i..<ring_count r]" by (simp add: upt_conv_Cons)
  have here: "drop i (ring_list r) = ring_nth r i # drop (Suc i) (ring_list r)"
    using i by (simp add: ring_list_nth Cons_nth_drop_Suc flip: Cons_nth_drop_Suc)
  show ?case
  proof (cases "drop_it (ring_nth r i) s")
    case True
    have same: "drop_it x (act (ring_nth r i) s) = drop_it x s" for x by (rule assms(4))
    from Suc.hyps(1) [of r "Suc i" kept "act (ring_nth r i) s"] Suc.hyps(2) Suc.prems i True
    show ?thesis unfolding split here by (simp add: Let_def same)
  next
    case False
    let ?r = "ring_set kept (ring_nth r i) r"
    have rest: "drop (Suc i) (ring_list ?r) = drop (Suc i) (ring_list r)"
      using Suc.prems i by (simp add: ring_list_set)
    have front: "take (Suc kept) (ring_list ?r) = take kept (ring_list r) @ [ring_nth r i]"
      using Suc.prems i by (simp add: ring_list_set take_Suc_conv_app_nth take_update_cancel)
    from Suc.hyps(1) [of ?r "Suc i" "Suc kept" s] Suc.hyps(2) Suc.prems i False
    show ?thesis unfolding split here by (simp add: Let_def rest front)
  qed
qed

definition ring_filter ::
  "('a \<Rightarrow> 's \<Rightarrow> bool) \<Rightarrow> ('a \<Rightarrow> 's \<Rightarrow> 's) \<Rightarrow> 'a ring \<Rightarrow> 's \<Rightarrow> 'a ring \<times> 's" where
  "ring_filter drop_it act r s =
     (let (kept, r', s') = ring_compact drop_it act [0..<ring_count r] 0 r s in (r'\<lparr>ring_count := kept\<rparr>, s'))"

lemma ring_filter_list:
  assumes "ring_ok r" "\<And>x y s. drop_it x (act y s) = drop_it x s"
  shows "\<exists>r'. ring_filter drop_it act r s = (r', fold act (filter (\<lambda>x. drop_it x s) (ring_list r)) s) \<and>
     ring_ok r' \<and> length (ring_slots r') = length (ring_slots r) \<and>
     ring_list r' = filter (\<lambda>x. \<not> drop_it x s) (ring_list r)"
proof -
  from ring_compact_list [where i = 0 and kept = 0 and drop_it = drop_it and act = act and s = s, OF assms(1) _ _ assms(2)]
  obtain k r' s' where c: "ring_compact drop_it act [0..<ring_count r] 0 r s = (k, r', s')"
    and r': "ring_ok r'" "ring_count r' = ring_count r" "length (ring_slots r') = length (ring_slots r)" "k \<le> ring_count r"
      "take k (ring_list r') = filter (\<lambda>x. \<not> drop_it x s) (ring_list r)"
      "s' = fold act (filter (\<lambda>x. drop_it x s) (ring_list r)) s" by auto
  have "ring_list (r'\<lparr>ring_count := k\<rparr>) = take k (ring_list r')"
    using r'(2,4) by (simp add: ring_list_def take_map)
  with c r' show ?thesis by (auto simp: ring_filter_def ring_ok_def)
qed

end
