(* ===== verification/Central_Operator.thy ===== *)
theory Central_Operator
  imports Central_Controller
begin

text \<open>
  The operator's side of \<^verbatim>\<open>central_controller.c\<close>: the schedule thread, the command line, and the arguments
  and the beginning and end of \<open>main\<close>. Text that is printed is left out; which view a command shows is kept.
\<close>

section \<open>The schedule thread\<close>

definition scheduled_message :: "string \<Rightarrow> nat \<Rightarrow> u8 \<Rightarrow> test_message" where
  "scheduled_message stamp target desired =
     (central_message_init stamp MSG_MODE_COMMAND CONTROLLER_CENTRAL CONTROLLER_LOCAL)
       \<lparr>data := overlay (encode_mode_cmd
          \<lparr>mc_intersection_id = word_of_nat target, mc_new_mode = desired, mc_action = action_code CMD_SET_MODE,
           mc_priority = CMD_PRIO_SCHEDULE, mc_duration_sec = 0, mc_command_id = 0\<rparr>) zero_data\<rparr>"

text \<open>Whether an operator command holds the schedule back, after an accepted one has been noted in the
  policy.\<close>

definition note_acknowledged :: "nat \<Rightarrow> central_state \<Rightarrow> bool \<times> central_state" where
  "note_acknowledged target s =
     (let command = c_policy_command s ! target in
      case find_command_locked s command of
        None \<Rightarrow> (command \<noteq> 0 \<and> c_policy_ack s ! target \<noteq> command, s)
      | Some slot \<Rightarrow>
          let r = c_commands s ! slot; held = (hr_state r \<noteq> REQUEST_ACCEPTED)
          in (held,
              if \<not> held \<and> c_policy_ack s ! target \<noteq> hr_id r
              then
                let m = hr_mode_request r
                in s\<lparr>c_policy := (case central_policy_note_operator target (mc_action m) (mc_new_mode m)
                                    (unat (mc_duration_sec m)) (hr_finished_at r) (c_policy s) of
                                   None \<Rightarrow> c_policy s | Some p \<Rightarrow> p),
                     c_policy_ack := (c_policy_ack s)[target := hr_id r]\<rparr>
              else s))"

definition schedule_target ::
  "string \<Rightarrow> u64 \<Rightarrow> u64 \<Rightarrow> nat \<Rightarrow> nat \<Rightarrow> central_state \<Rightarrow> central_state" where
  "schedule_target stamp now later minute target s =
     (let ready = local_ready_locked s target now;
          epoch = c_endpoint_epoch s ! (c_local_route s ! target);
          (held, s1) = note_acknowledged target s
      in if held \<or> central_policy_operator_active (c_policy s1) target now then s1
         else case central_schedule_mode (c_schedule s1) target minute of
           None \<Rightarrow> s1
         | Some desired \<Rightarrow>
             if c_scheduled_mode s1 ! target = int (unat desired) then s1
             else if \<not> ready then s1
             else
               let (result, s2) = enqueue_command stamp later (scheduled_message stamp target desired) target 0 True s1
               in if result = 0
                  then s2\<lparr>c_scheduled_mode := (c_scheduled_mode s2)[target := int (unat desired)],
                          c_scheduled_epoch := (c_scheduled_epoch s2)[target := epoch]\<rparr>
                  else s2)"

text \<open>\<open>minute\<close> is the local time of day, \<open>None\<close> when it cannot be determined.\<close>

definition schedule_tick ::
  "string \<Rightarrow> u64 \<Rightarrow> u64 \<Rightarrow> nat option \<Rightarrow> central_state \<Rightarrow> central_state" where
  "schedule_tick stamp now later minute s =
     (case minute of
        None \<Rightarrow> s
      | Some m \<Rightarrow>
          if \<not> c_schedule_enabled s then s
          else fold (schedule_target stamp now later m) [0..<NUM_INTERSECTIONS] s)"

section \<open>The command line\<close>

definition is_blank :: "char \<Rightarrow> bool" where
  "is_blank c \<longleftrightarrow> c = CHR '' '' \<or> c = CHR 0x09"

definition trim_command :: "string \<Rightarrow> string" where
  "trim_command line = rev (dropWhile (\<lambda>c. is_blank c \<or> c = CHR 0x0D) (rev (dropWhile is_blank line)))"

definition has_prefix :: "string \<Rightarrow> string \<Rightarrow> bool" where
  "has_prefix p text \<longleftrightarrow> take (length p) text = p"

text \<open>\<open>strstr\<close>\<close>

definition contains_text :: "string \<Rightarrow> string \<Rightarrow> bool" where
  "contains_text p text \<longleftrightarrow> list_ex (\<lambda>i. has_prefix p (drop i text)) [0..<Suc (length text)]"

datatype view = View_Map | View_Status | View_Commands | View_Faults | View_Events | View_Help | View_Version
  | View_Schedule | View_Watch

datatype console = Console_None | Console_Show view | Console_Shutdown

definition reset_scheduled :: "nat \<Rightarrow> central_state \<Rightarrow> central_state" where
  "reset_scheduled target s =
     s\<lparr>c_scheduled_mode := fold (\<lambda>i xs. xs[i := - 1]) (target_range target) (c_scheduled_mode s)\<rparr>"

definition schedule_resume_command ::
  "string \<Rightarrow> u64 \<Rightarrow> string \<Rightarrow> central_state \<Rightarrow> int \<times> central_state" where
  "schedule_resume_command stamp now argument s =
     (case (if c_schedule_enabled s then central_parse_command (take 95 (''mode-revert '' @ argument)) else None) of
        None \<Rightarrow> (- 1, s)
      | Some (message, target) \<Rightarrow>
          let p = (case central_policy_resume_schedule target (c_policy s) of None \<Rightarrow> c_policy s | Some p \<Rightarrow> p);
              zero = fold (\<lambda>i xs. xs[i := 0]) (target_range target)
          in (0, cancel_automatic stamp now target
                   (reset_scheduled target (s\<lparr>c_policy := p, c_policy_command := zero (c_policy_command s),
                                              c_policy_ack := zero (c_policy_ack s)\<rparr>))))"

definition train_message :: "string \<Rightarrow> char list \<Rightarrow> test_message" where
  "train_message stamp payload =
     (central_message_init stamp MSG_TEST CONTROLLER_CENTRAL CONTROLLER_TRAIN)\<lparr>data := payload\<rparr>"

definition train_command ::
  "string \<Rightarrow> u64 \<Rightarrow> string \<Rightarrow> central_state \<Rightarrow> int \<times> central_state" where
  "train_command stamp now argument s =
     (case central_parse_train_command argument of
        None \<Rightarrow> (- 1, s)
      | Some payload \<Rightarrow>
          if hd payload = CHR ''p'' \<and> contains_text ''-fault'' (cstr payload) then (- 1, s)
          else enqueue_command stamp now (train_message stamp payload) 0 0 False s)"

text \<open>The delay before the first space, as \<open>strtoul\<close> reads it, and what follows the space.\<close>

definition parse_delay :: "string \<Rightarrow> (nat \<times> string) option" where
  "parse_delay text =
     (let digits = takeWhile is_digit text; rest = dropWhile is_digit text; delay = decimal_value 0 digits
      in if digits = [] \<or> rest = [] \<or> hd rest \<noteq> CHR '' '' \<or> delay < 1 \<or> 3600 < delay then None
         else Some (delay, tl rest))"

definition coordinate_at_command ::
  "string \<Rightarrow> u64 \<Rightarrow> string \<Rightarrow> central_state \<Rightarrow> int \<times> central_state" where
  "coordinate_at_command stamp now argument s =
     (case parse_delay argument of
        None \<Rightarrow> (- 1, s)
      | Some (delay, rest) \<Rightarrow>
          (case central_parse_command (take 255 (''coordinate '' @ rest)) of
             None \<Rightarrow> (- 1, s)
           | Some (message, target) \<Rightarrow> enqueue_command stamp now message target delay False s))"

definition operator_message ::
  "string \<Rightarrow> u64 \<Rightarrow> u64 \<Rightarrow> test_message \<Rightarrow> nat \<Rightarrow> central_state \<Rightarrow> int \<times> central_state" where
  "operator_message stamp now later message target s =
     (let s1 = (if hdr_type (header message) \<noteq> msg_code MSG_TEST then cancel_automatic stamp now target s else s);
          (result, s2) = enqueue_command stamp now message target 0 False s1
      in if result = 0 \<and> hdr_type (header message) = msg_code MSG_MODE_COMMAND
         then
           let command = decode_mode_cmd (data message);
               p = (case central_policy_note_operator target (mc_action command) (mc_new_mode command)
                      (unat (mc_duration_sec command)) later (c_policy s2) of
                      None \<Rightarrow> c_policy s2 | Some p \<Rightarrow> p)
           in (result, reset_scheduled target (s2\<lparr>c_policy := p\<rparr>))
         else (result, s2))"

definition view_of :: "string \<Rightarrow> view option" where
  "view_of line = map_of
     [(''map'', View_Map), (''status'', View_Status), (''commands'', View_Commands), (''faults'', View_Faults),
      (''events'', View_Events), (''watch'', View_Watch), (''help'', View_Help), (''version'', View_Version),
      (''schedule'', View_Schedule)] line"

text \<open>The command result, what the console shows or does, the state.\<close>

definition execute_command ::
  "string \<Rightarrow> u64 \<Rightarrow> u64 \<Rightarrow> string \<Rightarrow> central_state \<Rightarrow> int \<times> console \<times> central_state" where
  "execute_command stamp now later text s =
     (let line = trim_command text; quiet = (\<lambda>(r, s'). (r, Console_None, s')) in
      if line = [] then (0, Console_None, s)
      else case view_of line of
        Some v \<Rightarrow> (0, Console_Show v, s)
      | None \<Rightarrow>
          if line = ''quit'' \<or> line = ''shutdown'' then (0, Console_Shutdown, s)
          else if has_prefix ''schedule-resume '' line then
            quiet (schedule_resume_command stamp now (drop 16 line) s)
          else if has_prefix ''train-cmd '' line then quiet (train_command stamp now (drop 10 line) s)
          else if has_prefix ''coordinate-at '' line then quiet (coordinate_at_command stamp now (drop 14 line) s)
          else case central_parse_command line of
            Some (message, target) \<Rightarrow> quiet (operator_message stamp now later message target s)
          | None \<Rightarrow> (- 1, Console_None, s))"

text \<open>A request of the separate display process; \<open>truncated\<close> is whether the answer overran its buffer.\<close>

definition ui_command ::
  "string \<Rightarrow> u64 \<Rightarrow> u64 \<Rightarrow> bool \<Rightarrow> string \<Rightarrow> central_state \<Rightarrow> int \<times> console \<times> central_state" where
  "ui_command stamp now later truncated request s =
     (let command = trim_command (take 255 request);
          (result, c, s1) =
            (if command = ''watch'' then (0, Console_Show View_Status, s)
             else if command = ''quit'' then (0, Console_None, s)
             else execute_command stamp now later command s)
      in (if truncated then - 1 else result, c, s1))"

section \<open>Start and stop\<close>

record central_args =
  ca_global :: bool
  ca_headless :: bool
  ca_log_path :: string
  ca_schedule_path :: "string option"
  ca_status_age :: nat
  ca_services :: "string list"
  ca_route :: "nat list"
  ca_configured :: "bool list"

datatype args_result = Args_Usage | Args_Failed | Args_Ok central_args

definition initial_args :: central_args where
  "initial_args = \<lparr>ca_global = False, ca_headless = False, ca_log_path = ''/tmp/central_controller.log'',
     ca_schedule_path = None, ca_status_age = CENTRAL_STATUS_STALE_SEC,
     ca_services = [''traffic_local_I1'', TRAIN_SERVICE_NAME], ca_route = replicate NUM_INTERSECTIONS 0,
     ca_configured = replicate NUM_INTERSECTIONS False\<rparr>"

definition service_char :: "char \<Rightarrow> bool" where
  "service_char c \<longleftrightarrow> (CHR ''a'' \<le> c \<and> c \<le> CHR ''z'') \<or> (CHR ''A'' \<le> c \<and> c \<le> CHR ''Z'') \<or>
     (CHR ''0'' \<le> c \<and> c \<le> CHR ''9'') \<or> c = CHR ''_'' \<or> c = CHR ''-'' \<or> c = CHR ''.''"

text \<open>The index of a service in the list, which grows when the service is new.\<close>

fun service_index :: "string \<Rightarrow> string list \<Rightarrow> nat" where
  "service_index service [] = 0"
| "service_index service (x # xs) = (if x = service then 0 else Suc (service_index service xs))"

definition route_to :: "nat \<Rightarrow> string \<Rightarrow> central_args \<Rightarrow> central_args" where
  "route_to target service a =
     (let peer = service_index service (ca_services a) in
      a\<lparr>ca_services := (if peer = length (ca_services a) then ca_services a @ [service] else ca_services a),
        ca_route := (ca_route a)[target := peer]\<rparr>)"

definition parse_endpoint :: "string \<Rightarrow> central_args \<Rightarrow> central_args option" where
  "parse_endpoint mapping a =
     (if length mapping < 4 \<or> mapping ! 0 \<noteq> CHR ''I'' \<or> mapping ! 1 < CHR ''1'' \<or> CHR ''6'' < mapping ! 1 \<or>
         mapping ! 2 \<noteq> CHR ''='' then None
      else
        let target = of_char (mapping ! 1) - of_char CHR ''1''; service = drop 3 mapping
        in if ca_configured a ! target \<or> service = [] \<or> 100 < length service \<or> service = TRAIN_SERVICE_NAME then None
           else if \<not> list_all service_char service then None
           else Some ((route_to target service a)\<lparr>ca_configured := (ca_configured a)[target := True]\<rparr>))"

definition parse_status_age :: "string \<Rightarrow> nat option" where
  "parse_status_age value =
     (if value = [] \<or> \<not> list_all is_digit value \<or> decimal_value 0 value < 1 \<or> 60 < decimal_value 0 value then None
      else Some (decimal_value 0 value))"

fun parse_args :: "string list \<Rightarrow> central_args \<Rightarrow> args_result" where
  "parse_args [] a = Args_Ok a"
| "parse_args [x] a =
     (if x = ''-h'' \<or> x = ''--help'' then Args_Usage
      else if x = ''-l'' then Args_Ok (a\<lparr>ca_global := False\<rparr>)
      else if x = ''-g'' then Args_Ok (a\<lparr>ca_global := True\<rparr>)
      else if x = ''--headless'' then Args_Ok (a\<lparr>ca_headless := True\<rparr>)
      else Args_Failed)"
| "parse_args (x # y # rest) a =
     (if x = ''-h'' \<or> x = ''--help'' then Args_Usage
      else if x = ''-l'' then parse_args (y # rest) (a\<lparr>ca_global := False\<rparr>)
      else if x = ''-g'' then parse_args (y # rest) (a\<lparr>ca_global := True\<rparr>)
      else if x = ''--headless'' then parse_args (y # rest) (a\<lparr>ca_headless := True\<rparr>)
      else if x = ''--schedule'' then parse_args rest (a\<lparr>ca_schedule_path := Some y\<rparr>)
      else if x = ''--local-endpoint'' then
        (case parse_endpoint y a of None \<Rightarrow> Args_Failed | Some a' \<Rightarrow> parse_args rest a')
      else if x = ''-o'' then parse_args rest (a\<lparr>ca_log_path := y\<rparr>)
      else if x = ''-s'' then
        (case parse_status_age y of None \<Rightarrow> Args_Failed | Some n \<Rightarrow> parse_args rest (a\<lparr>ca_status_age := n\<rparr>))
      else Args_Failed)"

text \<open>Every intersection from I2 on that was not configured gets its own default endpoint.\<close>

definition default_endpoints :: "central_args \<Rightarrow> central_args" where
  "default_endpoints a =
     fold (\<lambda>i a. if ca_configured a ! i then a else route_to i (''traffic_local_I'' @ show_nat (i + 1)) a)
       [1..<NUM_INTERSECTIONS] a"

text \<open>The beginning of \<open>main\<close>: the state and the first events, or no start. \<open>file\<close> is what the operating
  system presents under the schedule path.\<close>

definition central_main_start ::
  "string \<Rightarrow> (string \<Rightarrow> schedule_file option) \<Rightarrow> string list \<Rightarrow> central_state option" where
  "central_main_start stamp file argv =
     (case parse_args argv initial_args of
        Args_Usage \<Rightarrow> None
      | Args_Failed \<Rightarrow> None
      | Args_Ok a0 \<Rightarrow>
          let a = default_endpoints a0;
              sch = (case ca_schedule_path a of
                       None \<Rightarrow> Inr None
                     | Some path \<Rightarrow> (case central_schedule_load 256 [] (file path) of
                                       Inl e \<Rightarrow> Inl e | Inr sch \<Rightarrow> Inr (Some sch)))
          in case sch of
               Inl e \<Rightarrow> None
             | Inr schedule \<Rightarrow>
                 let s = central_start (ca_route a) (length (ca_services a)) (ca_status_age a) schedule
                 in Some (fold (\<lambda>i s. event_locked stamp (''I'' @ show_nat (i + 1) @ '' routes to '' @
                                   ca_services a ! (ca_route a ! i)) s)
                            [0..<NUM_INTERSECTIONS] (event_locked stamp ''Central started'' s)))"

text \<open>The end of \<open>main\<close>: nothing queued is sent any more.\<close>

definition central_main_stop :: "string \<Rightarrow> u64 \<Rightarrow> central_state \<Rightarrow> central_state" where
  "central_main_stop stamp now s =
     fold (discard_queue_locked stamp now) [0..<c_peer_count s]
       ((event_locked stamp ''Central stopping'' s)\<lparr>c_running := False\<rparr>)"

end
