(* ===== verification/Central_History.thy ===== *)
theory Central_History
  imports Central_Operator
begin

text \<open>
  The command history of Central and its queues. Most operations settle records: they give an outcome to the
  records of some identifiers and take exactly those out of the queues (\<open>settled\<close>, \<open>queue_drops\<close>). The others
  give a queued command out to be sent (\<open>given_out\<close>) or add one under a fresh identifier. \<open>history_ok\<close> is the
  invariant they all keep: distinct identifiers, the queue of a peer holds each of its queued commands once,
  a command in flight is exactly a record in state SENDING, and queued work is addressed to its peer.
\<close>


section \<open>Frames\<close>

lemma event_frame [simp]:
  "c_monitor (event_locked t b s) = c_monitor s" "c_queue (event_locked t b s) = c_queue s"
  "c_local_route (event_locked t b s) = c_local_route s" "c_peer_count (event_locked t b s) = c_peer_count s"
  "c_endpoint_connected (event_locked t b s) = c_endpoint_connected s"
  "c_endpoint_probe (event_locked t b s) = c_endpoint_probe s"
  "c_endpoint_epoch (event_locked t b s) = c_endpoint_epoch s"
  "c_commands (event_locked t b s) = c_commands s" "c_command_next (event_locked t b s) = c_command_next s"
  "c_next_id (event_locked t b s) = c_next_id s" "c_running (event_locked t b s) = c_running s"
  "c_schedule (event_locked t b s) = c_schedule s" "c_policy (event_locked t b s) = c_policy s"
  "c_schedule_enabled (event_locked t b s) = c_schedule_enabled s"
  "c_scheduled_mode (event_locked t b s) = c_scheduled_mode s"
  "c_policy_command (event_locked t b s) = c_policy_command s" "c_policy_ack (event_locked t b s) = c_policy_ack s"
  "find_command_locked (event_locked t b s) = find_command_locked s"
  by (simp_all add: event_locked_def Let_def find_command_locked_def fun_eq_iff)

lemma find_command_Some:
  "find_command_locked s ident = Some slot \<Longrightarrow>
   slot < COMMAND_HISTORY_SIZE \<and> hr_id (c_commands s ! slot) = ident \<and> ident \<noteq> 0"
  by (auto simp: find_command_locked_def find_Some_iff split: if_splits)

lemma find_command_None:
  "find_command_locked s ident = None \<Longrightarrow> ident \<noteq> 0 \<Longrightarrow> i < COMMAND_HISTORY_SIZE \<Longrightarrow> hr_id (c_commands s ! i) \<noteq> ident"
  by (auto simp: find_command_locked_def find_None_iff)

lemma find_command_cong:
  "(\<And>i. i < COMMAND_HISTORY_SIZE \<Longrightarrow> hr_id (c_commands s' ! i) = hr_id (c_commands s ! i)) \<Longrightarrow>
   find_command_locked s' = find_command_locked s"
  by (rule ext) (auto simp: find_command_locked_def intro!: find_cong)

section \<open>The identifiers in the history\<close>

definition ids_in :: "request_state \<Rightarrow> command_record list \<Rightarrow> nat \<Rightarrow> u16 set" where
  "ids_in st rs p = {hr_id r | r. r \<in> set rs \<and> hr_id r \<noteq> 0 \<and> hr_state r = st \<and> hr_peer r = p}"

definition ids_distinct :: "command_record list \<Rightarrow> bool" where
  "ids_distinct rs \<longleftrightarrow> (\<forall>i < length rs. \<forall>j < length rs. hr_id (rs ! i) \<noteq> 0 \<longrightarrow> hr_id (rs ! i) = hr_id (rs ! j) \<longrightarrow> i = j)"

lemma ids_in_iff:
  "k \<in> ids_in st rs p \<longleftrightarrow>
   (\<exists>i < length rs. hr_id (rs ! i) = k \<and> k \<noteq> 0 \<and> hr_state (rs ! i) = st \<and> hr_peer (rs ! i) = p)"
  by (auto simp: ids_in_def in_set_conv_nth)

lemma ids_distinctD:
  "ids_distinct rs \<Longrightarrow> i < length rs \<Longrightarrow> j < length rs \<Longrightarrow> hr_id (rs ! i) \<noteq> 0 \<Longrightarrow> hr_id (rs ! i) = hr_id (rs ! j) \<Longrightarrow> i = j"
  by (simp add: ids_distinct_def)

lemma ids_in_unique:
  assumes "ids_distinct rs" "k \<in> ids_in st rs p" "k \<in> ids_in st' rs p'"
  shows "p = p' \<and> st = st'"
proof -
  from assms obtain i j where i: "i < length rs" "hr_id (rs ! i) = k" "k \<noteq> 0" "hr_state (rs ! i) = st" "hr_peer (rs ! i) = p"
    and j: "j < length rs" "hr_id (rs ! j) = k" "hr_state (rs ! j) = st'" "hr_peer (rs ! j) = p'"
    by (auto simp: ids_in_iff)
  then have "i = j" using ids_distinctD [OF assms(1), of i j] by simp
  with i j show ?thesis by simp
qed

text \<open>A find is exact when identifiers are distinct.\<close>

lemma find_command_exact:
  assumes "ids_distinct (c_commands s)" "length (c_commands s) = COMMAND_HISTORY_SIZE"
    "i < COMMAND_HISTORY_SIZE" "hr_id (c_commands s ! i) = k" "k \<noteq> 0"
  shows "find_command_locked s k = Some i"
proof (cases "find_command_locked s k")
  case None
  then show ?thesis using find_command_None [OF None assms(5,3)] assms(4) by blast
next
  case (Some j)
  from find_command_Some [OF Some] have j: "j < COMMAND_HISTORY_SIZE" "hr_id (c_commands s ! j) = k" by blast+
  have "i = j"
    by (rule ids_distinctD [OF assms(1)]) (use assms(2-5) j in \<open>simp_all only: simp_thms not_False_eq_True\<close>)
  with Some show ?thesis by (simp only:)
qed

section \<open>Settling\<close>

definition waiting :: "request_state \<Rightarrow> bool" where
  "waiting st \<longleftrightarrow> st = REQUEST_QUEUED \<or> st = REQUEST_SENDING"

text \<open>What nearly every operation does to the history: the records with an identifier in \<open>K\<close> get an outcome,
  everything the queues depend on stays.\<close>

definition settles :: "u16 set \<Rightarrow> command_record \<Rightarrow> command_record \<Rightarrow> bool" where
  "settles K r r' \<longleftrightarrow> hr_id r' = hr_id r \<and> hr_peer r' = hr_peer r \<and> hr_target r' = hr_target r \<and>
     (if hr_id r \<in> K then \<not> waiting (hr_state r') else hr_state r' = hr_state r)"

definition settled :: "u16 set \<Rightarrow> central_state \<Rightarrow> central_state \<Rightarrow> bool" where
  "settled K s s' \<longleftrightarrow>
     c_queue s' = c_queue s \<and> c_local_route s' = c_local_route s \<and> c_peer_count s' = c_peer_count s \<and>
     c_command_next s' = c_command_next s \<and> list_all2 (settles K) (c_commands s) (c_commands s')"

lemma settles_refl: "settles {} r r"
  by (simp add: settles_def)

lemma settles_trans: "settles K r r1 \<Longrightarrow> settles L r1 r2 \<Longrightarrow> settles (K \<union> L) r r2"
  by (auto simp: settles_def split: if_splits)

lemma settled_frame:
  assumes "settled K s s'"
  shows "c_queue s' = c_queue s" "c_local_route s' = c_local_route s" "c_peer_count s' = c_peer_count s"
    "c_command_next s' = c_command_next s" "length (c_commands s') = length (c_commands s)"
  using assms list_all2_lengthD [of "settles K" "c_commands s" "c_commands s'"] by (simp_all add: settled_def)

lemma settled_nth:
  assumes "settled K s s'" "i < length (c_commands s)"
  shows "hr_id (c_commands s' ! i) = hr_id (c_commands s ! i)"
    "hr_peer (c_commands s' ! i) = hr_peer (c_commands s ! i)"
    "hr_target (c_commands s' ! i) = hr_target (c_commands s ! i)"
    "hr_id (c_commands s ! i) \<in> K \<Longrightarrow> \<not> waiting (hr_state (c_commands s' ! i))"
    "hr_id (c_commands s ! i) \<notin> K \<Longrightarrow> hr_state (c_commands s' ! i) = hr_state (c_commands s ! i)"
proof -
  have "settles K (c_commands s ! i) (c_commands s' ! i)"
    using assms by (simp add: settled_def list_all2_nthD)
  then show "hr_id (c_commands s' ! i) = hr_id (c_commands s ! i)"
    "hr_peer (c_commands s' ! i) = hr_peer (c_commands s ! i)"
    "hr_target (c_commands s' ! i) = hr_target (c_commands s ! i)"
    "hr_id (c_commands s ! i) \<in> K \<Longrightarrow> \<not> waiting (hr_state (c_commands s' ! i))"
    "hr_id (c_commands s ! i) \<notin> K \<Longrightarrow> hr_state (c_commands s' ! i) = hr_state (c_commands s ! i)"
    by (simp_all add: settles_def)
qed

lemma settled_same:
  "c_queue s' = c_queue s \<Longrightarrow> c_local_route s' = c_local_route s \<Longrightarrow> c_peer_count s' = c_peer_count s \<Longrightarrow>
   c_command_next s' = c_command_next s \<Longrightarrow> c_commands s' = c_commands s \<Longrightarrow> settled {} s s'"
  by (simp add: settled_def list_all2_same settles_refl)

lemma settled_trans:
  assumes "settled K s s1" "settled L s1 s2"
  shows "settled (K \<union> L) s s2"
proof -
  have "list_all2 (settles (K \<union> L)) (c_commands s) (c_commands s2)"
    by (rule list_all2_trans [of "settles K" "settles L" _ _ "c_commands s1", OF settles_trans])
       (use assms in \<open>simp_all add: settled_def\<close>)
  with assms show ?thesis by (simp add: settled_def)
qed

lemma settled_trans_same: "settled K s s1 \<Longrightarrow> settled {} s1 s2 \<Longrightarrow> settled K s s2"
  using settled_trans [of K s s1 "{}" s2] by simp

lemma settled_distinct: "settled K s s' \<Longrightarrow> ids_distinct (c_commands s) \<Longrightarrow> ids_distinct (c_commands s')"
  by (simp add: ids_distinct_def settled_frame settled_nth)

lemma settled_find:
  "settled K s s' \<Longrightarrow> length (c_commands s) = COMMAND_HISTORY_SIZE \<Longrightarrow> find_command_locked s' = find_command_locked s"
  by (rule find_command_cong) (simp add: settled_nth)

lemma settled_ids:
  assumes "settled K s s'" "waiting st"
  shows "ids_in st (c_commands s') p = ids_in st (c_commands s) p - K"
proof (rule set_eqI)
  fix k
  have "(hr_id (c_commands s' ! i) = k \<and> k \<noteq> 0 \<and> hr_state (c_commands s' ! i) = st \<and> hr_peer (c_commands s' ! i) = p) \<longleftrightarrow>
    (hr_id (c_commands s ! i) = k \<and> k \<noteq> 0 \<and> hr_state (c_commands s ! i) = st \<and> hr_peer (c_commands s ! i) = p) \<and> k \<notin> K"
    if "i < length (c_commands s)" for i
    using settled_nth [OF assms(1) that] assms(2) by (cases "hr_id (c_commands s ! i) \<in> K") auto
  then show "k \<in> ids_in st (c_commands s') p \<longleftrightarrow> k \<in> ids_in st (c_commands s) p - K"
    unfolding ids_in_iff settled_frame(5) [OF assms(1)] Diff_iff by blast
qed

lemma finish_commands:
  "c_commands (finish_command_locked t now slot result d s) =
     (c_commands s)[slot := (c_commands s ! slot)\<lparr>hr_state := result, hr_finished_at := now, hr_detail := take 95 d\<rparr>]"
  by (simp add: finish_command_locked_def Let_def)

lemma settled_finish:
  assumes "find_command_locked s ident = Some slot" "length (c_commands s) = COMMAND_HISTORY_SIZE"
    "ids_distinct (c_commands s)" "\<not> waiting result"
  shows "settled {ident} s (finish_command_locked t now slot result d s)"
proof -
  from find_command_Some [OF assms(1)] assms(2) have slot: "slot < length (c_commands s)"
    "hr_id (c_commands s ! slot) = ident" "ident \<noteq> 0" by auto
  have other: "hr_id (c_commands s ! i) \<noteq> ident" if "i < length (c_commands s)" "i \<noteq> slot" for i
    by (rule notI, use ids_distinctD [OF assms(3) slot(1) that(1)] slot that(2) in simp)
  have "settles {ident} (c_commands s ! i) (c_commands (finish_command_locked t now slot result d s) ! i)"
    if "i < length (c_commands s)" for i
    using other [OF that] slot(1,2) assms(4) by (cases "i = slot") (simp_all add: finish_commands settles_def)
  then have "list_all2 (settles {ident}) (c_commands s) (c_commands (finish_command_locked t now slot result d s))"
    by (simp add: list_all2_conv_all_nth finish_commands)
  then show ?thesis by (simp add: settled_def finish_command_locked_def Let_def)
qed


section \<open>The invariant of history, queues and flights\<close>

text \<open>Routes: every intersection has a Local endpoint, never the one of Train.\<close>

definition route_ok :: "central_state \<Rightarrow> bool" where
  "route_ok s \<longleftrightarrow> length (c_local_route s) = NUM_INTERSECTIONS \<and> 2 \<le> c_peer_count s \<and> c_peer_count s \<le> MAX_PEERS \<and>
     (\<forall>t < NUM_INTERSECTIONS. c_local_route s ! t < c_peer_count s \<and> c_local_route s ! t \<noteq> 1)"

text \<open>A piece of work that fits the record it belongs to: it is a frame \<open>central_send\<close> accepts, and it is for
  Train on peer 1, otherwise for an intersection that is routed to the peer, under the identifier of the
  record.\<close>

definition good_work :: "nat list \<Rightarrow> nat \<Rightarrow> command_record \<Rightarrow> queued_command \<Rightarrow> bool" where
  "good_work route p r w \<longleftrightarrow> central_send_admissible (qc_message w) \<and>
     (if p = 1 then hdr_dst (header (qc_message w)) = controller_code CONTROLLER_TRAIN
      else hdr_dst (header (qc_message w)) = controller_code CONTROLLER_LOCAL \<and>
           central_command_id (qc_message w) = qc_id w \<and> hr_target r < NUM_INTERSECTIONS \<and>
           central_command_target (qc_message w) = hr_target r \<and> route ! hr_target r = p)"

definition queued_ids :: "central_state \<Rightarrow> nat \<Rightarrow> u16 list" where
  "queued_ids s p = map qc_id (ring_list (c_queue s ! p))"

definition queue_ok :: "queued_command ring \<Rightarrow> bool" where
  "queue_ok q \<longleftrightarrow> ring_ok q \<and> length (ring_slots q) = COMMAND_QUEUE_SIZE"

text \<open>The works waiting for a peer carry, each once, the identifiers of the records that are queued for it.\<close>

definition queue_agrees :: "central_state \<Rightarrow> nat \<Rightarrow> bool" where
  "queue_agrees s p \<longleftrightarrow> queue_ok (c_queue s ! p) \<and> distinct (queued_ids s p) \<and>
     set (queued_ids s p) = ids_in REQUEST_QUEUED (c_commands s) p"

definition works_ok :: "central_state \<Rightarrow> nat \<Rightarrow> bool" where
  "works_ok s p \<longleftrightarrow> (\<forall>w \<in> set (ring_list (c_queue s ! p)). \<forall>r \<in> set (c_commands s).
     hr_id r = qc_id w \<longrightarrow> good_work (c_local_route s) p r w)"

definition sizes_ok :: "central_state \<Rightarrow> bool" where
  "sizes_ok s \<longleftrightarrow> length (c_commands s) = COMMAND_HISTORY_SIZE \<and> length (c_queue s) = MAX_PEERS \<and>
     c_command_next s < COMMAND_HISTORY_SIZE"

text \<open>\<open>fl p\<close> is the identifier of the command peer thread \<open>p\<close> is sending, if any.\<close>

definition history_ok :: "(nat \<Rightarrow> u16 set) \<Rightarrow> central_state \<Rightarrow> bool" where
  "history_ok fl s \<longleftrightarrow> sizes_ok s \<and> ids_distinct (c_commands s) \<and> route_ok s \<and>
     (\<forall>p < MAX_PEERS. queue_agrees s p \<and> works_ok s p \<and> ids_in REQUEST_SENDING (c_commands s) p = fl p) \<and>
     (\<forall>p \<ge> MAX_PEERS. ids_in REQUEST_QUEUED (c_commands s) p = {} \<and> ids_in REQUEST_SENDING (c_commands s) p = {})"

lemma history_okD:
  assumes "history_ok fl s"
  shows "sizes_ok s" "ids_distinct (c_commands s)" "route_ok s" "length (c_commands s) = COMMAND_HISTORY_SIZE"
    "length (c_queue s) = MAX_PEERS" "c_command_next s < COMMAND_HISTORY_SIZE"
    "p < MAX_PEERS \<Longrightarrow> queue_agrees s p" "p < MAX_PEERS \<Longrightarrow> works_ok s p"
    "p < MAX_PEERS \<Longrightarrow> ids_in REQUEST_SENDING (c_commands s) p = fl p"
  using assms by (simp_all add: history_ok_def sizes_ok_def)

text \<open>The general step: records of identifiers in \<open>K\<close> are settled, the queues lose exactly them.\<close>

definition queue_drops :: "u16 set \<Rightarrow> queued_command ring \<Rightarrow> queued_command ring \<Rightarrow> bool" where
  "queue_drops K q q' \<longleftrightarrow> queue_ok q' \<and> ring_list q' = filter (\<lambda>w. qc_id w \<notin> K) (ring_list q)"

lemma settled_works:
  assumes "settled K s s'" "works_ok s p" "set (ring_list (q p)) \<subseteq> set (ring_list (c_queue s ! p))"
    "c_queue s'' ! p = q p" "c_commands s'' = c_commands s'" "c_local_route s'' = c_local_route s'"
  shows "works_ok s'' p"
  unfolding works_ok_def assms(4-6)
proof (intro ballI impI)
  fix w r assume w: "w \<in> set (ring_list (q p))" and r: "r \<in> set (c_commands s')" "hr_id r = qc_id w"
  from r(1) obtain i where i: "i < length (c_commands s)" "r = c_commands s' ! i"
    by (auto simp: in_set_conv_nth settled_frame(5) [OF assms(1)])
  from assms(2,3) w r(2) i settled_nth(1) [OF assms(1) i(1)]
  have "good_work (c_local_route s) p (c_commands s ! i) w" by (auto simp: works_ok_def)
  then show "good_work (c_local_route s') p r w"
    using settled_nth(3) [OF assms(1) i(1)] i(2) by (simp add: good_work_def settled_frame(2) [OF assms(1)])
qed

lemma settled_history:
  assumes ok: "history_ok fl s" and st: "settled K s s'"
    and q: "\<And>p. p < MAX_PEERS \<Longrightarrow> queue_drops K (c_queue s ! p) (q ! p)" "length q = MAX_PEERS"
    and fl: "\<And>p. p < MAX_PEERS \<Longrightarrow> fl' p = fl p - K"
  shows "history_ok fl' (s'\<lparr>c_queue := q\<rparr>)"
proof -
  note frame = settled_frame [OF st]
  let ?s = "s'\<lparr>c_queue := q\<rparr>"
  have "queue_agrees ?s p" if p: "p < MAX_PEERS" for p
  proof -
    have "queued_ids ?s p = filter (\<lambda>k. k \<notin> K) (queued_ids s p)"
      using q(1) [OF p] by (simp add: queued_ids_def queue_drops_def filter_map comp_def)
    then show ?thesis
      using history_okD(7) [OF ok p] q(1) [OF p] settled_ids [OF st, of REQUEST_QUEUED p]
      by (auto simp: queue_agrees_def queue_drops_def waiting_def)
  qed
  moreover have "works_ok ?s p" if p: "p < MAX_PEERS" for p
    by (rule settled_works [OF st history_okD(8) [OF ok p], where q = "(!) q"])
       (use q(1) [OF p] in \<open>auto simp: queue_drops_def\<close>)
  moreover have "ids_in REQUEST_SENDING (c_commands ?s) p = fl' p" if p: "p < MAX_PEERS" for p
    using settled_ids [OF st, of REQUEST_SENDING p] history_okD(9) [OF ok p] fl [OF p] by (simp add: waiting_def)
  ultimately show ?thesis
    using ok q(2) settled_distinct [OF st] settled_ids [OF st]
    by (simp add: history_ok_def sizes_ok_def route_ok_def frame waiting_def)
qed

lemma queue_drops_none: "queue_ok q \<Longrightarrow> K \<inter> qc_id ` set (ring_list q) = {} \<Longrightarrow> queue_drops K q q"
  by (auto simp: queue_drops_def intro!: filter_True [symmetric])

lemma history_same:
  assumes "history_ok fl s" "settled {} s s'"
  shows "history_ok fl s'"
proof -
  have "history_ok fl (s'\<lparr>c_queue := c_queue s\<rparr>)"
    by (rule settled_history [OF assms]) (use history_okD [OF assms(1)] in \<open>auto simp: queue_drops_def queue_agrees_def\<close>)
  moreover have "s'\<lparr>c_queue := c_queue s\<rparr> = s'" using settled_frame(1) [OF assms(2)] by simp
  ultimately show ?thesis by (simp only:)
qed

lemma history_event: "history_ok fl s \<Longrightarrow> history_ok fl (event_locked t b s)"
  by (erule history_same, rule settled_same) simp_all

section \<open>Settling operations\<close>

lemma finish_frame [simp]:
  "c_monitor (finish_command_locked t now slot result d s) = c_monitor s"
  "c_queue (finish_command_locked t now slot result d s) = c_queue s"
  "c_local_route (finish_command_locked t now slot result d s) = c_local_route s"
  "c_peer_count (finish_command_locked t now slot result d s) = c_peer_count s"
  "c_endpoint_connected (finish_command_locked t now slot result d s) = c_endpoint_connected s"
  "c_endpoint_probe (finish_command_locked t now slot result d s) = c_endpoint_probe s"
  "c_running (finish_command_locked t now slot result d s) = c_running s"
  "c_policy (finish_command_locked t now slot result d s) = c_policy s"
  "c_policy_command (finish_command_locked t now slot result d s) = c_policy_command s"
  by (simp_all add: finish_command_locked_def Let_def)

lemma queue_set_frame [simp]:
  "find_command_locked (s\<lparr>c_queue := q\<rparr>) = find_command_locked s"
  "local_ready_locked (s\<lparr>c_queue := q\<rparr>) = local_ready_locked s"
  "train_ready_locked (s\<lparr>c_queue := q\<rparr>) = train_ready_locked s"
  "event_locked t b (s\<lparr>c_queue := q\<rparr>) = (event_locked t b s)\<lparr>c_queue := q\<rparr>"
  "finish_command_locked t now slot result d (s\<lparr>c_queue := q\<rparr>) =
     (finish_command_locked t now slot result d s)\<lparr>c_queue := q\<rparr>"
  by (simp_all add: find_command_locked_def local_ready_locked_def train_ready_locked_def event_locked_def
      finish_command_locked_def Let_def fun_eq_iff)

lemma find_finish [simp]:
  "find_command_locked (finish_command_locked t now slot result d s) = find_command_locked s"
proof -
  have "hr_id (c_commands (finish_command_locked t now slot result d s) ! i) = hr_id (c_commands s ! i)" for i
    by (cases "slot < length (c_commands s)"; cases "i = slot") (simp_all add: finish_commands list_update_beyond)
  then show ?thesis by (intro find_command_cong)
qed

lemma queued_find:
  assumes "history_ok fl s" "p < MAX_PEERS" "k \<in> ids_in st (c_commands s) p"
  obtains slot where "find_command_locked s k = Some slot" "slot < COMMAND_HISTORY_SIZE"
    "hr_id (c_commands s ! slot) = k" "hr_state (c_commands s ! slot) = st" "hr_peer (c_commands s ! slot) = p"
proof -
  from assms(3) obtain i where i: "i < length (c_commands s)" "hr_id (c_commands s ! i) = k" "k \<noteq> 0"
    "hr_state (c_commands s ! i) = st" "hr_peer (c_commands s ! i) = p" by (auto simp: ids_in_iff)
  note ok = history_okD [OF assms(1)]
  have "find_command_locked s k = Some i"
    by (rule find_command_exact [OF ok(2,4) _ i(2,3)]) (use i(1) ok(4) in simp)
  with i ok(4) that show thesis by simp
qed

lemma disjoint_ids:
  assumes "history_ok fl s" "K \<subseteq> ids_in st (c_commands s) p" "p < MAX_PEERS"
  shows "p' < MAX_PEERS \<Longrightarrow> st \<noteq> REQUEST_QUEUED \<or> p \<noteq> p' \<Longrightarrow> K \<inter> qc_id ` set (ring_list (c_queue s ! p')) = {}"
    "p' < MAX_PEERS \<Longrightarrow> st \<noteq> REQUEST_SENDING \<or> p \<noteq> p' \<Longrightarrow> fl p' - K = fl p'"
proof -
  note unique = ids_in_unique [OF history_okD(2) [OF assms(1)]]
  show "K \<inter> qc_id ` set (ring_list (c_queue s ! p')) = {}" if "p' < MAX_PEERS" "st \<noteq> REQUEST_QUEUED \<or> p \<noteq> p'"
  proof -
    have "qc_id ` set (ring_list (c_queue s ! p')) = ids_in REQUEST_QUEUED (c_commands s) p'"
      using history_okD(7) [OF assms(1) that(1)] by (simp add: queue_agrees_def queued_ids_def)
    with that(2) assms(2) unique show ?thesis by blast
  qed
  show "fl p' - K = fl p'" if "p' < MAX_PEERS" "st \<noteq> REQUEST_SENDING \<or> p \<noteq> p'"
    using history_okD(9) [OF assms(1) that(1)] that(2) assms(2) unique by blast
qed

lemma queue_okI: "history_ok fl s \<Longrightarrow> p < MAX_PEERS \<Longrightarrow> queue_ok (c_queue s ! p)"
  using history_okD(7) [of fl s p] by (simp add: queue_agrees_def)

text \<open>Discarding: one round of the loop over the history.\<close>

definition cancel_at :: "string \<Rightarrow> u64 \<Rightarrow> nat \<Rightarrow> nat \<Rightarrow> central_state \<Rightarrow> central_state" where
  "cancel_at t now p i s =
     (let r = c_commands s ! i in
      if hr_id r \<noteq> 0 \<and> hr_peer r = p \<and> hr_state r = REQUEST_QUEUED
      then finish_command_locked t now i REQUEST_CANCELED ''link lost or Central stopping; not sent'' s else s)"

lemma discard_queue_eq:
  "discard_queue_locked t now p s =
     (let s1 = fold (cancel_at t now p) [0..<COMMAND_HISTORY_SIZE] s
      in s1\<lparr>c_queue := (c_queue s1)[p := (c_queue s1 ! p)\<lparr>ring_head := 0, ring_count := 0\<rparr>]\<rparr>)"
  by (simp only: discard_queue_locked_def cancel_at_def [abs_def])

lemma discard_fold:
  assumes "length (c_commands s) = COMMAND_HISTORY_SIZE" "ids_distinct (c_commands s)" "\<forall>i \<in> set is. i < COMMAND_HISTORY_SIZE"
  shows "\<exists>K. K \<subseteq> ids_in REQUEST_QUEUED (c_commands s) p \<and>
    (\<forall>i \<in> set is. hr_id (c_commands s ! i) \<noteq> 0 \<and> hr_peer (c_commands s ! i) = p \<and>
        hr_state (c_commands s ! i) = REQUEST_QUEUED \<longrightarrow> hr_id (c_commands s ! i) \<in> K) \<and>
    settled K s (fold (cancel_at t now p) is s)"
  using assms
proof (induction "is" arbitrary: s)
  case Nil
  show ?case by (rule exI [of _ "{}"]) (simp add: settled_same)
next
  case (Cons i "is")
  let ?r = "c_commands s ! i"
  let ?c = "hr_id ?r \<noteq> 0 \<and> hr_peer ?r = p \<and> hr_state ?r = REQUEST_QUEUED"
  define s1 where "s1 = cancel_at t now p i s"
  define K1 where "K1 = (if ?c then {hr_id ?r} else {})"
  have i: "i < COMMAND_HISTORY_SIZE" using Cons.prems(3) by simp
  have st: "settled K1 s s1"
  proof (cases ?c)
    case True
    then have "find_command_locked s (hr_id ?r) = Some i"
      using find_command_exact [OF Cons.prems(2,1) i refl] by blast
    from settled_finish [OF this Cons.prems(1,2)] True show ?thesis by (simp add: s1_def K1_def waiting_def cancel_at_def Let_def)
  next
    case False
    then have "K1 = {}" "s1 = s" by (simp_all only: K1_def s1_def cancel_at_def Let_def if_False)
    then show ?thesis by (simp add: settled_same)
  qed
  have K1: "K1 \<subseteq> ids_in REQUEST_QUEUED (c_commands s) p"
    using i Cons.prems(1) by (auto simp: K1_def ids_in_iff)
  obtain K where K: "K \<subseteq> ids_in REQUEST_QUEUED (c_commands s1) p"
    "\<forall>i \<in> set is. hr_id (c_commands s1 ! i) \<noteq> 0 \<and> hr_peer (c_commands s1 ! i) = p \<and>
        hr_state (c_commands s1 ! i) = REQUEST_QUEUED \<longrightarrow> hr_id (c_commands s1 ! i) \<in> K"
    "settled K s1 (fold (cancel_at t now p) is s1)"
    using Cons.IH [of s1] Cons.prems settled_frame(5) [OF st] settled_distinct [OF st] by auto
  have sub: "K \<subseteq> ids_in REQUEST_QUEUED (c_commands s) p"
    using K(1) settled_ids [OF st, of REQUEST_QUEUED p] by (auto simp: waiting_def)
  have "hr_id (c_commands s ! j) \<in> K1 \<union> K"
    if "j \<in> set (i # is)" "hr_id (c_commands s ! j) \<noteq> 0 \<and> hr_peer (c_commands s ! j) = p \<and>
        hr_state (c_commands s ! j) = REQUEST_QUEUED" for j
  proof (cases "hr_id (c_commands s ! j) \<in> K1")
    case False
    then have "j \<noteq> i" using that(2) by (auto simp: K1_def)
    then have j: "j \<in> set is" "j < length (c_commands s)" using that(1) Cons.prems(1,3) by auto
    with K(2) that(2) settled_nth [OF st j(2)] False show ?thesis by auto
  qed simp
  then show ?case using settled_trans [OF st K(3)] sub K1
    by (intro exI [of _ "K1 \<union> K"]) (auto simp: s1_def)
qed

lemma discard_history:
  assumes ok: "history_ok fl s" and p: "p < MAX_PEERS"
  shows "history_ok fl (discard_queue_locked t now p s)"
proof -
  note inv = history_okD [OF ok]
  obtain K s1 where K: "K \<subseteq> ids_in REQUEST_QUEUED (c_commands s) p"
    "\<forall>i < COMMAND_HISTORY_SIZE. hr_id (c_commands s ! i) \<noteq> 0 \<and> hr_peer (c_commands s ! i) = p \<and>
        hr_state (c_commands s ! i) = REQUEST_QUEUED \<longrightarrow> hr_id (c_commands s ! i) \<in> K" "settled K s s1"
    and s1: "s1 = fold (cancel_at t now p) [0..<COMMAND_HISTORY_SIZE] s"
    using discard_fold [OF inv(4,2), of "[0..<COMMAND_HISTORY_SIZE]" p t now] by auto
  have eq: "discard_queue_locked t now p s =
      s1\<lparr>c_queue := (c_queue s1)[p := (c_queue s1 ! p)\<lparr>ring_head := 0, ring_count := 0\<rparr>]\<rparr>"
    by (simp add: discard_queue_eq s1 Let_def)
  have all: "set (queued_ids s p) \<subseteq> K"
    using inv(7) [OF p] K(2) inv(4) by (auto simp: queue_agrees_def ids_in_iff)
  show ?thesis unfolding eq settled_frame(1) [OF K(3)]
  proof (rule settled_history [OF ok K(3)])
    fix p' assume p': "p' < MAX_PEERS"
    show "queue_drops K (c_queue s ! p') ((c_queue s)[p := (c_queue s ! p)\<lparr>ring_head := 0, ring_count := 0\<rparr>] ! p')"
    proof (cases "p' = p")
      case True
      have "filter (\<lambda>w. qc_id w \<notin> K) (ring_list (c_queue s ! p)) = []"
        using all by (auto simp: filter_empty_conv queued_ids_def)
      then show ?thesis
        using True queue_okI [OF ok p] p inv(5) by (simp add: queue_drops_def queue_ok_def ring_ok_def)
    next
      case False
      then show ?thesis
        using queue_drops_none [OF queue_okI [OF ok p'] disjoint_ids(1) [OF ok K(1) p p']] by simp
    qed
    show "fl p' = fl p' - K" using disjoint_ids(2) [OF ok K(1) p p'] by simp
  qed (simp add: inv(5))
qed

text \<open>An outcome for the command in flight.\<close>

lemma outcome_history:
  assumes ok: "history_ok fl s" and p: "p < MAX_PEERS" and w: "fl p = {qc_id w}"
  shows "history_ok (fl(p := {})) (record_outcome t now p w result err code s)"
proof -
  note inv = history_okD [OF ok]
  have K: "{qc_id w} \<subseteq> ids_in REQUEST_SENDING (c_commands s) p" using inv(9) [OF p] w by simp
  from queued_find [OF ok p, of "qc_id w" REQUEST_SENDING] K
  obtain slot where slot: "find_command_locked s (qc_id w) = Some slot" by auto
  let ?d = "take 95 (send_detail result err code p (peer_source p) (qc_message w))"
  let ?s = "finish_command_locked t now slot (outcome_state result) ?d s"
  have "settled {qc_id w} s ?s"
    by (rule settled_finish [OF slot inv(4,2)]) (simp add: waiting_def outcome_state_def split: send_status.split)
  from settled_history [OF ok this, of "c_queue s" "fl(p := {})"]
  have "history_ok (fl(p := {})) (?s\<lparr>c_queue := c_queue s\<rparr>)"
    using inv(5) queue_drops_none [OF queue_okI [OF ok] disjoint_ids(1) [OF ok K p]] disjoint_ids(2) [OF ok K p] w
    by auto
  moreover have "?s\<lparr>c_queue := c_queue s\<rparr> = record_outcome t now p w result err code s"
    by (simp add: record_outcome_def slot)
  ultimately show ?thesis by (simp only:)
qed

text \<open>Cancelling superseded automatic commands.\<close>

lemma superseded_stable: "superseded target w (cancel_superseded t now v s) = superseded target w s"
proof -
  have "hr_automatic (c_commands (finish_command_locked t now slot result d s) ! i) = hr_automatic (c_commands s ! i) \<and>
      hr_target (c_commands (finish_command_locked t now slot result d s) ! i) = hr_target (c_commands s ! i)"
    for i slot result d
    by (cases "slot < length (c_commands s)"; cases "i = slot") (simp_all add: finish_commands list_update_beyond)
  then show ?thesis by (simp add: superseded_def cancel_superseded_def split: option.split)
qed

lemma cancel_superseded_fold:
  assumes "length (c_commands s) = COMMAND_HISTORY_SIZE" "ids_distinct (c_commands s)"
    "\<forall>w \<in> set ws. find_command_locked s (qc_id w) \<noteq> None"
  shows "settled (qc_id ` set ws) s (fold (cancel_superseded t now) ws s)"
  using assms
proof (induction ws arbitrary: s)
  case (Cons w ws)
  then obtain slot where slot: "find_command_locked s (qc_id w) = Some slot" by auto
  let ?s = "cancel_superseded t now w s"
  have st: "settled {qc_id w} s ?s"
    using settled_finish [OF slot Cons.prems(1,2)] by (simp add: cancel_superseded_def slot waiting_def)
  have "settled (qc_id ` set ws) ?s (fold (cancel_superseded t now) ws ?s)"
    by (rule Cons.IH)
       (use Cons.prems settled_frame(5) [OF st] settled_distinct [OF st] settled_find [OF st] in auto)
  from settled_trans [OF st this] show ?case by simp
qed (simp add: settled_same)

definition cancel_in :: "string \<Rightarrow> u64 \<Rightarrow> nat \<Rightarrow> nat \<Rightarrow> central_state \<Rightarrow> central_state" where
  "cancel_in t now target p s =
     (let (r, s1) = ring_filter (superseded target) (cancel_superseded t now) (c_queue s ! p) s
      in s1\<lparr>c_queue := (c_queue s1)[p := r]\<rparr>)"

lemma cancel_automatic_eq: "cancel_automatic t now target s = fold (cancel_in t now target) [0..<c_peer_count s] s"
  by (simp only: cancel_automatic_def cancel_in_def [abs_def])

lemma superseded_id: "qc_id v = qc_id w \<Longrightarrow> superseded target v s = superseded target w s"
  by (simp add: superseded_def)

lemma cancel_in_history:
  assumes ok: "history_ok fl s" and p: "p < MAX_PEERS"
  shows "history_ok fl (cancel_in t now target p s)" "c_peer_count (cancel_in t now target p s) = c_peer_count s"
proof -
  note inv = history_okD [OF ok]
  let ?q = "c_queue s ! p"
  let ?ws = "filter (\<lambda>w. superseded target w s) (ring_list ?q)"
  let ?K = "qc_id ` set ?ws"
  have q: "ring_ok ?q" "length (ring_slots ?q) = COMMAND_QUEUE_SIZE"
    using queue_okI [OF ok p] by (simp_all add: queue_ok_def)
  obtain r where r: "ring_filter (superseded target) (cancel_superseded t now) ?q s =
      (r, fold (cancel_superseded t now) ?ws s)" "ring_ok r" "length (ring_slots r) = COMMAND_QUEUE_SIZE"
      "ring_list r = filter (\<lambda>w. \<not> superseded target w s) (ring_list ?q)"
    using ring_filter_list [where drop_it = "superseded target" and act = "cancel_superseded t now" and s = s,
        OF q(1) superseded_stable] q(2) by auto
  have K: "?K \<subseteq> ids_in REQUEST_QUEUED (c_commands s) p"
    using inv(7) [OF p] by (auto simp: queue_agrees_def queued_ids_def)
  have "find_command_locked s (qc_id w) \<noteq> None" if "w \<in> set ?ws" for w
  proof -
    from K that have "qc_id w \<in> ids_in REQUEST_QUEUED (c_commands s) p" by auto
    from queued_find [OF ok p this] show ?thesis by auto
  qed
  then have st: "settled ?K s (fold (cancel_superseded t now) ?ws s)"
    by (intro cancel_superseded_fold inv ballI) simp
  have eq: "cancel_in t now target p s = (fold (cancel_superseded t now) ?ws s)\<lparr>c_queue := (c_queue s)[p := r]\<rparr>"
    using settled_frame(1) [OF st] by (simp add: cancel_in_def r(1))
  show "c_peer_count (cancel_in t now target p s) = c_peer_count s"
    using settled_frame(3) [OF st] by (simp add: eq)
  show "history_ok fl (cancel_in t now target p s)" unfolding eq
  proof (rule settled_history [OF ok st])
    fix p' assume p': "p' < MAX_PEERS"
    show "queue_drops ?K (c_queue s ! p') ((c_queue s)[p := r] ! p')"
    proof (cases "p' = p")
      case True
      have "filter (\<lambda>w. qc_id w \<notin> ?K) (ring_list ?q) = filter (\<lambda>w. \<not> superseded target w s) (ring_list ?q)"
        by (rule filter_cong) (auto dest: superseded_id [of _ _ target s])
      then show ?thesis using True p inv(5) r by (simp add: queue_drops_def queue_ok_def)
    next
      case False
      then show ?thesis
        using queue_drops_none [OF queue_okI [OF ok p'] disjoint_ids(1) [OF ok K p p']] by simp
    qed
    show "fl p' = fl p' - ?K" using disjoint_ids(2) [OF ok K p p'] by simp
  qed (simp add: inv(5))
qed

lemma cancel_automatic_history:
  assumes "history_ok fl s"
  shows "history_ok fl (cancel_automatic t now target s)"
  unfolding cancel_automatic_eq
proof (rule fold_ok [where P = "history_ok fl"])
  fix p s' assume p: "p \<in> set [0..<c_peer_count s]" and "history_ok fl s'"
  moreover have "p < MAX_PEERS" using p history_okD(3) [OF assms] by (simp add: route_ok_def)
  ultimately show "history_ok fl (cancel_in t now target p s')" by (intro cancel_in_history)
qed (rule assms)

text \<open>Taking a command: its record is settled, or it is in flight.\<close>

lemma filter_distinct_nth:
  assumes "distinct (map f xs)" "i < length xs"
  shows "filter (\<lambda>x. f x \<noteq> f (xs ! i)) xs = take i xs @ drop (Suc i) xs"
proof -
  have split: "xs = take i xs @ xs ! i # drop (Suc i) xs" by (rule id_take_nth_drop [OF assms(2)])
  have "distinct (map f (take i xs @ xs ! i # drop (Suc i) xs))" using assms(1) split by simp
  then have out: "f (xs ! i) \<notin> f ` (set (take i xs) \<union> set (drop (Suc i) xs))" by auto
  then have "f x \<noteq> f (xs ! i)" if "x \<in> set (take i xs) \<union> set (drop (Suc i) xs)" for x
    using that by (metis imageI)
  then have "filter (\<lambda>x. f x \<noteq> f (xs ! i)) (take i xs @ xs ! i # drop (Suc i) xs) = take i xs @ drop (Suc i) xs"
    by (simp add: filter_True)
  with split show ?thesis by (simp only:)
qed

text \<open>What is known of the command that is taken from position \<open>i\<close>.\<close>

lemma due_work:
  assumes ok: "history_ok fl s" and p: "p < MAX_PEERS" and due: "first_due s p now = Some i"
  defines "w \<equiv> ring_nth (c_queue s ! p) i"
  obtains slot where "find_command_locked s (qc_id w) = Some slot" "slot < COMMAND_HISTORY_SIZE"
    "hr_id (c_commands s ! slot) = qc_id w" "hr_state (c_commands s ! slot) = REQUEST_QUEUED"
    "hr_peer (c_commands s ! slot) = p" "good_work (c_local_route s) p (c_commands s ! slot) w"
    "qc_not_before w \<le> now" "queue_drops {qc_id w} (c_queue s ! p) (ring_remove i (c_queue s ! p))"
proof -
  note inv = history_okD [OF ok]
  let ?q = "c_queue s ! p"
  from due have i: "i < ring_count ?q" "qc_not_before w \<le> now"
    by (auto simp: first_due_def find_Some_iff w_def)
  have w: "w = ring_list ?q ! i" "w \<in> set (ring_list ?q)"
    using i(1) by (simp_all add: w_def ring_list_nth [symmetric])
  from inv(7) [OF p] w(2) have id: "qc_id w \<in> ids_in REQUEST_QUEUED (c_commands s) p"
    and d: "distinct (map qc_id (ring_list ?q))" "queue_ok ?q"
    by (auto simp: queue_agrees_def queued_ids_def)
  from queued_find [OF ok p id] obtain slot where slot:
    "find_command_locked s (qc_id w) = Some slot" "slot < COMMAND_HISTORY_SIZE"
    "hr_id (c_commands s ! slot) = qc_id w" "hr_state (c_commands s ! slot) = REQUEST_QUEUED"
    "hr_peer (c_commands s ! slot) = p" by blast
  have good: "good_work (c_local_route s) p (c_commands s ! slot) w"
    using inv(8) [OF p] w(2) slot(2,3) inv(4) by (auto simp: works_ok_def)
  have "length (ring_slots (ring_remove i ?q)) = length (ring_slots ?q)"
    using ring_shift [of ?q "ring_count ?q - 1" i] d(2) i(1)
    by (auto simp: ring_remove_def queue_ok_def ring_ok_def)
  then have "queue_drops {qc_id w} ?q (ring_remove i ?q)"
    using ring_remove_ok [of ?q i] ring_list_remove [of ?q i] filter_distinct_nth [OF d(1), of i] d(2) i(1)
    by (auto simp: queue_drops_def queue_ok_def w(1))
  from that [OF slot good i(2) this] show thesis .
qed

text \<open>The timestamp of a frame does not matter to anything but its own validity.\<close>

definition restamp :: "string \<Rightarrow> test_message \<Rightarrow> test_message" where
  "restamp t m = m\<lparr>header := (header m)\<lparr>hdr_timestamp := overlay (take 31 t @ [NUL]) (hdr_timestamp (header m))\<rparr>\<rparr>"

lemma restamp_nul: "has_nul (hdr_timestamp (header (restamp t m)))"
  by (simp add: restamp_def has_nul_def overlay_def)

lemma restamp_sel [simp]:
  "data (restamp t m) = data m" "hdr_type (header (restamp t m)) = hdr_type (header m)"
  "hdr_src (header (restamp t m)) = hdr_src (header m)" "hdr_dst (header (restamp t m)) = hdr_dst (header m)"
  "hdr_reserved (header (restamp t m)) = hdr_reserved (header m)"
  by (simp_all add: restamp_def)

lemma admissible_nul: "central_send_admissible m \<Longrightarrow> has_nul (hdr_timestamp (header m))"
  by (simp add: central_send_admissible_def central_frame_valid_def Let_def)

lemma restamp_decode:
  assumes "has_nul (hdr_timestamp (header m))"
  shows "central_simulation_decode (restamp t m) = central_simulation_decode m"
proof -
  have "sim_header_ok (header (restamp t m)) = sim_header_ok (header m)"
    using assms restamp_nul [of t m] by (simp add: sim_header_ok_def)
  moreover have "data (simulation_encode c (restamp t m)) = data (simulation_encode c m)" for c
    by (simp add: simulation_encode_def)
  ultimately show ?thesis unfolding central_simulation_decode_def restamp_sel by (simp only:)
qed

lemma restamp_work:
  assumes "central_send_admissible m"
  shows "central_send_admissible (restamp t m)" "central_command_id (restamp t m) = central_command_id m"
    "central_command_target (restamp t m) = central_command_target m"
proof -
  note dec = restamp_decode [OF admissible_nul [OF assms], of t]
  have "test_payload_valid (restamp t m) d = test_payload_valid m d" for d
    unfolding test_payload_valid_def restamp_sel dec ..
  then have "central_frame_valid (restamp t m) n d = central_frame_valid m n d" for n d
    unfolding central_frame_valid_def Let_def restamp_sel
    by (simp only: restamp_nul admissible_nul [OF assms])
  then show "central_send_admissible (restamp t m)" using assms by (simp add: central_send_admissible_def)
  show "central_command_id (restamp t m) = central_command_id m"
    by (simp add: central_command_id_def dec)
  show "central_command_target (restamp t m) = central_command_target m"
    by (simp add: central_command_target_def dec)
qed

lemma good_work_restamp:
  "good_work route p r w \<Longrightarrow> good_work route p r (w\<lparr>qc_message := restamp t (qc_message w)\<rparr>)"
  by (simp add: good_work_def restamp_work)

text \<open>A queued record that is given out.\<close>

definition given_out :: "nat \<Rightarrow> u64 \<Rightarrow> string \<Rightarrow> central_state \<Rightarrow> central_state" where
  "given_out slot later d s =
     s\<lparr>c_commands := (c_commands s)[slot := (c_commands s ! slot)\<lparr>hr_state := REQUEST_SENDING, hr_sent_at := later,
         hr_detail := d\<rparr>]\<rparr>"

lemma given_out_nth:
  assumes "slot < length (c_commands s)" "i < length (c_commands s)"
  shows "hr_id (c_commands (given_out slot later d s) ! i) = hr_id (c_commands s ! i)"
    "hr_peer (c_commands (given_out slot later d s) ! i) = hr_peer (c_commands s ! i)"
    "hr_target (c_commands (given_out slot later d s) ! i) = hr_target (c_commands s ! i)"
    "hr_state (c_commands (given_out slot later d s) ! i) =
       (if i = slot then REQUEST_SENDING else hr_state (c_commands s ! i))"
  using assms by (cases "i = slot"; simp add: given_out_def)+

lemma given_out_ids:
  assumes "ids_distinct (c_commands s)" "slot < length (c_commands s)" "hr_id (c_commands s ! slot) = k" "k \<noteq> 0"
    "hr_state (c_commands s ! slot) = REQUEST_QUEUED" "hr_peer (c_commands s ! slot) = p"
  shows "ids_in REQUEST_QUEUED (c_commands (given_out slot later d s)) p' = ids_in REQUEST_QUEUED (c_commands s) p' - {k}"
    "ids_in REQUEST_SENDING (c_commands (given_out slot later d s)) p' =
       (if p' = p then insert k (ids_in REQUEST_SENDING (c_commands s) p) else ids_in REQUEST_SENDING (c_commands s) p')"
proof -
  have len: "length (c_commands (given_out slot later d s)) = length (c_commands s)" by (simp add: given_out_def)
  have other: "hr_id (c_commands s ! i) \<noteq> k" if "i < length (c_commands s)" "i \<noteq> slot" for i
    by (rule notI, use ids_distinctD [OF assms(1,2) that(1)] assms(3,4) that(2) in simp)
  note nth = given_out_nth [OF assms(2)]
  let ?n = "length (c_commands s)"
  show "ids_in REQUEST_QUEUED (c_commands (given_out slot later d s)) p' = ids_in REQUEST_QUEUED (c_commands s) p' - {k}"
  proof (rule set_eqI)
    fix j
    have "(hr_id (c_commands s ! i) = j \<and> j \<noteq> 0 \<and> (if i = slot then REQUEST_SENDING else hr_state (c_commands s ! i)) = REQUEST_QUEUED \<and>
        hr_peer (c_commands s ! i) = p') \<longleftrightarrow>
      (hr_id (c_commands s ! i) = j \<and> j \<noteq> 0 \<and> hr_state (c_commands s ! i) = REQUEST_QUEUED \<and>
        hr_peer (c_commands s ! i) = p') \<and> j \<noteq> k" if "i < ?n" for i
      using other [OF that] assms(3) by (cases "i = slot") auto
    then show "j \<in> ids_in REQUEST_QUEUED (c_commands (given_out slot later d s)) p' \<longleftrightarrow>
        j \<in> ids_in REQUEST_QUEUED (c_commands s) p' - {k}"
      by (simp add: ids_in_iff len nth cong: conj_cong) blast
  qed
  show "ids_in REQUEST_SENDING (c_commands (given_out slot later d s)) p' =
       (if p' = p then insert k (ids_in REQUEST_SENDING (c_commands s) p) else ids_in REQUEST_SENDING (c_commands s) p')"
  proof (rule set_eqI)
    fix j
    have "(hr_id (c_commands s ! i) = j \<and> j \<noteq> 0 \<and> (if i = slot then REQUEST_SENDING else hr_state (c_commands s ! i)) = REQUEST_SENDING \<and>
        hr_peer (c_commands s ! i) = p') \<longleftrightarrow>
      (i = slot \<and> j = k \<and> p' = p) \<or>
      (hr_id (c_commands s ! i) = j \<and> j \<noteq> 0 \<and> hr_state (c_commands s ! i) = REQUEST_SENDING \<and>
        hr_peer (c_commands s ! i) = p')" if "i < ?n" for i
      using assms(3-6) by (cases "i = slot") auto
    then show "j \<in> ids_in REQUEST_SENDING (c_commands (given_out slot later d s)) p' \<longleftrightarrow>
        j \<in> (if p' = p then insert k (ids_in REQUEST_SENDING (c_commands s) p) else ids_in REQUEST_SENDING (c_commands s) p')"
      using assms(2) by (simp add: ids_in_iff len nth cong: conj_cong) blast
  qed
qed

lemma given_out_history:
  assumes ok: "history_ok fl s" and p: "p < MAX_PEERS" and free: "fl p = {}"
    and slot: "slot < COMMAND_HISTORY_SIZE" "hr_id (c_commands s ! slot) = k" "k \<noteq> 0"
      "hr_state (c_commands s ! slot) = REQUEST_QUEUED" "hr_peer (c_commands s ! slot) = p"
    and q: "queue_drops {k} (c_queue s ! p) q"
  shows "history_ok (fl(p := {k})) ((given_out slot later d s)\<lparr>c_queue := (c_queue s)[p := q]\<rparr>)"
proof -
  note inv = history_okD [OF ok]
  let ?s = "(given_out slot later d s)\<lparr>c_queue := (c_queue s)[p := q]\<rparr>"
  have len: "slot < length (c_commands s)" using slot(1) inv(4) by simp
  note ids = given_out_ids [OF inv(2) len slot(2-5)]
  note nth = given_out_nth [OF len]
  have sel: "length (c_commands (given_out slot later d s)) = length (c_commands s)"
    "c_local_route (given_out slot later d s) = c_local_route s" "c_peer_count (given_out slot later d s) = c_peer_count s"
    "c_command_next (given_out slot later d s) = c_command_next s" by (simp_all add: given_out_def)
  have K: "{k} \<subseteq> ids_in REQUEST_QUEUED (c_commands s) p" using len slot by (auto simp: ids_in_iff)
  have drops: "queue_drops {k} (c_queue s ! p') (c_queue ?s ! p')" if p': "p' < MAX_PEERS" for p'
  proof (cases "p' = p")
    case True then show ?thesis using q p inv(5) by simp
  next
    case False
    then show ?thesis
      using queue_drops_none [OF queue_okI [OF ok p'] disjoint_ids(1) [OF ok K p p']] by simp
  qed
  have "queue_agrees ?s p'" if p': "p' < MAX_PEERS" for p'
  proof -
    have "queued_ids ?s p' = filter (\<lambda>i. i \<notin> {k}) (queued_ids s p')"
      using drops [OF p'] by (simp add: queued_ids_def queue_drops_def filter_map comp_def)
    then show ?thesis
      using inv(7) [OF p'] drops [OF p'] by (auto simp: queue_agrees_def queue_drops_def ids)
  qed
  moreover have "works_ok ?s p'" if p': "p' < MAX_PEERS" for p'
    unfolding works_ok_def
  proof (intro ballI impI)
    fix w r assume w: "w \<in> set (ring_list (c_queue ?s ! p'))" and r: "r \<in> set (c_commands ?s)" "hr_id r = qc_id w"
    from r(1) obtain i where i: "i < length (c_commands s)" "r = c_commands (given_out slot later d s) ! i"
      by (auto simp: in_set_conv_nth sel)
    have "good_work (c_local_route s) p' (c_commands s ! i) w"
      using inv(8) [OF p'] w drops [OF p'] r(2) i nth(1) [OF i(1)] by (auto simp: works_ok_def queue_drops_def)
    then show "good_work (c_local_route ?s) p' r w" using nth(3) [OF i(1)] i(2) by (simp add: good_work_def sel)
  qed
  moreover have "ids_distinct (c_commands ?s)"
    using inv(2) by (simp add: ids_distinct_def nth sel)
  moreover have "\<forall>p' \<ge> MAX_PEERS. ids_in REQUEST_QUEUED (c_commands ?s) p' = {} \<and> ids_in REQUEST_SENDING (c_commands ?s) p' = {}"
    using ok p by (auto simp: history_ok_def ids)
  ultimately show ?thesis
    using inv free by (simp add: history_ok_def sizes_ok_def route_ok_def sel ids)
qed

text \<open>What a command that may be sent satisfies.\<close>

definition ready_for :: "central_state \<Rightarrow> nat \<Rightarrow> nat \<Rightarrow> u64 \<Rightarrow> bool" where
  "ready_for s p target now \<longleftrightarrow> (if p = 1 then train_ready_locked s now else local_ready_locked s target now)"

definition sendable :: "central_state \<Rightarrow> nat \<Rightarrow> u64 \<Rightarrow> u64 \<Rightarrow> queued_command \<Rightarrow> bool" where
  "sendable s p now later w \<longleftrightarrow>
     (\<exists>r \<in> set (c_commands s). hr_id r = qc_id w \<and> qc_id w \<noteq> 0 \<and> hr_state r = REQUEST_QUEUED \<and> hr_peer r = p \<and>
        good_work (c_local_route s) p r w \<and> qc_not_before w \<le> now \<and>
        \<not> (qc_not_before w \<le> later \<and> word_of_nat COMMAND_MAX_WAIT_SEC * CENTRAL_NSEC \<le> later - qc_not_before w) \<and>
        ready_for s p (hr_target r) later)"

lemma take_command_history:
  assumes ok: "history_ok fl s" and p: "p < MAX_PEERS" and free: "fl p = {}"
  obtains (nothing) s' where "take_command t now later p s = (None, s')" "history_ok fl s'"
  | (work) w s' where "take_command t now later p s = (Some w, s')" "history_ok (fl(p := {qc_id w})) s'"
      "sendable s p now later w" "c_running s"
proof (cases "c_running s")
  case False
  show thesis by (rule that(1) [of s]) (use False ok in \<open>simp_all add: take_command_def\<close>)
next
  case running: True
  note inv = history_okD [OF ok]
  show thesis
  proof (cases "first_due s p now")
    case None
    show thesis by (rule that(1) [of s]) (use None ok in \<open>simp_all add: take_command_def\<close>)
  next
    case (Some i)
    define w where "w = ring_nth (c_queue s ! p) i"
    define q where "q = ring_remove i (c_queue s ! p)"
    from due_work [OF ok p Some] obtain slot where slot: "find_command_locked s (qc_id w) = Some slot"
      "slot < COMMAND_HISTORY_SIZE" "hr_id (c_commands s ! slot) = qc_id w"
      "hr_state (c_commands s ! slot) = REQUEST_QUEUED" "hr_peer (c_commands s ! slot) = p"
      "good_work (c_local_route s) p (c_commands s ! slot) w"
      "qc_not_before w \<le> now" "queue_drops {qc_id w} (c_queue s ! p) q"
      unfolding w_def q_def by blast
    from find_command_Some [OF slot(1)] have id: "qc_id w \<noteq> 0" by simp
    have eq: "take_command t now later p s = check_taken t later p w (s\<lparr>c_queue := (c_queue s)[p := q]\<rparr>)"
      using running Some by (simp add: take_command_def w_def q_def Let_def)
    have K: "{qc_id w} \<subseteq> ids_in REQUEST_QUEUED (c_commands s) p"
      using slot(2-5) id inv(4) by (auto simp: ids_in_iff)
    have settle: "history_ok fl ((finish_command_locked t later slot result d s)\<lparr>c_queue := (c_queue s)[p := q]\<rparr>)"
      if "\<not> waiting result" for result d
    proof (rule settled_history [OF ok settled_finish [OF slot(1) inv(4,2) that]])
      fix p' assume p': "p' < MAX_PEERS"
      show "queue_drops {qc_id w} (c_queue s ! p') ((c_queue s)[p := q] ! p')"
      proof (cases "p' = p")
        case True then show ?thesis using slot(8) p inv(5) by simp
      next
        case False
        then show ?thesis
          using queue_drops_none [OF queue_okI [OF ok p'] disjoint_ids(1) [OF ok K p p']] by simp
      qed
      show "fl p' = fl p' - {qc_id w}" using disjoint_ids(2) [OF ok K p p'] by simp
    qed (simp add: inv(5))
    let ?late = "qc_not_before w \<le> later \<and> word_of_nat COMMAND_MAX_WAIT_SEC * CENTRAL_NSEC \<le> later - qc_not_before w"
    let ?r = "c_commands s ! slot"
    consider (late) ?late | (unready) "\<not> ?late" "\<not> ready_for s p (hr_target ?r) later"
      | (send) "\<not> ?late" "ready_for s p (hr_target ?r) later" by blast
    then show thesis
    proof cases
      case late
      have res: "check_taken t later p w (s\<lparr>c_queue := (c_queue s)[p := q]\<rparr>) =
        (None, (finish_command_locked t later slot REQUEST_EXPIRED
           ''queue deadline expired; not sent'' s)\<lparr>c_queue := (c_queue s)[p := q]\<rparr>)"
        unfolding check_taken_def using late slot(1,4) by (simp add: Let_def)
      show thesis by (rule that(1) [OF trans [OF eq res] settle]) (simp add: waiting_def)
    next
      case unready
      have res: "check_taken t later p w (s\<lparr>c_queue := (c_queue s)[p := q]\<rparr>) =
        (None, (finish_command_locked t later slot REQUEST_CANCELED
           ''fresh status/healthy Local unavailable; not sent'' s)\<lparr>c_queue := (c_queue s)[p := q]\<rparr>)"
        unfolding check_taken_def using unready slot(1,4)
        by (cases "p = 1") (auto simp: Let_def ready_for_def)
      show thesis by (rule that(1) [OF trans [OF eq res] settle]) (simp add: waiting_def)
    next
      case send
      let ?d = "''waiting for '' @ (if p = 1 then ''Train'' else ''Local'') @ '' reply''"
      have res: "check_taken t later p w (s\<lparr>c_queue := (c_queue s)[p := q]\<rparr>) =
        (Some (w\<lparr>qc_message := restamp t (qc_message w)\<rparr>),
         (given_out slot later ?d s)\<lparr>c_queue := (c_queue s)[p := q]\<rparr>)"
        unfolding check_taken_def using send slot(1,4)
        by (cases "p = 1") (auto simp: Let_def ready_for_def restamp_def given_out_def)
      have "sendable s p now later (w\<lparr>qc_message := restamp t (qc_message w)\<rparr>)"
        unfolding sendable_def
        by (rule bexI [of _ ?r]) (use slot id send inv(4) good_work_restamp [OF slot(6)] in simp_all)
      then show thesis
        using given_out_history [OF ok p free slot(2,3) id slot(4,5,8)] running
        by (intro that(2) [OF trans [OF eq res]]) simp_all
    qed
  qed
qed

section \<open>Fresh identifiers\<close>

lemma unat_bump: "unat (bump_id i) = unat i mod 65535 + 1"
proof (cases "unat i = 65535")
  case True
  then have "i = 65535" using word_unat_eq_iff [of i "65535"] by simp
  then show ?thesis by (simp add: bump_id_def)
next
  case False
  then have "unat i < 65535" using unat_u16_lt [of i] by simp
  then have "unat (i + 1) = unat i + 1" by (simp add: unat_word_ariths)
  moreover from this have "i + 1 \<noteq> 0" by (metis Suc_eq_plus1 nat.distinct(1) unsigned_0)
  ultimately show ?thesis using \<open>unat i < 65535\<close> by (simp add: bump_id_def)
qed

lemma unat_bumps: "unat ((bump_id ^^ Suc k) i) = (unat i + k) mod 65535 + 1"
proof (induction k)
  case (Suc k)
  have "(bump_id ^^ Suc (Suc k)) i = bump_id ((bump_id ^^ Suc k) i)" by simp
  with Suc show ?case by (simp only: unat_bump) (simp add: mod_simps)
qed (simp add: unat_bump)

lemma bumps_nonzero: "(bump_id ^^ Suc k) i \<noteq> 0"
  using unat_bumps [of k i] by (metis Suc_eq_plus1 nat.distinct(1) unsigned_0)

lemma mod_add_inj: "(a + k) mod n = (a + l) mod n \<Longrightarrow> k < n \<Longrightarrow> l < n \<Longrightarrow> k = (l::nat)"
proof (induction k l rule: linorder_wlog)
  case (le k l)
  then have "n dvd (a + l) - (a + k)" by (subst mod_eq_dvd_iff_nat [symmetric]) simp_all
  then have "n dvd l - k" by simp
  with le(4) have "l - k = 0" by (metis dvd_imp_le less_imp_diff_less linorder_not_less neq0_conv)
  with le(1) show ?case by simp
qed simp

lemma bumps_inj: "inj_on (\<lambda>k. (bump_id ^^ Suc k) i) {..<71}"
proof (rule inj_onI)
  fix k l assume kl: "k \<in> {..<71::nat}" "l \<in> {..<71::nat}" and eq: "(bump_id ^^ Suc k) i = (bump_id ^^ Suc l) i"
  from eq have "unat ((bump_id ^^ Suc k) i) = unat ((bump_id ^^ Suc l) i)" by (rule arg_cong)
  then have "(unat i + k) mod 65535 = (unat i + l) mod 65535" unfolding unat_bumps by simp
  then show "k = l" by (rule mod_add_inj) (use kl in simp_all)
qed

lemma next_id_loop_result:
  "(\<exists>k < n. next_id_loop n reserved i = (bump_id ^^ Suc k) i \<and> \<not> reserved ((bump_id ^^ Suc k) i)) \<or>
   (\<forall>k < n. reserved ((bump_id ^^ Suc k) i))"
proof (induction n arbitrary: i)
  case (Suc n)
  show ?case
  proof (cases "reserved (bump_id i)")
    case True
    have shift: "(bump_id ^^ Suc k) (bump_id i) = (bump_id ^^ Suc (Suc k)) i" for k by (simp add: funpow_swap1)
    from Suc.IH [of "bump_id i"] show ?thesis
    proof
      assume "\<exists>k < n. next_id_loop n reserved (bump_id i) = (bump_id ^^ Suc k) (bump_id i) \<and>
        \<not> reserved ((bump_id ^^ Suc k) (bump_id i))"
      then obtain k where "k < n" "next_id_loop n reserved (bump_id i) = (bump_id ^^ Suc (Suc k)) i"
        "\<not> reserved ((bump_id ^^ Suc (Suc k)) i)" unfolding shift by blast
      with True show ?thesis by (intro disjI1 exI [of _ "Suc k"]) (simp add: Let_def)
    next
      assume "\<forall>k < n. reserved ((bump_id ^^ Suc k) (bump_id i))"
      with True have "reserved ((bump_id ^^ Suc k) i)" if "k < Suc n" for k
        using that unfolding shift by (cases k) auto
      then show ?thesis by blast
    qed
  next
    case False
    then show ?thesis by (intro disjI1 exI [of _ 0]) (simp add: Let_def)
  qed
qed simp

lemma next_id_unreserved:
  assumes "length (c_commands s) = COMMAND_HISTORY_SIZE" "length (c_policy_command s) = NUM_INTERSECTIONS"
  shows "\<exists>k < 71. fst (next_id_locked s) = (bump_id ^^ Suc k) (c_next_id s) \<and>
    \<not> id_reserved s ((bump_id ^^ Suc k) (c_next_id s))"
proof (rule ccontr)
  let ?R = "hr_id ` set (c_commands s) \<union> set (c_policy_command s)"
  assume "\<not> ?thesis"
  then have all: "\<forall>k < 71. id_reserved s ((bump_id ^^ Suc k) (c_next_id s))"
    using next_id_loop_result [of 71 "id_reserved s" "c_next_id s"]
    by (simp only: next_id_locked_def Let_def fst_conv) blast
  have "i \<in> ?R" if "id_reserved s i" for i
  proof (cases "find_command_locked s i")
    case (Some j)
    from find_command_Some [OF this] assms(1) show ?thesis by (metis UnI1 imageI nth_mem)
  qed (use that in \<open>simp add: id_reserved_def\<close>)
  with all have "(\<lambda>k. (bump_id ^^ Suc k) (c_next_id s)) ` {..<71} \<subseteq> ?R" by auto
  then have "card ((\<lambda>k. (bump_id ^^ Suc k) (c_next_id s)) ` {..<71}) \<le> card ?R" by (intro card_mono) auto
  moreover have "card ?R \<le> 64 + 6"
    using card_Un_le [of "hr_id ` set (c_commands s)" "set (c_policy_command s)"]
      card_image_le [of "set (c_commands s)" hr_id] card_length [of "c_commands s"] card_length [of "c_policy_command s"] assms
    by simp
  ultimately show False using card_image [OF bumps_inj, of "c_next_id s"] by simp
qed

lemma next_id_fresh:
  assumes "length (c_commands s) = COMMAND_HISTORY_SIZE" "length (c_policy_command s) = NUM_INTERSECTIONS"
  shows "fst (next_id_locked s) \<noteq> 0" "find_command_locked s (fst (next_id_locked s)) = None"
    "fst (next_id_locked s) \<notin> set (c_policy_command s)"
proof -
  obtain k where "fst (next_id_locked s) = (bump_id ^^ Suc k) (c_next_id s)"
    "\<not> id_reserved s (fst (next_id_locked s))" using next_id_unreserved [OF assms] by auto
  then show "fst (next_id_locked s) \<noteq> 0" "find_command_locked s (fst (next_id_locked s)) = None"
    "fst (next_id_locked s) \<notin> set (c_policy_command s)"
    using bumps_nonzero [of k "c_next_id s"] by (auto simp: id_reserved_def simp del: funpow.simps)
qed

section \<open>Free records\<close>

lemma free_slot_result:
  assumes "slot < COMMAND_HISTORY_SIZE"
  shows "(free_slot n rs slot < COMMAND_HISTORY_SIZE \<and> \<not> record_busy (rs ! free_slot n rs slot)) \<or>
    (\<forall>k < n. record_busy (rs ! ((slot + k) mod COMMAND_HISTORY_SIZE)))"
  using assms
proof (induction n arbitrary: slot)
  case (Suc n)
  show ?case
  proof (cases "record_busy (rs ! slot)")
    case True
    have "(Suc slot mod 64 + k) mod 64 = (slot + Suc k) mod 64" for k by (simp add: mod_simps)
    with Suc.IH [of "(slot + 1) mod 64"] True Suc.prems show ?thesis
      by (auto simp: less_Suc_eq_0_disj)
  qed (use Suc.prems in simp)
qed simp

lemma free_slot_free:
  assumes "slot < COMMAND_HISTORY_SIZE" "length (c_commands s) = COMMAND_HISTORY_SIZE" "0 < available_records s"
  defines "k \<equiv> free_slot COMMAND_HISTORY_SIZE (c_commands s) slot"
  shows "k < COMMAND_HISTORY_SIZE" "\<not> record_busy (c_commands s ! k)"
proof -
  from assms(3) have "filter (\<lambda>r. \<not> record_busy r) (c_commands s) \<noteq> []" by (auto simp: available_records_def)
  then obtain i where i: "i < 64" "\<not> record_busy (c_commands s ! i)"
    using assms(2) by (auto simp: filter_empty_conv in_set_conv_nth)
  have "(slot + (i + 64 - slot) mod 64) mod 64 = i"
    using i(1) assms(1) by (simp add: mod_simps)
  with free_slot_result [OF assms(1), of 64 "c_commands s"] i(2)
  show "k < COMMAND_HISTORY_SIZE" "\<not> record_busy (c_commands s ! k)"
    unfolding k_def by (metis mod_less_divisor zero_less_numeral)+
qed

lemma record_busy_waiting: "record_busy r \<longleftrightarrow> hr_id r \<noteq> 0 \<and> waiting (hr_state r)"
  by (simp add: record_busy_def waiting_def)

lemma filter_length_update:
  "i < length xs \<Longrightarrow> P (xs ! i) \<Longrightarrow> \<not> P y \<Longrightarrow> Suc (length (filter P (xs[i := y]))) = length (filter P xs)"
proof (induction xs arbitrary: i)
  case (Cons x xs)
  then show ?case by (cases i) auto
qed simp

section \<open>Queueing a command\<close>

lemma added_nth:
  assumes "slot < length rs" "i < length rs"
  shows "rs[slot := r] ! i = (if i = slot then r else rs ! i)"
  using assms by (simp add: nth_list_update)

text \<open>A record that is not busy does not count among the waiting identifiers.\<close>

lemma ex_nth_update:
  assumes "slot < length xs" "\<not> P (xs ! slot)"
  shows "(\<exists>i < length xs. P (xs[slot := y] ! i)) \<longleftrightarrow> P y \<or> (\<exists>i < length xs. P (xs ! i))"
  using assms by (metis nth_list_update_eq nth_list_update_neq)

lemma added_ids:
  assumes "slot < length rs" "\<not> record_busy (rs ! slot)" "hr_id r \<noteq> 0" "hr_state r = REQUEST_QUEUED" "waiting st"
  shows "ids_in st (rs[slot := r]) p =
    (if st = REQUEST_QUEUED \<and> p = hr_peer r then insert (hr_id r) (ids_in st rs p) else ids_in st rs p)"
proof (rule set_eqI)
  fix j
  define Q :: "command_record \<Rightarrow> bool" where "Q = (\<lambda>x. hr_id x = j \<and> j \<noteq> 0 \<and> hr_state x = st \<and> hr_peer x = p)"
  have iff: "j \<in> ids_in st xs p \<longleftrightarrow> (\<exists>i < length xs. Q (xs ! i))" for xs
    by (simp only: ids_in_iff Q_def)
  have old: "\<not> Q (rs ! slot)" using assms(2,5) by (auto simp: record_busy_waiting Q_def)
  have new: "Q r \<longleftrightarrow> st = REQUEST_QUEUED \<and> p = hr_peer r \<and> j = hr_id r" using assms(3,4) by (auto simp: Q_def)
  have "j \<in> ids_in st (rs[slot := r]) p \<longleftrightarrow> (\<exists>i < length rs. Q (rs[slot := r] ! i))"
    by (simp only: iff length_list_update)
  also have "\<dots> \<longleftrightarrow> Q r \<or> j \<in> ids_in st rs p"
    by (simp only: ex_nth_update [where P = Q, OF assms(1) old] iff)
  finally show "j \<in> ids_in st (rs[slot := r]) p \<longleftrightarrow>
     j \<in> (if st = REQUEST_QUEUED \<and> p = hr_peer r then insert (hr_id r) (ids_in st rs p) else ids_in st rs p)"
    by (auto simp: new)
qed

lemma added_distinct:
  assumes "ids_distinct rs" "slot < length rs" "\<forall>i < length rs. hr_id (rs ! i) \<noteq> hr_id r"
  shows "ids_distinct (rs[slot := r])"
  unfolding ids_distinct_def length_list_update
proof (intro allI impI)
  fix i j assume "i < length rs" "j < length rs" "hr_id (rs[slot := r] ! i) \<noteq> 0"
    "hr_id (rs[slot := r] ! i) = hr_id (rs[slot := r] ! j)"
  then show "i = j"
    using ids_distinctD [OF assms(1), of i j] assms(3) added_nth [OF assms(2), of i r] added_nth [OF assms(2), of j r]
    by (cases "i = slot"; cases "j = slot") (simp_all, metis)
qed

lemma added_history:
  assumes ok: "history_ok fl s" and p: "p < MAX_PEERS" "ring_count (c_queue s ! p) < COMMAND_QUEUE_SIZE"
    and slot: "slot < COMMAND_HISTORY_SIZE" "\<not> record_busy (c_commands s ! slot)"
    and r: "hr_id r = k" "hr_state r = REQUEST_QUEUED" "hr_peer r = p"
    and k: "k \<noteq> 0" "find_command_locked s k = None"
    and w: "qc_id w = k" "good_work (c_local_route s) p r w"
    and s': "c_commands s' = (c_commands s)[slot := r]" "c_queue s' = (c_queue s)[p := ring_push w (c_queue s ! p)]"
      "c_local_route s' = c_local_route s" "c_peer_count s' = c_peer_count s" "c_command_next s' < COMMAND_HISTORY_SIZE"
  shows "history_ok fl s'"
proof -
  note inv = history_okD [OF ok]
  have len: "slot < length (c_commands s)" using slot(1) inv(4) by simp
  have fresh: "\<forall>i < length (c_commands s). hr_id (c_commands s ! i) \<noteq> k"
    using find_command_None [OF k(2,1)] inv(4) by simp
  note ids = added_ids [OF len slot(2), of r, unfolded r, OF k(1) refl, folded s'(1)]
  have none: "k \<notin> ids_in st (c_commands s) p'" for st p' using fresh by (auto simp: ids_in_iff)
  have q: "ring_ok (c_queue s ! p)" "length (ring_slots (c_queue s ! p)) = COMMAND_QUEUE_SIZE"
    using queue_okI [OF ok p(1)] by (simp_all add: queue_ok_def)
  have push: "ring_list (ring_push w (c_queue s ! p)) = ring_list (c_queue s ! p) @ [w]" "queue_ok (ring_push w (c_queue s ! p))"
    using ring_list_push [OF q(1), of w] ring_push_ok [OF q(1), of w] p(2) q(2)
    by (simp_all add: queue_ok_def) (simp add: ring_push_def)
  have list: "ring_list (c_queue s' ! p') = ring_list (c_queue s ! p') @ (if p' = p then [w] else [])"
    if "p' < MAX_PEERS" for p'
    using p(1) inv(5) push(1) by (simp add: s'(2) nth_list_update)
  have "queue_agrees s' p'" if p': "p' < MAX_PEERS" for p'
    using inv(7) [OF p'] push(2) none [of REQUEST_QUEUED p'] p(1) inv(5) w(1) list [OF p']
    by (auto simp: queue_agrees_def queued_ids_def ids waiting_def s'(2) nth_list_update)
  moreover have "works_ok s' p'" if p': "p' < MAX_PEERS" for p'
    unfolding works_ok_def s'(3)
  proof (intro ballI impI)
    fix v x assume v: "v \<in> set (ring_list (c_queue s' ! p'))" and x: "x \<in> set (c_commands s')" "hr_id x = qc_id v"
    show "good_work (c_local_route s) p' x v"
    proof (cases "v \<in> set (ring_list (c_queue s ! p'))")
      case True
      then have "qc_id v \<in> ids_in REQUEST_QUEUED (c_commands s) p'"
        using inv(7) [OF p'] by (auto simp: queue_agrees_def queued_ids_def)
      with none have "qc_id v \<noteq> k" by blast
      with x r(1) have "x \<in> set (c_commands s)"
        using set_update_subset_insert [of "c_commands s" slot r] by (auto simp: s'(1))
      with True inv(8) [OF p'] x(2) show ?thesis by (auto simp: works_ok_def)
    next
      case False
      then have v: "v = w" "p' = p" using v list [OF p'] by (auto split: if_splits)
      have "x = r"
      proof (rule ccontr)
        assume "x \<noteq> r"
        then have "x \<in> set (c_commands s)"
          using x(1) set_update_subset_insert [of "c_commands s" slot r] by (auto simp: s'(1))
        with fresh x(2) v(1) w(1) show False by (auto simp: in_set_conv_nth)
      qed
      with v w(2) show ?thesis by simp
    qed
  qed
  moreover have "ids_distinct (c_commands s')"
    using added_distinct [OF inv(2) len, of r] fresh by (simp add: s'(1) r(1))
  moreover have "length (c_commands s') = COMMAND_HISTORY_SIZE" "length (c_queue s') = MAX_PEERS" "route_ok s'"
    using inv(3-5) by (simp_all add: s'(1-4) route_ok_def)
  moreover have "ids_in REQUEST_SENDING (c_commands s') p' = ids_in REQUEST_SENDING (c_commands s) p'"
    "p \<noteq> p' \<Longrightarrow> ids_in REQUEST_QUEUED (c_commands s') p' = ids_in REQUEST_QUEUED (c_commands s) p'" for p'
    by (simp_all add: ids waiting_def)
  ultimately show ?thesis
    using ok p(1) s'(5) unfolding history_ok_def sizes_ok_def by (metis leD)
qed

text \<open>A prototype that becomes good work once identifier and target are filled in.\<close>

definition good_prototype :: "test_message \<Rightarrow> bool" where
  "good_prototype m \<longleftrightarrow>
     (if hdr_dst (header m) = controller_code CONTROLLER_TRAIN then central_send_admissible m
      else \<forall>n i. n \<noteq> 0 \<longrightarrow> i < NUM_INTERSECTIONS \<longrightarrow>
        (let m' = central_command_set_target i (central_command_set_id n m)
         in central_send_admissible m' \<and> hdr_dst (header m') = controller_code CONTROLLER_LOCAL \<and>
            central_command_id m' = n \<and> central_command_target m' = i))"

text \<open>What one round of the loop needs and what it does to the counts that the test for a full queue reads.\<close>

definition policy_size :: "central_state \<Rightarrow> bool" where
  "policy_size s \<longleftrightarrow> length (c_policy_command s) = NUM_INTERSECTIONS"

lemma next_id_sel:
  "c_commands (snd (next_id_locked s)) = c_commands s" "c_queue (snd (next_id_locked s)) = c_queue s"
  "c_local_route (snd (next_id_locked s)) = c_local_route s" "c_peer_count (snd (next_id_locked s)) = c_peer_count s"
  "c_command_next (snd (next_id_locked s)) = c_command_next s" "c_policy_command (snd (next_id_locked s)) = c_policy_command s"
  "c_running (snd (next_id_locked s)) = c_running s"
  by (simp_all add: next_id_locked_def Let_def)

text \<open>A new piece of work for one target.\<close>

definition work_for :: "bool \<Rightarrow> nat \<Rightarrow> u64 \<Rightarrow> test_message \<Rightarrow> queued_command \<Rightarrow> bool" where
  "work_for train i due m w \<longleftrightarrow> qc_not_before w = due \<and> qc_id w \<noteq> 0 \<and>
     (if train then qc_message w = m
      else qc_message w = central_command_set_target i (central_command_set_id (qc_id w) m))"

lemma enqueue_one_history:
  fixes t :: string and now :: u64 and delay :: nat and auto :: bool
  assumes ok: "history_ok fl s" and size: "policy_size s"
    and room: "0 < available_records s" "ring_count (c_queue s ! command_peer s train i) < COMMAND_QUEUE_SIZE"
    and m: "good_prototype m" "train \<longleftrightarrow> hdr_dst (header m) = controller_code CONTROLLER_TRAIN"
    and i: "i < NUM_INTERSECTIONS"
  defines "s' \<equiv> enqueue_one t now m delay auto train i s"
  shows "history_ok fl s'" "policy_size s'" "c_local_route s' = c_local_route s" "c_peer_count s' = c_peer_count s"
    "Suc (available_records s') = available_records s"
    "\<And>p. p < MAX_PEERS \<Longrightarrow> ring_count (c_queue s' ! p) = ring_count (c_queue s ! p) + (if p = command_peer s train i then 1 else 0)"
    "\<exists>w. work_for train i (now + word_of_nat delay * CENTRAL_NSEC) m w \<and>
       (\<forall>p < MAX_PEERS. ring_list (c_queue s' ! p) =
          ring_list (c_queue s ! p) @ (if p = command_peer s train i then [w] else []))"
proof -
  note inv = history_okD [OF ok]
  define p where "p = command_peer s train i"
  define slot where "slot = free_slot COMMAND_HISTORY_SIZE (c_commands s) (c_command_next s)"
  define k where "k = fst (next_id_locked s)"
  define r where "r = c_commands s' ! slot"
  define m' where "m' = (if train then m else central_command_set_target i (central_command_set_id k m))"
  define w where "w = \<lparr>qc_message = m', qc_id = k, qc_not_before = now + word_of_nat delay * CENTRAL_NSEC\<rparr>"
  have p: "p < MAX_PEERS" "p = 1 \<longleftrightarrow> train"
    using inv(3) i by (auto simp: p_def command_peer_def route_ok_def intro: less_le_trans)
  note slot = free_slot_free [OF inv(6,4) room(1), folded slot_def]
  note fresh = next_id_fresh [OF inv(4) size [unfolded policy_size_def], folded k_def]
  have r: "hr_id r = k" "hr_state r = REQUEST_QUEUED" "hr_peer r = p" "hr_target r = i"
    "c_commands s' = (c_commands s)[slot := r]"
    using slot(1) inv(4)
    by (simp_all add: r_def s'_def enqueue_one_def Let_def split_beta next_id_sel slot_def [symmetric] p_def k_def
        command_peer_def del: nth_list_update_eq add: nth_list_update)
  have sel: "c_queue s' = (c_queue s)[p := ring_push w (c_queue s ! p)]" "c_local_route s' = c_local_route s"
    "c_peer_count s' = c_peer_count s" "c_command_next s' < COMMAND_HISTORY_SIZE"
    "length (c_policy_command s') = length (c_policy_command s)"
    by (simp_all add: s'_def enqueue_one_def Let_def split_beta next_id_sel p_def k_def m'_def w_def command_peer_def)
  have "good_work (c_local_route s) p r w"
    using m p(2) i fresh(1) inv(3)
    by (auto simp: good_work_def good_prototype_def w_def m'_def r(4) Let_def p_def command_peer_def route_ok_def)
  with added_history [OF ok p(1) room(2) [folded p_def] slot r(1-3) fresh(1,2) _ _ r(5) sel(1-4), folded w_def]
  show "history_ok fl s'" by (simp add: w_def)
  show "policy_size s'" using size sel(5) by (simp add: policy_size_def)
  show "c_local_route s' = c_local_route s" "c_peer_count s' = c_peer_count s" by (rule sel)+
  have "record_busy r" using r(1,2) fresh(1) by (simp add: record_busy_def)
  with slot(1,2) inv(4) show "Suc (available_records s') = available_records s"
    unfolding available_records_def r(5) by (intro filter_length_update) simp_all
  show "ring_count (c_queue s' ! q) = ring_count (c_queue s ! q) + (if q = command_peer s train i then 1 else 0)"
    if "q < MAX_PEERS" for q
    using p(1) inv(5) by (simp add: sel(1) p_def [symmetric] nth_list_update ring_push_def)
  have q: "ring_ok (c_queue s ! p)" "length (ring_slots (c_queue s ! p)) = COMMAND_QUEUE_SIZE"
    using queue_okI [OF ok p(1)] by (simp_all add: queue_ok_def)
  show "\<exists>w. work_for train i (now + word_of_nat delay * CENTRAL_NSEC) m w \<and>
       (\<forall>p < MAX_PEERS. ring_list (c_queue s' ! p) =
          ring_list (c_queue s ! p) @ (if p = command_peer s train i then [w] else []))"
    using ring_list_push [OF q(1), of w] room(2) q(2) p(1) inv(5) fresh(1)
    by (intro exI [of _ w]) (auto simp: work_for_def w_def m'_def sel(1) p_def nth_list_update)
qed

text \<open>The whole loop.\<close>

definition room_for :: "central_state \<Rightarrow> bool \<Rightarrow> nat list \<Rightarrow> bool" where
  "room_for s train targets \<longleftrightarrow> length targets \<le> available_records s \<and>
     (\<forall>p < MAX_PEERS. ring_count (c_queue s ! p) + length (filter (\<lambda>i. command_peer s train i = p) targets)
        \<le> COMMAND_QUEUE_SIZE)"

lemma room_for_not_full:
  assumes ok: "history_ok fl s" and full: "\<not> queues_full s train targets" and t: "\<forall>i \<in> set targets. i < NUM_INTERSECTIONS"
  shows "room_for s train targets"
  unfolding room_for_def
proof (intro conjI allI impI)
  show "length targets \<le> available_records s" using full by (simp add: queues_full_def)
  fix p assume p: "p < MAX_PEERS"
  show "ring_count (c_queue s ! p) + length (filter (\<lambda>i. command_peer s train i = p) targets) \<le> COMMAND_QUEUE_SIZE"
  proof (cases "p < c_peer_count s")
    case True
    then have "p \<in> set [0..<c_peer_count s]" by simp
    with full show ?thesis unfolding queues_full_def list_ex_iff by (meson linorder_not_less)
  next
    case False
    have "command_peer s train i < c_peer_count s" if "i \<in> set targets" for i
      using that t history_okD(3) [OF ok] by (auto simp: command_peer_def route_ok_def)
    with False have "filter (\<lambda>i. command_peer s train i = p) targets = []" by (auto simp: filter_empty_conv)
    then show ?thesis using queue_okI [OF ok p] by (simp add: queue_ok_def ring_ok_def)
  qed
qed

lemma enqueue_fold_history:
  assumes "history_ok fl s" "policy_size s" "room_for s train targets"
    and m: "good_prototype m" "train \<longleftrightarrow> hdr_dst (header m) = controller_code CONTROLLER_TRAIN"
    and "\<forall>i \<in> set targets. i < NUM_INTERSECTIONS"
  shows "history_ok fl (fold (enqueue_one t now m delay auto train) targets s) \<and>
    policy_size (fold (enqueue_one t now m delay auto train) targets s) \<and>
    (\<exists>ws. list_all2 (\<lambda>i. work_for train i (now + word_of_nat delay * CENTRAL_NSEC) m) targets ws \<and>
       (\<forall>p < MAX_PEERS. ring_list (c_queue (fold (enqueue_one t now m delay auto train) targets s) ! p) =
          ring_list (c_queue s ! p) @ map snd (filter (\<lambda>(i, w). command_peer s train i = p) (zip targets ws))))"
  using assms(1,2,3,6)
proof (induction targets arbitrary: s)
  case (Cons i targets)
  let ?s = "enqueue_one t now m delay auto train i s"
  note inv = history_okD [OF Cons.prems(1)]
  have i: "i < NUM_INTERSECTIONS" using Cons.prems(4) by simp
  have p: "command_peer s train i < MAX_PEERS"
    using inv(3) i by (auto simp: command_peer_def route_ok_def intro: less_le_trans)
  have room: "0 < available_records s" "ring_count (c_queue s ! command_peer s train i) < COMMAND_QUEUE_SIZE"
    using Cons.prems(3) p by (auto simp: room_for_def)
  note one = enqueue_one_history [OF Cons.prems(1,2) room m i, where t = t and now = now and delay = delay and auto = auto]
  have peer: "command_peer ?s train = command_peer s train" unfolding command_peer_def [abs_def] one(3) ..
  have "room_for ?s train targets"
    using Cons.prems(3) one(5,6) unfolding room_for_def peer
    by (simp split: if_splits) fastforce
  from Cons.IH [OF one(1,2) this] Cons.prems(4) obtain ws where
    rest: "history_ok fl (fold (enqueue_one t now m delay auto train) targets ?s)"
      "policy_size (fold (enqueue_one t now m delay auto train) targets ?s)"
      "list_all2 (\<lambda>i. work_for train i (now + word_of_nat delay * CENTRAL_NSEC) m) targets ws"
      "\<forall>p < MAX_PEERS. ring_list (c_queue (fold (enqueue_one t now m delay auto train) targets ?s) ! p) =
          ring_list (c_queue ?s ! p) @ map snd (filter (\<lambda>(i, w). command_peer s train i = p) (zip targets ws))"
    unfolding peer by auto
  from one(7) obtain w where "work_for train i (now + word_of_nat delay * CENTRAL_NSEC) m w"
    "\<forall>p < MAX_PEERS. ring_list (c_queue ?s ! p) =
          ring_list (c_queue s ! p) @ (if p = command_peer s train i then [w] else [])" by blast
  with rest show ?case by (simp, intro exI [of _ "w # ws"]) auto
qed (simp add: assms)

lemma target_range_ok: "target_ok target \<Longrightarrow> i \<in> set (target_range target) \<Longrightarrow> i < NUM_INTERSECTIONS"
  by (auto simp: target_range_def target_ok_def split: if_splits)

text \<open>\<open>enqueue_command\<close> as a whole: all targets get their work, in order, or nothing is queued at all.\<close>

lemma enqueue_command_cases:
  assumes ok: "history_ok fl s" and size: "policy_size s" and m: "good_prototype m" and target: "target_ok target"
  defines "train \<equiv> (hdr_dst (header m) = controller_code CONTROLLER_TRAIN)"
  obtains (refused) s' where "enqueue_command t now m target delay auto s = (- 1, s')"
      "s' = s \<or> (\<exists>b. s' = event_locked t b s)" "history_ok fl s'" "policy_size s'"
  | (queued) s' ws where "enqueue_command t now m target delay auto s = (0, s')" "history_ok fl s'" "policy_size s'"
      "list_all2 (\<lambda>i. work_for train i (now + word_of_nat delay * CENTRAL_NSEC) m) (enqueue_targets train target) ws"
      "\<forall>p < MAX_PEERS. ring_list (c_queue s' ! p) = ring_list (c_queue s ! p) @
         map snd (filter (\<lambda>(i, w). command_peer s train i = p) (zip (enqueue_targets train target) ws))"
      "c_running s" "if train then train_ready_locked s now else \<forall>i \<in> set (target_range target). local_ready_locked s i now"
proof -
  let ?ts = "enqueue_targets train target"
  have ts: "\<forall>i \<in> set ?ts. i < NUM_INTERSECTIONS"
    using target_range_ok [OF target] by (simp add: enqueue_targets_def)
  have ev: "history_ok fl (event_locked t b s)" "policy_size (event_locked t b s)" for b
    using history_event [OF ok] size by (simp_all add: policy_size_def)
  consider (stopped) "\<not> c_running s" | (full) "c_running s" "queues_full s train ?ts"
    | (train) "c_running s" "\<not> queues_full s train ?ts" "train \<and> \<not> train_ready_locked s now"
    | (unready) i where "c_running s" "\<not> queues_full s train ?ts" "\<not> train" "find (\<lambda>i. \<not> local_ready_locked s i now) ?ts = Some i"
    | (ready) "c_running s" "\<not> queues_full s train ?ts" "train \<longrightarrow> train_ready_locked s now"
        "\<not> train \<longrightarrow> find (\<lambda>i. \<not> local_ready_locked s i now) ?ts = None"
    by (cases "c_running s"; cases "queues_full s train ?ts"; cases train; cases "train_ready_locked s now";
        cases "find (\<lambda>i. \<not> local_ready_locked s i now) ?ts") simp_all
  then show thesis
  proof cases
    case stopped
    then show thesis using ok size by (intro that(1) [of s]) (simp_all add: enqueue_command_def Let_def)
  next
    case full
    then show thesis using ev
      by (intro that(1) [of "event_locked t ''Command queue is full'' s"]) (auto simp: enqueue_command_def train_def Let_def)
  next
    case train
    then show thesis using ok size by (intro that(1) [of s]) (simp_all add: enqueue_command_def train_def Let_def)
  next
    case unready
    then have "enqueue_command t now m target delay auto s = (- 1, event_locked t (''I'' @ show_nat (i + 1) @
        '' requires a fresh Local status and healthy link before commands'') s)"
      unfolding enqueue_command_def Let_def train_def [symmetric] by simp
    from that(1) [OF this _ ev] show thesis by blast
  next
    case ready
    let ?s = "fold (enqueue_one t now m delay auto train) ?ts s"
    have res: "enqueue_command t now m target delay auto s = (0, ?s)"
      using ready unfolding enqueue_command_def Let_def train_def [symmetric] by (cases train) simp_all
    have loc: "if train then train_ready_locked s now else \<forall>i \<in> set (target_range target). local_ready_locked s i now"
      using ready(3,4) by (auto simp: find_None_iff enqueue_targets_def)
    from enqueue_fold_history [OF ok size room_for_not_full [OF ok ready(2) ts] m _ ts, where t = t and now = now and delay = delay and auto = auto]
    obtain ws where "history_ok fl ?s" "policy_size ?s"
      "list_all2 (\<lambda>i. work_for train i (now + word_of_nat delay * CENTRAL_NSEC) m) ?ts ws"
      "\<forall>p < MAX_PEERS. ring_list (c_queue ?s ! p) = ring_list (c_queue s ! p) @
         map snd (filter (\<lambda>(i, w). command_peer s train i = p) (zip ?ts ws))" by (auto simp: train_def)
    from that(2) [OF res this ready(1) loc] show thesis .
  qed
qed

end
