(* ===== verification/Central_Safety.thy ===== *)
theory Central_Safety
  imports Central_History
begin

text \<open>
  Central as one machine: its worker threads, the operator, the display client, the schedule thread and the
  logger interleave as steps on one world, the shared state and the command every endpoint is sending. The
  invariant \<open>world_ok\<close> holds after every start of \<open>main\<close> and every step; the properties of a run follow from it.
\<close>

section \<open>What is queued\<close>

text \<open>Every message the operator, the schedule or a Train command queues is a good prototype.\<close>

lemma request_prototype:
  assumes "request_ok q" "target_ok j"
  shows "good_prototype (request_message j 0 q)"
proof -
  have dst: "hdr_dst (header (request_message i n q)) = controller_code CONTROLLER_LOCAL" for i n
    by (simp add: request_header initialize_header)
  have "central_send_admissible (request_message i n q)" "central_command_id (request_message i n q) = n"
    "central_command_target (request_message i n q) = i" if "n \<noteq> 0" "i < NUM_INTERSECTIONS" for i n
    using request_admissible [OF assms(1) that(2,1)] request_id [OF assms(1)] request_target [OF assms(1)] that(2)
    by (simp_all add: target_ok_def)
  moreover have "central_command_set_target i (central_command_set_id n (request_message j 0 q)) = request_message i n q"
    if "i < NUM_INTERSECTIONS" for i n
    using set_id_request [OF assms, of n 0] set_target_request [OF assms, of i n] that by (simp add: target_ok_def)
  ultimately show ?thesis using dst by (simp add: good_prototype_def Let_def)
qed

lemma parsed_prototype:
  assumes "central_parse_command line = Some (m, target)"
  shows "good_prototype m" "target_ok target"
  using central_parse_command_builds [of line] request_prototype assms by (auto simp: builds_request_def)

lemma init_nul: "has_nul (hdr_timestamp (header (central_message_init t type src dst)))"
proof -
  have "drop (length (take 31 t)) (replicate TIMESTAMP_SIZE NUL) \<noteq> []" by simp
  then obtain c cs where "drop (length (take 31 t)) (replicate TIMESTAMP_SIZE NUL) = c # cs" "c = NUL"
    by (cases "TIMESTAMP_SIZE - length (take 31 t)") (auto simp del: length_take)
  then show ?thesis by (simp add: central_message_init_def has_nul_def overlay_def del: drop_replicate)
qed

lemma init_header:
  "hdr_type (header (central_message_init t type src dst)) = msg_code type"
  "hdr_src (header (central_message_init t type src dst)) = controller_code src"
  "hdr_dst (header (central_message_init t type src dst)) = controller_code dst"
  "hdr_reserved (header (central_message_init t type src dst)) = 0"
  by (simp_all add: central_message_init_def)

lemma scheduled_prototype:
  assumes "mode \<le> mode_code MODE_SENSOR"
  shows "good_prototype (scheduled_message t target mode)"
proof -
  define h where "h = header (central_message_init t MSG_MODE_COMMAND CONTROLLER_CENTRAL CONTROLLER_LOCAL)"
  have h: "hdr_type h = msg_code MSG_MODE_COMMAND" "hdr_src h = controller_code CONTROLLER_CENTRAL"
    "hdr_dst h = controller_code CONTROLLER_LOCAL" "hdr_reserved h = 0" "has_nul (hdr_timestamp h)"
    by (simp_all add: h_def init_header init_nul)
  define c where "c = (\<lambda>i n. \<lparr>mc_intersection_id = i, mc_new_mode = mode, mc_action = action_code CMD_SET_MODE,
     mc_priority = CMD_PRIO_SCHEDULE, mc_duration_sec = 0, mc_command_id = n\<rparr>)"
  define f where "f = (\<lambda>i n. \<lparr>header = h, data = overlay (encode_mode_cmd (c i n)) zero_data\<rparr>)"
  have dec: "decode_mode_cmd (data (f i n)) = c i n" for i n by (simp add: f_def mode_cmd_codec.dec_overlay)
  have "scheduled_message t target mode = f (word_of_nat target) 0"
    by (simp add: scheduled_message_def f_def c_def h_def)
  moreover have "central_command_set_id n (f i k) = f i n" for n i k
    by (simp add: central_command_set_id_def f_def h(1) mode_cmd_codec.dec_overlay mode_cmd_codec.dec_replace c_def)
  moreover have "central_command_set_target i (f k n) = f (word_of_nat i) n" if "i < NUM_INTERSECTIONS" for n i k
    using that
    by (simp add: central_command_set_target_def f_def h(1) mode_cmd_codec.dec_overlay mode_cmd_codec.dec_replace c_def)
  moreover have "central_send_admissible (f (word_of_nat i) n)" "central_command_id (f (word_of_nat i) n) = n"
    "central_command_target (f (word_of_nat i) n) = i" "hdr_dst (header (f (word_of_nat i) n)) = controller_code CONTROLLER_LOCAL"
    if "n \<noteq> 0" "i < NUM_INTERSECTIONS" for i n
  proof -
    have i: "unat (word_of_nat i :: u8) = i" using that(2) by (simp add: target_word target_ok_def)
    have hd: "header (f (word_of_nat i) n) = h" by (simp add: f_def)
    show "central_send_admissible (f (word_of_nat i) n)"
      using that assms by (simp add: central_send_admissible_def central_frame_valid_def Let_def hd h controller_valid_def
          dec mode_payload_valid_def frame_target_valid_def c_def i)
    show "central_command_id (f (word_of_nat i) n) = n" "central_command_target (f (word_of_nat i) n) = i"
      by (simp_all add: central_command_id_def central_command_target_def hd h dec c_def i)
    show "hdr_dst (header (f (word_of_nat i) n)) = controller_code CONTROLLER_LOCAL" by (simp add: hd h)
  qed
  ultimately show ?thesis by (simp add: good_prototype_def Let_def) (simp add: f_def h)
qed

lemma print_data_nul: "has_nul (print_data text)"
  by (simp add: print_data_def has_nul_def)

lemma train_prototype:
  assumes "central_parse_train_command line = Some payload"
  shows "good_prototype (train_message t payload)"
proof -
  from assms have "has_nul payload"
    by (auto simp: central_parse_train_command_def print_data_nul split: option.splits)
  moreover define h where "h = header (central_message_init t MSG_TEST CONTROLLER_CENTRAL CONTROLLER_TRAIN)"
  moreover have h: "hdr_type h = msg_code MSG_TEST" "hdr_src h = controller_code CONTROLLER_CENTRAL"
    "hdr_dst h = controller_code CONTROLLER_TRAIN" "hdr_reserved h = 0" "has_nul (hdr_timestamp h)"
    by (simp_all add: h_def init_header init_nul)
  ultimately show ?thesis
    by (simp add: good_prototype_def train_message_def central_send_admissible_def central_frame_valid_def Let_def
        controller_valid_def test_payload_valid_def)
qed


lemma nearest_entry_mode:
  "nearest_entry t m es n s = Some (n', s') \<Longrightarrow> s \<le> mode_code MODE_SENSOR \<Longrightarrow> s' \<le> mode_code MODE_SENSOR"
  by (induction t m es n s rule: nearest_entry.induct) (auto simp: valid_entry_def split: if_splits)

lemma schedule_mode_range: "central_schedule_mode sch t m = Some mode \<Longrightarrow> mode \<le> mode_code MODE_SENSOR"
  using nearest_entry_mode [of t m sch 1440 0]
  by (auto simp: central_schedule_mode_def split: if_splits option.splits)

section \<open>Well-formed states\<close>

text \<open>Every array has its size and every index stays inside it; what the arrays hold is in range.\<close>

definition log_ok :: "central_state \<Rightarrow> bool" where
  "log_ok s \<longleftrightarrow> ring_ok (c_events s) \<and> length (ring_slots (c_events s)) = EVENT_QUEUE_SIZE \<and>
     length (c_recent s) = 8 \<and> c_recent_next s < 8 \<and> c_recent_count s \<le> 8"

definition endpoints_ok :: "central_state \<Rightarrow> bool" where
  "endpoints_ok s \<longleftrightarrow> length (c_endpoint_connected s) = MAX_PEERS \<and> length (c_endpoint_probe s) = MAX_PEERS \<and>
     length (c_endpoint_epoch s) = MAX_PEERS"

definition table_ok :: "'a list list \<Rightarrow> bool" where
  "table_ok xss \<longleftrightarrow> length xss = 2 \<and> (\<forall>xs \<in> set xss. length xs = NUM_INTERSECTIONS)"

definition faults_ok :: "central_state \<Rightarrow> bool" where
  "faults_ok s \<longleftrightarrow> table_ok (c_faults s) \<and> table_ok (c_fault_active s) \<and> table_ok (c_fault_received_at s)"

definition operator_ok :: "central_state \<Rightarrow> bool" where
  "operator_ok s \<longleftrightarrow> policy_ok (c_policy s) \<and> schedule_ok (c_schedule s) \<and>
     length (c_scheduled_mode s) = NUM_INTERSECTIONS \<and> length (c_scheduled_epoch s) = NUM_INTERSECTIONS \<and>
     length (c_policy_ack s) = NUM_INTERSECTIONS"

definition shape_ok :: "central_state \<Rightarrow> bool" where
  "shape_ok s \<longleftrightarrow> monitor_ok (c_monitor s) \<and> log_ok s \<and> endpoints_ok s \<and> faults_ok s \<and> operator_ok s \<and> policy_size s"

lemmas shape_defs = endpoints_ok_def faults_ok_def operator_ok_def

text \<open>An operation is quiet when it touches only the history, the queues and the log.\<close>

definition quiet :: "central_state \<Rightarrow> central_state \<Rightarrow> bool" where
  "quiet s s' \<longleftrightarrow> c_monitor s' = c_monitor s \<and> c_endpoint_connected s' = c_endpoint_connected s \<and>
     c_endpoint_probe s' = c_endpoint_probe s \<and> c_endpoint_epoch s' = c_endpoint_epoch s \<and>
     c_faults s' = c_faults s \<and> c_fault_active s' = c_fault_active s \<and>
     c_fault_received_at s' = c_fault_received_at s \<and> c_running s' = c_running s \<and> c_schedule s' = c_schedule s \<and>
     c_policy s' = c_policy s \<and> c_schedule_enabled s' = c_schedule_enabled s \<and>
     c_scheduled_mode s' = c_scheduled_mode s \<and> c_scheduled_epoch s' = c_scheduled_epoch s \<and>
     c_policy_ack s' = c_policy_ack s \<and> length (c_policy_command s') = length (c_policy_command s) \<and>
     (log_ok s \<longrightarrow> log_ok s')"

named_theorems quiets \<open>quiet operations\<close>

lemma quiet_refl [simp, quiets]: "quiet s s"
  by (simp add: quiet_def)

lemma quiet_trans: "quiet s s1 \<Longrightarrow> quiet s1 s2 \<Longrightarrow> quiet s s2"
  by (simp add: quiet_def)

lemma quiet_shape: "quiet s s' \<Longrightarrow> shape_ok s \<Longrightarrow> shape_ok s'"
  by (simp add: quiet_def shape_ok_def shape_defs policy_size_def)

lemma quiet_fold: "(\<And>x s. x \<in> set xs \<Longrightarrow> quiet s (f x s)) \<Longrightarrow> quiet s (fold f xs s)"
  by (induction xs arbitrary: s) (auto intro: quiet_trans)

lemma event_log_ok: "log_ok s \<Longrightarrow> log_ok (event_locked t b s)"
  using ring_pop_ok [of "c_events s"] ring_push_ok [of "c_events s"] ring_push_ok [of "ring_pop (c_events s)"]
  by (auto simp: log_ok_def event_locked_def Let_def ring_ok_def ring_push_def ring_pop_def ring_set_def)

lemma event_quiet [quiets]: "quiet s (event_locked t b s)"
  by (simp add: quiet_def event_log_ok) (simp add: event_locked_def Let_def)

lemma log_cong:
  "c_events s' = c_events s \<Longrightarrow> c_recent s' = c_recent s \<Longrightarrow> c_recent_next s' = c_recent_next s \<Longrightarrow>
   c_recent_count s' = c_recent_count s \<Longrightarrow> log_ok s' = log_ok s"
  by (simp add: log_ok_def)

lemma commands_quiet [quiets]: "quiet s (s\<lparr>c_commands := r\<rparr>)" "quiet s (s\<lparr>c_queue := q\<rparr>)" "quiet s (s\<lparr>c_next_id := i\<rparr>)"
  by (simp_all add: quiet_def log_ok_def)

lemma finish_quiet [quiets]: "quiet s (finish_command_locked t now slot result d s)"
  unfolding finish_command_locked_def Let_def by (rule quiet_trans [OF _ event_quiet]) (rule quiets)

lemma discard_quiet [quiets]: "quiet s (discard_queue_locked t now p s)"
  unfolding discard_queue_eq Let_def
  by (rule quiet_trans [OF quiet_fold commands_quiet(2)]) (simp add: cancel_at_def Let_def quiets)

lemma check_taken_quiet: "quiet s (snd (check_taken t later p w s))"
  by (auto simp: check_taken_def Let_def quiets split: option.split)

lemma take_quiet [quiets]: "quiet s (snd (take_command t now later p s))"
  unfolding take_command_def
  by (auto simp: Let_def quiets split: option.split intro: quiet_trans [OF commands_quiet(2) check_taken_quiet])

lemma outcome_quiet [quiets]: "quiet s (record_outcome t now p w result err code s)"
  by (simp add: record_outcome_def quiets split: option.split)

lemma ring_compact_quiet:
  "(\<And>x s. quiet s (act x s)) \<Longrightarrow> quiet s (snd (snd (ring_compact drop_it act is kept r s)))"
  by (induction drop_it act "is" kept r s rule: ring_compact.induct) (auto simp: Let_def intro: quiet_trans)

lemma cancel_in_quiet: "quiet s (cancel_in t now target p s)"
proof -
  have "quiet s (snd (ring_filter (superseded target) (cancel_superseded t now) (c_queue s ! p) s))"
    by (auto simp: ring_filter_def split_beta cancel_superseded_def quiets split: option.split
        intro!: ring_compact_quiet)
  then show ?thesis unfolding cancel_in_def split_beta Let_def by (rule quiet_trans) (rule quiets)
qed

lemma cancel_automatic_quiet [quiets]: "quiet s (cancel_automatic t now target s)"
  unfolding cancel_automatic_eq by (rule quiet_fold) (rule cancel_in_quiet)

lemma enqueue_one_quiet: "quiet s (enqueue_one t now m delay auto train i s)"
  unfolding enqueue_one_def Let_def split_beta
  by (rule quiet_trans [OF _ event_quiet]) (simp add: quiet_def next_id_locked_def log_ok_def Let_def)

lemma enqueue_quiet [quiets]: "quiet s (snd (enqueue_command t now m target delay auto s))"
  unfolding enqueue_command_def Let_def
  by (auto simp: quiets split: option.split intro!: quiet_fold enqueue_one_quiet)

section \<open>The operations keep the state well-formed\<close>

definition state_ok :: "(nat \<Rightarrow> u16 set) \<Rightarrow> central_state \<Rightarrow> bool" where
  "state_ok fl s \<longleftrightarrow> history_ok fl s \<and> shape_ok s"

lemma state_okD: "state_ok fl s \<Longrightarrow> history_ok fl s" "state_ok fl s \<Longrightarrow> shape_ok s" "state_ok fl s \<Longrightarrow> policy_size s"
  by (simp_all add: state_ok_def shape_ok_def)

named_theorems keeps \<open>operations that keep the state well-formed\<close>

lemma state_ok_quiet: "state_ok fl s \<Longrightarrow> quiet s s' \<Longrightarrow> history_ok fl s' \<Longrightarrow> state_ok fl s'"
  by (simp add: state_ok_def quiet_shape)

lemma state_ok_frame:
  "state_ok fl s \<Longrightarrow> shape_ok s' \<Longrightarrow> c_queue s' = c_queue s \<Longrightarrow> c_local_route s' = c_local_route s \<Longrightarrow>
   c_peer_count s' = c_peer_count s \<Longrightarrow> c_command_next s' = c_command_next s \<Longrightarrow> c_commands s' = c_commands s \<Longrightarrow>
   state_ok fl s'"
  using history_same [OF _ settled_same] by (auto simp: state_ok_def)

lemma event_keeps [keeps]: "state_ok fl s \<Longrightarrow> state_ok fl (event_locked t b s)"
  by (rule state_ok_quiet [OF _ event_quiet]) (simp_all add: state_ok_def history_event)

lemma cancel_automatic_keeps [keeps]: "state_ok fl s \<Longrightarrow> state_ok fl (cancel_automatic t now target s)"
  by (rule state_ok_quiet [OF _ cancel_automatic_quiet]) (simp_all add: state_ok_def cancel_automatic_history)

lemma discard_keeps [keeps]: "state_ok fl s \<Longrightarrow> p < MAX_PEERS \<Longrightarrow> state_ok fl (discard_queue_locked t now p s)"
  by (rule state_ok_quiet [OF _ discard_quiet]) (simp_all add: state_ok_def discard_history)

lemma enqueue_keeps [keeps]:
  assumes "state_ok fl s" "good_prototype m" "target_ok target"
  shows "state_ok fl (snd (enqueue_command t now m target delay auto s))"
proof -
  have "history_ok fl (snd (enqueue_command t now m target delay auto s))"
    by (rule enqueue_command_cases [OF state_okD(1,3) [OF assms(1)] assms(2,3), of t now delay auto]) simp_all
  then show ?thesis by (rule state_ok_quiet [OF assms(1) enqueue_quiet])
qed

text \<open>Changes of one group of fields.\<close>

lemma monitor_keeps: "state_ok fl s \<Longrightarrow> monitor_ok m \<Longrightarrow> state_ok fl (s\<lparr>c_monitor := m\<rparr>)"
  by (rule state_ok_frame, assumption) (auto simp: state_ok_def shape_ok_def shape_defs policy_size_def log_ok_def)

lemma policy_keeps: "state_ok fl s \<Longrightarrow> policy_ok p \<Longrightarrow> state_ok fl (s\<lparr>c_policy := p\<rparr>)"
  by (rule state_ok_frame, assumption) (auto simp: state_ok_def shape_ok_def shape_defs policy_size_def log_ok_def)

lemma state_ok_monitor: "state_ok fl s \<Longrightarrow> monitor_ok (c_monitor s)"
  by (simp add: state_ok_def shape_ok_def)

lemma state_ok_policy: "state_ok fl s \<Longrightarrow> policy_ok (c_policy s)"
  by (simp add: state_ok_def shape_ok_def operator_ok_def)

lemma heartbeat_message_keeps: "state_ok fl s \<Longrightarrow> state_ok fl (snd (handle_heartbeat_message t now m s))"
  unfolding handle_heartbeat_message_def Let_def split_beta
  using monitor_keeps [OF _ heartbeat_ok [OF state_ok_monitor]]
  by (auto intro!: keeps)

lemma table_update: "table_ok xss \<Longrightarrow> table_ok (xss[i := (xss ! i)[j := x]])"
  using set_update_subset_insert [of xss i] by (cases "i < length xss") (fastforce simp: table_ok_def list_update_beyond)+

lemma faults_keeps:
  "state_ok fl s \<Longrightarrow> table_ok f \<Longrightarrow> table_ok a \<Longrightarrow> table_ok r \<Longrightarrow>
   state_ok fl (s\<lparr>c_faults := f, c_fault_active := a, c_fault_received_at := r\<rparr>)"
  by (rule state_ok_frame, assumption) (auto simp: state_ok_def shape_ok_def shape_defs policy_size_def log_ok_def)

lemma state_ok_tables:
  "state_ok fl s \<Longrightarrow> table_ok (c_faults s) \<and> table_ok (c_fault_active s) \<and> table_ok (c_fault_received_at s)"
  by (simp add: state_ok_def shape_ok_def faults_ok_def)

lemma fault_message_keeps: "state_ok fl s \<Longrightarrow> state_ok fl (snd (handle_fault_message t now m s))"
  unfolding handle_fault_message_def Let_def using state_ok_tables [of fl s]
  by (auto split: option.split intro!: event_keeps faults_keeps table_update)

lemma message_keeps [keeps]: "state_ok fl s \<Longrightarrow> state_ok fl (snd (snd (handle_message t now m r s)))"
  using heartbeat_message_keeps [of fl s t now m] fault_message_keeps [of fl s t now m]
    monitor_keeps [OF _ status_ok [OF state_ok_monitor], of fl s fl s] monitor_keeps [OF _ railway_ok [OF state_ok_monitor], of fl s fl s]
  unfolding handle_message_def Let_def split_beta by (auto intro!: keeps)

lemma connected_keeps [keeps]: "state_ok fl s \<Longrightarrow> state_ok fl (note_connected t p s)"
  unfolding note_connected_def Let_def
  by (cases "central_peer_index (peer_source p)")
     (simp_all, rule event_keeps, rule state_ok_frame, assumption,
      auto simp: state_ok_def shape_ok_def shape_defs policy_size_def log_ok_def monitor_ok_def)

lemma endpoint_keeps: "state_ok fl s \<Longrightarrow> state_ok fl (s\<lparr>c_endpoint_connected := (c_endpoint_connected s)[p := x]\<rparr>)"
  by (rule state_ok_frame, assumption) (auto simp: state_ok_def shape_ok_def shape_defs policy_size_def log_ok_def)

lemma probe_keeps: "state_ok fl s \<Longrightarrow> state_ok fl (s\<lparr>c_endpoint_probe := (c_endpoint_probe s)[p := x]\<rparr>)"
  by (rule state_ok_frame, assumption) (auto simp: state_ok_def shape_ok_def shape_defs policy_size_def log_ok_def)

lemma epoch_keeps: "state_ok fl s \<Longrightarrow> state_ok fl (s\<lparr>c_endpoint_epoch := (c_endpoint_epoch s)[p := x]\<rparr>)"
  by (rule state_ok_frame, assumption) (auto simp: state_ok_def shape_ok_def shape_defs policy_size_def log_ok_def)

lemmas endpoints_keeps = endpoint_keeps probe_keeps epoch_keeps

lemma answered_keeps [keeps]:
  assumes "state_ok fl s"
  shows "state_ok fl (note_answered t now p s)"
proof -
  have "state_ok fl (s\<lparr>c_monitor := snd (central_observe_peer (peer_source p) now (c_monitor s)),
     c_endpoint_probe := (c_endpoint_probe s)[p := now]\<rparr>)"
    using endpoints_keeps(2) [OF monitor_keeps [OF assms observe_ok [OF state_ok_monitor [OF assms]]], of "peer_source p" now p now]
    by simp
  then show ?thesis unfolding note_answered_def Let_def split_beta by (auto intro!: keeps)
qed

lemma desync_ok:
  "monitor_ok m \<Longrightarrow> monitor_ok (m\<lparr>mon_intersections := fold (\<lambda>i xs. xs[i := (xs ! i)\<lparr>iv_synchronized := False\<rparr>]) ts (mon_intersections m)\<rparr>)"
  using monitor_step_ok [of m "Slots_Lost ts"] by simp

lemma offline_keeps [keeps]:
  assumes "state_ok fl s" "p < MAX_PEERS"
  shows "state_ok fl (note_offline t now n p s)"
proof -
  define s1 where "s1 = s\<lparr>c_endpoint_connected := (c_endpoint_connected s)[p := False],
     c_endpoint_probe := (c_endpoint_probe s)[p := 0], c_endpoint_epoch := (c_endpoint_epoch s)[p := Suc (c_endpoint_epoch s ! p)]\<rparr>"
  have s1: "state_ok fl s1"
    using endpoints_keeps(3) [OF endpoints_keeps(2) [OF endpoints_keeps(1) [OF assms(1), of p False], of p 0], of p "Suc (c_endpoint_epoch s ! p)"]
    by (simp add: s1_def)
  have m: "monitor_ok (c_monitor s1)" by (rule state_ok_monitor [OF s1])
  show ?thesis
    unfolding note_offline_def Let_def s1_def [symmetric]
    by (intro event_keeps discard_keeps monitor_keeps s1 assms(2)) (use m in \<open>auto intro!: disconnected_ok desync_ok\<close>)
qed

section \<open>Schedule and operator\<close>

lemma operator_keeps:
  assumes "state_ok fl s" "policy_ok p" "length m = NUM_INTERSECTIONS" "length e = NUM_INTERSECTIONS"
    "length a = NUM_INTERSECTIONS" "length c = NUM_INTERSECTIONS"
  shows "state_ok fl (s\<lparr>c_policy := p, c_scheduled_mode := m, c_scheduled_epoch := e, c_policy_command := c, c_policy_ack := a\<rparr>)"
  by (rule state_ok_frame [OF assms(1)])
     (use assms in \<open>auto simp: state_ok_def shape_ok_def shape_defs policy_size_def log_ok_def\<close>)

lemma state_ok_operator:
  assumes "state_ok fl s"
  shows "policy_ok (c_policy s)" "length (c_scheduled_mode s) = NUM_INTERSECTIONS"
    "length (c_scheduled_epoch s) = NUM_INTERSECTIONS" "length (c_policy_ack s) = NUM_INTERSECTIONS"
    "length (c_policy_command s) = NUM_INTERSECTIONS"
  using assms by (simp_all add: state_ok_def shape_ok_def operator_ok_def policy_size_def)

lemma noted_policy_ok:
  "policy_ok p \<Longrightarrow> policy_ok (case central_policy_note_operator t a m d now p of None \<Rightarrow> p | Some p' \<Rightarrow> p')"
  by (auto dest: note_operator_ok split: option.split)

lemma acknowledged_keeps:
  assumes "state_ok fl s"
  shows "state_ok fl (snd (note_acknowledged target s))"
proof -
  note op = state_ok_operator [OF assms]
  have "state_ok fl (s\<lparr>c_policy := p, c_policy_ack := (c_policy_ack s)[target := k]\<rparr>)" if "policy_ok p" for p k
    using operator_keeps [OF assms that op(2,3) _ op(5), of "(c_policy_ack s)[target := k]"] op(4) by simp
  then show ?thesis
    using assms noted_policy_ok [OF op(1)]
    by (auto simp: note_acknowledged_def Let_def split: option.split)
qed

lemma schedule_target_keeps:
  assumes "state_ok fl s" "target < NUM_INTERSECTIONS"
  shows "state_ok fl (schedule_target t now later minute target s)"
proof -
  define s1 where "s1 = snd (note_acknowledged target s)"
  have s1: "state_ok fl s1" using acknowledged_keeps [OF assms(1)] by (simp add: s1_def)
  have t: "target_ok target" using assms(2) by (simp add: target_ok_def)
  have queued: "state_ok fl s2" "state_ok fl (s2\<lparr>c_scheduled_mode := (c_scheduled_mode s2)[target := v],
      c_scheduled_epoch := (c_scheduled_epoch s2)[target := k]\<rparr>)"
    if "central_schedule_mode sch target minute = Some mode"
      "s2 = snd (enqueue_command t later (scheduled_message t target mode) target 0 True s1)" for sch mode s2 v k
  proof -
    show s2: "state_ok fl s2"
      unfolding that(2) by (rule enqueue_keeps [OF s1 scheduled_prototype [OF schedule_mode_range [OF that(1)]] t])
    note op = state_ok_operator [OF s2]
    show "state_ok fl (s2\<lparr>c_scheduled_mode := (c_scheduled_mode s2)[target := v],
      c_scheduled_epoch := (c_scheduled_epoch s2)[target := k]\<rparr>)"
      using operator_keeps [OF s2 op(1) _ _ op(4,5), of "(c_scheduled_mode s2)[target := v]" "(c_scheduled_epoch s2)[target := k]"] op(2,3)
      by simp
  qed
  show ?thesis
    unfolding schedule_target_def Let_def split_beta s1_def [symmetric]
    using s1 queued(1) [OF _ refl] queued(2) [OF _ refl]
    by (auto split: option.split)
qed

lemma schedule_keeps [keeps]: "state_ok fl s \<Longrightarrow> state_ok fl (schedule_tick t now later minute s)"
  unfolding schedule_tick_def
  by (auto split: option.split intro!: fold_ok [where P = "state_ok fl"] schedule_target_keeps)

lemma length_fold_set: "length (fold (\<lambda>i xs. xs[i := v]) is xs) = length xs"
  by (rule length_fold_update)

lemma reset_keeps: "state_ok fl s \<Longrightarrow> state_ok fl (reset_scheduled target s)"
  unfolding reset_scheduled_def
  using operator_keeps [of fl s "c_policy s" "fold (\<lambda>i xs. xs[i := - 1]) (target_range target) (c_scheduled_mode s)"
      "c_scheduled_epoch s" "c_policy_ack s" "c_policy_command s"] state_ok_operator [of fl s]
  by (simp add: length_fold_update)

lemma resume_keeps: "state_ok fl s \<Longrightarrow> state_ok fl (snd (schedule_resume_command t now arg s))"
proof -
  assume ok: "state_ok fl s"
  note op = state_ok_operator [OF ok]
  have "state_ok fl (s\<lparr>c_policy := p, c_policy_command := fold (\<lambda>i xs. xs[i := 0]) is (c_policy_command s),
      c_policy_ack := fold (\<lambda>i xs. xs[i := 0]) is (c_policy_ack s)\<rparr>)" if "policy_ok p" for p "is"
    using operator_keeps [OF ok that op(2,3), of "fold (\<lambda>i xs. xs[i := 0]) is (c_policy_ack s)"
      "fold (\<lambda>i xs. xs[i := 0]) is (c_policy_command s)"] op(4,5)
    by (simp add: length_fold_update)
  from this this [OF op(1)] show "state_ok fl (snd (schedule_resume_command t now arg s))"
    using ok op(1) resume_schedule_ok [OF op(1)]
    by (auto simp: schedule_resume_command_def Let_def split: option.split intro!: cancel_automatic_keeps reset_keeps)
qed

lemma train_command_keeps: "state_ok fl s \<Longrightarrow> state_ok fl (snd (train_command t now arg s))"
  by (auto simp: train_command_def target_ok_def split: option.split intro!: enqueue_keeps train_prototype)

lemma coordinate_at_keeps: "state_ok fl s \<Longrightarrow> state_ok fl (snd (coordinate_at_command t now arg s))"
  by (auto simp: coordinate_at_command_def split: option.split intro!: enqueue_keeps dest: parsed_prototype)

lemma operator_message_keeps:
  assumes "state_ok fl s" "good_prototype m" "target_ok target"
  shows "state_ok fl (snd (operator_message t now later m target s))"
proof -
  define s1 where "s1 = (if hdr_type (header m) \<noteq> msg_code MSG_TEST then cancel_automatic t now target s else s)"
  have "state_ok fl s1" using assms(1) cancel_automatic_keeps by (simp add: s1_def)
  then have s2: "state_ok fl (snd (enqueue_command t now m target 0 False s1))" (is "state_ok fl ?s2")
    by (rule enqueue_keeps [OF _ assms(2,3)])
  have "state_ok fl (?s2\<lparr>c_policy := p\<rparr>)" if "policy_ok p" for p by (rule policy_keeps [OF s2 that])
  then show ?thesis
    unfolding operator_message_def Let_def split_beta s1_def [symmetric]
    using s2 noted_policy_ok [OF state_ok_policy [OF s2]] by (auto intro!: reset_keeps)
qed

lemma execute_keeps [keeps]: "state_ok fl s \<Longrightarrow> state_ok fl (snd (snd (execute_command t now later text s)))"
  unfolding execute_command_def Let_def split_beta
  by (auto split: option.split dest: parsed_prototype
      intro!: resume_keeps train_command_keeps coordinate_at_keeps operator_message_keeps)

lemma ui_command_keeps [keeps]: "state_ok fl s \<Longrightarrow> state_ok fl (snd (snd (ui_command t now later tr text s)))"
  unfolding ui_command_def Let_def split_beta using execute_keeps by auto

lemma log_keeps [keeps]: "state_ok fl s \<Longrightarrow> state_ok fl (snd (log_step written s))"
proof -
  assume ok: "state_ok fl s"
  have "state_ok fl (s\<lparr>c_events := ring_pop (c_events s), c_log_failed := b\<rparr>)" for b
    by (rule state_ok_frame [OF ok])
       (use ok ring_pop_ok [of "c_events s"] in \<open>auto simp: state_ok_def shape_ok_def shape_defs policy_size_def log_ok_def ring_pop_def\<close>)
  from this [of True] this [of "c_log_failed s"] ok show "state_ok fl (snd (log_step written s))"
    by (auto simp: log_step_def Let_def)
qed

lemma running_keeps: "state_ok fl s \<Longrightarrow> state_ok fl (s\<lparr>c_running := b\<rparr>)"
  by (rule state_ok_frame, assumption) (auto simp: state_ok_def shape_ok_def shape_defs policy_size_def log_ok_def)

lemma stop_keeps [keeps]: "state_ok fl s \<Longrightarrow> state_ok fl (central_main_stop t now s)"
proof -
  assume ok: "state_ok fl s"
  have "c_peer_count s \<le> MAX_PEERS" using history_okD(3) [OF state_okD(1) [OF ok]] by (simp add: route_ok_def)
  then show "state_ok fl (central_main_stop t now s)" unfolding central_main_stop_def
    by (intro fold_ok [where P = "state_ok fl"] discard_keeps running_keeps event_keeps ok) auto
qed

section \<open>The process as a machine\<close>

text \<open>
  The threads of Central interleave at the critical sections. An event is one of them: the receiver handles a
  message; a peer thread notes its endpoint connected, answered or offline, takes a command, or records the
  outcome of the send it is in; the schedule thread ticks; an operator line or a request of the display
  arrives; the logger takes a record; Central stops. A peer thread does nothing else while it is inside
  \<open>central_send\<close>: \<open>cw_flight\<close> holds the command each one is sending.
\<close>

record central_world =
  cw_state :: central_state
  cw_flight :: "queued_command option list"

datatype central_event =
    Message_Received string u64 test_message reply
  | Endpoint_Connected string nat
  | Endpoint_Answered string u64 nat
  | Endpoint_Offline string u64 nat nat
  | Command_Taken string u64 u64 nat
  | Command_Sent string u64 nat send_status link_error int
  | Schedule_Ticked string u64 u64 "nat option"
  | Operator_Line string u64 u64 string
  | Display_Request string u64 u64 bool string
  | Record_Logged bool
  | Central_Stopped string u64

definition peer_idle :: "nat \<Rightarrow> central_world \<Rightarrow> bool" where
  "peer_idle p w \<longleftrightarrow> p < c_peer_count (cw_state w) \<and> cw_flight w ! p = None"

definition with_state :: "(central_state \<Rightarrow> central_state) \<Rightarrow> central_world \<Rightarrow> central_world" where
  "with_state f w = w\<lparr>cw_state := f (cw_state w)\<rparr>"

primrec central_step :: "central_event \<Rightarrow> central_world \<Rightarrow> central_world" where
  "central_step (Message_Received t now m r) w = with_state (\<lambda>s. snd (snd (handle_message t now m r s))) w"
| "central_step (Endpoint_Connected t p) w = (if peer_idle p w then with_state (note_connected t p) w else w)"
| "central_step (Endpoint_Answered t now p) w = (if peer_idle p w then with_state (note_answered t now p) w else w)"
| "central_step (Endpoint_Offline t now n p) w = (if peer_idle p w then with_state (note_offline t now n p) w else w)"
| "central_step (Command_Taken t now later p) w =
     (if peer_idle p w
      then let (r, s) = take_command t now later p (cw_state w) in \<lparr>cw_state = s, cw_flight = (cw_flight w)[p := r]\<rparr>
      else w)"
| "central_step (Command_Sent t now p result err code) w =
     (if p < c_peer_count (cw_state w)
      then case cw_flight w ! p of
             None \<Rightarrow> w
           | Some work \<Rightarrow> \<lparr>cw_state = record_outcome t now p work result err code (cw_state w),
                           cw_flight = (cw_flight w)[p := None]\<rparr>
      else w)"
| "central_step (Schedule_Ticked t now later minute) w = with_state (schedule_tick t now later minute) w"
| "central_step (Operator_Line t now later text) w = with_state (\<lambda>s. snd (snd (execute_command t now later text s))) w"
| "central_step (Display_Request t now later truncated text) w =
     with_state (\<lambda>s. snd (snd (ui_command t now later truncated text s))) w"
| "central_step (Record_Logged written) w = with_state (\<lambda>s. snd (log_step written s)) w"
| "central_step (Central_Stopped t now) w = with_state (central_main_stop t now) w"

definition flight_ids :: "central_world \<Rightarrow> nat \<Rightarrow> u16 set" where
  "flight_ids w p = qc_id ` set_option (cw_flight w ! p)"

definition world_ok :: "central_world \<Rightarrow> bool" where
  "world_ok w \<longleftrightarrow> length (cw_flight w) = MAX_PEERS \<and> state_ok (flight_ids w) (cw_state w)"

lemma history_flight_cong:
  "(\<And>p. p < MAX_PEERS \<Longrightarrow> fl p = fl' p) \<Longrightarrow> state_ok fl s \<Longrightarrow> state_ok fl' s"
  by (simp add: state_ok_def history_ok_def)

lemma with_state_ok:
  assumes "world_ok w" "state_ok (flight_ids w) (cw_state w) \<Longrightarrow> state_ok (flight_ids w) (f (cw_state w))"
  shows "world_ok (with_state f w)"
  using assms by (simp add: world_ok_def with_state_def flight_ids_def [abs_def])

lemma peer_idle_less: "world_ok w \<Longrightarrow> peer_idle p w \<Longrightarrow> p < MAX_PEERS"
  using history_okD(3) [OF state_okD(1)] by (fastforce simp: world_ok_def peer_idle_def route_ok_def)

lemma taken_ok:
  assumes ok: "world_ok w" and idle: "peer_idle p w"
  shows "world_ok (central_step (Command_Taken t now later p) w)"
proof -
  have st: "state_ok (flight_ids w) (cw_state w)" "length (cw_flight w) = MAX_PEERS" using ok by (simp_all add: world_ok_def)
  have p: "p < MAX_PEERS" by (rule peer_idle_less [OF ok idle])
  have none: "flight_ids w p = {}" using idle by (simp add: flight_ids_def peer_idle_def)
  let ?w = "\<lambda>r s. \<lparr>cw_state = s, cw_flight = (cw_flight w)[p := r]\<rparr>"
  have eq: "central_step (Command_Taken t now later p) w =
    ?w (fst (take_command t now later p (cw_state w))) (snd (take_command t now later p (cw_state w)))"
    using idle by (simp add: split_beta Let_def)
  have quiet: "quiet (cw_state w) (snd (take_command t now later p (cw_state w)))" by (rule take_quiet)
  have fl: "flight_ids (?w r s) q = ((flight_ids w)(p := qc_id ` set_option r)) q" if "q < MAX_PEERS" for r s q
    using that p st(2) by (simp add: flight_ids_def nth_list_update)
  show ?thesis
    using state_okD(1) [OF st(1)] p none
  proof (rule take_command_history [where t = t and now = now and later = later])
    fix s' assume r: "take_command t now later p (cw_state w) = (None, s')" "history_ok (flight_ids w) s'"
    have "state_ok (flight_ids w) s'" using state_ok_quiet [OF st(1) quiet] r by simp
    then have "state_ok (flight_ids (?w None s')) s'"
      by (rule history_flight_cong [rotated]) (auto simp: fl none)
    then show ?thesis unfolding eq r(1) by (simp add: world_ok_def st(2))
  next
    fix v s' assume r: "take_command t now later p (cw_state w) = (Some v, s')"
      "history_ok ((flight_ids w)(p := {qc_id v})) s'"
    have "state_ok ((flight_ids w)(p := {qc_id v})) s'"
      using st(1) quiet r by (simp add: state_ok_def quiet_shape)
    then have "state_ok (flight_ids (?w (Some v) s')) s'" by (rule history_flight_cong [rotated]) (simp add: fl)
    then show ?thesis unfolding eq r(1) by (simp add: world_ok_def st(2))
  qed
qed

lemma sent_ok:
  assumes ok: "world_ok w" and p: "p < c_peer_count (cw_state w)" and v: "cw_flight w ! p = Some v"
  shows "world_ok (central_step (Command_Sent t now p result err code) w)"
proof -
  have st: "state_ok (flight_ids w) (cw_state w)" "length (cw_flight w) = MAX_PEERS" using ok by (simp_all add: world_ok_def)
  have p8: "p < MAX_PEERS" using p history_okD(3) [OF state_okD(1) [OF st(1)]] by (simp add: route_ok_def)
  have "flight_ids w p = {qc_id v}" by (simp add: flight_ids_def v)
  from outcome_history [OF state_okD(1) [OF st(1)] p8 this, of t now result err code]
  have "state_ok ((flight_ids w)(p := {})) (record_outcome t now p v result err code (cw_state w))"
    using st(1) quiet_shape [OF outcome_quiet] by (simp add: state_ok_def)
  then have "state_ok (flight_ids \<lparr>cw_state = record_outcome t now p v result err code (cw_state w),
      cw_flight = (cw_flight w)[p := None]\<rparr>) (record_outcome t now p v result err code (cw_state w))"
    by (rule history_flight_cong [rotated]) (use p8 st(2) in \<open>simp add: flight_ids_def nth_list_update\<close>)
  then show ?thesis using p v st(2) by (simp add: world_ok_def)
qed

lemma central_step_ok: "world_ok w \<Longrightarrow> world_ok (central_step e w)"
proof (cases e)
  case (Command_Taken t now later p)
  assume "world_ok w"
  with Command_Taken taken_ok [of w p t now later] show ?thesis by (cases "peer_idle p w") simp_all
next
  case (Command_Sent t now p result err code)
  assume "world_ok w"
  with Command_Sent sent_ok [of w p _ t now result err code] show ?thesis
    by (cases "p < c_peer_count (cw_state w)"; cases "cw_flight w ! p") simp_all
qed (auto intro!: with_state_ok keeps dest: peer_idle_less)

interpretation central: inv_machine central_step "\<lambda>_. True" world_ok
  by unfold_locales (rule central_step_ok)

section \<open>The arguments\<close>

text \<open>The routes of \<open>main\<close>: at most 8 endpoints, the second one is Train's, no intersection is routed to it.\<close>

definition routes_ok :: "central_args \<Rightarrow> bool" where
  "routes_ok a \<longleftrightarrow> 2 \<le> length (ca_services a) \<and> ca_services a ! 1 = TRAIN_SERVICE_NAME \<and>
     length (ca_route a) = NUM_INTERSECTIONS \<and>
     (\<forall>t < NUM_INTERSECTIONS. ca_route a ! t < length (ca_services a) \<and> ca_route a ! t \<noteq> 1)"

lemma service_index_spec:
  "service_index x xs \<le> length xs \<and> (service_index x xs < length xs \<longrightarrow> xs ! service_index x xs = x)"
  by (induction xs) auto

lemma route_to_ok:
  assumes "routes_ok a" "service \<noteq> TRAIN_SERVICE_NAME"
  shows "routes_ok (route_to target service a)" "ca_configured (route_to target service a) = ca_configured a"
    "length (ca_services (route_to target service a)) \<le> Suc (length (ca_services a))"
proof -
  let ?i = "service_index service (ca_services a)"
  have i: "?i \<le> length (ca_services a)" "?i < length (ca_services a) \<Longrightarrow> ca_services a ! ?i = service"
    using service_index_spec [of service "ca_services a"] by auto
  have "?i \<noteq> 1" using i(2) assms by (cases "?i < length (ca_services a)") (auto simp: routes_ok_def)
  then show "routes_ok (route_to target service a)"
    using assms(1) i(1) by (auto simp: routes_ok_def route_to_def Let_def nth_append nth_update_if less_Suc_eq)
  show "ca_configured (route_to target service a) = ca_configured a"
    "length (ca_services (route_to target service a)) \<le> Suc (length (ca_services a))"
    by (simp_all add: route_to_def Let_def)
qed

definition args_ok :: "central_args \<Rightarrow> bool" where
  "args_ok a \<longleftrightarrow> routes_ok a \<and> length (ca_configured a) = NUM_INTERSECTIONS \<and>
     length (ca_services a) + length (filter Not (ca_configured a)) \<le> MAX_PEERS"

lemma initial_args_ok: "args_ok initial_args"
  by (simp add: args_ok_def routes_ok_def initial_args_def nth_Cons')

lemma endpoint_args_ok:
  assumes "args_ok a" "parse_endpoint mapping a = Some a'"
  shows "args_ok a'"
proof -
  define target where "target = (of_char (mapping ! 1) - of_char CHR ''1'' :: nat)"
  from assms(2) have m: "\<not> ca_configured a ! target" "drop 3 mapping \<noteq> TRAIN_SERVICE_NAME"
    "mapping ! 1 \<le> CHR ''6''"
    "a' = (route_to target (drop 3 mapping) a)\<lparr>ca_configured := (ca_configured a)[target := True]\<rparr>"
    by (auto simp: parse_endpoint_def Let_def target_def split: if_splits)
  have "of_char (mapping ! 1) \<le> (54 :: nat)" using m(3) by (simp add: less_eq_char_def)
  then have t: "target < NUM_INTERSECTIONS" by (simp add: target_def)
  have "Suc (length (filter Not ((ca_configured a)[target := True]))) = length (filter Not (ca_configured a))"
    by (rule filter_length_update) (use m(1) t assms(1) in \<open>simp_all add: args_ok_def\<close>)
  moreover have "routes_ok a" using assms(1) by (simp add: args_ok_def)
  ultimately show ?thesis
    using route_to_ok [OF \<open>routes_ok a\<close> m(2), of target] assms(1) by (auto simp: args_ok_def m(4) routes_ok_def)
qed

lemma args_ok_frame [simp]:
  "args_ok (a\<lparr>ca_global := b\<rparr>) = args_ok a" "args_ok (a\<lparr>ca_headless := b\<rparr>) = args_ok a"
  "args_ok (a\<lparr>ca_schedule_path := q\<rparr>) = args_ok a" "args_ok (a\<lparr>ca_log_path := l\<rparr>) = args_ok a"
  "args_ok (a\<lparr>ca_status_age := n\<rparr>) = args_ok a"
  by (simp_all add: args_ok_def routes_ok_def)

lemma parse_args_ok: "args_ok a \<Longrightarrow> parse_args argv a = Args_Ok a' \<Longrightarrow> args_ok a'"
proof (induction argv a rule: parse_args.induct)
  case (3 x y rest a)
  define h l g d sc ep out age where "h \<longleftrightarrow> x = ''-h'' \<or> x = ''--help''" and "l \<longleftrightarrow> x = ''-l''" and "g \<longleftrightarrow> x = ''-g''"
    and "d \<longleftrightarrow> x = ''--headless''" and "sc \<longleftrightarrow> x = ''--schedule''" and "ep \<longleftrightarrow> x = ''--local-endpoint''"
    and "out \<longleftrightarrow> x = ''-o''" and "age \<longleftrightarrow> x = ''-s''"
  note folds = h_def [symmetric] l_def [symmetric] g_def [symmetric] d_def [symmetric] sc_def [symmetric]
    ep_def [symmetric] out_def [symmetric] age_def [symmetric]
  note step = parse_args.simps(3) [of x y rest a, unfolded folds]
  note ih = "3.IH" [unfolded folds]
  show ?case
    using "3.prems" unfolding step
    by (auto split: if_splits option.splits dest: endpoint_args_ok elim: ih [rotated -1])
qed (auto split: if_splits)

lemma default_round:
  assumes "routes_ok a" "length (ca_services a) + length (filter (\<lambda>i. \<not> ca_configured a ! i) is) \<le> MAX_PEERS"
  shows "routes_ok (fold (\<lambda>i a. if ca_configured a ! i then a else route_to i (''traffic_local_I'' @ show_nat (i + 1)) a) is a) \<and>
    length (ca_services (fold (\<lambda>i a. if ca_configured a ! i then a else route_to i (''traffic_local_I'' @ show_nat (i + 1)) a) is a)) \<le> MAX_PEERS"
  using assms
proof (induction "is" arbitrary: a)
  case (Cons i "is")
  have n: "''traffic_local_I'' @ show_nat (i + 1) \<noteq> TRAIN_SERVICE_NAME" by (simp add: TRAIN_SERVICE_NAME_def)
  show ?case
  proof (cases "ca_configured a ! i")
    case True
    with Cons show ?thesis by simp
  next
    case False
    note r = route_to_ok [OF Cons.prems(1) n, of i]
    have "length (ca_services (route_to i (''traffic_local_I'' @ show_nat (i + 1)) a)) +
        length (filter (\<lambda>j. \<not> ca_configured (route_to i (''traffic_local_I'' @ show_nat (i + 1)) a) ! j) is) \<le> MAX_PEERS"
      using r(2,3) Cons.prems(2) False by simp
    from Cons.IH [OF r(1) this] False show ?thesis by simp
  qed
qed simp

lemma default_endpoints_ok:
  assumes "args_ok a"
  shows "routes_ok (default_endpoints a)" "length (ca_services (default_endpoints a)) \<le> MAX_PEERS"
proof -
  have "filter Not xs = map ((!) xs) (filter (\<lambda>i. \<not> xs ! i) [0..<length xs])" for xs
    by (subst (2) map_nth [symmetric]) (simp only: filter_map comp_def)
  from this [of "ca_configured a"]
  have "length (filter Not (ca_configured a)) = length (filter (\<lambda>i. \<not> ca_configured a ! i) [0..<NUM_INTERSECTIONS])"
    using assms by (simp add: args_ok_def)
  also have "[0..<NUM_INTERSECTIONS] = 0 # [1..<NUM_INTERSECTIONS]" by (simp add: upt_rec)
  finally have "length (filter (\<lambda>i. \<not> ca_configured a ! i) [1..<NUM_INTERSECTIONS]) \<le> length (filter Not (ca_configured a))"
    by simp
  with assms have "routes_ok a" "length (ca_services a) + length (filter (\<lambda>i. \<not> ca_configured a ! i) [1..<NUM_INTERSECTIONS]) \<le> MAX_PEERS"
    by (auto simp: args_ok_def)
  from default_round [OF this] show "routes_ok (default_endpoints a)" "length (ca_services (default_endpoints a)) \<le> MAX_PEERS"
    unfolding default_endpoints_def by blast+
qed

section \<open>The initial state\<close>

lemma empty_ids: "ids_in st (replicate n empty_record) p = {}"
  by (auto simp: ids_in_def empty_record_def)

lemma central_start_ok:
  assumes "routes_ok a" "length (ca_services a) \<le> MAX_PEERS" "case sch of None \<Rightarrow> True | Some x \<Rightarrow> schedule_ok x"
  shows "state_ok (\<lambda>_. {}) (central_start (ca_route a) (length (ca_services a)) age sch)"
proof -
  let ?s = "central_start (ca_route a) (length (ca_services a)) age sch"
  have "shape_ok ?s"
    using assms(3) central_monitor_init_ok initial_policy_ok
    by (auto simp: shape_ok_def shape_defs policy_size_def central_start_def log_ok_def empty_ring_def ring_ok_def
        table_ok_def schedule_ok_def split: option.splits)
  moreover have "history_ok (\<lambda>_. {}) ?s"
    using assms(1,2)
    by (auto simp: history_ok_def sizes_ok_def route_ok_def routes_ok_def central_start_def empty_ids queue_agrees_def
        queued_ids_def queue_ok_def works_ok_def ring_list_def ring_ok_def empty_ring_def ids_distinct_def)
       (auto simp: empty_record_def)
  ultimately show ?thesis by (simp add: state_ok_def)
qed

definition start_world :: "central_state \<Rightarrow> central_world" where
  "start_world s = \<lparr>cw_state = s, cw_flight = replicate MAX_PEERS None\<rparr>"

lemma main_start_ok:
  assumes "central_main_start t file argv = Some s"
  shows "world_ok (start_world s)"
proof -
  from assms obtain a where p: "parse_args argv initial_args = Args_Ok a"
    by (auto simp: central_main_start_def split: args_result.splits)
  let ?d = "default_endpoints a"
  have "\<exists>sch. (case sch of None \<Rightarrow> True | Some x \<Rightarrow> schedule_ok x) \<and>
    s = fold (\<lambda>i s. event_locked t (''I'' @ show_nat (i + 1) @ '' routes to '' @
           ca_services ?d ! (ca_route ?d ! i)) s) [0..<NUM_INTERSECTIONS]
         (event_locked t ''Central started'' (central_start (ca_route ?d) (length (ca_services ?d)) (ca_status_age ?d) sch))"
  proof (cases "ca_schedule_path ?d")
    case None
    with assms p show ?thesis by (intro exI [of _ None]) (simp add: central_main_start_def Let_def)
  next
    case (Some path)
    with assms p obtain sch where "central_schedule_load 256 [] (file path) = Inr sch"
      by (cases "central_schedule_load 256 [] (file path)") (simp_all add: central_main_start_def Let_def)
    with Some assms p show ?thesis
      by (intro exI [of _ "Some sch"]) (simp add: central_main_start_def Let_def schedule_load_ok)
  qed
  then obtain sch where a: "case sch of None \<Rightarrow> True | Some x \<Rightarrow> schedule_ok x"
    "s = fold (\<lambda>i s. event_locked t (''I'' @ show_nat (i + 1) @ '' routes to '' @
           ca_services ?d ! (ca_route ?d ! i)) s) [0..<NUM_INTERSECTIONS]
         (event_locked t ''Central started'' (central_start (ca_route ?d) (length (ca_services ?d)) (ca_status_age ?d) sch))"
    by blast
  note d = default_endpoints_ok [OF parse_args_ok [OF initial_args_ok p]]
  have "state_ok (\<lambda>_. {}) s"
    unfolding a(2) by (intro fold_ok [where P = "state_ok (\<lambda>_. {})"] event_keeps central_start_ok d a(1))
  then have "state_ok (flight_ids (start_world s)) s"
    by (rule history_flight_cong [rotated]) (simp add: flight_ids_def start_world_def)
  then show ?thesis by (simp add: world_ok_def start_world_def)
qed

text \<open>Every state Central can be in.\<close>

definition central_run :: "string \<Rightarrow> (string \<Rightarrow> schedule_file option) \<Rightarrow> string list \<Rightarrow> central_event list \<Rightarrow> central_world option" where
  "central_run t file argv es = map_option (\<lambda>s. fold central_step es (start_world s)) (central_main_start t file argv)"

lemma central_run_ok: "central_run t file argv es = Some w \<Longrightarrow> world_ok w"
  by (auto simp: central_run_def intro: central.run_inv main_start_ok)

lemma next_id_loop_more:
  "\<not> reserved (next_id_loop (Suc n) reserved i) \<Longrightarrow>
   next_id_loop (Suc n + m) reserved i = next_id_loop (Suc n) reserved i"
proof (induction n arbitrary: i)
  case 0
  then show ?case by (simp add: Let_def split: if_splits)
next
  case (Suc n)
  show ?case
  proof (cases "reserved (bump_id i)")
    case True
    with Suc show ?thesis by (simp only: next_id_loop.simps(2) [of "Suc n"] next_id_loop.simps(2) [of "Suc n + m"] add_Suc [of "Suc n"] Let_def if_True)
  next
    case False
    then show ?thesis by (simp add: Let_def)
  qed
qed

lemma next_id_more:
  assumes "length (c_commands s) = COMMAND_HISTORY_SIZE" "length (c_policy_command s) = NUM_INTERSECTIONS"
  shows "next_id_loop (71 + n) (id_reserved s) (c_next_id s) = fst (next_id_locked s)"
proof -
  obtain k where k: "fst (next_id_locked s) = (bump_id ^^ Suc k) (c_next_id s)"
    "\<not> id_reserved s ((bump_id ^^ Suc k) (c_next_id s))"
    using next_id_unreserved [OF assms] by (elim exE conjE)
  have e: "fst (next_id_locked s) = next_id_loop (Suc 70) (id_reserved s) (c_next_id s)"
    by (simp only: next_id_locked_def Let_def fst_conv) (simp del: next_id_loop.simps)
  have r: "\<not> id_reserved s (next_id_loop (Suc 70) (id_reserved s) (c_next_id s))"
    using k unfolding e by (simp only: simp_thms)
  from next_id_loop_more [where reserved = "id_reserved s" and n = 70 and i = "c_next_id s", OF r, of n] show ?thesis unfolding e by (simp del: next_id_loop.simps)
qed

section \<open>What holds in every run\<close>

text \<open>The commands a run gives out to be sent, each with the state it was taken in.\<close>

fun given_by :: "central_event \<Rightarrow> central_world \<Rightarrow> (central_state \<times> nat \<times> u64 \<times> u64 \<times> queued_command) list" where
  "given_by (Command_Taken t now later p) w =
     (if peer_idle p w
      then case fst (take_command t now later p (cw_state w)) of
             None \<Rightarrow> []
           | Some v \<Rightarrow> [(cw_state w, p, now, later, v)]
      else [])"
| "given_by e w = []"

fun all_given :: "central_event list \<Rightarrow> central_world \<Rightarrow> (central_state \<times> nat \<times> u64 \<times> u64 \<times> queued_command) list" where
  "all_given [] w = []"
| "all_given (e # es) w = given_by e w @ all_given es (central_step e w)"

lemma taken_sendable:
  assumes "world_ok w" "peer_idle p w" "fst (take_command t now later p (cw_state w)) = Some v"
  shows "sendable (cw_state w) p now later v" "c_running (cw_state w)"
proof -
  have h: "history_ok (flight_ids w) (cw_state w)" "flight_ids w p = {}"
    using assms(1,2) by (simp_all add: world_ok_def state_ok_def flight_ids_def peer_idle_def)
  have "sendable (cw_state w) p now later v \<and> c_running (cw_state w)"
    by (rule take_command_history [OF h(1) peer_idle_less [OF assms(1,2)] h(2), of t now later])
      (use assms(3) in simp_all)
  then show "sendable (cw_state w) p now later v" "c_running (cw_state w)" by simp_all
qed

lemma given_by_sendable:
  assumes w: "world_ok w"
  shows "\<forall>(s, p, now, later, v) \<in> set (given_by e w). sendable s p now later v \<and> c_running s"
proof (cases e)
  case (Command_Taken t now later p)
  show ?thesis
  proof (cases "peer_idle p w")
    case True
    then show ?thesis
      using taken_sendable [OF w True, of t now later] unfolding Command_Taken
      by (cases "fst (take_command t now later p (cw_state w))") simp_all
  qed (simp add: Command_Taken)
qed simp_all

lemma all_given_sendable:
  "world_ok w \<Longrightarrow> \<forall>(s, p, now, later, v) \<in> set (all_given es w). sendable s p now later v \<and> c_running s"
proof (induction es arbitrary: w)
  case (Cons e es)
  from given_by_sendable [OF Cons.prems] Cons.IH [OF central_step_ok [OF Cons.prems]]
  show ?case unfolding all_given.simps set_append ball_Un by blast
qed simp

text \<open>A start with no arguments succeeds.\<close>

lemma plain_start: "central_main_start t file [] \<noteq> None"
proof -
  have "ca_schedule_path (default_endpoints initial_args) = None"
    by (simp add: default_endpoints_def initial_args_def route_to_def Let_def upt_rec)
  then show ?thesis by (simp add: central_main_start_def Let_def)
qed

lemma plain_run: obtains w where "central_run t path [] es = Some w"
  using plain_start [of t path] by (cases "central_main_start t path []") (auto simp: central_run_def)

text \<open>C7: In every state Central can reach, whatever the threads and the operator do in whatever order, the
  command history, the queues and the sends in progress agree: identifiers are distinct; the queue of every
  peer holds, once each, exactly the identifiers of the records in state QUEUED for that peer; and the records
  in state SENDING for a peer are exactly the command its thread is sending. So no command is lost, sent
  from two places, or left without an outcome.\<close>

theorem central_history_consistent:
  assumes "central_run t file argv es = Some w" "p < MAX_PEERS"
  shows "ids_distinct (c_commands (cw_state w)) \<and> distinct (queued_ids (cw_state w) p) \<and>
    set (queued_ids (cw_state w) p) = ids_in REQUEST_QUEUED (c_commands (cw_state w)) p \<and>
    qc_id ` set_option (cw_flight w ! p) = ids_in REQUEST_SENDING (c_commands (cw_state w)) p"
proof -
  have ok: "history_ok (flight_ids w) (cw_state w)"
    using central_run_ok [OF assms(1)] by (simp add: world_ok_def state_ok_def)
  from history_okD(2) [OF ok] history_okD(7,9) [OF ok assms(2)] show ?thesis
    by (simp add: queue_agrees_def flight_ids_def)
qed

lemma central_history_consistent_witness:
  "\<exists>w. central_run ''12:00:00'' (\<lambda>_. None) [] [Operator_Line ''12:00:01'' 7 8 ''mode-fixed all''] = Some w \<and>
     ids_distinct (c_commands (cw_state w))"
proof -
  obtain w where w: "central_run ''12:00:00'' (\<lambda>_. None) [] [Operator_Line ''12:00:01'' 7 8 ''mode-fixed all''] = Some w"
    by (rule plain_run)
  from central_history_consistent [OF this, of 0] w show ?thesis by simp
qed

text \<open>C8: Every command that is given out to be sent, in any run, was queued for that peer, was due, had not
  waited its 5 seconds, is a frame that \<open>central_send\<close> accepts, is addressed to Train on the Train endpoint
  and otherwise to an intersection that is routed to this endpoint, under its own identifier; and at that
  moment the endpoint answered its probes and, for Local, the intersection had reported a fresh status.\<close>

theorem sent_commands_sendable:
  "case central_main_start t file argv of
     None \<Rightarrow> True
   | Some s0 \<Rightarrow> list_all (\<lambda>(s, p, now, later, v). sendable s p now later v \<and> c_running s) (all_given es (start_world s0))"
proof (cases "central_main_start t file argv")
  case (Some s0)
  from all_given_sendable [OF main_start_ok [OF this]] Some show ?thesis by (simp add: list_all_iff)
qed simp

text \<open>C11: The search for the next command identifier ends: at most 70 identifiers are reserved, so within 71
  rounds it finds one that is not 0, not in the history and not awaited by the schedule; more fuel changes
  nothing.\<close>

theorem next_id_terminates:
  assumes "central_run t file argv es = Some w"
  shows "fst (next_id_locked (cw_state w)) \<noteq> 0 \<and>
    find_command_locked (cw_state w) (fst (next_id_locked (cw_state w))) = None \<and>
    fst (next_id_locked (cw_state w)) \<notin> set (c_policy_command (cw_state w)) \<and>
    next_id_loop (71 + n) (id_reserved (cw_state w)) (c_next_id (cw_state w)) = fst (next_id_locked (cw_state w))"
proof -
  let ?s = "cw_state w"
  have ok: "state_ok (flight_ids w) ?s" using central_run_ok [OF assms] by (simp add: world_ok_def)
  have size: "length (c_commands ?s) = COMMAND_HISTORY_SIZE" "length (c_policy_command ?s) = NUM_INTERSECTIONS"
    using history_okD(4) [OF state_okD(1) [OF ok]] state_okD(3) [OF ok] by (simp_all add: policy_size_def)
  show ?thesis using next_id_fresh [OF size] next_id_more [OF size, of n] by simp
qed

lemma next_id_terminates_witness:
  "\<exists>w. central_run ''12:00:00'' (\<lambda>_. None) [] [] = Some w \<and> fst (next_id_locked (cw_state w)) \<noteq> 0"
proof -
  obtain w where w: "central_run ''12:00:00'' (\<lambda>_. None) [] [] = Some w" by (rule plain_run)
  from next_id_terminates [OF this] w show ?thesis by blast
qed

text \<open>C12: In every state Central can reach its data is well-typed: every array has the size of its
  declaration, every index that is kept stays inside it, the ring of the log and the rings of the queues are
  in bounds, at most 8 endpoints exist, and every stored status is in range and filed under its own number.\<close>

theorem central_state_shape:
  assumes "central_run t file argv es = Some w"
  shows "shape_ok (cw_state w) \<and> sizes_ok (cw_state w) \<and> route_ok (cw_state w) \<and>
    (\<forall>p < MAX_PEERS. queue_ok (c_queue (cw_state w) ! p))"
proof -
  have ok: "state_ok (flight_ids w) (cw_state w)" using central_run_ok [OF assms] by (simp add: world_ok_def)
  note inv = history_okD [OF state_okD(1) [OF ok]]
  from inv(1,3) state_okD(2) [OF ok] queue_okI [OF state_okD(1) [OF ok]] show ?thesis by blast
qed

lemma central_state_shape_witness:
  "\<exists>w. central_run ''12:00:00'' (\<lambda>_. None) [] [Central_Stopped ''12:00:02'' 9] = Some w \<and> shape_ok (cw_state w)"
proof -
  obtain w where w: "central_run ''12:00:00'' (\<lambda>_. None) [] [Central_Stopped ''12:00:02'' 9] = Some w" by (rule plain_run)
  from central_state_shape [OF this] w show ?thesis by blast
qed

text \<open>Whatever the command line, the endpoints it configures together with the default ones fit into the
  arrays of 8, every intersection is routed to one of them, and none to the Train endpoint.\<close>

theorem endpoints_fit:
  assumes "parse_args argv initial_args = Args_Ok a"
  shows "length (ca_services (default_endpoints a)) \<le> MAX_PEERS \<and>
    length (ca_route (default_endpoints a)) = NUM_INTERSECTIONS \<and>
    (\<forall>t < NUM_INTERSECTIONS. ca_route (default_endpoints a) ! t < length (ca_services (default_endpoints a)) \<and>
       ca_route (default_endpoints a) ! t \<noteq> 1)"
  using default_endpoints_ok [OF parse_args_ok [OF initial_args_ok assms]] by (simp add: routes_ok_def)

lemma endpoints_fit_witness:
  "\<exists>a. parse_args [''--local-endpoint'', ''I3=bench''] initial_args = Args_Ok a \<and>
     length (ca_services (default_endpoints a)) \<le> MAX_PEERS"
proof -
  have "(case parse_args [''--local-endpoint'', ''I3=bench''] initial_args of Args_Ok a \<Rightarrow> True | _ \<Rightarrow> False)"
    by code_simp
  then obtain a where a: "parse_args [''--local-endpoint'', ''I3=bench''] initial_args = Args_Ok a"
    by (cases "parse_args [''--local-endpoint'', ''I3=bench''] initial_args") simp_all
  from endpoints_fit [OF this] a show ?thesis by blast
qed

end
