(* ===== verification/Central_Requests.thy ===== *)
theory Central_Requests
  imports Central_Safety
begin

text \<open>
  What becomes of an operator's command: it is queued for every addressed intersection or for none, exactly as
  it was typed, and until Local has accepted it the daily schedule leaves those intersections alone.
\<close>

section \<open>Withdrawing automatic commands\<close>

text \<open>A record after its command has been withdrawn.\<close>

definition withdrawn_record :: "u64 \<Rightarrow> command_record \<Rightarrow> command_record" where
  "withdrawn_record now r =
     r\<lparr>hr_state := REQUEST_CANCELED, hr_finished_at := now, hr_detail := ''superseded by operator; not sent''\<rparr>"

lemma cancel_superseded_records:
  assumes "find_command_locked s (qc_id w) = Some k"
  shows "c_commands (cancel_superseded t now w s) = (c_commands s)[k := withdrawn_record now (c_commands s ! k)]"
  using assms by (simp add: cancel_superseded_def finish_commands withdrawn_record_def)

lemma cancel_fold_records:
  assumes "length (c_commands s) = COMMAND_HISTORY_SIZE" "ids_distinct (c_commands s)"
    "\<forall>w \<in> set ws. find_command_locked s (qc_id w) \<noteq> None" "slot < COMMAND_HISTORY_SIZE"
  shows "c_commands (fold (cancel_superseded t now) ws s) ! slot =
     (if hr_id (c_commands s ! slot) \<in> qc_id ` set ws then withdrawn_record now (c_commands s ! slot) else c_commands s ! slot)"
  using assms
proof (induction ws arbitrary: s)
  case (Cons w ws)
  from Cons.prems(3) obtain k where k: "find_command_locked s (qc_id w) = Some k" by auto
  let ?s = "cancel_superseded t now w s"
  have id: "k < COMMAND_HISTORY_SIZE" "hr_id (c_commands s ! k) = qc_id w" "qc_id w \<noteq> 0"
    using find_command_Some [OF k] by auto
  have st: "settled {qc_id w} s ?s"
    using settled_finish [OF k Cons.prems(1,2)] by (simp add: cancel_superseded_def k waiting_def)
  have rest: "c_commands (fold (cancel_superseded t now) ws ?s) ! slot =
     (if hr_id (c_commands ?s ! slot) \<in> qc_id ` set ws then withdrawn_record now (c_commands ?s ! slot) else c_commands ?s ! slot)"
    by (rule Cons.IH)
       (use Cons.prems settled_frame(5) [OF st] settled_distinct [OF st] settled_find [OF st] in auto)
  have same: "hr_id (c_commands s ! slot) = qc_id w \<longleftrightarrow> slot = k"
    using find_command_exact [OF Cons.prems(2,1,4), of "qc_id w"] k id by auto
  show ?case
    using rest same id(1) Cons.prems(1,4)
    by (simp add: cancel_superseded_records [OF k] nth_list_update withdrawn_record_def)
qed simp

lemma superseded_fold: "superseded target w (fold (cancel_superseded t now) ws s) = superseded target w s"
  by (induction ws arbitrary: s) (simp_all add: superseded_stable)

lemma superseded_queue: "superseded target w (s\<lparr>c_queue := q\<rparr>) = superseded target w s"
  by (simp add: superseded_def find_command_locked_def split: option.split)

lemma cancel_in_exact:
  fixes t :: string and now :: u64 and target :: nat
  assumes ok: "history_ok fl s" and p: "p < MAX_PEERS"
  defines "s' \<equiv> cancel_in t now target p s"
  shows "p' < MAX_PEERS \<Longrightarrow> ring_list (c_queue s' ! p') =
      (if p' = p then filter (\<lambda>w. \<not> superseded target w s) (ring_list (c_queue s ! p)) else ring_list (c_queue s ! p'))"
    "slot < COMMAND_HISTORY_SIZE \<Longrightarrow> c_commands s' ! slot =
      (if \<exists>w \<in> set (ring_list (c_queue s ! p)). superseded target w s \<and> qc_id w = hr_id (c_commands s ! slot)
       then withdrawn_record now (c_commands s ! slot) else c_commands s ! slot)"
    "superseded target w s' = superseded target w s"
proof -
  note inv = history_okD [OF ok]
  let ?q = "c_queue s ! p"
  let ?ws = "filter (\<lambda>w. superseded target w s) (ring_list ?q)"
  have q: "ring_ok ?q" using queue_okI [OF ok p] by (simp add: queue_ok_def)
  obtain r where r: "ring_filter (superseded target) (cancel_superseded t now) ?q s =
      (r, fold (cancel_superseded t now) ?ws s)"
      "ring_list r = filter (\<lambda>w. \<not> superseded target w s) (ring_list ?q)"
    using ring_filter_list [where drop_it = "superseded target" and act = "cancel_superseded t now" and s = s,
        OF q superseded_stable] by auto
  have found: "\<forall>w \<in> set ?ws. find_command_locked s (qc_id w) \<noteq> None" by (auto simp: superseded_def split: option.splits)
  have st: "settled (qc_id ` set ?ws) s (fold (cancel_superseded t now) ?ws s)"
    by (rule cancel_superseded_fold [OF inv(4,2) found])
  have eq: "s' = (fold (cancel_superseded t now) ?ws s)\<lparr>c_queue := (c_queue s)[p := r]\<rparr>"
    using settled_frame(1) [OF st] by (simp add: s'_def cancel_in_def r(1))
  show "ring_list (c_queue s' ! p') =
      (if p' = p then filter (\<lambda>w. \<not> superseded target w s) (ring_list ?q) else ring_list (c_queue s ! p'))"
    if "p' < MAX_PEERS" using that inv(5) r(2) by (simp add: eq nth_list_update)
  show "c_commands s' ! slot =
      (if \<exists>w \<in> set (ring_list (c_queue s ! p)). superseded target w s \<and> qc_id w = hr_id (c_commands s ! slot)
       then withdrawn_record now (c_commands s ! slot) else c_commands s ! slot)" if "slot < COMMAND_HISTORY_SIZE"
  proof -
    have "hr_id (c_commands s ! slot) \<in> qc_id ` set ?ws \<longleftrightarrow>
        (\<exists>w \<in> set (ring_list (c_queue s ! p)). superseded target w s \<and> qc_id w = hr_id (c_commands s ! slot))"
      by (auto simp: image_iff)
    then show ?thesis using cancel_fold_records [OF inv(4,2) found that, of t now] by (simp only: eq) simp
  qed
  show "superseded target w s' = superseded target w s" by (simp only: eq superseded_queue superseded_fold)
qed

lemma withdrawn_record_sel [simp]:
  "hr_id (withdrawn_record now r) = hr_id r" "withdrawn_record now (withdrawn_record now r) = withdrawn_record now r"
  by (simp_all add: withdrawn_record_def)

lemma cancel_fold_exact:
  fixes t :: string and now :: u64 and target :: nat
  assumes "history_ok fl s" "set ps \<subseteq> {..<MAX_PEERS}" "distinct ps"
  defines "s' \<equiv> fold (cancel_in t now target) ps s"
  shows "p < MAX_PEERS \<Longrightarrow> ring_list (c_queue s' ! p) =
      (if p \<in> set ps then filter (\<lambda>w. \<not> superseded target w s) (ring_list (c_queue s ! p)) else ring_list (c_queue s ! p))"
    "slot < COMMAND_HISTORY_SIZE \<Longrightarrow> c_commands s' ! slot =
      (if \<exists>p \<in> set ps. \<exists>w \<in> set (ring_list (c_queue s ! p)). superseded target w s \<and> qc_id w = hr_id (c_commands s ! slot)
       then withdrawn_record now (c_commands s ! slot) else c_commands s ! slot)"
proof -
  have "(\<forall>p < MAX_PEERS. ring_list (c_queue (fold (cancel_in t now target) ps s) ! p) =
      (if p \<in> set ps then filter (\<lambda>w. \<not> superseded target w s) (ring_list (c_queue s ! p)) else ring_list (c_queue s ! p))) \<and>
    (\<forall>slot < COMMAND_HISTORY_SIZE. c_commands (fold (cancel_in t now target) ps s) ! slot =
      (if \<exists>p \<in> set ps. \<exists>w \<in> set (ring_list (c_queue s ! p)). superseded target w s \<and> qc_id w = hr_id (c_commands s ! slot)
       then withdrawn_record now (c_commands s ! slot) else c_commands s ! slot))"
    using assms(1-3)
  proof (induction ps arbitrary: s)
    case (Cons q ps)
    have q: "q < MAX_PEERS" using Cons.prems(2) by simp
    let ?s = "cancel_in t now target q s"
    note one = cancel_in_exact [OF Cons.prems(1) q, where t = t and now = now and target = target]
    have IH: "\<forall>p < MAX_PEERS. ring_list (c_queue (fold (cancel_in t now target) ps ?s) ! p) =
        (if p \<in> set ps then filter (\<lambda>w. \<not> superseded target w ?s) (ring_list (c_queue ?s ! p)) else ring_list (c_queue ?s ! p))"
      "\<forall>slot < COMMAND_HISTORY_SIZE. c_commands (fold (cancel_in t now target) ps ?s) ! slot =
        (if \<exists>p \<in> set ps. \<exists>w \<in> set (ring_list (c_queue ?s ! p)). superseded target w ?s \<and> qc_id w = hr_id (c_commands ?s ! slot)
         then withdrawn_record now (c_commands ?s ! slot) else c_commands ?s ! slot)"
      using Cons.IH [OF cancel_in_history(1) [OF Cons.prems(1) q]] Cons.prems(2,3) by simp_all
    have queues: "\<forall>p \<in> set ps. ring_list (c_queue ?s ! p) = ring_list (c_queue s ! p)"
      using one(1) Cons.prems(2,3) by auto
    show ?case
    proof (intro conjI allI impI)
      fix p assume p: "p < MAX_PEERS"
      have "ring_list (c_queue (fold (cancel_in t now target) ps ?s) ! p) =
          (if p \<in> set (q # ps) then filter (\<lambda>w. \<not> superseded target w s) (ring_list (c_queue s ! p)) else ring_list (c_queue s ! p))"
        using IH(1) p one(1) [OF p] one(3) Cons.prems(3) by (cases "p = q") simp_all
      then show "ring_list (c_queue (fold (cancel_in t now target) (q # ps) s) ! p) =
          (if p \<in> set (q # ps) then filter (\<lambda>w. \<not> superseded target w s) (ring_list (c_queue s ! p)) else ring_list (c_queue s ! p))"
        by simp
    next
      fix slot assume slot: "slot < COMMAND_HISTORY_SIZE"
      have id: "hr_id (c_commands ?s ! slot) = hr_id (c_commands s ! slot)" using one(2) [OF slot] by simp
      have "c_commands (fold (cancel_in t now target) (q # ps) s) ! slot =
         (if \<exists>p \<in> set ps. \<exists>w \<in> set (ring_list (c_queue s ! p)). superseded target w s \<and> qc_id w = hr_id (c_commands s ! slot)
          then withdrawn_record now (c_commands ?s ! slot) else c_commands ?s ! slot)"
        using IH(2) [rule_format, OF slot] unfolding id one(3) by (simp only: fold.simps o_apply queues cong: bex_cong)
      then show "c_commands (fold (cancel_in t now target) (q # ps) s) ! slot =
         (if \<exists>p \<in> set (q # ps). \<exists>w \<in> set (ring_list (c_queue s ! p)). superseded target w s \<and> qc_id w = hr_id (c_commands s ! slot)
          then withdrawn_record now (c_commands s ! slot) else c_commands s ! slot)"
        unfolding one(2) [OF slot] list.set(2) bex_simps(5)
        by (cases "\<exists>w \<in> set (ring_list (c_queue s ! q)). superseded target w s \<and> qc_id w = hr_id (c_commands s ! slot)")
          (simp_all only: if_True if_False simp_thms withdrawn_record_sel if_cancel)
    qed
  qed simp
  then show "p < MAX_PEERS \<Longrightarrow> ring_list (c_queue s' ! p) =
      (if p \<in> set ps then filter (\<lambda>w. \<not> superseded target w s) (ring_list (c_queue s ! p)) else ring_list (c_queue s ! p))"
    "slot < COMMAND_HISTORY_SIZE \<Longrightarrow> c_commands s' ! slot =
      (if \<exists>p \<in> set ps. \<exists>w \<in> set (ring_list (c_queue s ! p)). superseded target w s \<and> qc_id w = hr_id (c_commands s ! slot)
       then withdrawn_record now (c_commands s ! slot) else c_commands s ! slot)"
    unfolding s'_def by blast+
qed

text \<open>Peers beyond the last one have empty queues.\<close>

lemma spare_queue:
  assumes ok: "history_ok fl s" and p: "p < MAX_PEERS" "c_peer_count s \<le> p"
  shows "ring_list (c_queue s ! p) = []"
proof (rule ccontr)
  assume "ring_list (c_queue s ! p) \<noteq> []"
  then obtain w where w: "w \<in> set (ring_list (c_queue s ! p))" using hd_in_set by blast
  note inv = history_okD [OF ok]
  from w inv(7) [OF p(1)] have "qc_id w \<in> ids_in REQUEST_QUEUED (c_commands s) p"
    by (auto simp: queue_agrees_def queued_ids_def)
  then obtain r where r: "r \<in> set (c_commands s)" "hr_id r = qc_id w" by (auto simp: ids_in_def)
  with inv(8) [OF p(1)] w have "good_work (c_local_route s) p r w" by (simp add: works_ok_def)
  with inv(3) p(2) show False by (auto simp: good_work_def route_ok_def)
qed

text \<open>An automatic command for one of the addressed intersections, by its record in the history.\<close>

definition automatic_for :: "nat \<Rightarrow> central_state \<Rightarrow> queued_command \<Rightarrow> bool" where
  "automatic_for target s w \<longleftrightarrow> (\<exists>slot < COMMAND_HISTORY_SIZE. hr_id (c_commands s ! slot) = qc_id w \<and> qc_id w \<noteq> 0 \<and>
     hr_automatic (c_commands s ! slot) \<and> (target = 255 \<or> hr_target (c_commands s ! slot) = target))"

lemma superseded_automatic:
  assumes "history_ok fl s"
  shows "superseded target w s \<longleftrightarrow> automatic_for target s w"
proof
  assume "superseded target w s"
  then obtain k where "find_command_locked s (qc_id w) = Some k" "hr_automatic (c_commands s ! k)"
    "target = 255 \<or> hr_target (c_commands s ! k) = target" by (auto simp: superseded_def split: option.splits)
  with find_command_Some [OF this(1)] show "automatic_for target s w" by (auto simp: automatic_for_def)
next
  assume "automatic_for target s w"
  then obtain slot where k: "slot < COMMAND_HISTORY_SIZE" "hr_id (c_commands s ! slot) = qc_id w" "qc_id w \<noteq> 0"
    "hr_automatic (c_commands s ! slot)" "target = 255 \<or> hr_target (c_commands s ! slot) = target"
    by (auto simp: automatic_for_def)
  have "find_command_locked s (qc_id w) = Some slot"
    by (rule find_command_exact [OF history_okD(2,4) [OF assms] k(1-3)])
  with k show "superseded target w s" by (simp add: superseded_def)
qed

text \<open>What is left of a queue, and of the history, when the automatic commands for a target are withdrawn.\<close>

definition kept_queue :: "nat \<Rightarrow> central_state \<Rightarrow> nat \<Rightarrow> queued_command list" where
  "kept_queue target s p = filter (\<lambda>w. \<not> automatic_for target s w) (ring_list (c_queue s ! p))"

definition withdrawn_only :: "nat \<Rightarrow> u64 \<Rightarrow> central_state \<Rightarrow> central_state \<Rightarrow> bool" where
  "withdrawn_only target now s s' \<longleftrightarrow>
     (\<forall>p < MAX_PEERS. ring_list (c_queue s' ! p) = kept_queue target s p) \<and>
     (\<forall>slot < COMMAND_HISTORY_SIZE. c_commands s' ! slot =
        (if \<exists>p < MAX_PEERS. \<exists>w \<in> set (ring_list (c_queue s ! p)). automatic_for target s w \<and> qc_id w = hr_id (c_commands s ! slot)
         then (c_commands s ! slot)\<lparr>hr_state := REQUEST_CANCELED, hr_finished_at := now,
                hr_detail := ''superseded by operator; not sent''\<rparr>
         else c_commands s ! slot))"

lemma cancel_automatic_exact:
  assumes ok: "history_ok fl s"
  shows "withdrawn_only target now s (cancel_automatic t now target s)"
proof -
  have n: "c_peer_count s \<le> MAX_PEERS" using history_okD(3) [OF ok] by (simp add: route_ok_def)
  have ps: "set [0..<c_peer_count s] \<subseteq> {..<MAX_PEERS}" using n by auto
  note ex = cancel_fold_exact [OF ok ps distinct_upt, where t = t and now = now and target = target, folded cancel_automatic_eq]
  have "ring_list (c_queue (cancel_automatic t now target s) ! p) = kept_queue target s p" if p: "p < MAX_PEERS" for p
    using ex(1) [OF p] spare_queue [OF ok p] by (simp add: kept_queue_def superseded_automatic [OF ok])
  moreover have "(\<exists>p \<in> set [0..<c_peer_count s]. \<exists>w \<in> set (ring_list (c_queue s ! p)). superseded target w s \<and> Q w) \<longleftrightarrow>
      (\<exists>p < MAX_PEERS. \<exists>w \<in> set (ring_list (c_queue s ! p)). automatic_for target s w \<and> Q w)" for Q
    using spare_queue [OF ok] n unfolding superseded_automatic [OF ok]
    by (metis atLeastLessThan_iff atLeast_upt lessThan_iff less_le_trans empty_iff list.set(1) not_le)
  ultimately show ?thesis
    using ex(2) unfolding withdrawn_only_def withdrawn_record_def [symmetric] by simp
qed

section \<open>The console line\<close>

lemma target_range_explicit: "target_range target = (if target = 255 then [0..<6] else [target])"
  by (simp add: target_range_def)

lemma view_words:
  assumes "view_of line \<noteq> None \<or> line = ''quit'' \<or> line = ''shutdown''"
  shows "words [] line = [line]"
proof -
  have "line \<in> set [''map'', ''status'', ''commands'', ''faults'', ''events'', ''watch'', ''help'', ''version'', ''schedule'', ''quit'', ''shutdown'']"
    using assms by (auto simp: view_of_def dest!: map_of_SomeD split: if_splits)
  moreover have "\<forall>l \<in> set [''map'', ''status'', ''commands'', ''faults'', ''events'', ''watch'', ''help'', ''version'', ''schedule'', ''quit'', ''shutdown'']. words [] l = [l]"
    by (simp add: is_space_def)
  ultimately show ?thesis by blast
qed

lemma means_not_view: "command_means [v] q t \<Longrightarrow> v \<in> {''mode-fixed'', ''mode-sensor''}"
  by (erule command_means.cases) simp_all

lemma has_prefix_append: "has_prefix p text \<Longrightarrow> \<exists>rest. text = p @ rest"
  unfolding has_prefix_def by (metis append_take_drop_id)

lemma execute_parsed:
  assumes "central_parse_command (trim_command text) = Some (m, target)"
  shows "execute_command t now later text s =
     (fst (operator_message t now later m target s), Console_None, snd (operator_message t now later m target s))"
proof -
  let ?line = "trim_command text"
  obtain q where q: "command_means (words [] ?line) q target" using assms parse_command_exact by blast
  have view: "view_of ?line = None" "?line \<noteq> ''quit''" "?line \<noteq> ''shutdown''"
  proof -
    have "\<not> (view_of ?line \<noteq> None \<or> ?line = ''quit'' \<or> ?line = ''shutdown'')"
    proof
      assume *: "view_of ?line \<noteq> None \<or> ?line = ''quit'' \<or> ?line = ''shutdown''"
      from view_words [OF this] q have "command_means [?line] q target" by simp
      from means_not_view [OF this] * show False by (auto simp: view_of_def)
    qed
    then show "view_of ?line = None" "?line \<noteq> ''quit''" "?line \<noteq> ''shutdown''" by auto
  qed
  have prefix: "\<not> has_prefix p ?line" if "words [] p = [v]" "\<forall>r. words [] (p @ r) = v # words [] r"
    "v \<notin> {''mode-fixed'', ''mode-sensor'', ''mode-temp'', ''mode-revert'', ''coordinate'', ''sim-start'', ''sim-stop'', ''sim-time''}" for p v
    using that q means_verb [of v _ q target] by (metis has_prefix_append)
  have "\<not> has_prefix ''schedule-resume '' ?line" "\<not> has_prefix ''train-cmd '' ?line" "\<not> has_prefix ''coordinate-at '' ?line"
    by (rule prefix [of _ "''schedule-resume''"] prefix [of _ "''train-cmd''"] prefix [of _ "''coordinate-at''"]; simp add: is_space_def)+
  moreover have "?line \<noteq> []" using q means_length [OF q] by auto
  ultimately show ?thesis
    using assms view by (simp add: execute_command_def Let_def split_beta)
qed

section \<open>Queueing a typed command\<close>

lemma request_to_local: "hdr_dst (header (request_message i n q)) = controller_code CONTROLLER_LOCAL"
  by (simp add: request_header initialize_header)

lemma target_range_targets: "target_ok target \<Longrightarrow> i \<in> set (target_range target) \<Longrightarrow> target_ok i"
  using target_range_ok by (fastforce simp: target_ok_def)

lemma work_for_request:
  assumes "request_ok q" "target_ok j" "target_ok i" "work_for False i due (request_message j 0 q) w"
  shows "qc_message w = request_message i (qc_id w) q"
  using assms by (simp add: work_for_def set_id_request set_target_request)

text \<open>Mode and coordination commands withdraw the automatic ones, simulation commands do not.\<close>

primrec withdraws :: "operator_request \<Rightarrow> bool" where
  "withdraws (Mode_Request _ _ _) = True"
| "withdraws (Coordination_Request _ _) = True"
| "withdraws (Simulation_Request _ _) = False"

text \<open>One command for each intersection: the request with its number under a nonzero identifier, due now.\<close>

definition queued_for :: "operator_request \<Rightarrow> u64 \<Rightarrow> nat list \<Rightarrow> queued_command list \<Rightarrow> bool" where
  "queued_for q now targets ws \<longleftrightarrow>
     list_all2 (\<lambda>i w. qc_message w = request_message i (qc_id w) q \<and> qc_id w \<noteq> 0 \<and> qc_not_before w = now) targets ws"

definition sent_through :: "nat list \<Rightarrow> nat list \<Rightarrow> nat \<Rightarrow> queued_command list \<Rightarrow> queued_command list" where
  "sent_through route targets p ws = map snd (filter (\<lambda>(i, w). route ! i = p) (zip targets ws))"

lemma means_target: "command_means ws q t \<Longrightarrow> target_ok t"
  by (erule command_means.cases) (auto simp: names_target_def target_ok_def)

lemma means_request: "command_means ws q t \<Longrightarrow> request_ok q"
proof (erule command_means.cases, goal_cases)
  case (5 w t d n)
  then have "(word_of_nat n :: u16) \<noteq> 0" by (auto simp: word_of_nat_eq_0_iff dest: dvd_imp_le)
  with 5 show ?case by simp
next
  case (6 w t d n)
  then have "(word_of_nat n :: u16) \<noteq> 0" by (auto simp: word_of_nat_eq_0_iff dest: dvd_imp_le)
  with 6 show ?case by simp
next
  case (8 w t d n)
  then have "unat (word_of_nat n :: u16) = n" by (simp add: unat_of_nat)
  with 8 show ?case by simp
next
  case (9 w t d n)
  then have "unat (word_of_nat n :: u16) = n" by (simp add: unat_of_nat)
  with 9 show ?case by simp
next
  case (12 w t c n)
  then show ?case by (auto simp: names_minute_def)
qed simp_all

lemma typed_type: "hdr_type (header (typed_message q t)) = msg_code MSG_TEST \<longleftrightarrow> \<not> withdraws q"
  by (cases q) (simp_all add: typed_message_def request_header initialize_header)

lemma typed_prototype: "command_means ws q t \<Longrightarrow> good_prototype (typed_message q t)"
  unfolding typed_message_def
  by (rule request_prototype) (auto dest: means_request means_target simp: target_ok_0 split: operator_request.split)

text \<open>The outcome of \<open>enqueue_command\<close> for a request of the operator.\<close>

lemma enqueue_request:
  assumes ok: "history_ok fl s" "policy_size s" and q: "request_ok q" "target_ok j" "target_ok target"
  obtains (refused) s' where "enqueue_command t now (request_message j 0 q) target 0 auto s = (- 1, s')"
      "c_queue s' = c_queue s" "c_commands s' = c_commands s" "c_policy_command s' = c_policy_command s" "c_policy s' = c_policy s"
  | (queued) s' ws where "enqueue_command t now (request_message j 0 q) target 0 auto s = (0, s')"
      "queued_for q now (target_range target) ws"
      "\<forall>p < MAX_PEERS. ring_list (c_queue s' ! p) =
         ring_list (c_queue s ! p) @ sent_through (c_local_route s) (target_range target) p ws"
      "c_running s" "\<forall>i \<in> set (target_range target). local_ready_locked s i now"
proof -
  let ?m = "request_message j 0 q"
  have train: "(hdr_dst (header ?m) = controller_code CONTROLLER_TRAIN) = False"
    by (simp add: request_to_local)
  have good: "good_prototype ?m" by (rule request_prototype) (use q in simp_all)
  show thesis
  proof (rule enqueue_command_cases [OF ok good q(3), of t now 0 auto])
    fix s' assume r: "enqueue_command t now ?m target 0 auto s = (- 1, s')" "s' = s \<or> (\<exists>b. s' = event_locked t b s)"
    show thesis by (rule that(1) [OF r(1)]) (use r(2) in auto)
  next
    fix s' ws
    assume r: "enqueue_command t now ?m target 0 auto s = (0, s')"
      "list_all2 (\<lambda>i. work_for (hdr_dst (header ?m) = controller_code CONTROLLER_TRAIN) i
         (now + word_of_nat 0 * CENTRAL_NSEC) ?m)
         (enqueue_targets (hdr_dst (header ?m) = controller_code CONTROLLER_TRAIN) target) ws"
      "\<forall>p < MAX_PEERS. ring_list (c_queue s' ! p) = ring_list (c_queue s ! p) @
         map snd (filter (\<lambda>(i, w). command_peer s (hdr_dst (header ?m) = controller_code CONTROLLER_TRAIN) i = p)
           (zip (enqueue_targets (hdr_dst (header ?m) = controller_code CONTROLLER_TRAIN) target) ws))"
      "c_running s" "if hdr_dst (header ?m) = controller_code CONTROLLER_TRAIN then train_ready_locked s now
         else \<forall>i \<in> set (target_range target). local_ready_locked s i now"
    note r' = r(2,3,5) [unfolded train enqueue_targets_def if_False command_peer_def]
    have "queued_for q now (target_range target) ws"
      unfolding queued_for_def using r'(1) by (rule list.rel_mono_strong)
        (use q target_range_targets [OF q(3)] in \<open>auto simp: work_for_request, auto simp: work_for_def\<close>)
    from that(2) [OF r(1) this _ r(4) r'(3)] r'(2) show thesis by (simp add: sent_through_def)
  qed
qed

lemma withdrawn_frame:
  "c_queue s'' = c_queue s' \<Longrightarrow> c_commands s'' = c_commands s' \<Longrightarrow> withdrawn_only target now s s' \<Longrightarrow> withdrawn_only target now s s''"
  by (simp add: withdrawn_only_def)

lemma quiet_ready: "quiet s s' \<Longrightarrow> c_local_route s' = c_local_route s \<Longrightarrow> local_ready_locked s' i now = local_ready_locked s i now"
  by (simp add: quiet_def local_ready_locked_def)

lemma ring_filter_frame:
  assumes "\<And>x s. f (act x s) = f s"
  shows "f (snd (ring_filter drop_it act r s)) = f s"
proof -
  have "f (snd (snd (ring_compact drop_it act is k r s))) = f s" for "is" k
    by (induction "is" arbitrary: k r s) (simp_all add: Let_def assms)
  then show ?thesis by (simp add: ring_filter_def split_beta)
qed

lemma cancel_superseded_frame:
  "c_local_route (cancel_superseded t now w s) = c_local_route s"
  "c_policy_command (cancel_superseded t now w s) = c_policy_command s"
  by (simp_all add: cancel_superseded_def finish_command_locked_def Let_def split: option.split)

lemma cancel_automatic_frame:
  "c_local_route (cancel_automatic t now target s) = c_local_route s"
  "c_policy_command (cancel_automatic t now target s) = c_policy_command s"
proof -
  have *: "c_local_route (cancel_in t now target p s) = c_local_route s"
    "c_policy_command (cancel_in t now target p s) = c_policy_command s" for p s
    using ring_filter_frame [where f = c_local_route and act = "cancel_superseded t now" and drop_it = "superseded target" and r = "c_queue s ! p" and s = s]
      ring_filter_frame [where f = c_policy_command and act = "cancel_superseded t now" and drop_it = "superseded target" and r = "c_queue s ! p" and s = s]
    by (simp_all add: cancel_in_def split_beta Let_def cancel_superseded_frame)
  have "c_local_route (fold (cancel_in t now target) ps s) = c_local_route s \<and>
      c_policy_command (fold (cancel_in t now target) ps s) = c_policy_command s" for ps
    by (induction ps arbitrary: s) (simp_all add: *)
  then show "c_local_route (cancel_automatic t now target s) = c_local_route s"
    "c_policy_command (cancel_automatic t now target s) = c_policy_command s"
    by (simp_all add: cancel_automatic_eq)
qed

text \<open>A line of the command language, carried out by the console.\<close>

definition line_effect :: "operator_request \<Rightarrow> nat \<Rightarrow> u64 \<Rightarrow> int \<Rightarrow> central_state \<Rightarrow> central_state \<Rightarrow> bool" where
  "line_effect q target now result s s' \<longleftrightarrow>
     (let targets = (if target = 255 then [0..<6] else [target]);
          left = (\<lambda>p. if withdraws q then kept_queue target s p else ring_list (c_queue s ! p))
      in if result = 0
         then c_running s \<and> (\<forall>i \<in> set targets. local_ready_locked s i now) \<and>
              (\<exists>ws. queued_for q now targets ws \<and>
                (\<forall>p < MAX_PEERS. ring_list (c_queue s' ! p) = left p @ sent_through (c_local_route s) targets p ws))
         else result = - 1 \<and> c_policy s' = c_policy s \<and> c_policy_command s' = c_policy_command s \<and>
              (if withdraws q then withdrawn_only target now s s'
               else c_queue s' = c_queue s \<and> c_commands s' = c_commands s))"

lemma operator_message_effect:
  assumes ok: "state_ok fl s" and q: "command_means ws q target"
  shows "line_effect q target now (fst (operator_message t now later (typed_message q target) target s)) s
     (snd (operator_message t now later (typed_message q target) target s))"
proof -
  let ?m = "typed_message q target"
  define s1 where "s1 = (if withdraws q then cancel_automatic t now target s else s)"
  define i where "i = (case q of Simulation_Request _ _ \<Rightarrow> target | _ \<Rightarrow> 0)"
  have m: "?m = request_message i 0 q" by (simp add: typed_message_def i_def)
  have i: "target_ok i" using means_target [OF q] by (auto simp: i_def target_ok_0 split: operator_request.split)
  have s1: "state_ok fl s1" using ok cancel_automatic_keeps [OF ok] by (simp add: s1_def)
  have left: "ring_list (c_queue s1 ! p) = (if withdraws q then kept_queue target s p else ring_list (c_queue s ! p))" if "p < MAX_PEERS" for p
    using cancel_automatic_exact [OF state_okD(1) [OF ok], where t = t and now = now and target = target] that
    by (simp add: s1_def withdrawn_only_def)
  have route: "c_local_route s1 = c_local_route s" "c_policy_command s1 = c_policy_command s"
    by (simp_all add: s1_def cancel_automatic_frame)
  have quiet: "quiet s s1" by (simp add: s1_def quiets)
  note frame = quiet [unfolded quiet_def] quiet_ready [OF quiet route(1)]
  show ?thesis
  proof (rule enqueue_request [OF state_okD(1,3) [OF s1] means_request [OF q] i means_target [OF q], of t now False])
    fix s' assume r: "enqueue_command t now (request_message i 0 q) target 0 False s1 = (- 1, s')"
      "c_queue s' = c_queue s1" "c_commands s' = c_commands s1" "c_policy_command s' = c_policy_command s1" "c_policy s' = c_policy s1"
    have res: "operator_message t now later ?m target s = (- 1, s')"
      using r(1) typed_type [of q target] by (simp add: operator_message_def m [symmetric] s1_def Let_def)
    have "if withdraws q then withdrawn_only target now s s' else c_queue s' = c_queue s \<and> c_commands s' = c_commands s"
      using withdrawn_frame [OF r(2,3)] cancel_automatic_exact [OF state_okD(1) [OF ok], where t = t and now = now and target = target] r(2,3)
      by (simp add: s1_def split: if_splits)
    then show ?thesis unfolding res line_effect_def fst_conv snd_conv using r(4,5) route frame by (simp add: Let_def)
  next
    fix s' ws
    assume r: "enqueue_command t now (request_message i 0 q) target 0 False s1 = (0, s')"
      "queued_for q now (target_range target) ws"
      "\<forall>p < MAX_PEERS. ring_list (c_queue s' ! p) =
         ring_list (c_queue s1 ! p) @ sent_through (c_local_route s1) (target_range target) p ws"
      "c_running s1" "\<forall>i \<in> set (target_range target). local_ready_locked s1 i now"
    define s2 where "s2 = snd (operator_message t now later ?m target s)"
    have "fst (operator_message t now later ?m target s) = 0" "c_queue s2 = c_queue s'"
      using r(1) typed_type [of q target]
      by (simp_all add: s2_def operator_message_def m [symmetric] s1_def Let_def split_beta reset_scheduled_def)
    then have res: "operator_message t now later ?m target s = (0, s2)" "c_queue s2 = c_queue s'"
      by (simp_all add: s2_def prod_eq_iff)
    have "c_running s" "\<forall>i \<in> set (target_range target). local_ready_locked s i now" using r(4,5) frame by simp_all
    moreover have "\<forall>p < MAX_PEERS. ring_list (c_queue s2 ! p) =
        (if withdraws q then kept_queue target s p else ring_list (c_queue s ! p)) @
        sent_through (c_local_route s) (target_range target) p ws"
      using r(3) left by (simp add: res(2) route(1))
    ultimately show ?thesis
      unfolding res(1) line_effect_def fst_conv snd_conv target_range_explicit [symmetric] Let_def using r(2) by auto
  qed
qed

section \<open>The schedule waits\<close>

text \<open>The policy remembers a command for intersection \<open>i\<close> that is still queued.\<close>

definition awaited :: "nat \<Rightarrow> central_state \<Rightarrow> bool" where
  "awaited i s \<longleftrightarrow> (\<exists>slot < COMMAND_HISTORY_SIZE. hr_id (c_commands s ! slot) = c_policy_command s ! i \<and>
     hr_state (c_commands s ! slot) = REQUEST_QUEUED) \<and> c_policy_command s ! i \<noteq> 0"

lemma enqueue_one_awaits:
  fixes t :: string and now :: u64 and delay :: nat and train :: bool
  assumes ok: "history_ok fl s" "policy_size s" and room: "0 < available_records s" and i: "i < NUM_INTERSECTIONS"
    and mode: "hdr_type (header m) = msg_code MSG_MODE_COMMAND"
  defines "s' \<equiv> enqueue_one t now m delay False train i s"
  shows "awaited i s'" "j \<noteq> i \<Longrightarrow> awaited j s \<Longrightarrow> awaited j s'"
proof -
  note inv = history_okD [OF ok(1)]
  define slot where "slot = free_slot COMMAND_HISTORY_SIZE (c_commands s) (c_command_next s)"
  define k where "k = fst (next_id_locked s)"
  define r where "r = c_commands s' ! slot"
  note slot = free_slot_free [OF inv(6,4) room, folded slot_def]
  have k: "k \<noteq> 0" using next_id_fresh [OF inv(4) ok(2) [unfolded policy_size_def]] by (simp add: k_def)
  have cmds: "c_commands s' = (c_commands s)[slot := r]" and rk: "hr_id r = k" "hr_state r = REQUEST_QUEUED"
    using slot(1) inv(4)
    by (simp_all add: r_def s'_def enqueue_one_def Let_def split_beta next_id_sel slot_def [symmetric] k_def
        del: nth_list_update_eq add: nth_list_update)
  have pol: "c_policy_command s' = (c_policy_command s)[i := k]"
    using mode by (simp add: s'_def enqueue_one_def Let_def split_beta next_id_sel k_def)
  show "awaited i s'"
    unfolding awaited_def by (intro conjI exI [of _ slot]) (use slot(1) inv(4) i ok(2) k in
      \<open>simp_all add: cmds pol rk policy_size_def\<close>)
  assume j: "j \<noteq> i" "awaited j s"
  then obtain n where n: "n < COMMAND_HISTORY_SIZE" "hr_id (c_commands s ! n) = c_policy_command s ! j"
    "hr_state (c_commands s ! n) = REQUEST_QUEUED" "c_policy_command s ! j \<noteq> 0" by (auto simp: awaited_def)
  have "n \<noteq> slot" using n slot(2) by (auto simp: record_busy_def)
  then show "awaited j s'"
    unfolding awaited_def by (intro conjI exI [of _ n]) (use n j(1) in \<open>simp_all add: cmds pol\<close>)
qed

lemma room_next:
  assumes ok: "history_ok fl s" "policy_size s" "room_for s train (i # targets)"
    and m: "good_prototype m" "train \<longleftrightarrow> hdr_dst (header m) = controller_code CONTROLLER_TRAIN"
    and i: "i < NUM_INTERSECTIONS"
  shows "history_ok fl (enqueue_one t now m delay auto train i s)"
    "policy_size (enqueue_one t now m delay auto train i s)"
    "room_for (enqueue_one t now m delay auto train i s) train targets"
proof -
  note inv = history_okD [OF ok(1)]
  have p: "command_peer s train i < MAX_PEERS"
    using inv(3) i by (auto simp: command_peer_def route_ok_def intro: less_le_trans)
  have room: "0 < available_records s" "ring_count (c_queue s ! command_peer s train i) < COMMAND_QUEUE_SIZE"
    using ok(3) p by (auto simp: room_for_def)
  note one = enqueue_one_history [OF ok(1,2) room m i, where t = t and now = now and delay = delay and auto = auto]
  have peer: "command_peer (enqueue_one t now m delay auto train i s) train = command_peer s train"
    unfolding command_peer_def [abs_def] one(3) ..
  show "history_ok fl (enqueue_one t now m delay auto train i s)"
    "policy_size (enqueue_one t now m delay auto train i s)" by (fact one(1) one(2))+
  show "room_for (enqueue_one t now m delay auto train i s) train targets"
    using ok(3) one(5,6) unfolding room_for_def peer
    by (simp split: if_splits) fastforce
qed

lemma enqueue_fold_awaits:
  assumes "history_ok fl s" "policy_size s" "room_for s train targets"
    and m: "good_prototype m" "train \<longleftrightarrow> hdr_dst (header m) = controller_code CONTROLLER_TRAIN"
    and "\<forall>i \<in> set targets. i < NUM_INTERSECTIONS" "j \<in> set targets \<or> awaited j s"
    and mode: "hdr_type (header m) = msg_code MSG_MODE_COMMAND"
  shows "awaited j (fold (enqueue_one t now m delay False train) targets s)"
  using assms(1,2,3,6,7)
proof (induction targets arbitrary: s)
  case (Cons i targets)
  let ?s = "enqueue_one t now m delay False train i s"
  have i: "i < NUM_INTERSECTIONS" using Cons.prems(4) by simp
  note next_ok = room_next [OF Cons.prems(1-3) m i, where t = t and now = now and delay = delay and auto = False]
  have room: "0 < available_records s" using Cons.prems(3) by (simp add: room_for_def)
  note one = enqueue_one_awaits [OF Cons.prems(1,2) room i mode, where t = t and now = now and delay = delay and train = train]
  have "j \<in> set targets \<or> awaited j ?s" using one Cons.prems(5) by (cases "j = i") auto
  with Cons.IH [OF next_ok(1-3)] Cons.prems(4) show ?case by simp
qed simp

text \<open>The latest mode command of the operator for intersection \<open>i\<close> has no acceptance yet: its record is not
  ACCEPTED (it is queued, being sent, cancelled, rejected or of unknown outcome), or the record has made room for
  another one before an acceptance was noted.\<close>

definition unanswered :: "nat \<Rightarrow> central_state \<Rightarrow> bool" where
  "unanswered i s \<longleftrightarrow>
     (let k = c_policy_command s ! i; rs = filter (\<lambda>r. hr_id r = k) (c_commands s)
      in k \<noteq> 0 \<and> (if rs = [] then c_policy_ack s ! i \<noteq> k else \<exists>r \<in> set rs. hr_state r \<noteq> REQUEST_ACCEPTED))"

lemma unanswered_holds:
  assumes ok: "history_ok fl s" and un: "unanswered i s"
  shows "schedule_target t now later minute i s = s"
proof -
  let ?k = "c_policy_command s ! i"
  note inv = history_okD [OF ok]
  have "note_acknowledged i s = (True, s)"
  proof (cases "filter (\<lambda>r. hr_id r = ?k) (c_commands s) = []")
    case True
    then have "?k \<noteq> 0" "c_policy_ack s ! i \<noteq> ?k" using un by (simp_all add: unanswered_def Let_def)
    moreover have "find_command_locked s ?k = None"
    proof (rule ccontr)
      assume "find_command_locked s ?k \<noteq> None"
      then obtain slot where "find_command_locked s ?k = Some slot" by auto
      from find_command_Some [OF this] have "slot < length (c_commands s)" "hr_id (c_commands s ! slot) = ?k"
        using inv(4) by auto
      with True show False by (auto simp: filter_empty_conv)
    qed
    ultimately show ?thesis by (simp add: note_acknowledged_def Let_def)
  next
    case False
    with un obtain r where r: "r \<in> set (c_commands s)" "hr_id r = ?k" "hr_state r \<noteq> REQUEST_ACCEPTED" "?k \<noteq> 0"
      by (auto simp: unanswered_def Let_def)
    then obtain slot where slot: "slot < COMMAND_HISTORY_SIZE" "r = c_commands s ! slot"
      by (metis inv(4) in_set_conv_nth)
    have "find_command_locked s ?k = Some slot"
      by (rule find_command_exact [OF inv(2,4) slot(1)]) (use r slot in simp_all)
    then show ?thesis using r(3) slot(2) by (simp add: note_acknowledged_def Let_def)
  qed
  then show ?thesis by (simp add: schedule_target_def Let_def)
qed

lemma awaited_unanswered: "length (c_commands s) = COMMAND_HISTORY_SIZE \<Longrightarrow> awaited i s \<Longrightarrow> unanswered i s"
proof -
  assume "length (c_commands s) = COMMAND_HISTORY_SIZE" "awaited i s"
  then obtain r where "r \<in> set (c_commands s)" "hr_id r = c_policy_command s ! i" "hr_state r = REQUEST_QUEUED"
    "c_policy_command s ! i \<noteq> 0" unfolding awaited_def by (metis nth_mem)
  then show ?thesis by (auto simp: unanswered_def Let_def filter_empty_conv intro!: bexI [of _ r])
qed

lemma awaited_frame: "c_commands s' = c_commands s \<Longrightarrow> c_policy_command s' = c_policy_command s \<Longrightarrow> awaited i s' = awaited i s"
  by (simp add: awaited_def)

lemma enqueue_mode_awaited:
  assumes ok: "history_ok fl s" "policy_size s" and m: "good_prototype m" "target_ok target"
    and mode: "hdr_type (header m) = msg_code MSG_MODE_COMMAND"
    and local: "hdr_dst (header m) \<noteq> controller_code CONTROLLER_TRAIN"
    and res: "enqueue_command t now m target delay False s = (0, s')" and j: "j \<in> set (target_range target)"
  shows "awaited j s'"
proof -
  have ts: "\<forall>i \<in> set (target_range target). i < NUM_INTERSECTIONS" using target_range_ok [OF m(2)] by simp
  have "\<not> queues_full s False (target_range target)"
    and s': "s' = fold (enqueue_one t now m delay False False) (target_range target) s"
    using res local by (auto simp: enqueue_command_def Let_def enqueue_targets_def split: if_splits option.splits)
  from room_for_not_full [OF ok(1) this(1) ts] show ?thesis
    unfolding s' by (intro enqueue_fold_awaits [OF ok _ m(1) _ ts]) (use j local mode in auto)
qed

lemma operator_mode_awaited:
  assumes ok: "state_ok fl s" and m: "good_prototype m" "target_ok target"
    and mode: "hdr_type (header m) = msg_code MSG_MODE_COMMAND"
    and local: "hdr_dst (header m) \<noteq> controller_code CONTROLLER_TRAIN"
    and res: "operator_message t now later m target s = (0, s')" and j: "j \<in> set (target_range target)"
  shows "awaited j s'"
proof -
  have ty: "hdr_type (header m) \<noteq> msg_code MSG_TEST" using mode by simp
  let ?s1 = "cancel_automatic t now target s"
  have s1: "state_ok fl ?s1" by (rule cancel_automatic_keeps [OF ok])
  obtain r s2 where e: "enqueue_command t now m target 0 False ?s1 = (r, s2)" by (cases "enqueue_command t now m target 0 False ?s1")
  have "r = 0" "c_commands s' = c_commands s2" "c_policy_command s' = c_policy_command s2"
    using res ty mode by (auto simp: operator_message_def Let_def e reset_scheduled_def split: if_splits)
  moreover from enqueue_mode_awaited [OF state_okD(1) [OF s1] _ m mode local e [unfolded \<open>r = 0\<close>] j] state_okD(3) [OF s1]
  have "awaited j s2" by simp
  ultimately show ?thesis using awaited_frame by metis
qed

definition ready_events :: "central_event list" where
  "ready_events = [Endpoint_Connected ''t'' 0, Endpoint_Answered ''t'' 5 0,
     Message_Received ''t'' 7 (zero_message\<lparr>header := (header zero_message)\<lparr>hdr_type := msg_code MSG_STATUS_UPDATE\<rparr>\<rparr>) (decode_reply zero_data)]"

lemma event_fold_frame [simp]:
  "c_monitor (fold (\<lambda>i. event_locked t (b i)) is s) = c_monitor s"
  "c_local_route (fold (\<lambda>i. event_locked t (b i)) is s) = c_local_route s"
  "c_peer_count (fold (\<lambda>i. event_locked t (b i)) is s) = c_peer_count s"
  "c_queue (fold (\<lambda>i. event_locked t (b i)) is s) = c_queue s"
  "c_commands (fold (\<lambda>i. event_locked t (b i)) is s) = c_commands s"
  "c_running (fold (\<lambda>i. event_locked t (b i)) is s) = c_running s"
  "c_endpoint_connected (fold (\<lambda>i. event_locked t (b i)) is s) = c_endpoint_connected s"
  "c_endpoint_probe (fold (\<lambda>i. event_locked t (b i)) is s) = c_endpoint_probe s"
  by (induction "is" arbitrary: s) simp_all

lemma default_args: "parse_args [] initial_args = Args_Ok initial_args" "ca_schedule_path (default_endpoints initial_args) = None"
  "ca_route (default_endpoints initial_args) = [0, 2, 3, 4, 5, 6]" "length (ca_services (default_endpoints initial_args)) = 7"
  "ca_status_age (default_endpoints initial_args) = CENTRAL_STATUS_STALE_SEC"
  by (simp, code_simp+)

lemma plain_world: obtains s where "central_main_start t path [] = Some s" "central_run t path [] es = Some (fold central_step es (start_world s))"
  "c_monitor s = central_monitor_init 5" "c_local_route s = [0, 2, 3, 4, 5, 6]" "c_peer_count s = 7" "c_running s"
  "c_endpoint_connected s = replicate 8 False" "c_endpoint_probe s = replicate 8 0" "c_commands s = replicate 64 empty_record"
  "c_queue s = replicate 8 (empty_ring COMMAND_QUEUE_SIZE empty_command)"
proof -
  show thesis
    by (rule that [of "the (central_main_start t path [])"])
     (simp_all add: central_run_def central_main_start_def default_args Let_def central_start_def del: fold_simps)
qed

definition ready_monitor :: central_monitor where
  "ready_monitor = snd (central_monitor_status (decode_status zero_data) 7
     (snd (central_observe_peer (controller_code CONTROLLER_LOCAL) 5
       ((central_monitor_init 5)\<lparr>mon_peers := (mon_peers (central_monitor_init 5))
          [0 := (mon_peers (central_monitor_init 5) ! 0)\<lparr>pr_connected := True\<rparr>]\<rparr>))))"

lemma ready_monitor_can: "central_can_command ready_monitor 0 9" "central_peer_online ready_monitor (controller_code CONTROLLER_LOCAL) 9"
  by code_simp+

lemma ready_world: obtains w where "central_run t path [] ready_events = Some w" "local_ready_locked (cw_state w) 0 9"
  "c_running (cw_state w)" "c_local_route (cw_state w) = [0, 2, 3, 4, 5, 6]" "c_peer_count (cw_state w) = 7"
  "c_commands (cw_state w) = replicate 64 empty_record"
  "c_queue (cw_state w) = replicate 8 (empty_ring COMMAND_QUEUE_SIZE empty_command)"
proof -
  obtain s where s: "central_main_start t path [] = Some s" "central_run t path [] ready_events = Some (fold central_step ready_events (start_world s))"
  "c_monitor s = central_monitor_init 5" "c_local_route s = [0, 2, 3, 4, 5, 6]" "c_peer_count s = 7" "c_running s"
  "c_endpoint_connected s = replicate 8 False" "c_endpoint_probe s = replicate 8 0" "c_commands s = replicate 64 empty_record"
  "c_queue s = replicate 8 (empty_ring COMMAND_QUEUE_SIZE empty_command)"
    by (rule plain_world)
  have idx: "central_peer_index (controller_code CONTROLLER_LOCAL) = Some 0" by code_simp
  have src: "peer_source 0 = controller_code CONTROLLER_LOCAL" by code_simp
  define s1 where "s1 = note_connected ''t'' 0 s"
  define s2 where "s2 = note_answered ''t'' 5 0 s1"
  define s3 where "s3 = snd (snd (handle_message ''t'' 7 (zero_message\<lparr>header := (header zero_message)\<lparr>hdr_type := msg_code MSG_STATUS_UPDATE\<rparr>\<rparr>) (decode_reply zero_data) s2))"
  have s1: "c_monitor s1 = (central_monitor_init 5)\<lparr>mon_peers := (mon_peers (central_monitor_init 5))
          [0 := (mon_peers (central_monitor_init 5) ! 0)\<lparr>pr_connected := True\<rparr>]\<rparr>"
    "c_endpoint_connected s1 ! 0" "c_endpoint_probe s1 = replicate 8 0" "c_local_route s1 = [0, 2, 3, 4, 5, 6]" "c_peer_count s1 = 7" "c_running s1"
    "c_commands s1 = replicate 64 empty_record" "c_queue s1 = replicate 8 (empty_ring COMMAND_QUEUE_SIZE empty_command)"
    by (simp_all add: s1_def note_connected_def idx [simplified] src [simplified] Let_def s)
  have s2: "c_monitor s2 = snd (central_observe_peer (controller_code CONTROLLER_LOCAL) 5 (c_monitor s1))"
    "c_endpoint_connected s2 ! 0" "c_endpoint_probe s2 ! 0 = 5" "c_local_route s2 = [0, 2, 3, 4, 5, 6]" "c_peer_count s2 = 7" "c_running s2"
    "c_commands s2 = replicate 64 empty_record" "c_queue s2 = replicate 8 (empty_ring COMMAND_QUEUE_SIZE empty_command)"
    by (simp_all add: s2_def note_answered_def src [simplified] Let_def split_beta s1)
  have s3: "c_monitor s3 = ready_monitor"
    "c_endpoint_connected s3 ! 0" "c_endpoint_probe s3 ! 0 = 5" "c_local_route s3 = [0, 2, 3, 4, 5, 6]" "c_peer_count s3 = 7" "c_running s3"
    "c_commands s3 = replicate 64 empty_record" "c_queue s3 = replicate 8 (empty_ring COMMAND_QUEUE_SIZE empty_command)"
    by (simp_all add: s3_def handle_message_def zero_message_def Let_def split_beta s2 ready_monitor_def s1)
  have w: "fold central_step ready_events (start_world s) = start_world s3"
    unfolding ready_events_def s3_def
    by (simp add: start_world_def with_state_def peer_idle_def s(5) s1(5) s2(5) s1_def [symmetric] s2_def [symmetric])
  show thesis
    by (rule that [of "start_world s3"], simp only: s(2) w)
      (simp_all add: start_world_def s3 local_ready_locked_def ready_monitor_can)
qed

lemma ready_line: "central_parse_command ''mode-fixed I1'' = Some (mode_message (mode_code MODE_FIXED) (action_code CMD_SET_MODE) 0, 0)"
  by code_simp

lemma ready_queue:
  assumes "local_ready_locked s 0 9" "c_running s" "c_local_route s = [0, 2, 3, 4, 5, 6]" "c_peer_count s = 7"
    "c_commands s = replicate 64 empty_record" "c_queue s = replicate 8 (empty_ring COMMAND_QUEUE_SIZE empty_command)"
    "hdr_dst (header m) = controller_code CONTROLLER_LOCAL"
  shows "fst (enqueue_command t 9 m 0 d auto s) = 0"
proof -
  have "\<not> queues_full s False [0]"
    using assms(3-6) by (simp add: queues_full_def available_records_def record_busy_def empty_record_def empty_ring_def
        command_peer_def list_ex_iff less_Suc_eq_0_disj nth_replicate)
  then show ?thesis using assms(1,2,7) by (simp add: enqueue_command_def Let_def enqueue_targets_def target_range_def)
qed

lemma empty_cancel:
  assumes "c_queue s = replicate 8 (empty_ring n x)" "c_peer_count s \<le> 8"
  shows "cancel_automatic t now target s = s"
proof -
  have step: "(let (r, s1) = ring_filter (superseded target) (cancel_superseded t now) (c_queue s ! p) s
      in s1\<lparr>c_queue := (c_queue s1)[p := r]\<rparr>) = s" if "p < 8" for p
    using that assms(1) by (simp add: ring_filter_def empty_ring_def Let_def list_update_same_conv)
  have *: "fold (\<lambda>p s. let (r, s1) = ring_filter (superseded target) (cancel_superseded t now) (c_queue s ! p) s
      in s1\<lparr>c_queue := (c_queue s1)[p := r]\<rparr>) ps s = s" if "set ps \<subseteq> {..<8}" for ps
    using that by (induction ps) (simp_all add: step [unfolded Let_def])
  show ?thesis unfolding cancel_automatic_def by (rule *) (use assms(2) in auto)
qed


lemma means_parsed: "central_parse_command line = Some (m, t) \<Longrightarrow> \<exists>q. command_means (words [] line) q t \<and> m = typed_message q t"
  using parse_command_exact by blast


lemma ready_text: "trim_command ''mode-fixed I1'' = ''mode-fixed I1''"
  by code_simp




end
