(* ===== verification/Cooperation.thy ===== *)
theory Cooperation
  imports Local_Timing Local_Place Train_Safety Central_Requests
begin

text \<open>
  What one controller sends and another one receives: the frames of Central at a Local, of Train at a Local, and
  of both at Central. The two sides are modelled from their own source files; here they are put together.
\<close>

section \<open>The simulation text\<close>

text \<open>Local reads the text that Central prints.\<close>

lemma show_nat_no_leading_zero: "1 < length (show_nat n) \<Longrightarrow> hd (show_nat n) \<noteq> CHR ''0''"
proof (induction n rule: show_nat.induct)
  case (1 n)
  show ?case
  proof (cases "n < 10")
    case True
    with 1 show ?thesis by (simp add: show_nat.simps)
  next
    case False
    have e: "hd (show_nat n) = hd (show_nat (n div 10))" using False by (subst show_nat.simps) simp
    show ?thesis
    proof (cases "n div 10 < 10")
      case True
      have v: "(of_char (digit_char (n div 10)) :: nat) = 48 + n div 10" using True by (simp add: digit_char_def)
      have "digit_char (n div 10) \<noteq> CHR ''0''"
      proof
        assume "digit_char (n div 10) = CHR ''0''"
        with v have "(48 :: nat) = 48 + n div 10" by simp
        with False show False by simp
      qed
      then show ?thesis using True unfolding e by (subst show_nat.simps) simp
    next
      case F: False
      have "1 < length (show_nat (n div 10))" using F by (subst show_nat.simps) (simp add: Suc_lessI)
      with "1.IH" [OF False] show ?thesis unfolding e by simp
    qed
  qed
qed

lemma parse_sim_number_show: "n \<le> maximum \<Longrightarrow> parse_sim_number (show_nat n) maximum = Some n"
  using show_nat_no_leading_zero [of n] by (auto simp: parse_sim_number_def parse_show_nat)

lemma sim_tokens_last: "CHR '' '' \<notin> set w \<Longrightarrow> w \<noteq> [] \<Longrightarrow> n \<noteq> 5 \<Longrightarrow> sim_tokens n w = Some [w]"
  by (subst sim_tokens.simps) (auto simp: Let_def dropWhile_eq_Nil_conv takeWhile_eq_all_conv)

lemma sim_tokens_cut:
  assumes "CHR '' '' \<notin> set w" "w \<noteq> []" "n \<noteq> 5" "r \<noteq> []" "hd r \<noteq> CHR '' ''"
  shows "sim_tokens n (w @ CHR '' '' # r) = map_option ((#) w) (sim_tokens (Suc n) r)"
proof -
  have "takeWhile (\<lambda>c. c \<noteq> CHR '' '') (w @ CHR '' '' # r) = w"
    "dropWhile (\<lambda>c. c \<noteq> CHR '' '') (w @ CHR '' '' # r) = CHR '' '' # r"
    using assms(1) by (induction w) auto
  then show ?thesis using assms(2-5) by (subst sim_tokens.simps) (simp add: Let_def)
qed

lemma hd_show_nat: "hd (show_nat n) \<noteq> CHR '' ''"
  using show_nat_no_space [of n] show_nat_not_Nil [of n] by (metis list.set_sel(1))

lemmas sim_token_cuts = sim_tokens_cut [OF show_nat_no_space show_nat_not_Nil] sim_tokens_last [OF show_nat_no_space show_nat_not_Nil]

primrec sim_code :: "central_sim_action \<Rightarrow> int" where
  "sim_code CENTRAL_SIM_START = 1"
| "sim_code CENTRAL_SIM_STOP = 2"
| "sim_code CENTRAL_SIM_TIME = 3"

lemma simulation_text_tokens:
  "sim_tokens 0 (simulation_text c) =
     Some ([''SIM1'', show_nat (cs_target c), show_nat (unat (cs_command_id c))] @
       (case cs_action c of CENTRAL_SIM_TIME \<Rightarrow> [''TIME'', show_nat (cs_minute c)]
        | CENTRAL_SIM_START \<Rightarrow> [''START''] | CENTRAL_SIM_STOP \<Rightarrow> [''STOP'']))"
proof -
  have a: "sim_tokens 0 (''SIM1'' @ CHR '' '' # show_nat i @ r) = map_option ((#) ''SIM1'') (sim_tokens 1 (show_nat i @ r))" for i r
    by (subst sim_tokens_cut) (simp_all add: hd_show_nat)
  have b: "sim_tokens 1 (show_nat i @ CHR '' '' # show_nat j @ r) = map_option ((#) (show_nat i)) (sim_tokens 2 (show_nat j @ r))" for i j r
    by (subst sim_token_cuts) (simp_all add: hd_show_nat numeral_2_eq_2)
  have c: "sim_tokens 2 (show_nat i @ CHR '' '' # w) = map_option ((#) (show_nat i)) (sim_tokens 3 w)"
    if "w \<noteq> []" "hd w \<noteq> CHR '' ''" for i w
    by (subst sim_token_cuts) (use that in \<open>simp_all add: numeral_3_eq_3 numeral_2_eq_2\<close>)
  have d: "sim_tokens 3 (''TIME'' @ CHR '' '' # show_nat i) = Some [''TIME'', show_nat i]" for i
    by (subst sim_tokens_cut, simp_all add: hd_show_nat) (subst sim_tokens_last, simp_all add: show_nat_no_space)
  have e: "sim_tokens 3 ''START'' = Some [''START'']" "sim_tokens 3 ''STOP'' = Some [''STOP'']"
    by (simp_all add: sim_tokens_last)
  show ?thesis
    by (cases "cs_action c") (use a b c d e in \<open>simp_all add: simulation_text_def\<close>)
qed

lemma local_reads_simulation:
  assumes "sim_command_ok c" "cs_target c < NUM_INTERSECTIONS" "cs_command_id c \<noteq> 0"
  shows "parse_sim_command (print_data (simulation_text c)) = Some \<lparr>sim_target = cs_target c,
     sim_command_id = unat (cs_command_id c), sim_minute = cs_minute c, sim_action = sim_code (cs_action c)\<rparr>"
proof -
  have "unat (cs_command_id c) \<le> 65535" "unat (cs_command_id c) \<noteq> 0"
    using unat_u16_lt [of "cs_command_id c"] assms(3) by (simp_all add: unat_eq_zero)
  moreover have "cs_target c \<le> 5" "cs_minute c \<le> 1439" using assms by (auto simp: sim_command_ok_def)
  moreover have "cs_action c \<noteq> CENTRAL_SIM_TIME \<Longrightarrow> cs_minute c = 0" using assms(1) by (simp add: sim_command_ok_def)
  ultimately show ?thesis using simulation_data [OF assms(1)]
    by (cases "cs_action c")
      (simp_all add: parse_sim_command_def simulation_text_tokens parse_sim_number_show)
qed


section \<open>Central to Local\<close>

lemma local_cycle:
  assumes "base_inv l"
  shows "local_fixed_cycle_seconds_locked (stamp_central now m l) = 44"
  using assms by (simp add: base_inv_def local_fixed_cycle_seconds_locked_def configured_green_time_for_direction_def
      clamp_green_time_def stamp_central_def)

text \<open>What it means to carry out a command of Central, by its meaning: \<open>l\<close> is the state of Local before it, \<open>l'\<close> after it.
  No command changes a lamp or the running phase.\<close>

definition lamps_kept :: "local_state \<Rightarrow> local_state \<Rightarrow> bool" where
  "lamps_kept l l' \<longleftrightarrow> phase l' = phase l \<and> time_remaining l' = time_remaining l \<and> ns_light l' = ns_light l \<and>
     ew_light l' = ew_light l \<and> ped_ns_walk l' = ped_ns_walk l \<and> ped_ew_walk l' = ped_ew_walk l"

definition mode_carried_out :: "mode_cmd_msg \<Rightarrow> local_state \<Rightarrow> local_state \<Rightarrow> bool" where
  "mode_carried_out c l l' \<longleftrightarrow>
     (let running = 0 < temp_mode_remaining l; temporary = mc_action c = action_code CMD_TEMPORARY in
      if mc_action c = action_code CMD_REVERT
      then (let back = (if running then temp_return_mode l else traffic_mode l) in
            traffic_mode l' = (if back = MODE_FAILSAFE then MODE_FIXED else back)) \<and>
           manual_mode_override l' = (if running then temp_return_manual_override l else manual_mode_override l) \<and>
           \<not> 0 < temp_mode_remaining l'
      else mode_code (traffic_mode l') = mc_new_mode c \<and> manual_mode_override l' \<and> \<not> fault_active l' \<and>
           temp_mode_remaining l' = (if temporary then uint (mc_duration_sec c) else 0) \<and>
           temp_return_mode l' = (if temporary \<and> \<not> running then traffic_mode l else temp_return_mode l) \<and>
           temp_return_manual_override l' =
             (if temporary \<and> \<not> running then manual_mode_override l else temp_return_manual_override l))"

definition coordination_carried_out :: "coordination_command_msg \<Rightarrow> local_state \<Rightarrow> local_state \<Rightarrow> bool" where
  "coordination_carried_out c l l' \<longleftrightarrow>
     traffic_mode l' = MODE_FIXED \<and> manual_mode_override l' \<and> \<not> fault_active l' \<and> coordination_pending l' \<and>
     phase_code (coordination_phase l') = cc_phase c \<and> coordination_offset_sec l' = uint (cc_cycle_offset_sec c)"

definition simulation_carried_out :: "central_sim_command \<Rightarrow> local_state \<Rightarrow> local_state \<Rightarrow> bool" where
  "simulation_carried_out c l l' \<longleftrightarrow>
     (case cs_action c of
        CENTRAL_SIM_TIME \<Rightarrow> sim_seconds l' = int (cs_minute c) * 60 \<and> sim_running l' = sim_running l \<and>
          \<not> manual_mode_override l' \<and> \<not> manual_sensor_override l' \<and>
          traffic_mode l' = (if traffic_mode l = MODE_FAILSAFE then MODE_FAILSAFE
                             else if is_peak_time (sim_seconds l') then MODE_FIXED else MODE_SENSOR)
      | action \<Rightarrow> sim_running l' = (action = CENTRAL_SIM_START) \<and> sim_seconds l' = sim_seconds l \<and>
          traffic_mode l' = traffic_mode l \<and> manual_mode_override l' = manual_mode_override l \<and>
          manual_sensor_override l' = manual_sensor_override l)"

definition carried_out :: "test_message \<Rightarrow> local_state \<Rightarrow> local_state \<Rightarrow> bool" where
  "carried_out m l l' \<longleftrightarrow>
     lamps_kept l l' \<and> last_applied_command_id l' = central_command_id m \<and>
     (if hdr_type (header m) = msg_code MSG_MODE_COMMAND then mode_carried_out (decode_mode_cmd (data m)) l l'
      else if hdr_type (header m) = msg_code MSG_COORDINATION_COMMAND
      then coordination_carried_out (decode_coordination (data m)) l l'
      else case central_simulation_decode m of None \<Rightarrow> False | Some c \<Rightarrow> simulation_carried_out c l l')"

text \<open>A refused command leaves everything but the record of the contact.\<close>

definition only_contact :: "local_state \<Rightarrow> local_state \<Rightarrow> bool" where
  "only_contact l l' \<longleftrightarrow>
     l' = l\<lparr>local_state.last_recv_central := local_state.last_recv_central l',
       local_state.last_central_update := local_state.last_central_update l'\<rparr>"

text \<open>What Local does with a command that is addressed to it.\<close>

definition understood :: "test_message \<Rightarrow> string \<Rightarrow> local_state \<Rightarrow> bool \<Rightarrow> bool" where
  "understood m now l accepted \<longleftrightarrow>
     (case local_dispatch_message now m l of (rc, r, l') \<Rightarrow>
        rc = 0 \<and> reply_command_id r = central_command_id m \<and> reply_status r = (if accepted then 0 else - 1) \<and>
        (if accepted then carried_out m l l' else only_contact l l'))"

lemma mode_code_of: "b \<le> mode_code MODE_SENSOR \<Longrightarrow> mode_code (mode_of b) = b"
proof -
  assume "b \<le> mode_code MODE_SENSOR"
  then have "unat b \<le> 1" by (simp add: word_le_nat_alt)
  then have "unat b = 0 \<or> unat b = 1" by linarith
  then have "b = 0 \<or> b = 1" by (simp add: word_unat_eq_iff)
  then show ?thesis by (auto simp: mode_of_def)
qed

lemma mode_effect:
  assumes "apply_mode_action c (stamp_central now m l) = Some s" "mc_new_mode c \<le> mode_code MODE_SENSOR"
  shows "mode_carried_out c l (mark_status_dirty_locked (s\<lparr>last_applied_command_id := n\<rparr>))"
    "lamps_kept l (mark_status_dirty_locked (s\<lparr>last_applied_command_id := n\<rparr>))"
    "last_applied_command_id (mark_status_dirty_locked (s\<lparr>last_applied_command_id := n\<rparr>)) = n"
proof -
  show "last_applied_command_id (mark_status_dirty_locked (s\<lparr>last_applied_command_id := n\<rparr>)) = n" by (simp add: dirty_eq)
  show "lamps_kept l (mark_status_dirty_locked (s\<lparr>last_applied_command_id := n\<rparr>))"
    using assms(1) by (auto simp: apply_mode_action_def lamps_kept_def dirty_eq clear_fault_locked_def stamp_central_def Let_def
        split: if_splits)
  show "mode_carried_out c l (mark_status_dirty_locked (s\<lparr>last_applied_command_id := n\<rparr>))"
    using assms(1) mode_code_of [OF assms(2)]
    by (auto simp: apply_mode_action_def mode_carried_out_def dirty_eq clear_fault_locked_def stamp_central_def Let_def
        split: if_splits)
qed

lemma mode_understood:
  assumes h: "hdr_dst (header m) = controller_code CONTROLLER_LOCAL" "hdr_src (header m) = controller_code CONTROLLER_CENTRAL"
      "hdr_type (header m) = msg_code MSG_MODE_COMMAND"
    and v: "mode_payload_valid (decode_mode_cmd (data m))"
    and t: "mc_intersection_id (decode_mode_cmd (data m)) = intersection_id l"
  shows "understood m now l True"
proof -
  let ?c = "decode_mode_cmd (data m)" and ?l = "stamp_central now m l"
  have g: "mode_command_guard m ?c ?l"
    using h v t by (simp add: mode_command_guard_def mode_payload_valid_def target_matches_local_def stamp_central_def)
  have "unat (mc_action ?c) \<le> 2" using v by (simp add: mode_payload_valid_def word_le_nat_alt)
  then have "unat (mc_action ?c) = 0 \<or> unat (mc_action ?c) = 1 \<or> unat (mc_action ?c) = 2" by linarith
  then have "mc_action ?c = 0 \<or> mc_action ?c = 1 \<or> mc_action ?c = 2" by (simp add: word_unat_eq_iff)
  moreover have "mc_action ?c = 1 \<Longrightarrow> 0 < mc_duration_sec ?c" "mc_action ?c \<noteq> 1 \<Longrightarrow> mc_duration_sec ?c = 0"
    using v by (simp_all add: mode_payload_valid_def word_gt_0)
  ultimately obtain s where s: "apply_mode_action ?c ?l = Some s"
    by (auto simp: apply_mode_action_def Let_def)
  have "mc_new_mode ?c \<le> mode_code MODE_SENSOR" using v by (simp add: mode_payload_valid_def)
  note e = mode_effect [OF s this, of "mc_command_id ?c"]
  show ?thesis
    using h g s e by (simp add: understood_def carried_out_def local_dispatch_message_def local_handlers_def handler_matches_def
        handle_mode_command_def Let_def finish_reply_def central_command_id_def)
qed

lemma coordination_understood:
  assumes h: "hdr_dst (header m) = controller_code CONTROLLER_LOCAL" "hdr_src (header m) = controller_code CONTROLLER_CENTRAL"
      "hdr_type (header m) = msg_code MSG_COORDINATION_COMMAND"
    and v: "coordination_payload_valid (decode_coordination (data m))"
    and t: "cc_intersection_id (decode_coordination (data m)) = intersection_id l" and l: "base_inv l"
  shows "understood m now l (unat (cc_cycle_offset_sec (decode_coordination (data m))) < 44)"
proof -
  let ?c = "decode_coordination (data m)"
  have u: "(uint (cc_cycle_offset_sec ?c) < 44) = (unat (cc_cycle_offset_sec ?c) < 44)"
    using uint_nat [of "cc_cycle_offset_sec ?c"] by linarith
  have i: "intersection_id (stamp_central now m l) = intersection_id l" by (simp add: stamp_central_def)
  have p: "phase_code (phase_of (cc_phase ?c)) = cc_phase ?c"
    using v by (auto simp: coordination_payload_valid_def phase_of_def)
  have "coordination_guard m ?c (stamp_central now m l) = (unat (cc_cycle_offset_sec ?c) < 44)"
    using h v t by (auto simp: coordination_guard_def coordination_payload_valid_def target_matches_local_def i
        local_cycle [OF l] u)
  then show ?thesis
    using h p by (simp add: understood_def carried_out_def coordination_carried_out_def lamps_kept_def only_contact_def
        dirty_eq clear_fault_locked_def stamp_central_def local_dispatch_message_def local_handlers_def handler_matches_def
        handle_coordination_command_def Let_def finish_reply_def central_command_id_def)
qed

lemma simulation_effect:
  assumes "cs_minute c \<le> 1439"
    and after: "t = mark_status_dirty_locked ((if sim_code (cs_action c) = 1
        then draw_next_train (draw_next_car ((stamp_central now m l)\<lparr>sim_running := True\<rparr>))
        else if sim_code (cs_action c) = 2 then (stamp_central now m l)\<lparr>sim_running := False\<rparr>
        else set_sim_minute_locked (cs_minute c) (stamp_central now m l))\<lparr>last_applied_command_id := n\<rparr>)"
  shows "simulation_carried_out c l t" "lamps_kept l t" "last_applied_command_id t = n"
proof -
  let ?s = "stamp_central now m l"
  obtain g k where c: "draw_next_car (?s\<lparr>sim_running := True\<rparr>) = ?s\<lparr>sim_running := True, next_car_in_seconds := g, rand_pos := k\<rparr>"
    by (rule draw_next_car_ex [of "?s\<lparr>sim_running := True\<rparr>"]) simp
  obtain g' d k' where t: "draw_next_train (draw_next_car (?s\<lparr>sim_running := True\<rparr>)) =
      ?s\<lparr>sim_running := True, next_car_in_seconds := g, next_train_in_seconds := g', next_train_direction := d, rand_pos := k'\<rparr>"
    unfolding c by (rule draw_next_train_ex [of "?s\<lparr>sim_running := True, next_car_in_seconds := g, rand_pos := k\<rparr>"]) simp
  have m: "c_mod (int (cs_minute c) * 60) SECONDS_PER_DAY = int (cs_minute c) * 60" using assms(1) by (simp add: c_mod_def c_div_def)
  let ?a = "apply_time_settings_locked (?s\<lparr>manual_mode_override := False, manual_sensor_override := False,
      sim_seconds := int (cs_minute c) * 60\<rparr>)"
  obtain x y z where t2: "draw_next_train ?a = ?a\<lparr>next_train_in_seconds := x, next_train_direction := y, rand_pos := z\<rparr>"
    by (rule draw_next_train_ex [of ?a])
  obtain v w where c2: "draw_next_car (?a\<lparr>next_train_in_seconds := x, next_train_direction := y, rand_pos := z\<rparr>) =
      ?a\<lparr>next_train_in_seconds := x, next_train_direction := y, next_car_in_seconds := v, rand_pos := w\<rparr>"
    by (rule draw_next_car_ex [of "?a\<lparr>next_train_in_seconds := x, next_train_direction := y, rand_pos := z\<rparr>"]) simp
  have s: "set_sim_minute_locked (cs_minute c) ?s =
      ?a\<lparr>next_train_in_seconds := x, next_train_direction := y, next_car_in_seconds := v, rand_pos := w\<rparr>"
    by (simp add: set_sim_minute_locked_def set_sim_seconds_locked_def Let_def m t2 c2)
  show "simulation_carried_out c l t" "lamps_kept l t" "last_applied_command_id t = n"
    unfolding after t s by (cases "cs_action c"; simp add: simulation_carried_out_def lamps_kept_def dirty_eq stamp_central_def
        apply_time_settings_locked_def)+
qed

lemma simulation_understood:
  assumes "central_simulation_decode m = Some c" "cs_command_id c \<noteq> 0" "cs_target c = unat (intersection_id l)"
    "cs_target c < NUM_INTERSECTIONS"
  shows "understood m now l True"
proof -
  from simulation_decode_SomeD [OF assms(1)] have c: "sim_command_ok c" "sim_header_ok (header m)"
    "data m = print_data (simulation_text c)" by simp_all
  have minute: "cs_minute c \<le> 1439" using c(1) by (cases "cs_action c") (simp_all add: sim_command_ok_def)
  note p = local_reads_simulation [OF c(1) assms(4,2)]
  have i: "central_command_id m = cs_command_id c" using c(2) assms(1) by (simp add: central_command_id_def sim_header_ok_def)
  note e = simulation_effect [OF minute refl, where now = now and m = m and l = l and n = "cs_command_id c"]
  have ty: "hdr_type (header m) = msg_code MSG_TEST" "hdr_dst (header m) = controller_code CONTROLLER_LOCAL"
    "hdr_src (header m) = controller_code CONTROLLER_CENTRAL" using c(2) by (simp_all add: sim_header_ok_def)
  have d: "local_dispatch_message now m l = (0, finish_reply now True \<lparr>reply_status = 0, reply_timestamp = now,
        reply_command_id = cs_command_id c\<rparr>,
      mark_status_dirty_locked ((if sim_code (cs_action c) = 1
        then draw_next_train (draw_next_car ((stamp_central now m l)\<lparr>sim_running := True\<rparr>))
        else if sim_code (cs_action c) = 2 then (stamp_central now m l)\<lparr>sim_running := False\<rparr>
        else set_sim_minute_locked (cs_minute c) (stamp_central now m l))\<lparr>last_applied_command_id := cs_command_id c\<rparr>))"
    using ty p assms(3) by (simp add: local_dispatch_message_def local_handlers_def handler_matches_def
        handle_simulation_message_def Let_def c(3) target_matches_local_def)
  have out: "carried_out m l (mark_status_dirty_locked ((if sim_code (cs_action c) = 1
        then draw_next_train (draw_next_car ((stamp_central now m l)\<lparr>sim_running := True\<rparr>))
        else if sim_code (cs_action c) = 2 then (stamp_central now m l)\<lparr>sim_running := False\<rparr>
        else set_sim_minute_locked (cs_minute c) (stamp_central now m l))\<lparr>last_applied_command_id := cs_command_id c\<rparr>))"
    unfolding carried_out_def i assms(1) using e ty(1) by simp
  show ?thesis unfolding understood_def d prod.case using out by (simp add: finish_reply_def i)
qed

definition offset_too_long :: "test_message \<Rightarrow> bool" where
  "offset_too_long m \<longleftrightarrow> hdr_type (header m) = msg_code MSG_COORDINATION_COMMAND \<and>
     44 \<le> unat (cc_cycle_offset_sec (decode_coordination (data m)))"

lemma command_understood:
  assumes m: "central_send_admissible m" "hdr_dst (header m) = controller_code CONTROLLER_LOCAL" "central_command_id m \<noteq> 0"
    and l: "base_inv l" "unat (intersection_id l) = central_command_target m"
  shows "understood m now l (\<not> offset_too_long m)" "has_nul (hdr_timestamp (header m))"
proof -
  have f: "central_frame_valid m ENVELOPE_SIZE (controller_code CONTROLLER_LOCAL)"
    using m(1,2) by (simp add: central_send_admissible_def)
  then show "has_nul (hdr_timestamp (header m))" by (simp add: central_frame_valid_def Let_def)
  consider (mode) "hdr_type (header m) = msg_code MSG_MODE_COMMAND"
    | (coordination) "hdr_type (header m) = msg_code MSG_COORDINATION_COMMAND"
    | (simulation) c where "central_simulation_decode m = Some c" "hdr_type (header m) = msg_code MSG_TEST"
    using m(3) by (auto simp: central_command_id_def sim_header_ok_def split: if_splits option.splits
        dest: simulation_decode_SomeD)
  then show "understood m now l (\<not> offset_too_long m)"
  proof cases
    case mode
    then have "mc_intersection_id (decode_mode_cmd (data m)) = intersection_id l"
      using l(2) by (simp add: central_command_target_def word_unat_eq_iff)
    with mode f m(2) show ?thesis
      using mode_understood [of m l] by (simp add: central_frame_valid_def Let_def offset_too_long_def)
  next
    case coordination
    then have "cc_intersection_id (decode_coordination (data m)) = intersection_id l"
      using l(2) by (simp add: central_command_target_def word_unat_eq_iff)
    with coordination f m(2) l(1) show ?thesis
      using coordination_understood [of m l] by (simp add: central_frame_valid_def Let_def offset_too_long_def not_le)
  next
    case simulation
    then have "cs_target c = unat (intersection_id l)" "cs_command_id c \<noteq> 0"
      using l(2) m(3) by (simp_all add: central_command_target_def central_command_id_def)
    moreover have "unat (intersection_id l) < NUM_INTERSECTIONS" using l(1) by (simp add: base_inv_def)
    ultimately show ?thesis
      using simulation_understood [OF simulation(1)] simulation(2) by (simp add: offset_too_long_def)
  qed
qed

lemma understood_reply:
  assumes "understood m now l a" "has_nul ts" "local_dispatch_message now m l = (rc, r, l')"
  shows "validate_reply m (r\<lparr>reply_timestamp := ts\<rparr>) 0 = (if a then CENTRAL_SEND_OK else CENTRAL_SEND_REJECTED)"
  using assms by (simp add: understood_def validate_reply_def Let_def)

section \<open>Train to Local\<close>

lemma crossing_numbers:
  assumes "train_ok tc" "i < NUM_CROSSINGS"
  shows "cx_id (crossings (tc_sim tc) ! i) = of_nat (i + 1)"
    "local_id_1 (crossings (tc_sim tc) ! i) = of_nat (2 * i + 1)"
    "local_id_2 (crossings (tc_sim tc) ! i) = of_nat (2 * i + 2)"
proof -
  let ?c = "crossings (tc_sim tc) ! i"
  have "map ident (crossings (tc_sim tc)) = map ident initial_crossings" "length (crossings (tc_sim tc)) = 3"
    using assms(1) numberedD(1) by (auto simp: train_ok_def display_ok_def numbered_def)
  then have "ident ?c = ident (initial_crossings ! i)" using assms(2) by (metis nth_map length_map)
  moreover have "i = 0 \<or> i = 1 \<or> i = 2" using assms(2) by auto
  ultimately show "cx_id ?c = of_nat (i + 1)" "local_id_1 ?c = of_nat (2 * i + 1)" "local_id_2 ?c = of_nat (2 * i + 2)"
    by (auto simp: ident_def initial_crossings_def crossing_init_def)
qed

text \<open>The two intersections of a crossing.\<close>

lemma neighbours_match:
  assumes "i < NUM_CROSSINGS" "unat (intersection_id l) < NUM_INTERSECTIONS"
  shows "railway_matches_local (of_nat (i + 1)) l \<longleftrightarrow> unat (intersection_id l) div 2 = i"
proof -
  define k where "k = unat (intersection_id l)"
  have "i = 0 \<or> i = 1 \<or> i = 2" "k = 0 \<or> k = 1 \<or> k = 2 \<or> k = 3 \<or> k = 4 \<or> k = 5"
    using assms by (auto simp: k_def)
  then show ?thesis
    unfolding railway_matches_local_def railway_crossing_for_local_def k_def [symmetric] by auto
qed

lemma nul_stamp: "length now \<le> 31 \<Longrightarrow> has_nul (overlay (now @ [NUL]) (replicate TIMESTAMP_SIZE NUL))"
  by (simp add: has_nul_def overlay_def)

lemma railway_item_frame:
  assumes "length now \<le> 31" "cx_id c = of_nat (i + 1)" "i < NUM_CROSSINGS" "unat (intersection_id l) < NUM_INTERSECTIONS"
    "unat (intersection_id l) div 2 = i"
  shows "comm_frame_accepted (item_frame (railway_item now w c p n)) 44 36"
    "railway_frame_for l (if p then MSG_RAILWAY_PREEMPT else MSG_TRAIN_CLEAR) (item_frame (railway_item now w c p n))"
    "p \<Longrightarrow> rm_active (decode_railway (data (item_frame (railway_item now w c p n)))) \<noteq> 0"
proof -
  have d: "decode_railway (encode_railway m) = m" for m
    using railway_codec.dec_enc [of m "[]"] by simp
  show "comm_frame_accepted (item_frame (railway_item now w c p n)) 44 36"
    using nul_stamp [OF assms(1)] by (simp add: comm_frame_accepted_def Let_def item_frame_def railway_item_def tc_header_def)
  show "railway_frame_for l (if p then MSG_RAILWAY_PREEMPT else MSG_TRAIN_CLEAR) (item_frame (railway_item now w c p n))"
    using neighbours_match [OF assms(3,4)] assms(2,5)
    by (simp add: railway_frame_for_def item_frame_def railway_item_def tc_header_def d)
  show "p \<Longrightarrow> rm_active (decode_railway (data (item_frame (railway_item now w c p n)))) \<noteq> 0"
    by (simp add: item_frame_def railway_item_def d flag8_def)
qed

lemma other_crossing_ignored:
  assumes "cx_id c = of_nat (i + 1)" "i < NUM_CROSSINGS" "unat (intersection_id l) < NUM_INTERSECTIONS"
    "unat (intersection_id l) div 2 \<noteq> i"
  shows "local_dispatch_message clock (item_frame (railway_item now w c p n)) l =
    (0, \<lparr>reply_status = - 1, reply_timestamp = clock, reply_command_id = 0\<rparr>, l)"
proof -
  have d: "decode_railway (encode_railway m) = m" for m
    using railway_codec.dec_enc [of m "[]"] by simp
  show ?thesis
    using neighbours_match [OF assms(2,3)] assms(1,4)
    by (simp add: item_frame_def railway_item_def tc_header_def d local_dispatch_message_def Let_def local_handlers_def
        handler_matches_def handle_railway_message_def finish_reply_def)
qed

lemma local_events_inv: "local_inv l \<Longrightarrow> local_inv (fold local_event_step es l)"
  by (induction es arbitrary: l) (simp_all only: fold_simps local_event_inv)

text \<open>A whole passage: PREEMPT, any traffic that does not release it, CLEAR.\<close>

lemma passage_safe:
  assumes l: "local_inv l" "unat (intersection_id l) div 2 = i" and i: "i < NUM_CROSSINGS"
    and c: "cx_id c = of_nat (i + 1)" and now: "length now \<le> 31" "length now' \<le> 31"
    and free: "\<forall>e \<in> set es. \<not> releases_train e" and ticks: "2 \<le> length (filter is_tick es)"
    and held_def: "held = fold local_event_step (EvFrame clock (item_frame (railway_item now w c True n)) # es) l"
    and clear_def: "clear = local_event_step (EvFrame clock' (item_frame (railway_item now' w' c False n'))) held"
  shows "(\<forall>k. no_green (fold local_event_step (EvFrame clock (item_frame (railway_item now w c True n)) # take k es) l)) \<and>
    all_stopped held \<and> all_stopped clear \<and> all_stopped (core_tick e1 clear) \<and>
    phase (core_tick e2 (core_tick e1 clear)) = initial_phase held"
proof -
  have n: "unat (intersection_id l) < NUM_INTERSECTIONS" using l(1) by (simp add: local_inv_def base_inv_def)
  note pre = railway_item_frame [OF now(1) c i n l(2), where w = w and p = True and n = n]
  have h: "train_active held \<and> all_stopped held"
    unfolding held_def by (rule preempt_held [OF l(1) _ _ free ticks]) (use pre in simp_all)
  have place: "intersection_id held = intersection_id l" by (simp add: held_def place_run place_event place_dispatch)
  have inv: "local_inv held"
    unfolding held_def by (rule local_events_inv [OF l(1)])
  have "railway_frame_for held MSG_TRAIN_CLEAR (item_frame (railway_item now' w' c False n'))"
    using railway_item_frame(2) [OF now(2) c i, where l = held and w = w' and p = False and n = n'] n l(2) by (simp add: place)
  from clear_recovery [OF inv this, of clock' e1 e2] h have stop: "all_stopped held \<and> all_stopped clear \<and>
      all_stopped (core_tick e1 clear) \<and> phase (core_tick e2 (core_tick e1 clear)) = initial_phase held" by (simp add: clear_def)
  have "no_green (fold local_event_step (EvFrame clock (item_frame (railway_item now w c True n)) # take k es) l)" for k
    by (rule preempt_no_green [OF l(1)]) (use pre free in \<open>auto dest: in_set_takeD\<close>)
  with stop show ?thesis by blast
qed

section \<open>Reports to Central\<close>

lemma monitor_sizes:
  assumes "monitor_ok m"
  shows "length (mon_intersections (snd (central_observe_peer source now m))) = NUM_INTERSECTIONS"
    "length (mon_crossings (snd (central_observe_peer source now m))) = NUM_CROSSINGS"
  using observe_ok [OF assms, of source now] by (simp_all add: monitor_ok_def slots_ok_def crossings_ok_def)

lemma track_code_bound: "track_code t \<le> 3"
  by (cases t) (simp_all add: word_le_nat_alt)

lemma train_report_valid:
  "i < NUM_CROSSINGS \<Longrightarrow> railway_payload_valid ((railway_status_of c)\<lparr>rs_crossing_id := of_nat i\<rparr>)"
  by (auto simp: railway_payload_valid_def railway_status_of_def track_code_bound less_Suc_eq numeral_3_eq_3)

lemma railway_range_eq: "railway_in_range r = railway_payload_valid r"
  by (simp add: railway_in_range_def railway_payload_valid_def)

lemma train_report_normal:
  assumes "length now \<le> 31" "cx_id c = of_nat (i + 1)" "i < NUM_CROSSINGS"
  shows "central_frame_normalize (Train_Controller.status_frame now c) 48 (controller_code CONTROLLER_CENTRAL) =
    Some \<lparr>header = tc_header now MSG_RAILWAY_STATUS CONTROLLER_CENTRAL,
      data = overlay (encode_railway_status ((railway_status_of c)\<lparr>rs_crossing_id := of_nat i\<rparr>)) zero_data\<rparr>"
proof -
  let ?r = "railway_status_of c"
  let ?r' = "?r\<lparr>rs_crossing_id := of_nat i\<rparr>"
  let ?d = "overlay (encode_railway_status ?r) zero_data"
  let ?f = "\<lparr>header = tc_header now MSG_RAILWAY_STATUS CONTROLLER_CENTRAL, data = overlay (encode_railway_status ?r') zero_data\<rparr>"
  have i: "i = 0 \<or> i = 1 \<or> i = 2" using assms(3) by auto
  have id: "unat (get8 ?d 0) = i + 1"
    using i assms(2) by (auto simp: overlay_def encode_railway_status_def railway_status_of_def get8_def)
  have up: "?d[0 := u8_char (word_of_nat i)] = overlay (encode_railway_status ?r') zero_data"
    by (simp add: overlay_def encode_railway_status_def)
  have t: "take 8 (encode_railway_status ?r) = encode_railway_status ?r" by (simp add: encode_railway_status_def)
  have dec: "decode_railway_status (overlay (encode_railway_status ?r') zero_data) = ?r'"
    by (rule railway_status_codec.dec_overlay) simp
  have norm: "renumber_crossing \<lparr>header = tc_header now MSG_RAILWAY_STATUS CONTROLLER_CENTRAL, data = ?d\<rparr> = Some ?f"
    using id i up by (auto simp: renumber_crossing_def tc_header_def Let_def)
  have valid: "central_frame_valid ?f ENVELOPE_SIZE (controller_code CONTROLLER_CENTRAL)"
    using train_report_valid [OF assms(3)] nul_stamp [OF assms(1)]
    by (simp add: central_frame_valid_def Let_def dec tc_header_def controller_valid_def word_le_nat_alt)
  show ?thesis
    using norm valid t by (simp add: central_frame_normalize_def Train_Controller.status_frame_def compact_payload_def tc_header_def)
qed

text \<open>The handler of Central stores what arrives.\<close>

lemma handle_railway_report:
  assumes "monitor_ok (c_monitor s)" "hdr_type (header f) = msg_code MSG_RAILWAY_STATUS"
    "railway_payload_valid (decode_railway_status (data f))"
  shows "fst (handle_message t now f r s) = 0" "reply_status (fst (snd (handle_message t now f r s))) = 0"
    "mon_crossings (c_monitor (snd (snd (handle_message t now f r s)))) ! unat (rs_crossing_id (decode_railway_status (data f))) =
       \<lparr>cv_valid = True, cv_synchronized = True, cv_received_at = now, cv_status = decode_railway_status (data f)\<rparr>"
  using assms(2,3) monitor_sizes(2) [OF assms(1)]
  by (simp_all add: handle_message_def Let_def split_beta central_monitor_railway_def railway_range_eq)
    (simp add: railway_payload_valid_def)

lemma handle_local_report:
  assumes "monitor_ok (c_monitor s)" "hdr_type (header f) = msg_code MSG_STATUS_UPDATE"
    "status_payload_valid (decode_status (data f))"
  shows "fst (handle_message t now f r s) = 0" "reply_status (fst (snd (handle_message t now f r s))) = 0"
    "mon_intersections (c_monitor (snd (snd (handle_message t now f r s)))) ! unat (st_intersection_id (decode_status (data f))) =
       \<lparr>iv_valid = True, iv_synchronized = True, iv_received_at = now, iv_status = decode_status (data f)\<rparr>"
proof -
  have "status_in_range (decode_status (data f))"
    using assms(3) unfolding status_in_range_def status_payload_valid_def .
  then show "fst (handle_message t now f r s) = 0" "reply_status (fst (snd (handle_message t now f r s))) = 0"
    "mon_intersections (c_monitor (snd (snd (handle_message t now f r s)))) ! unat (st_intersection_id (decode_status (data f))) =
       \<lparr>iv_valid = True, iv_synchronized = True, iv_received_at = now, iv_status = decode_status (data f)\<rparr>"
    using assms(2) monitor_sizes(1) [OF assms(1)]
    by (simp_all add: handle_message_def Let_def split_beta central_monitor_status_def) (simp add: status_in_range_def)
qed

lemma local_report_valid:
  assumes "local_inv l"
  shows "status_payload_valid (fill_status_locked l)"
proof -
  have b: "unat (intersection_id l) < 6" "0 \<le> sim_seconds l" "sim_seconds l < 86400"
    using assms by (simp_all add: local_inv_def base_inv_def)
  have m: "unat (st_sim_minute_of_day (fill_status_locked l)) < 24 * 60"
  proof -
    have "int (unat (st_sim_minute_of_day (fill_status_locked l))) = sim_seconds l div 60"
      using inv_status_exact [OF assms] unfolding status_exact_def by blast
    then show ?thesis using b(2,3) by linarith
  qed
  have f: "flag8 x \<le> 1" for x by (simp add: flag8_def)
  have "unat (st_intersection_id (fill_status_locked l)) < 6" using b(1) by (simp add: fill_status_locked_def Let_def)
  then show ?thesis using m f
    by (simp add: status_payload_valid_def) (simp add: fill_status_locked_def Let_def)
qed

lemma local_report_normal:
  assumes "local_inv l"
  shows "central_frame_normalize (send_payload now MSG_STATUS_UPDATE (encode_status (fill_status_locked l))) 104
      (controller_code CONTROLLER_CENTRAL) = Some (send_payload now MSG_STATUS_UPDATE (encode_status (fill_status_locked l)))"
    "decode_status (data (send_payload now MSG_STATUS_UPDATE (encode_status (fill_status_locked l)))) = fill_status_locked l"
proof -
  let ?f = "send_payload now MSG_STATUS_UPDATE (encode_status (fill_status_locked l))"
  show d: "decode_status (data ?f) = fill_status_locked l"
    by (simp add: send_payload_def Let_def) (rule status_codec.dec_overlay, simp)
  have "has_nul (overlay (take 31 now) (replicate TIMESTAMP_SIZE NUL))"
    by (auto simp: has_nul_def overlay_def)
  then have "central_frame_valid ?f ENVELOPE_SIZE (controller_code CONTROLLER_CENTRAL)"
    using local_report_valid [OF assms] d
    by (simp add: central_frame_valid_def Let_def send_payload_def init_message_def controller_valid_def word_le_nat_alt)
  then show "central_frame_normalize ?f 104 (controller_code CONTROLLER_CENTRAL) = Some ?f"
    by (simp add: central_frame_normalize_def)
qed

end
