(* ===== verification/Central_Display.thy ===== *)
theory Central_Display
  imports Central_Operator
begin

text \<open>
  The separate display process of Central, \<^verbatim>\<open>central_ui.c\<close>: what it writes to the terminal for a text of the
  core, with or without colour, the quick menu, the shortcuts, and the loop over the typed bytes and the
  refresh of a live view. Output is the string that is written; reading the terminal and the clock is input.
\<close>

section \<open>Colours\<close>

abbreviation (input) ESC :: char where "ESC \<equiv> CHR 0x1B"

definition UI_RESET :: string where "UI_RESET = ESC # ''[0m''"
definition UI_DIM_CYAN :: string where "UI_DIM_CYAN = ESC # ''[2;36m''"
definition UI_DIM_WHITE :: string where "UI_DIM_WHITE = ESC # ''[2;37m''"
definition UI_RED :: string where "UI_RED = ESC # ''[1;31m''"
definition UI_GREEN :: string where "UI_GREEN = ESC # ''[1;32m''"
definition UI_YELLOW :: string where "UI_YELLOW = ESC # ''[1;33m''"
definition UI_BLUE :: string where "UI_BLUE = ESC # ''[1;34m''"
definition UI_MAGENTA :: string where "UI_MAGENTA = ESC # ''[1;35m''"
definition UI_CYAN :: string where "UI_CYAN = ESC # ''[1;36m''"
definition UI_WHITE :: string where "UI_WHITE = ESC # ''[1;37m''"
definition UI_ORANGE :: string where "UI_ORANGE = ESC # ''[1;38;5;208m''"

definition word_char :: "char \<Rightarrow> bool" where
  "word_char c \<longleftrightarrow> (CHR ''A'' \<le> c \<and> c \<le> CHR ''Z'') \<or> (CHR ''a'' \<le> c \<and> c \<le> CHR ''z'') \<or>
     (CHR ''0'' \<le> c \<and> c \<le> CHR ''9'') \<or> c = CHR ''_''"

text \<open>The character at an index of a C string, its terminator included.\<close>

definition char_at :: "string \<Rightarrow> nat \<Rightarrow> char" where
  "char_at s i = (if i < length s then s ! i else NUL)"

text \<open>\<open>before\<close> is the character before the cursor, \<open>None\<close> at the start of the line.\<close>

definition keyword_match :: "char option \<Rightarrow> string \<Rightarrow> string \<Rightarrow> bool" where
  "keyword_match before cursor keyword \<longleftrightarrow>
     take (length keyword) cursor = keyword \<and>
     \<not> (before \<noteq> None \<and> word_char (the before)) \<and>
     \<not> (word_char (last keyword) \<and> word_char (char_at cursor (length keyword)))"

definition keyword_tokens :: "(string \<times> string) list" where
  "keyword_tokens =
     [(''CONFLICTING GREENS'', UI_RED), (''DISCONNECTED'', UI_RED),
      (''HEARTBEAT OK'', UI_GREEN), (''WAITING UPDATE'', UI_YELLOW),
      (''AT CROSSING'', UI_MAGENTA), (''RAIL HOLD'', UI_RED),
      (''OPERATIONAL'', UI_GREEN), (''APPROACHING'', UI_MAGENTA),
      (''DEGRADED'', UI_RED), (''OFFLINE'', UI_RED), (''LOST'', UI_RED),
      (''FAULT'', UI_RED), (''FAILSAFE'', UI_RED), (''NO REPORT'', UI_YELLOW), (''NO DATA'', UI_YELLOW),
      (''STOP'', UI_RED), (''RED'', UI_RED),
      (''CLOSED'', UI_YELLOW), (''CLOSING'', UI_YELLOW),
      (''STALE'', UI_YELLOW), (''WAITING'', UI_YELLOW), (''UNKNOWN'', UI_YELLOW), (''REQ'', UI_YELLOW),
      (''YELLOW'', UI_YELLOW), (''HOLD'', UI_YELLOW), (''STANDBY'', UI_YELLOW),
      (''CONNECTED'', UI_GREEN), (''HEALTHY'', UI_GREEN), (''CURRENT'', UI_GREEN),
      (''ONLINE'', UI_GREEN), (''CLEAR'', UI_GREEN), (''GREEN'', UI_GREEN),
      (''WALK'', UI_GREEN), (''OPENING'', UI_GREEN), (''OPEN'', UI_GREEN),
      (''UP'', UI_GREEN), (''RUN'', UI_GREEN), (''READY'', UI_GREEN),
      (''RAILWAY'', UI_MAGENTA), (''TRAIN'', UI_MAGENTA), (''ACTIVE'', UI_MAGENTA),
      (''P1'', UI_MAGENTA), (''P2'', UI_MAGENTA), (''P3'', UI_MAGENTA),
      (''SENSORS'', UI_BLUE), (''SENSOR'', UI_BLUE), (''FIXED'', UI_CYAN), (''GLOBAL'', UI_CYAN),
      (''LOCAL'', UI_CYAN), (''SNAPSHOT'', UI_WHITE), (''LIVE VIEW'', UI_WHITE),
      (''CENTRAL CONTROL ROOM'', UI_CYAN), (''LIVE TRAFFIC MAP'', UI_CYAN), (''INTERSECTIONS'', UI_CYAN),
      (''PED'', UI_CYAN),
      (''CONNECTIONS'', UI_CYAN), (''RECENT EVENTS'', UI_CYAN), (''CONTROLS'', UI_CYAN)]"

text \<open>The length and the colour of the keyword at the cursor.\<close>

definition keyword_color :: "char option \<Rightarrow> string \<Rightarrow> (nat \<times> string) option" where
  "keyword_color before cursor =
     map_option (\<lambda>(keyword, color). (length keyword, color))
       (find (\<lambda>(keyword, color). keyword_match before cursor keyword) keyword_tokens)"

definition inline_key_color :: "string \<Rightarrow> (nat \<times> string) option" where
  "inline_key_color cursor =
     (let offset = length (takeWhile (\<lambda>c. c \<noteq> CHR '']'') cursor) in
      if char_at cursor 0 \<noteq> CHR ''['' \<or> offset = length cursor \<or> offset < 2 \<or> 3 < offset then None
      else Some (offset + 1, if char_at cursor 1 = CHR ''0'' then UI_RED else UI_YELLOW))"

definition lamp_label_triplet :: "string \<Rightarrow> bool" where
  "lamp_label_triplet s \<longleftrightarrow>
     (char_at s 0 = CHR ''R'' \<or> char_at s 0 = CHR ''r'') \<and> char_at s 1 = CHR '' '' \<and> char_at s 2 = CHR '' '' \<and>
     (char_at s 3 = CHR ''Y'' \<or> char_at s 3 = CHR ''y'') \<and> char_at s 4 = CHR '' '' \<and> char_at s 5 = CHR '' '' \<and>
     (char_at s 6 = CHR ''G'' \<or> char_at s 6 = CHR ''g'')"

definition painted :: "bool \<Rightarrow> string \<Rightarrow> string \<Rightarrow> string" where
  "painted color code text = (if color then code @ text @ UI_RESET else text)"

definition active_colors :: "string list" where
  "active_colors = [UI_RED, UI_YELLOW, UI_GREEN]"

definition render_lamp_label_triplet :: "string \<Rightarrow> bool \<Rightarrow> string" where
  "render_lamp_label_triplet cursor color =
     painted color (if cursor ! 0 = CHR ''R'' then UI_RED else UI_DIM_WHITE) ''R'' @ ''  '' @
     painted color (if cursor ! 3 = CHR ''Y'' then UI_YELLOW else UI_DIM_WHITE) ''Y'' @ ''  '' @
     painted color (if cursor ! 6 = CHR ''G'' then UI_GREEN else UI_DIM_WHITE) ''G''"

section \<open>One line\<close>

text \<open>One round of the loop of \<open>render_line\<close>: what is written, how far the cursor moves, whether a lamp slot is
  used up.\<close>

definition render_piece :: "bool \<Rightarrow> char option \<Rightarrow> nat \<Rightarrow> string \<Rightarrow> string \<times> nat \<times> bool" where
  "render_piece color before slot cursor =
     (if take 3 cursor = ''{O}'' \<or> take 3 cursor = ''{o}'' then
        (painted color (if cursor ! 1 = CHR ''O'' then active_colors ! (slot mod 3) else UI_DIM_WHITE) ''{o}'', 3, True)
      else if take 3 cursor = ''{?}'' then (painted color UI_YELLOW ''{?}'', 3, True)
      else if lamp_label_triplet cursor then (render_lamp_label_triplet cursor color, 7, False)
      else if color \<and> take 6 cursor = ''DN >>>'' then (painted True UI_GREEN ''DN'' @ '' >>>'', 6, False)
      else if color \<and> (take 11 cursor = ''<[<<<][<<<]'' \<or> take 11 cursor = ''[>>>][>>>]>'') then
        (painted True UI_ORANGE (take 11 cursor), 11, False)
      else case (if \<not> color then None
                 else case inline_key_color cursor of Some p \<Rightarrow> Some p | None \<Rightarrow> keyword_color before cursor) of
        Some (len, code) \<Rightarrow> (painted True code (take len cursor), len, False)
      | None \<Rightarrow> ((if CHR '' '' \<le> hd cursor \<or> hd cursor = CHR 0x09 then [hd cursor] else []), 1, False))"

lemma keyword_tokens_ok: "list_all (\<lambda>(k, code). k \<noteq> [] \<and> length k \<le> 20) keyword_tokens"
  by (simp add: keyword_tokens_def)

lemma keyword_color_Some:
  assumes "keyword_color before cursor = Some (len, code)"
  shows "0 < len \<and> len \<le> length cursor \<and> (\<exists>k. (k, code) \<in> set keyword_tokens)"
proof -
  from assms obtain k where k: "find (\<lambda>(keyword, color). keyword_match before cursor keyword) keyword_tokens = Some (k, code)"
    "len = length k" by (auto simp: keyword_color_def)
  then have m: "keyword_match before cursor k" "(k, code) \<in> set keyword_tokens" by (auto simp: find_Some_iff) (metis nth_mem)
  then have "k \<noteq> []" "take (length k) cursor = k"
    using keyword_tokens_ok by (auto simp: list_all_iff keyword_match_def)
  moreover from this have "length k \<le> length cursor" by (metis length_take min.cobounded1)
  ultimately show ?thesis using k(2) m(2) by auto
qed

lemma render_piece_moves: "0 < fst (snd (render_piece color before slot cursor))"
  by (auto simp: render_piece_def inline_key_color_def Let_def split: option.split if_splits dest: keyword_color_Some)

function render_cursor :: "bool \<Rightarrow> char option \<Rightarrow> nat \<Rightarrow> string \<Rightarrow> string" where
  "render_cursor color before slot cursor =
     (if cursor = [] then []
      else
        let (out, n, lamp) = render_piece color before slot cursor
        in out @ render_cursor color (Some (last (take n cursor))) (if lamp then Suc slot else slot) (drop n cursor))"
  by pat_completeness auto
termination
proof (relation "measure (\<lambda>(_, _, _, cursor). length cursor)", goal_cases)
  case (2 color before slot cursor x out y n lamp)
  have "0 < n" using render_piece_moves [of color before slot cursor] 2 by (metis fst_conv snd_conv)
  moreover have "cursor \<noteq> []" using 2 by simp
  ultimately show ?case by (cases cursor) auto
qed simp

declare render_cursor.simps [simp del]

definition border_line :: "string \<Rightarrow> bool" where
  "border_line line \<longleftrightarrow> char_at line 0 = CHR ''+'' \<or> take 3 line = ''|--''"

definition render_line :: "string \<Rightarrow> bool \<Rightarrow> string" where
  "render_line line color =
     (if color \<and> border_line line then UI_DIM_CYAN @ line @ UI_RESET else render_cursor color None 0 line)"

section \<open>A text\<close>

function render :: "string \<Rightarrow> bool \<Rightarrow> string" where
  "render text color =
     (if text = [] then []
      else
        let line = takeWhile (\<lambda>c. c \<noteq> CHR 0x0A) text; rest = dropWhile (\<lambda>c. c \<noteq> CHR 0x0A) text
        in render_line line color @ (if rest = [] then [] else CHR 0x0A # render (tl rest) color))"
  by pat_completeness auto
termination
proof (relation "measure (\<lambda>(text, _). length text)", goal_cases)
  case (2 t color line rest)
  then have "length (tl rest) < length rest" by (cases rest) auto
  moreover have "length rest \<le> length t" by (simp add: 2 length_dropWhile_le)
  ultimately show ?case by simp
qed simp

declare render.simps [simp del]


section \<open>A request\<close>

text \<open>\<open>request_core\<close>: its result, what it writes, and what it writes to the error stream. \<open>answer\<close> is the outcome of
  \<open>central_ui_client_request\<close>, on the left the text of the error.\<close>

definition request_core :: "string \<Rightarrow> bool \<Rightarrow> string + (string \<times> int) \<Rightarrow> int \<times> string \<times> string" where
  "request_core request color answer =
     (case answer of
        Inl e \<Rightarrow> (- 1, [], ''Central UI request failed: '' @ e @ ''.'' @ [CHR 0x0A] @
                   (if request \<notin> set [''status'', ''help'', ''commands'', ''faults'', ''events'']
                    then ''Receipt is unknown; inspect commands and status before retrying.'' @ [CHR 0x0A] else []))
      | Inr (output, status) \<Rightarrow> (status, render output color, []))"

section \<open>The quick menu\<close>

definition to_upper :: "char \<Rightarrow> char" where
  "to_upper c = (if CHR ''a'' \<le> c \<and> c \<le> CHR ''z'' then char_of (of_char c - (32 :: nat)) else c)"

definition shortcut_color :: "string \<Rightarrow> string" where
  "shortcut_color key =
     (if length key < 3 \<or> hd key \<noteq> CHR ''['' \<or> last key \<noteq> CHR '']'' then UI_WHITE
      else let c = to_upper (key ! 1) in
           if c = CHR ''F'' then UI_CYAN else if c = CHR ''S'' then UI_BLUE
           else if c = CHR ''A'' then UI_GREEN else if c = CHR ''X'' then UI_YELLOW
           else if c = CHR ''T'' then UI_MAGENTA else if c = CHR ''0'' then UI_RED
           else if c \<in> set ''12345'' then UI_GREEN else UI_WHITE)"

abbreviation (input) QUICK_MENU_TEXT_WIDTH :: nat where "QUICK_MENU_TEXT_WIDTH \<equiv> 74"

definition print_menu_border :: "bool \<Rightarrow> string" where
  "print_menu_border color =
     painted color UI_DIM_CYAN (''+'' @ replicate (QUICK_MENU_TEXT_WIDTH + 2) CHR ''-'' @ ''+'') @ [CHR 0x0A]"

text \<open>The loop of \<open>print_menu_text\<close>; a key in brackets is coloured.\<close>

function menu_body :: "bool \<Rightarrow> string \<Rightarrow> string" where
  "menu_body color t =
     (if t = [] then []
      else if hd t = CHR ''['' \<and> CHR '']'' \<in> set (tl t)
      then let key = CHR ''['' # takeWhile (\<lambda>c. c \<noteq> CHR '']'') (tl t) @ '']''
           in painted color (shortcut_color key) key @ menu_body color (tl (dropWhile (\<lambda>c. c \<noteq> CHR '']'') (tl t)))
      else hd t # menu_body color (tl t))"
  by pat_completeness auto
termination
proof (relation "measure (\<lambda>(_, t). length t)", goal_cases)
  case (2 color t key)
  have "length (tl (dropWhile (\<lambda>c. c \<noteq> CHR '']'') (tl t))) \<le> length (tl t)"
    using length_dropWhile_le [of "\<lambda>c. c \<noteq> CHR '']''" "tl t"] by simp
  also have "length (tl t) < length t" using 2 by (cases t) auto
  finally show ?case by simp
next
  case (3 color t)
  then show ?case by (cases t) auto
qed simp

declare menu_body.simps [simp del]

definition print_menu_text :: "string \<Rightarrow> bool \<Rightarrow> string" where
  "print_menu_text t color =
     (let shown = take QUICK_MENU_TEXT_WIDTH t in
      painted color UI_DIM_CYAN ''| '' @ menu_body color shown @
      replicate (QUICK_MENU_TEXT_WIDTH - length shown) CHR '' '' @ painted color UI_DIM_CYAN '' |'' @ [CHR 0x0A])"

definition print_menu_center :: "string \<Rightarrow> bool \<Rightarrow> string" where
  "print_menu_center t color =
     (let shown = take QUICK_MENU_TEXT_WIDTH t; left = (QUICK_MENU_TEXT_WIDTH - length shown) div 2 in
      print_menu_text (replicate left CHR '' '' @ shown @
        replicate (QUICK_MENU_TEXT_WIDTH - left - length shown) CHR '' '') color)"

definition print_quick_menu :: "bool \<Rightarrow> string" where
  "print_quick_menu color =
     print_menu_border color @
     print_menu_center ''OPERATOR QUICK MENU  -  TYPE [KEY] THEN PRESS ENTER'' color @
     print_menu_border color @
     print_menu_text ''VIEW / MONITOR'' color @
     print_menu_text ''[L] Live Traffic Map           [D] Live Detailed Dashboard'' color @
     print_menu_text ''[S] Status Snapshot            [E] Recent Events'' color @
     print_menu_text ''[F] Active Faults              [C] Command History'' color @
     print_menu_border color @
     print_menu_text ''TRAFFIC MODE  -  SELECT INTERSECTION'' color @
     print_menu_text ''FIXED : [F1] I1  [F2] I2  [F3] I3  [F4] I4  [F5] I5  [F6] I6'' color @
     print_menu_text ''        [FA] ALL INTERSECTIONS'' color @
     print_menu_text ''SENSOR: [S1] I1  [S2] I2  [S3] I3  [S4] I4  [S5] I5  [S6] I6'' color @
     print_menu_text ''        [SA] ALL INTERSECTIONS'' color @
     print_menu_border color @
     print_menu_text ''TRAFFIC SIMULATION'' color @
     print_menu_text ''START : [A1] I1  [A2] I2  [A3] I3  [A4] I4  [A5] I5  [A6] I6'' color @
     print_menu_text ''        [AA] START ALL'' color @
     print_menu_text ''STOP  : [X1] I1  [X2] I2  [X3] I3  [X4] I4  [X5] I5  [X6] I6'' color @
     print_menu_text ''        [XA] STOP ALL'' color @
     print_menu_border color @
     print_menu_text ''RAILWAY / TRAIN'' color @
     print_menu_text ''[TU] Train UP       [TD] Train DOWN       [TS] Train Status'' color @
     print_menu_border color @
     print_menu_text ''DISPLAY / HELP'' color @
     print_menu_text ''[H] Full Help       [M] Show Menu         [0] Quit Display'' color @
     print_menu_border color @
     print_menu_text ''Example: type [S3] + Enter  ->  set I3 to SENSOR mode'' color @
     print_menu_border color"

section \<open>Shortcuts\<close>

datatype shortcut = Forwarded | Translated string | Watch_Mode nat | Show_Menu | Quit_Ui

definition fixed_shortcuts :: "(string \<times> shortcut) list" where
  "fixed_shortcuts =
     [(''L'', Watch_Mode 1), (''1'', Watch_Mode 1), (''D'', Watch_Mode 2),
      (''S'', Translated ''status''), (''2'', Translated ''status''),
      (''E'', Translated ''events''), (''3'', Translated ''events''),
      (''F'', Translated ''faults''), (''4'', Translated ''faults''),
      (''C'', Translated ''commands''), (''5'', Translated ''commands''),
      (''H'', Translated ''help''), (''M'', Show_Menu), (''0'', Quit_Ui), (''Q'', Quit_Ui),
      (''FA'', Translated ''mode-fixed all''), (''SA'', Translated ''mode-sensor all''),
      (''AA'', Translated ''sim-start all''), (''XA'', Translated ''sim-stop all''),
      (''TU'', Translated ''train-cmd train-up''), (''TD'', Translated ''train-cmd train-down''),
      (''TS'', Translated ''train-cmd status'')]"

definition translate_shortcut :: "string \<Rightarrow> shortcut" where
  "translate_shortcut input =
     (if 32 \<le> length input then Forwarded
      else
        let key = map to_upper input in
        case map_of fixed_shortcuts key of
          Some s \<Rightarrow> s
        | None \<Rightarrow>
            if length input = 2 \<and> CHR ''1'' \<le> key ! 1 \<and> key ! 1 \<le> CHR ''6'' then
              let i = ''I'' @ show_nat (of_char (key ! 1) - of_char CHR ''0'')
              in if key ! 0 = CHR ''F'' then Translated (''mode-fixed '' @ i)
                 else if key ! 0 = CHR ''S'' then Translated (''mode-sensor '' @ i)
                 else if key ! 0 = CHR ''A'' then Translated (''sim-start '' @ i)
                 else if key ! 0 = CHR ''X'' then Translated (''sim-stop '' @ i)
                 else Forwarded
            else Forwarded)"

section \<open>The loop\<close>

text \<open>What the loop does to the outside: it writes, or it makes a request and writes the answer.\<close>

datatype ui_action = Ui_Write string | Ui_Request string

record ui_state =
  us_line :: string
  us_overflow :: bool
  us_watching :: nat
  us_map_frame_drawn :: bool
  us_next_refresh :: u64
  us_interrupted :: bool

definition ui_start :: ui_state where
  "ui_start = \<lparr>us_line = [], us_overflow = False, us_watching = 0, us_map_frame_drawn = False,
     us_next_refresh = 0, us_interrupted = False\<rparr>"

definition ui_line_text :: "string \<Rightarrow> string" where
  "ui_line_text line =
     rev (dropWhile (\<lambda>c. c = CHR 0x0D \<or> c = CHR '' '' \<or> c = CHR 0x09)
       (rev (dropWhile (\<lambda>c. c = CHR '' '' \<or> c = CHR 0x09) (cstr (line @ [NUL])))))"

definition redraw_watched :: "ui_state \<Rightarrow> ui_state" where
  "redraw_watched s = (if us_watching s \<noteq> 0 then s\<lparr>us_map_frame_drawn := False, us_next_refresh := 0\<rparr> else s)"

definition start_watch :: "nat \<Rightarrow> ui_state \<Rightarrow> ui_state" where
  "start_watch mode s = s\<lparr>us_watching := mode, us_map_frame_drawn := False, us_next_refresh := 0\<rparr>"

definition ui_command_line :: "bool \<Rightarrow> string \<Rightarrow> ui_state \<Rightarrow> ui_action list \<times> ui_state" where
  "ui_command_line color command s =
     (if us_overflow s then ([Ui_Write (''Command too long; request was not sent.'' @ [CHR 0x0A])], s)
      else if command = [] \<and> us_watching s \<noteq> 0 then
        ([Ui_Write (''Live view paused.'' @ [CHR 0x0A])], s\<lparr>us_watching := 0, us_map_frame_drawn := False\<rparr>)
      else if command \<noteq> [] then
        (case translate_shortcut command of
           Quit_Ui \<Rightarrow> ([], s\<lparr>us_interrupted := True\<rparr>)
         | Show_Menu \<Rightarrow> ([Ui_Write (print_quick_menu color)], s\<lparr>us_watching := 0, us_map_frame_drawn := False\<rparr>)
         | Watch_Mode mode \<Rightarrow> ([], start_watch mode s)
         | Translated translated \<Rightarrow> ([Ui_Request translated], redraw_watched s)
         | Forwarded \<Rightarrow>
             if command = ''quit'' then ([], s\<lparr>us_interrupted := True\<rparr>)
             else if command = ''watch'' then ([], start_watch 2 s)
             else ([Ui_Request command], redraw_watched s))
      else ([], s))"

definition ui_byte :: "bool \<Rightarrow> char \<Rightarrow> ui_state \<Rightarrow> ui_action list \<times> ui_state" where
  "ui_byte color b s =
     (if us_interrupted s then ([], s)
      else if b = CHR 0x0A then
        let (actions, s1) = ui_command_line color (ui_line_text (us_line s)) s
        in (actions @ (if us_watching s1 = 0 \<and> \<not> us_interrupted s1 then [Ui_Write ''> ''] else []),
            s1\<lparr>us_line := [], us_overflow := False\<rparr>)
      else if length (us_line s) + 1 < 256 then ([], s\<lparr>us_line := us_line s @ [b]\<rparr>)
      else ([], s\<lparr>us_overflow := True\<rparr>))"

fun ui_bytes :: "bool \<Rightarrow> string \<Rightarrow> ui_state \<Rightarrow> ui_action list \<times> ui_state" where
  "ui_bytes color [] s = ([], s)"
| "ui_bytes color (b # bs) s =
     (let (as1, s1) = ui_byte color b s; (as2, s2) = ui_bytes color bs s1 in (as1 @ as2, s2))"

text \<open>The refresh of a live view; \<open>later\<close> is the time after the request.\<close>

definition ui_refresh :: "bool \<Rightarrow> u64 \<Rightarrow> u64 \<Rightarrow> ui_state \<Rightarrow> ui_action list \<times> ui_state" where
  "ui_refresh color now later s =
     (if us_watching s \<noteq> 0 \<and> us_next_refresh s \<le> now then
        ((if color then
            [Ui_Write (if us_watching s = 1 \<and> us_map_frame_drawn s then ESC # ''[H''
                       else (ESC # ''[2J'') @ (ESC # ''[H''))] else []) @
         [Ui_Request (if us_watching s = 1 then ''map'' else ''status''),
          Ui_Write (''Live view: commands stay in this view; blank Enter pauses refresh.'' @ [CHR 0x0A])],
         s\<lparr>us_map_frame_drawn := (us_watching s = 1),
           us_next_refresh := later + (if us_watching s = 1 then 500000000 else 1000000000)\<rparr>)
      else ([], s))"

text \<open>What a round of the loop waits for: a failing \<open>poll\<close> (by a signal or not), no input, bytes, the end of the
  input, a failing \<open>read\<close>, a broken terminal. A round gives the exit of the process once it ends.\<close>

datatype ui_event = Ui_Signal | Ui_Poll_Failed bool | Ui_Nothing | Ui_Data string | Ui_End_Of_Input | Ui_Read_Failed bool | Ui_Broken

definition ui_round :: "bool \<Rightarrow> u64 \<Rightarrow> u64 \<Rightarrow> ui_event \<Rightarrow> ui_state \<Rightarrow> ui_action list \<times> ui_state \<times> bool option" where
  "ui_round color now later event s =
     (if us_interrupted s then ([], s, Some True)
      else
        let (as1, s1) = ui_refresh color now later s in
        case event of
          Ui_Signal \<Rightarrow> (as1, s1\<lparr>us_interrupted := True\<rparr>, None)
        | Ui_Poll_Failed eintr \<Rightarrow> (as1, s1, if eintr then None else Some False)
        | Ui_Nothing \<Rightarrow> (as1, s1, None)
        | Ui_Data bytes \<Rightarrow> let (as2, s2) = ui_bytes color bytes s1 in (as1 @ as2, s2, None)
        | Ui_End_Of_Input \<Rightarrow> (as1, s1, Some True)
        | Ui_Read_Failed eintr \<Rightarrow> (as1, s1, if eintr then None else Some False)
        | Ui_Broken \<Rightarrow> (as1, s1, Some False))"

text \<open>The loop over a sequence of rounds, each with its two readings of the clock.\<close>

fun ui_run :: "bool \<Rightarrow> (u64 \<times> u64 \<times> ui_event) list \<Rightarrow> ui_state \<Rightarrow> ui_action list \<times> ui_state \<times> bool option" where
  "ui_run color [] s = ([], s, None)"
| "ui_run color ((now, later, event) # es) s =
     (let (as1, s1, result) = ui_round color now later event s in
      case result of
        Some ok \<Rightarrow> (as1 @ (if ok \<and> color then [Ui_Write (ESC # ''[?25h'' @ ESC # ''[0m'')] else []), s1, result)
      | None \<Rightarrow> let (as2, s2, result2) = ui_run color es s1 in (as1 @ as2, s2, result2))"

text \<open>The single request of \<open>-c\<close>: success, output, error output.\<close>

definition ui_once :: "string \<Rightarrow> bool \<Rightarrow> string + (string \<times> int) \<Rightarrow> bool \<times> string \<times> string" where
  "ui_once once color answer =
     (if once = ''quit'' then (True, [], [])
      else let (status, out, err) = request_core once color answer in (status = 0, out, err))"

text \<open>The arguments: usage and its exit code on the left; service, single request and colour on the right.\<close>

fun ui_parse_args :: "string list \<Rightarrow> string \<times> string option \<times> bool \<Rightarrow> bool + string \<times> string option \<times> bool" where
  "ui_parse_args [] a = Inr a"
| "ui_parse_args (x # xs) (name, once, color) =
     (if x = ''--help'' \<or> x = ''-h'' then Inl True
      else if x = ''--no-color'' then ui_parse_args xs (name, once, False)
      else if x = ''-n'' \<and> xs \<noteq> [] then ui_parse_args (tl xs) (hd xs, once, color)
      else if x = ''-c'' \<and> xs \<noteq> [] then ui_parse_args (tl xs) (name, Some (hd xs), color)
      else Inl False)"

section \<open>What is visible\<close>

text \<open>What a terminal shows of an output: everything but the escape sequences, which end with \<open>m\<close>.\<close>

function visible :: "string \<Rightarrow> string" where
  "visible [] = []"
| "visible (c # cs) = (if c = ESC then visible (tl (dropWhile (\<lambda>c. c \<noteq> CHR ''m'') cs)) else c # visible cs)"
  by pat_completeness auto
termination
proof (relation "measure length", goal_cases)
  case (2 c cs)
  have "length (tl (dropWhile (\<lambda>c. c \<noteq> CHR ''m'') cs)) \<le> length cs"
    using length_dropWhile_le [of "\<lambda>c. c \<noteq> CHR ''m''" cs] by simp
  then show ?case by simp
qed simp_all

definition printable :: "char \<Rightarrow> bool" where
  "printable c \<longleftrightarrow> CHR '' '' \<le> c \<or> c = CHR 0x09"

lemma printable_not_esc: "printable c \<Longrightarrow> c \<noteq> ESC"
  by (auto simp: printable_def less_eq_char_def)

lemma visible_append: "ESC \<notin> set xs \<Longrightarrow> visible (xs @ ys) = xs @ visible ys"
  by (induction xs) auto

lemma visible_plain: "list_all printable xs \<Longrightarrow> visible (xs @ ys) = xs @ visible ys"
  by (rule visible_append) (auto simp: list_all_iff dest: printable_not_esc)

text \<open>An escape sequence of the program.\<close>

definition is_code :: "string \<Rightarrow> bool" where
  "is_code s \<longleftrightarrow> (\<exists>w. s = ESC # w @ ''m'' \<and> CHR ''m'' \<notin> set w)"

lemma is_codeI: "s = ESC # w @ ''m'' \<Longrightarrow> CHR ''m'' \<notin> set w \<Longrightarrow> is_code s"
  by (auto simp: is_code_def)

lemma dropWhile_to: "x \<notin> set w \<Longrightarrow> dropWhile (\<lambda>c. c \<noteq> x) (w @ x # ys) = x # ys"
  by (induction w) auto

lemma visible_code: "is_code s \<Longrightarrow> visible (s @ ys) = visible ys"
  by (auto simp: is_code_def dropWhile_to)

lemma codes [simp]:
  "is_code UI_RESET" "is_code UI_DIM_CYAN" "is_code UI_DIM_WHITE" "is_code UI_RED" "is_code UI_GREEN" "is_code UI_YELLOW"
  "is_code UI_BLUE" "is_code UI_MAGENTA" "is_code UI_CYAN" "is_code UI_WHITE" "is_code UI_ORANGE"
  by (rule is_codeI [where w = "butlast (tl UI_RESET)"] is_codeI [where w = "butlast (tl UI_DIM_CYAN)"]
      is_codeI [where w = "butlast (tl UI_DIM_WHITE)"] is_codeI [where w = "butlast (tl UI_RED)"]
      is_codeI [where w = "butlast (tl UI_GREEN)"] is_codeI [where w = "butlast (tl UI_YELLOW)"]
      is_codeI [where w = "butlast (tl UI_BLUE)"] is_codeI [where w = "butlast (tl UI_MAGENTA)"]
      is_codeI [where w = "butlast (tl UI_CYAN)"] is_codeI [where w = "butlast (tl UI_WHITE)"]
      is_codeI [where w = "butlast (tl UI_ORANGE)"];
      simp add: UI_RESET_def UI_DIM_CYAN_def UI_DIM_WHITE_def UI_RED_def UI_GREEN_def UI_YELLOW_def UI_BLUE_def
        UI_MAGENTA_def UI_CYAN_def UI_WHITE_def UI_ORANGE_def)+

lemma token_codes: "(k, code) \<in> set keyword_tokens \<Longrightarrow> is_code code"
  by (auto simp: keyword_tokens_def)

lemma visible_painted:
  "is_code code \<Longrightarrow> list_all printable t \<Longrightarrow> visible (painted color code t @ ys) = t @ visible ys"
  by (simp add: painted_def visible_code visible_plain)

definition same_letters :: "string \<Rightarrow> string \<Rightarrow> bool" where
  "same_letters xs ys \<longleftrightarrow> map to_upper xs = map to_upper ys"

text \<open>A piece shows the part of the line the cursor moves over.\<close>

lemma first_seven:
  assumes "6 < length xs"
  shows "xs = xs ! 0 # xs ! 1 # xs ! 2 # xs ! 3 # xs ! 4 # xs ! 5 # xs ! 6 # drop 7 xs"
proof -
  have d: "k < length xs \<Longrightarrow> drop k xs = xs ! k # drop (Suc k) xs" for k by (simp add: Cons_nth_drop_Suc)
  have "xs = drop 0 xs" by simp
  also have "\<dots> = xs ! 0 # xs ! 1 # xs ! 2 # xs ! 3 # xs ! 4 # xs ! 5 # xs ! 6 # drop 7 xs"
    using assms d [of 0] d [of 1] d [of 2] d [of 3] d [of 4] d [of 5] d [of 6] by (cases "xs = []") (simp_all add: eval_nat_numeral)
  finally show ?thesis .
qed

lemma triplet_split:
  assumes "lamp_label_triplet cursor"
  shows "6 < length cursor" "same_letters (take 7 cursor) ''R  Y  G''"
proof -
  from assms show l: "6 < length cursor" by (auto simp: lamp_label_triplet_def char_at_def split: if_splits)
  have at: "char_at cursor i = cursor ! i" if "i \<le> 6" for i using that l by (simp add: char_at_def)
  have u: "to_upper CHR ''R'' = CHR ''R''" "to_upper CHR ''r'' = CHR ''R''" "to_upper CHR ''Y'' = CHR ''Y''"
    "to_upper CHR ''y'' = CHR ''Y''" "to_upper CHR ''G'' = CHR ''G''" "to_upper CHR ''g'' = CHR ''G''" by code_simp+
  from assms have c: "to_upper (cursor ! 0) = CHR ''R''" "cursor ! 1 = CHR '' ''" "cursor ! 2 = CHR '' ''"
    "to_upper (cursor ! 3) = CHR ''Y''" "cursor ! 4 = CHR '' ''" "cursor ! 5 = CHR '' ''" "to_upper (cursor ! 6) = CHR ''G''"
    unfolding lamp_label_triplet_def by (elim conjE disjE; simp add: at u)+
  have "take 7 cursor = [cursor ! 0, cursor ! 1, cursor ! 2, cursor ! 3, cursor ! 4, cursor ! 5, cursor ! 6]"
    by (subst first_seven [OF l]) simp
  with c u show "same_letters (take 7 cursor) ''R  Y  G''" by (simp add: same_letters_def)
qed

lemma printable_take: "list_all printable xs \<Longrightarrow> list_all printable (take n xs)"
  by (auto simp: list_all_iff dest: in_set_takeD)

lemma printable_chars [simp]:
  "printable CHR ''R''" "printable CHR ''Y''" "printable CHR ''G''" "printable CHR '' ''" "printable CHR ''{''"
  "printable CHR ''o''" "printable CHR ''}''" "printable CHR ''?''" "printable CHR ''D''" "printable CHR ''N''" "printable CHR ''>''"
  by code_simp+

lemma printable_letters [simp]:
  "list_all printable ''{o}''" "list_all printable ''{?}''" "list_all printable ''DN''" "list_all printable '' >>>''"
  "list_all printable ''R''" "list_all printable ''Y''" "list_all printable ''G''" "list_all printable ''  ''"
  by code_simp+

definition displays :: "string \<Rightarrow> string \<Rightarrow> bool" where
  "displays out t \<longleftrightarrow> (\<forall>ys. visible (out @ ys) = t @ visible ys)"

lemma displays_painted: "is_code code \<Longrightarrow> list_all printable t \<Longrightarrow> displays (painted color code t) t"
  by (simp add: displays_def visible_painted)

lemma displays_plain: "list_all printable t \<Longrightarrow> displays t t"
  by (simp add: displays_def visible_plain)

lemma displays_append: "displays a s \<Longrightarrow> displays b t \<Longrightarrow> displays (a @ b) (s @ t)"
  by (simp add: displays_def)

lemma triplet_shows: "displays (render_lamp_label_triplet cursor color) ''R  Y  G''"
proof -
  have "displays (render_lamp_label_triplet cursor color) (''R'' @ ''  '' @ ''Y'' @ ''  '' @ ''G'')"
    unfolding render_lamp_label_triplet_def by (intro displays_append displays_painted displays_plain) simp_all
  then show ?thesis by simp
qed

lemma take_length: "take n xs = t \<Longrightarrow> length t = n \<Longrightarrow> n \<le> length xs"
  by auto

lemma lamp_upper: "same_letters ''{o}'' ''{O}''"
  unfolding same_letters_def by code_simp

lemma same_refl [simp]: "same_letters t t"
  by (simp add: same_letters_def)

lemma active_code: "is_code (active_colors ! (slot mod 3))"
proof -
  have "slot mod 3 = 0 \<or> slot mod 3 = 1 \<or> slot mod 3 = 2" by auto
  then show ?thesis by (auto simp: active_colors_def)
qed

lemma inline_key_Some: "inline_key_color cursor = Some (len, code) \<Longrightarrow> len \<le> length cursor \<and> is_code code"
  using length_takeWhile_le [of "\<lambda>c. c \<noteq> CHR '']''" cursor]
  by (auto simp: inline_key_color_def Let_def split: if_splits)

lemma piece_shows:
  assumes "cursor \<noteq> []" "list_all printable cursor"
  shows "\<exists>t. displays (fst (render_piece color before slot cursor)) t \<and>
    same_letters t (take (fst (snd (render_piece color before slot cursor))) cursor)"
proof -
  note take_ok = printable_take [OF assms(2)]
  consider (lamp) "take 3 cursor = ''{O}'' \<or> take 3 cursor = ''{o}''"
    | (unknown) "\<not> (take 3 cursor = ''{O}'' \<or> take 3 cursor = ''{o}'')" "take 3 cursor = ''{?}''"
    | (triplet) "\<not> (take 3 cursor = ''{O}'' \<or> take 3 cursor = ''{o}'')" "take 3 cursor \<noteq> ''{?}''" "lamp_label_triplet cursor"
    | (rest) "\<not> (take 3 cursor = ''{O}'' \<or> take 3 cursor = ''{o}'')" "take 3 cursor \<noteq> ''{?}''" "\<not> lamp_label_triplet cursor"
    by blast
  then show ?thesis
  proof cases
    case lamp
    have "is_code (if cursor ! 1 = CHR ''O'' then active_colors ! (slot mod 3) else UI_DIM_WHITE)"
      by (simp add: active_code)
    from displays_painted [OF this printable_letters(1), of color] lamp lamp_upper show ?thesis
      by (intro exI [of _ "''{o}''"]) (auto simp: render_piece_def)
  next
    case unknown
    then show ?thesis by (intro exI [of _ "''{?}''"]) (simp add: render_piece_def displays_painted)
  next
    case triplet
    then show ?thesis using triplet_shows triplet_split(2) [OF triplet(3)]
      by (intro exI [of _ "''R  Y  G''"]) (simp add: render_piece_def same_letters_def)
  next
    case rest
    show ?thesis
    proof (cases "color \<and> take 6 cursor = ''DN >>>''")
      case True
      have "displays (painted True UI_GREEN ''DN'' @ '' >>>'') (''DN'' @ '' >>>'')"
        by (intro displays_append displays_painted displays_plain) simp_all
      with True rest show ?thesis by (intro exI [of _ "''DN >>>''"]) (simp add: render_piece_def)
    next
      case no_dn: False
      show ?thesis
      proof (cases "color \<and> (take 11 cursor = ''<[<<<][<<<]'' \<or> take 11 cursor = ''[>>>][>>>]>'')")
        case True
        with no_dn rest show ?thesis
          by (intro exI [of _ "take 11 cursor"])
            (simp only: render_piece_def if_False if_True fst_conv snd_conv same_refl displays_painted codes take_ok simp_thms)
      next
        case no_train: False
        define key where "key = (if \<not> color then None
          else case inline_key_color cursor of Some p \<Rightarrow> Some p | None \<Rightarrow> keyword_color before cursor)"
        have eq: "render_piece color before slot cursor = (case key of
            Some (len, code) \<Rightarrow> (painted True code (take len cursor), len, False)
          | None \<Rightarrow> ((if CHR '' '' \<le> hd cursor \<or> hd cursor = CHR 0x09 then [hd cursor] else []), 1, False))"
          using rest no_dn no_train unfolding render_piece_def key_def by (simp only: if_False simp_thms)
        show ?thesis
        proof (cases key)
          case None
          have "list_all printable [hd cursor]" using assms by (cases cursor) simp_all
          moreover from this have "CHR '' '' \<le> hd cursor \<or> hd cursor = CHR 0x09" by (simp add: printable_def)
          ultimately show ?thesis using assms(1) None unfolding eq
            by (intro exI [of _ "[hd cursor]"]) (cases cursor, simp_all add: displays_plain)
        next
          case (Some p)
          obtain len code where p: "p = (len, code)" by (cases p)
          then have "is_code code"
            using Some token_codes by (auto simp: key_def split: if_splits option.splits dest: inline_key_Some keyword_color_Some)
          from displays_painted [OF this take_ok] show ?thesis unfolding eq Some p
            by (intro exI [of _ "take len cursor"]) simp
        qed
      qed
    qed
  qed
qed

lemma cursor_shows:
  "list_all printable cursor \<Longrightarrow> \<exists>t. displays (render_cursor color before slot cursor) t \<and> same_letters t cursor"
proof (induction color before slot cursor rule: render_cursor.induct)
  case (1 color before slot cursor)
  show ?case
  proof (cases "cursor = []")
    case True
    then show ?thesis by (subst render_cursor.simps) (simp add: displays_def)
  next
    case False
    obtain out n lamp where p: "render_piece color before slot cursor = (out, n, lamp)"
      by (cases "render_piece color before slot cursor")
    from piece_shows [OF False "1.prems", of color before slot] obtain t where
      t: "displays out t" "same_letters t (take n cursor)" unfolding p by auto
    have "list_all printable (drop n cursor)" using "1.prems" by (auto simp: list_all_iff dest: in_set_dropD)
    from "1.IH" [OF False p [symmetric] refl refl this] obtain r where
      r: "displays (render_cursor color (Some (last (take n cursor))) (if lamp then Suc slot else slot) (drop n cursor)) r"
        "same_letters r (drop n cursor)" by blast
    have "same_letters (t @ r) (take n cursor @ drop n cursor)"
      using t(2) r(2) by (simp only: same_letters_def map_append)
    with displays_append [OF t(1) r(1)] False show ?thesis
      by (subst render_cursor.simps) (auto simp: p)
  qed
qed

lemma line_shows: "list_all printable line \<Longrightarrow> \<exists>t. displays (render_line line color) t \<and> same_letters t line"
  using cursor_shows [of line color None 0] displays_append [OF _ displays_append [OF displays_plain]]
  by (auto simp: render_line_def intro!: exI [of _ line]) (simp add: displays_def visible_code visible_plain)

lemma render_shows:
  "list_all (\<lambda>c. printable c \<or> c = CHR 0x0A) t \<Longrightarrow> \<exists>v. displays (render t color) v \<and> same_letters v t"
proof (induction t color rule: render.induct)
  case (1 t color)
  show ?case
  proof (cases "t = []")
    case True
    then show ?thesis by (subst render.simps) (simp add: displays_def)
  next
    case False
    let ?line = "takeWhile (\<lambda>c. c \<noteq> CHR 0x0A) t" and ?rest = "dropWhile (\<lambda>c. c \<noteq> CHR 0x0A) t"
    have eq: "render t color = render_line ?line color @ (if ?rest = [] then [] else CHR 0x0A # render (tl ?rest) color)"
      using False by (subst render.simps) (simp add: Let_def)
    have "list_all printable ?line"
      using "1.prems" by (auto simp: list_all_iff dest: set_takeWhileD)
    from line_shows [OF this, of color] obtain v where v: "displays (render_line ?line color) v" "same_letters v ?line" by blast
    show ?thesis
    proof (cases "?rest = []")
      case True
      then have "t = ?line" by (metis append_Nil2 takeWhile_dropWhile_id)
      with v True show ?thesis unfolding eq by (intro exI [of _ v]) simp
    next
      case rest: False
      have nl: "?rest = CHR 0x0A # tl ?rest" using rest hd_dropWhile [OF rest] by (metis list.collapse)
      have "list_all (\<lambda>c. printable c \<or> c = CHR 0x0A) (tl ?rest)"
        using "1.prems" rest by (auto simp: list_all_iff dest!: list.set_sel(2) [OF rest] set_dropWhileD)
      from "1.IH" [OF False refl refl rest this] obtain r where
        r: "displays (render (tl ?rest) color) r" "same_letters r (tl ?rest)" by blast
      have d: "displays (CHR 0x0A # render (tl ?rest) color) (CHR 0x0A # r)" using r(1) by (simp add: displays_def)
      have "same_letters (v @ CHR 0x0A # r) (?line @ CHR 0x0A # tl ?rest)" using v(2) r(2) by (simp add: same_letters_def)
      then have "same_letters (v @ CHR 0x0A # r) t" using nl by (metis takeWhile_dropWhile_id)
      with displays_append [OF v(1) d] rest show ?thesis unfolding eq by auto
    qed
  qed
qed

text \<open>The display adds, drops and moves nothing. For every text of printable characters and line breaks, with
  colour or without, what the terminal shows of the output, escape sequences aside, is the text itself, up to the
  case of letters, which the lamp markers and labels change on purpose.\<close>

theorem display_shows_text:
  assumes "list_all (\<lambda>c. printable c \<or> c = CHR 0x0A) t"
  shows "map to_upper (visible (render t color)) = map to_upper t"
proof -
  from render_shows [OF assms, of color] obtain v where v: "displays (render t color) v" "same_letters v t" by blast
  from v(1) have "visible (render t color @ []) = v @ visible []" unfolding displays_def by blast
  with v(2) show ?thesis by (simp add: same_letters_def)
qed

lemma display_shows_text_witness:
  "map to_upper (visible (render ''| I1 {O}{o}{o} R  y  g FAULT |'' True)) = map to_upper ''| I1 {O}{o}{o} R  y  g FAULT |''"
proof -
  have "list_all (\<lambda>c. printable c \<or> c = CHR 0x0A) ''| I1 {O}{o}{o} R  y  g FAULT |''" by code_simp
  from display_shows_text [OF this] show ?thesis .
qed

section \<open>What is read off the screen\<close>

text \<open>A viewer who sees the colours reads the map as follows: text in dim white is small, a bulb in bold red,
  yellow or green is lit, everything else is as it stands. \<open>code\<close> is the escape sequence without its first and
  last character.\<close>

definition to_lower :: "char \<Rightarrow> char" where
  "to_lower c = (if CHR ''A'' \<le> c \<and> c \<le> CHR ''Z'' then char_of (of_char c + (32 :: nat)) else c)"

definition coloured :: "string \<Rightarrow> string \<Rightarrow> string" where
  "coloured code t =
     (if code = ''[2;37'' then map to_lower t
      else if t = ''{o}'' \<and> (code = ''[1;31'' \<or> code = ''[1;33'' \<or> code = ''[1;32'') then ''{O}'' else t)"

text \<open>A coloured stretch runs from one escape sequence to the next.\<close>

function read_screen :: "string \<Rightarrow> string" where
  "read_screen [] = []"
| "read_screen (c # cs) =
     (if c \<noteq> ESC then c # read_screen cs
      else let code = takeWhile (\<lambda>c. c \<noteq> CHR ''m'') cs; after = tl (dropWhile (\<lambda>c. c \<noteq> CHR ''m'') cs) in
        coloured code (takeWhile (\<lambda>c. c \<noteq> ESC) after) @
        read_screen (tl (dropWhile (\<lambda>c. c \<noteq> CHR ''m'') (dropWhile (\<lambda>c. c \<noteq> ESC) after))))"
  by pat_completeness auto
termination
proof (relation "measure length", goal_cases)
  case (3 c cs code after)
  have shrink: "length (tl (dropWhile P xs)) \<le> length xs" "length (dropWhile P xs) \<le> length xs" for P and xs :: string
    using length_dropWhile_le [of P xs] by simp_all
  have "length after \<le> length cs" using 3 shrink(1) by simp
  moreover have "length (dropWhile (\<lambda>c. c \<noteq> ESC) after) \<le> length after" by (rule shrink(2))
  ultimately show ?case using shrink(1) [of "\<lambda>c. c \<noteq> CHR ''m''" "dropWhile (\<lambda>c. c \<noteq> ESC) after"] by simp
qed simp_all

definition reads :: "string \<Rightarrow> string \<Rightarrow> bool" where
  "reads out t \<longleftrightarrow> (\<forall>ys. read_screen (out @ ys) = t @ read_screen ys)"

lemma reads_plain: "list_all printable t \<Longrightarrow> reads t t"
proof -
  assume "list_all printable t"
  then have "ESC \<notin> set t" using printable_not_esc by (auto simp: list_all_iff)
  then have "read_screen (t @ ys) = t @ read_screen ys" for ys by (induction t) auto
  then show ?thesis by (simp add: reads_def)
qed

lemma reads_append: "reads a s \<Longrightarrow> reads b t \<Longrightarrow> reads (a @ b) (s @ t)"
  by (simp add: reads_def)

lemma takeWhile_to: "x \<notin> set w \<Longrightarrow> takeWhile (\<lambda>c. c \<noteq> x) (w @ x # ys) = w"
  by (induction w) auto

lemma reads_painted:
  assumes "CHR ''m'' \<notin> set w" "list_all printable t"
  shows "reads (painted True (ESC # w @ ''m'') t) (coloured w t)"
proof -
  have t: "ESC \<notin> set t" using assms(2) printable_not_esc by (auto simp: list_all_iff)
  have r: "UI_RESET = ESC # ''[0'' @ ''m''" by (simp add: UI_RESET_def)
  have "read_screen (painted True (ESC # w @ ''m'') t @ ys) = coloured w t @ read_screen ys" for ys
  proof -
    have e: "painted True (ESC # w @ ''m'') t @ ys = ESC # (w @ CHR ''m'' # (t @ ESC # (''[0'' @ CHR ''m'' # ys)))"
      by (simp add: painted_def r)
    have d: "dropWhile (\<lambda>c. c \<noteq> CHR ''m'') (ESC # (''[0'' @ CHR ''m'' # ys)) = CHR ''m'' # ys" by simp
    show ?thesis unfolding e read_screen.simps(2) Let_def takeWhile_to [OF assms(1)] dropWhile_to [OF assms(1)] list.sel(3)
      takeWhile_to [OF t] dropWhile_to [OF t] d by simp
  qed
  then show ?thesis by (simp add: reads_def)
qed

text \<open>The escape sequences of the program, by their inner part.\<close>

lemma code_inner:
  "UI_DIM_CYAN = ESC # ''[2;36'' @ ''m''" "UI_DIM_WHITE = ESC # ''[2;37'' @ ''m''" "UI_RED = ESC # ''[1;31'' @ ''m''"
  "UI_GREEN = ESC # ''[1;32'' @ ''m''" "UI_YELLOW = ESC # ''[1;33'' @ ''m''" "UI_BLUE = ESC # ''[1;34'' @ ''m''"
  "UI_MAGENTA = ESC # ''[1;35'' @ ''m''" "UI_CYAN = ESC # ''[1;36'' @ ''m''" "UI_WHITE = ESC # ''[1;37'' @ ''m''"
  "UI_ORANGE = ESC # ''[1;38;5;208'' @ ''m''"
  by (simp_all add: UI_DIM_CYAN_def UI_DIM_WHITE_def UI_RED_def UI_GREEN_def UI_YELLOW_def UI_BLUE_def UI_MAGENTA_def
      UI_CYAN_def UI_WHITE_def UI_ORANGE_def)

definition bright :: "string \<Rightarrow> bool" where
  "bright code \<longleftrightarrow> (\<exists>w. code = ESC # w @ ''m'' \<and> CHR ''m'' \<notin> set w \<and> w \<noteq> ''[2;37'')"

lemma brightI: "code = ESC # w @ ''m'' \<Longrightarrow> CHR ''m'' \<notin> set w \<Longrightarrow> w \<noteq> ''[2;37'' \<Longrightarrow> bright code"
  by (auto simp: bright_def)

lemma bright_codes [simp]:
  "bright UI_DIM_CYAN" "bright UI_RED" "bright UI_GREEN" "bright UI_YELLOW" "bright UI_BLUE" "bright UI_MAGENTA"
  "bright UI_CYAN" "bright UI_WHITE" "bright UI_ORANGE"
  by (rule brightI, rule code_inner, simp, simp)+

lemma reads_bright:
  assumes "bright code" "list_all printable t" "t \<noteq> ''{o}''"
  shows "reads (painted True code t) t"
proof -
  obtain w where w: "code = ESC # w @ ''m''" "CHR ''m'' \<notin> set w" "w \<noteq> ''[2;37''" using assms(1) by (auto simp: bright_def)
  have "coloured w t = t" using w(3) assms(3) by (simp add: coloured_def)
  with reads_painted [OF w(2) assms(2)] w(1) show ?thesis by simp
qed

lemma token_bright: "(k, code) \<in> set keyword_tokens \<Longrightarrow> bright code"
  by (auto simp: keyword_tokens_def)

lemma inline_key_bright: "inline_key_color cursor = Some (len, code) \<Longrightarrow> bright code"
  by (auto simp: inline_key_color_def Let_def split: if_splits)

lemma reads_bulb: "reads (painted True UI_DIM_WHITE ''{o}'') ''{o}''" "reads (painted True (active_colors ! (slot mod 3)) ''{o}'') ''{O}''"
proof -
  have p: "list_all printable ''{o}''" by code_simp
  have c: "coloured ''[2;37'' ''{o}'' = ''{o}''" "coloured ''[1;31'' ''{o}'' = ''{O}''" "coloured ''[1;33'' ''{o}'' = ''{O}''"
    "coloured ''[1;32'' ''{o}'' = ''{O}''" by code_simp+
  have m: "CHR ''m'' \<notin> set ''[2;37''" "CHR ''m'' \<notin> set ''[1;31''" "CHR ''m'' \<notin> set ''[1;33''" "CHR ''m'' \<notin> set ''[1;32''" by simp_all
  show "reads (painted True UI_DIM_WHITE ''{o}'') ''{o}''"
    using reads_painted [OF m(1) p] c(1) by (simp only: code_inner(2))
  have "reads (painted True UI_RED ''{o}'') ''{O}''" "reads (painted True UI_YELLOW ''{o}'') ''{O}''" "reads (painted True UI_GREEN ''{o}'') ''{O}''"
    using reads_painted [OF m(2) p] reads_painted [OF m(3) p] reads_painted [OF m(4) p] c(2-4)
    by (simp_all only: code_inner)
  moreover have "slot mod 3 = 0 \<or> slot mod 3 = 1 \<or> slot mod 3 = 2" by auto
  ultimately show "reads (painted True (active_colors ! (slot mod 3)) ''{o}'') ''{O}''" by (auto simp: active_colors_def)
qed

lemma reads_label:
  assumes "c = u \<or> c = to_lower u" "u \<noteq> to_lower u" "printable u" "bright code"
  shows "reads (painted True (if c = u then code else UI_DIM_WHITE) [u]) [c]"
proof (cases "c = u")
  case True
  then show ?thesis using reads_bright [OF assms(4), of "[u]"] assms(3) by simp
next
  case False
  then have "coloured ''[2;37'' [u] = [c]" using assms(1) by (simp add: coloured_def)
  with reads_painted [of "''[2;37''" "[u]"] assms(3) False show ?thesis by (simp only: code_inner(2)) simp
qed

lemma triplet_reads:
  assumes "lamp_label_triplet cursor"
  shows "reads (render_lamp_label_triplet cursor True) (take 7 cursor)"
proof -
  from assms have l: "6 < length cursor" by (rule triplet_split)
  have at: "char_at cursor i = cursor ! i" if "i \<le> 6" for i using that l by (simp add: char_at_def)
  have u: "to_lower CHR ''R'' = CHR ''r''" "to_lower CHR ''Y'' = CHR ''y''" "to_lower CHR ''G'' = CHR ''g''" by code_simp+
  from assms have c: "cursor ! 0 = CHR ''R'' \<or> cursor ! 0 = to_lower CHR ''R''" "cursor ! 1 = CHR '' ''" "cursor ! 2 = CHR '' ''"
    "cursor ! 3 = CHR ''Y'' \<or> cursor ! 3 = to_lower CHR ''Y''" "cursor ! 4 = CHR '' ''" "cursor ! 5 = CHR '' ''"
    "cursor ! 6 = CHR ''G'' \<or> cursor ! 6 = to_lower CHR ''G''"
    unfolding lamp_label_triplet_def u by (simp_all add: at)
  have p: "list_all printable ''  ''" by code_simp
  have "reads (render_lamp_label_triplet cursor True) ([cursor ! 0] @ ''  '' @ [cursor ! 3] @ ''  '' @ [cursor ! 6])"
    unfolding render_lamp_label_triplet_def
    by (intro reads_append reads_label reads_plain p c) (simp_all add: u)
  moreover have "take 7 cursor = [cursor ! 0] @ ''  '' @ [cursor ! 3] @ ''  '' @ [cursor ! 6]"
    by (subst first_seven [OF l]) (simp add: c c(2) [unfolded One_nat_def])
  ultimately show ?thesis by simp
qed

lemma piece_reads:
  assumes "cursor \<noteq> []" "list_all printable cursor"
  shows "reads (fst (render_piece True before slot cursor)) (take (fst (snd (render_piece True before slot cursor))) cursor)"
proof -
  note take_ok = printable_take [OF assms(2)]
  consider (lit) "take 3 cursor = ''{O}''" | (dark) "take 3 cursor = ''{o}''"
    | (unknown) "take 3 cursor \<noteq> ''{O}''" "take 3 cursor \<noteq> ''{o}''" "take 3 cursor = ''{?}''"
    | (triplet) "take 3 cursor \<noteq> ''{O}''" "take 3 cursor \<noteq> ''{o}''" "take 3 cursor \<noteq> ''{?}''" "lamp_label_triplet cursor"
    | (rest) "take 3 cursor \<noteq> ''{O}''" "take 3 cursor \<noteq> ''{o}''" "take 3 cursor \<noteq> ''{?}''" "\<not> lamp_label_triplet cursor"
    by blast
  then show ?thesis
  proof cases
    case lit
    then have "cursor ! 1 = CHR ''O''" by (metis nth_take list.sel(1) nth_Cons_0 nth_Cons_Suc One_nat_def one_less_numeral_iff semiring_norm(77))
    then show ?thesis using lit reads_bulb(2) by (simp add: render_piece_def)
  next
    case dark
    then have "cursor ! 1 = CHR ''o''" by (metis nth_take list.sel(1) nth_Cons_0 nth_Cons_Suc One_nat_def one_less_numeral_iff semiring_norm(77))
    then show ?thesis using dark reads_bulb(1) by (simp add: render_piece_def)
  next
    case unknown
    then show ?thesis using reads_bright [of UI_YELLOW "''{?}''"] by (simp add: render_piece_def)
  next
    case triplet
    then show ?thesis using triplet_reads by (simp add: render_piece_def)
  next
    case rest
    show ?thesis
    proof (cases "take 6 cursor = ''DN >>>''")
      case True
      have "reads (painted True UI_GREEN ''DN'' @ '' >>>'') (''DN'' @ '' >>>'')"
        by (intro reads_append reads_bright reads_plain) simp_all
      with True rest show ?thesis by (simp add: render_piece_def)
    next
      case no_dn: False
      show ?thesis
      proof (cases "take 11 cursor = ''<[<<<][<<<]'' \<or> take 11 cursor = ''[>>>][>>>]>''")
        case True
        then have "take 11 cursor \<noteq> ''{o}''" by auto
        from reads_bright [OF _ take_ok this, of UI_ORANGE] True no_dn rest show ?thesis
          by (simp only: render_piece_def if_False if_True fst_conv snd_conv simp_thms bright_codes)
      next
        case no_train: False
        define key where "key = (case inline_key_color cursor of Some p \<Rightarrow> Some p | None \<Rightarrow> keyword_color before cursor)"
        have eq: "render_piece True before slot cursor = (case key of
            Some (len, code) \<Rightarrow> (painted True code (take len cursor), len, False)
          | None \<Rightarrow> ((if CHR '' '' \<le> hd cursor \<or> hd cursor = CHR 0x09 then [hd cursor] else []), 1, False))"
          using rest no_dn no_train unfolding render_piece_def key_def by (simp only: if_False if_True simp_thms)
        show ?thesis
        proof (cases key)
          case None
          have "list_all printable [hd cursor]" using assms by (cases cursor) simp_all
          moreover from this have "CHR '' '' \<le> hd cursor \<or> hd cursor = CHR 0x09" by (simp add: printable_def)
          ultimately show ?thesis using assms(1) None unfolding eq by (cases cursor) (simp_all add: reads_plain)
        next
          case (Some p)
          obtain len code where p: "p = (len, code)" by (cases p)
          then have "bright code" "len \<le> length cursor"
            using Some token_bright by (auto simp: key_def split: option.splits dest: inline_key_bright inline_key_Some keyword_color_Some)
          moreover have "take len cursor \<noteq> ''{o}''"
          proof
            assume *: "take len cursor = ''{o}''"
            from arg_cong [OF this, of length] \<open>len \<le> length cursor\<close> have "len = 3" by simp
            with * rest show False by simp
          qed
          ultimately show ?thesis unfolding eq Some p by (simp add: reads_bright take_ok)
        qed
      qed
    qed
  qed
qed

lemma cursor_reads: "list_all printable cursor \<Longrightarrow> color = True \<Longrightarrow> reads (render_cursor color before slot cursor) cursor"
proof (induction color before slot cursor rule: render_cursor.induct)
  case (1 color before slot cursor)
  show ?case
  proof (cases "cursor = []")
    case True
    then show ?thesis by (subst render_cursor.simps) (simp add: reads_def)
  next
    case False
    obtain out n lamp where p: "render_piece color before slot cursor = (out, n, lamp)"
      by (cases "render_piece color before slot cursor")
    have t: "reads out (take n cursor)" using piece_reads [OF False "1.prems"(1), of before slot] "1.prems"(2) p by simp
    have "list_all printable (drop n cursor)" using "1.prems" by (auto simp: list_all_iff dest: in_set_dropD)
    from "1.IH" [OF False p [symmetric] refl refl this "1.prems"(2)]
    have "reads (render_cursor color (Some (last (take n cursor))) (if lamp then Suc slot else slot) (drop n cursor)) (drop n cursor)" .
    from reads_append [OF t this] False show ?thesis by (subst render_cursor.simps) (auto simp: p)
  qed
qed

lemma line_reads: "list_all printable line \<Longrightarrow> reads (render_line line True) line"
proof -
  assume l: "list_all printable line"
  show ?thesis
  proof (cases "border_line line")
    case True
    then have "line \<noteq> ''{o}''" by (auto simp: border_line_def char_at_def)
    from reads_bright [OF _ l this, of UI_DIM_CYAN] True show ?thesis by (simp add: render_line_def painted_def)
  next
    case False
    then show ?thesis using cursor_reads [OF l refl] by (simp add: render_line_def)
  qed
qed

lemma render_reads:
  "list_all (\<lambda>c. printable c \<or> c = CHR 0x0A) t \<Longrightarrow> color = True \<Longrightarrow> reads (render t color) t"
proof (induction t color rule: render.induct)
  case (1 t color)
  show ?case
  proof (cases "t = []")
    case True
    then show ?thesis by (subst render.simps) (simp add: reads_def)
  next
    case False
    let ?line = "takeWhile (\<lambda>c. c \<noteq> CHR 0x0A) t" and ?rest = "dropWhile (\<lambda>c. c \<noteq> CHR 0x0A) t"
    have eq: "render t color = render_line ?line color @ (if ?rest = [] then [] else CHR 0x0A # render (tl ?rest) color)"
      using False by (subst render.simps) (simp add: Let_def)
    have "list_all printable ?line" using "1.prems"(1) by (auto simp: list_all_iff dest: set_takeWhileD)
    then have v: "reads (render_line ?line color) ?line" using line_reads "1.prems"(2) by simp
    show ?thesis
    proof (cases "?rest = []")
      case True
      then have "t = ?line" by (metis append_Nil2 takeWhile_dropWhile_id)
      with v True show ?thesis unfolding eq by simp
    next
      case rest: False
      have nl: "?rest = CHR 0x0A # tl ?rest" using rest hd_dropWhile [OF rest] by (metis list.collapse)
      have "list_all (\<lambda>c. printable c \<or> c = CHR 0x0A) (tl ?rest)"
        using "1.prems"(1) rest by (auto simp: list_all_iff dest!: list.set_sel(2) [OF rest] set_dropWhileD)
      from "1.IH" [OF False refl refl rest this "1.prems"(2)] have r: "reads (render (tl ?rest) color) (tl ?rest)" .
      have "reads (CHR 0x0A # render (tl ?rest) color) (CHR 0x0A # tl ?rest)" using r by (simp add: reads_def)
      from reads_append [OF v this]
      have "reads (render_line ?line color @ CHR 0x0A # render (tl ?rest) color) (?line @ ?rest)" by (simp only: nl [symmetric])
      then show ?thesis by (simp only: eq if_False rest takeWhile_dropWhile_id simp_thms)
    qed
  qed
qed

section \<open>Shortcuts\<close>

text \<open>What the core makes of a line.\<close>

definition core_understands :: "string \<Rightarrow> bool" where
  "core_understands line \<longleftrightarrow>
     (view_of line \<noteq> None \<or> central_parse_command line \<noteq> None \<or>
      (has_prefix ''train-cmd '' line \<and> central_parse_train_command (drop 10 line) \<noteq> None))"

definition quick_verbs :: "string list" where
  "quick_verbs = [''mode-fixed '', ''mode-sensor '', ''sim-start '', ''sim-stop '']"

definition quick_lines :: "string list" where
  "quick_lines = [''status'', ''events'', ''faults'', ''commands'', ''help'', ''mode-fixed all'', ''mode-sensor all'',
     ''sim-start all'', ''sim-stop all'', ''train-cmd train-up'', ''train-cmd train-down'', ''train-cmd status''] @
     concat (map (\<lambda>verb. map (\<lambda>i. verb @ ''I'' @ show_nat i) [1..<7]) quick_verbs)"

lemma quick_lines_understood: "list_all core_understands quick_lines"
  by code_simp

lemma fixed_lines_listed:
  "list_all (\<lambda>(_, s). case s of Translated l \<Rightarrow> l \<in> set (take 12 quick_lines) | _ \<Rightarrow> True) fixed_shortcuts"
  by code_simp

lemma one_of_four:
  assumes "Translated line = (if c then if c1 then Translated x1 else if c2 then Translated x2
      else if c3 then Translated x3 else if c4 then Translated x4 else Forwarded else Forwarded)"
    "c \<Longrightarrow> x1 \<in> Q" "c \<Longrightarrow> x2 \<in> Q" "c \<Longrightarrow> x3 \<in> Q" "c \<Longrightarrow> x4 \<in> Q"
  shows "line \<in> Q"
  using assms by (auto split: if_splits)

lemma translated_listed:
  assumes "translate_shortcut input = Translated line"
  shows "line \<in> set quick_lines"
proof (cases "map_of fixed_shortcuts (map to_upper input)")
  case None
  let ?k = "map to_upper input ! 1" and ?v = "map to_upper input ! 0"
  define n :: nat where "n = of_char ?k - of_char CHR ''0''"
  have in_list: "(verb @ ''I'' @ show_nat n) \<in> set quick_lines" if "verb \<in> set quick_verbs" "CHR ''1'' \<le> ?k" "?k \<le> CHR ''6''" for verb
  proof -
    have "(49 :: nat) \<le> of_char ?k" "of_char ?k \<le> (54 :: nat)" using that(2,3) by (simp_all add: less_eq_char_def)
    then have "n \<in> {1..<7}" unfolding n_def by simp arith
    then have "n \<in> set [1..<7]" by simp
    then have "verb @ ''I'' @ show_nat n \<in> set (map (\<lambda>i. verb @ ''I'' @ show_nat i) [1..<7])"
      unfolding set_map by (rule imageI)
    moreover have "set (map (\<lambda>i. verb @ ''I'' @ show_nat i) [1..<7]) \<in>
        set ` set (map (\<lambda>verb. map (\<lambda>i. verb @ ''I'' @ show_nat i) [1..<7]) quick_verbs)"
      using that(1) unfolding set_map image_image by (rule imageI)
    ultimately show ?thesis unfolding quick_lines_def set_append set_concat by (intro UnI2 UnionI)
  qed
  have verbs: "''mode-fixed '' \<in> set quick_verbs" "''mode-sensor '' \<in> set quick_verbs"
    "''sim-start '' \<in> set quick_verbs" "''sim-stop '' \<in> set quick_verbs" by (simp_all add: quick_verbs_def)
  have "length input < 32" using assms by (rule contrapos_pp) (simp add: translate_shortcut_def)
  then have "Translated line = (if length input = 2 \<and> CHR ''1'' \<le> ?k \<and> ?k \<le> CHR ''6'' then
      if ?v = CHR ''F'' then Translated (''mode-fixed '' @ ''I'' @ show_nat n)
      else if ?v = CHR ''S'' then Translated (''mode-sensor '' @ ''I'' @ show_nat n)
      else if ?v = CHR ''A'' then Translated (''sim-start '' @ ''I'' @ show_nat n)
      else if ?v = CHR ''X'' then Translated (''sim-stop '' @ ''I'' @ show_nat n)
      else Forwarded else Forwarded)"
    unfolding assms [symmetric] translate_shortcut_def n_def Let_def None by (simp only: option.case not_le [symmetric] if_False)
  then show ?thesis by (rule one_of_four) (elim conjE, rule in_list, rule verbs, assumption+)+
next
  case (Some s)
  then have "(map to_upper input, s) \<in> set fixed_shortcuts" by (rule map_of_SomeD)
  moreover have "s = Translated line" using assms unfolding translate_shortcut_def Let_def Some
    by (simp only: option.case split: if_splits) simp
  ultimately have "line \<in> set (take 12 quick_lines)"
    using fixed_lines_listed unfolding list_all_iff by (metis (no_types, lifting) case_prod_conv shortcut.simps(24))
  then show ?thesis by (rule in_set_takeD)
qed

text \<open>C36: Every quick key that the display translates becomes a line that the core understands: a view, a
  command of the operator language, or a Train command.\<close>

theorem shortcuts_understood:
  assumes "translate_shortcut input = Translated line"
  shows "core_understands line"
  using translated_listed [OF assms] quick_lines_understood by (simp add: list_all_iff)

lemma shortcuts_understood_witness: "translate_shortcut ''x4'' = Translated ''sim-stop I4'' \<and> core_understands ''sim-stop I4''"
proof -
  have k: "translate_shortcut ''x4'' = Translated ''sim-stop I4''" by code_simp
  from shortcuts_understood [OF k] k show ?thesis by simp
qed

text \<open>The key of both trains that the live map offers is not translated, and the core does not know it.\<close>

lemma tb_unknown: "translate_shortcut ''TB'' = Forwarded \<and> \<not> core_understands ''TB''"
  by code_simp

section \<open>Typed lines\<close>

lemma typed_bytes:
  assumes "CHR 0x0A \<notin> set bs" "\<not> us_interrupted s" "length (us_line s) \<le> 255"
  shows "ui_bytes color bs s =
    ([], s\<lparr>us_line := take 255 (us_line s @ bs), us_overflow := (us_overflow s \<or> 255 < length (us_line s @ bs))\<rparr>)"
  using assms
proof (induction bs arbitrary: s)
  case (Cons b bs)
  let ?s = "snd (ui_byte color b s)"
  have step: "ui_byte color b s = ([], if length (us_line s) < 255 then s\<lparr>us_line := us_line s @ [b]\<rparr> else s\<lparr>us_overflow := True\<rparr>)"
  proof -
    have "b \<noteq> CHR 0x0A" using Cons.prems(1) by auto
    with Cons.prems(2,3) show ?thesis by (simp only: ui_byte_def if_False) simp
  qed
  show ?case
  proof (cases "length (us_line s) < 255")
    case True
    with Cons.IH [of "s\<lparr>us_line := us_line s @ [b]\<rparr>"] Cons.prems show ?thesis by (simp add: step Let_def)
  next
    case False
    with Cons.IH [of "s\<lparr>us_overflow := True\<rparr>"] Cons.prems show ?thesis by (simp add: step Let_def)
  qed
qed (simp)

definition requests :: "ui_action list \<Rightarrow> string list" where
  "requests actions = concat (map (\<lambda>a. case a of Ui_Request r \<Rightarrow> [r] | Ui_Write _ \<Rightarrow> []) actions)"

text \<open>The request a typed line is to make.\<close>

definition line_request :: "string \<Rightarrow> string list" where
  "line_request bs =
     (let command = ui_line_text bs in
      if 255 < length bs \<or> command = [] then []
      else case translate_shortcut command of
        Translated r \<Rightarrow> [r]
      | Forwarded \<Rightarrow> if command = ''quit'' \<or> command = ''watch'' then [] else [command]
      | _ \<Rightarrow> [])"

lemma bytes_append:
  "ui_bytes color (xs @ ys) s = (let (as1, s1) = ui_bytes color xs s; (as2, s2) = ui_bytes color ys s1 in (as1 @ as2, s2))"
  by (induction xs arbitrary: s) (simp_all add: Let_def split_beta)

text \<open>C35: A typed line is sent once or not at all. From an empty line buffer, whatever is typed up to the end of the
  line makes exactly the request of that line, trimmed and translated, and the buffer is empty again; a line that does
  not fit the buffer of 256 bytes makes no request, and neither does an empty one.\<close>

theorem typed_line_sent_once:
  assumes "CHR 0x0A \<notin> set bs" "us_line s = []" "\<not> us_overflow s" "\<not> us_interrupted s"
  shows "requests (fst (ui_bytes color (bs @ [CHR 0x0A]) s)) = line_request bs \<and>
    us_line (snd (ui_bytes color (bs @ [CHR 0x0A]) s)) = [] \<and> \<not> us_overflow (snd (ui_bytes color (bs @ [CHR 0x0A]) s))"
proof -
  let ?s = "s\<lparr>us_line := take 255 bs, us_overflow := (255 < length bs)\<rparr>"
  have b: "ui_bytes color bs s = ([], ?s)" using typed_bytes [OF assms(1,4)] assms(2,3) by simp
  have e: "ui_bytes color (bs @ [CHR 0x0A]) s = ui_byte color CHR 0x0A ?s"
    by (simp add: bytes_append b Let_def split_beta)
  have "requests (fst (ui_byte color CHR 0x0A ?s)) = line_request bs"
  proof (cases "255 < length bs")
    case True
    then show ?thesis using assms(4)
      by (simp add: ui_byte_def ui_command_line_def Let_def split_beta line_request_def requests_def)
  next
    case False
    then show ?thesis using assms(4)
      by (simp add: ui_byte_def ui_command_line_def Let_def split_beta line_request_def requests_def split: shortcut.split)
  qed
  then show ?thesis unfolding e using assms(4) by (simp add: ui_byte_def Let_def split_beta)
qed

lemma typed_line_sent_once_witness:
  "requests (fst (ui_bytes True (''  f3 '' @ [CHR 0x0A]) ui_start)) = [''mode-fixed I3'']"
proof -
  have "CHR 0x0A \<notin> set ''  f3 ''" "us_line ui_start = []" "\<not> us_overflow ui_start" "\<not> us_interrupted ui_start"
    by (simp_all add: ui_start_def)
  moreover have "line_request ''  f3 '' = [''mode-fixed I3'']" by code_simp
  ultimately show ?thesis using typed_line_sent_once [of "''  f3 ''" ui_start True] by simp
qed

end
