(* ===== verification/Central_Ui_Ipc.thy ===== *)
theory Central_Ui_Ipc
  imports Central_Display
begin

text \<open>
  The private channel between the Central core and its display process, \<^verbatim>\<open>ui_ipc.c\<close>: the fixed-size request
  and response, the checks of the receiver and of the client, and the server thread. What the kernel delivers and
  how a send ends are arguments; the callback that carries a request out is a parameter with its own state.
\<close>

section \<open>The buffers\<close>

definition UI_MESSAGE_TYPE :: u16 where "UI_MESSAGE_TYPE = 0x7000"
definition UI_PROTOCOL_VERSION :: u16 where "UI_PROTOCOL_VERSION = 1"
definition UI_RESPONSE_MAGIC :: u32 where "UI_RESPONSE_MAGIC = 0x43554931"

definition CENTRAL_UI_REQUEST_SIZE :: nat where "CENTRAL_UI_REQUEST_SIZE = 256"
definition CENTRAL_UI_RESPONSE_SIZE :: nat where "CENTRAL_UI_RESPONSE_SIZE = 16384"

record ui_request =
  uq_type :: u16
  uq_version :: u16
  uq_text :: "char list"

record ui_response =
  ur_magic :: u32
  ur_version :: u16
  ur_reserved :: u16
  ur_status :: u32
  ur_length :: u32
  ur_text :: "char list"
  ur_trailer :: u32

text \<open>The sizes of the two structs, which have no padding.\<close>

definition UI_REQUEST_BYTES :: nat where "UI_REQUEST_BYTES = 4 + CENTRAL_UI_REQUEST_SIZE"
definition UI_RESPONSE_BYTES :: nat where "UI_RESPONSE_BYTES = 20 + CENTRAL_UI_RESPONSE_SIZE"

text \<open>Little-endian 32-bit fields.\<close>

definition put32 :: "u32 \<Rightarrow> char list" where
  "put32 w = put16 (word_of_nat (unat w mod 65536)) @ put16 (word_of_nat (unat w div 65536))"

definition get32 :: "char list \<Rightarrow> nat \<Rightarrow> u32" where
  "get32 d i = word_of_nat (unat (get16 d i) + 65536 * unat (get16 d (i + 2)))"

definition ui_response_bytes :: "ui_response \<Rightarrow> char list" where
  "ui_response_bytes r =
     put32 (ur_magic r) @ put16 (ur_version r) @ put16 (ur_reserved r) @ put32 (ur_status r) @
     put32 (ur_length r) @ ur_text r @ put32 (ur_trailer r)"

definition ui_response_of :: "char list \<Rightarrow> ui_response" where
  "ui_response_of d =
     \<lparr>ur_magic = get32 d 0, ur_version = get16 d 4, ur_reserved = get16 d 6, ur_status = get32 d 8,
      ur_length = get32 d 12, ur_text = take CENTRAL_UI_RESPONSE_SIZE (drop 16 d),
      ur_trailer = get32 d (16 + CENTRAL_UI_RESPONSE_SIZE)\<rparr>"

section \<open>Names and texts\<close>

definition valid_name :: "string \<Rightarrow> bool" where
  "valid_name name \<longleftrightarrow> name \<noteq> [] \<and> length name \<le> 100 \<and>
     list_all (\<lambda>c. (CHR ''a'' \<le> c \<and> c \<le> CHR ''z'') \<or> (CHR ''A'' \<le> c \<and> c \<le> CHR ''Z'') \<or>
       (CHR ''0'' \<le> c \<and> c \<le> CHR ''9'') \<or> c = CHR ''_'' \<or> c = CHR ''-'' \<or> c = CHR ''.'') name"

text \<open>The loop of \<open>valid_text\<close> over a buffer; running out of it is a failure.\<close>

fun valid_text :: "char list \<Rightarrow> bool" where
  "valid_text [] = False"
| "valid_text (c # cs) =
     (c = NUL \<or> (\<not> ((c < CHR '' '' \<and> c \<noteq> CHR 0x09) \<or> CHR ''~'' < c) \<and> valid_text cs))"

section \<open>The server\<close>

text \<open>What \<open>MsgReceive\<close> delivers: a failure, \<open>True\<close> if it is a timeout or an interruption; a pulse, \<open>True\<close> if it is
  the disconnect pulse; or a message with its three lengths. For a message of type \<open>_IO_CONNECT\<close>, \<open>um_connect\<close> says
  whether it is long enough and its subtype is \<open>_IO_CONNECT_OPEN\<close>.\<close>

record ui_message =
  um_msglen :: int
  um_srcmsglen :: int
  um_dstmsglen :: int
  um_connect :: "bool option"
  um_request :: ui_request

datatype ui_received = Ui_Receive_Failed bool | Ui_Pulse bool | Ui_Message ui_message

datatype ui_rejection = EPROTO | ENOSYS

datatype ui_answer = Ui_None | Ui_Detach | Ui_Reject ui_rejection | Ui_Empty | Ui_Reply ui_response

definition ui_overrun_text :: string where
  "ui_overrun_text = ''Central response exceeded the display buffer.'' @ [CHR 0x0A]"

text \<open>The response to a text; the callback is given the request as a C string and leaves its result and the whole
  text buffer.\<close>

definition ui_respond :: "int \<times> char list \<Rightarrow> ui_response" where
  "ui_respond result =
     (let (status, buffer) =
            (if has_nul (snd result) then result else (- 1, overlay (ui_overrun_text @ [NUL]) (snd result)))
      in \<lparr>ur_magic = UI_RESPONSE_MAGIC, ur_version = UI_PROTOCOL_VERSION, ur_reserved = 0, ur_status = word_of_int status,
          ur_length = word_of_nat (length (cstr buffer)), ur_text = buffer, ur_trailer = UI_RESPONSE_MAGIC\<rparr>)"

definition ui_request_accepted :: "ui_message \<Rightarrow> bool" where
  "ui_request_accepted i \<longleftrightarrow>
     \<not> (um_srcmsglen i \<noteq> int UI_REQUEST_BYTES \<or> um_msglen i \<noteq> int UI_REQUEST_BYTES \<or>
        um_dstmsglen i \<noteq> int UI_RESPONSE_BYTES \<or> uq_type (um_request i) \<noteq> UI_MESSAGE_TYPE \<or>
        uq_version (um_request i) \<noteq> UI_PROTOCOL_VERSION \<or> \<not> valid_text (uq_text (um_request i)))"

text \<open>\<open>armed\<close> is whether the receive timeout could be set, \<open>deadline\<close> whether the one of the reply could. The result is
  the code of the function, what the client is told, and the state of the callback.\<close>

definition receive_request ::
  "(string \<Rightarrow> 's \<Rightarrow> (int \<times> char list) \<times> 's) \<Rightarrow> bool \<Rightarrow> bool \<Rightarrow> ui_received \<Rightarrow> 's \<Rightarrow> int \<times> ui_answer \<times> 's" where
  "receive_request callback armed deadline received s =
     (let tell = (\<lambda>a. if deadline then a else Ui_None) in
      if \<not> armed then (- 1, Ui_None, s)
      else case received of
        Ui_Receive_Failed transient \<Rightarrow> (if transient then 0 else - 1, Ui_None, s)
      | Ui_Pulse disconnect \<Rightarrow> (0, if disconnect then Ui_Detach else Ui_None, s)
      | Ui_Message i \<Rightarrow>
          if um_msglen i < 2 \<or> um_srcmsglen i < um_msglen i then (0, tell (Ui_Reject EPROTO), s)
          else case um_connect i of
            Some good \<Rightarrow> (0, tell (if good then Ui_Empty else Ui_Reject ENOSYS), s)
          | None \<Rightarrow>
              if \<not> ui_request_accepted i then (0, tell (Ui_Reject EPROTO), s)
              else let (result, s1) = callback (cstr (uq_text (um_request i))) s
                   in (0, tell (Ui_Reply (ui_respond result)), s1))"

text \<open>The server thread over its rounds; \<open>sr_stopping\<close> is whether \<open>central_ui_server_stop\<close> was called before the round.\<close>

record ui_server_round =
  sr_stopping :: bool
  sr_armed :: bool
  sr_deadline :: bool
  sr_received :: ui_received

fun server_thread ::
  "(string \<Rightarrow> 's \<Rightarrow> (int \<times> char list) \<times> 's) \<Rightarrow> ui_server_round list \<Rightarrow> 's \<Rightarrow> ui_answer list \<times> 's" where
  "server_thread callback [] s = ([], s)"
| "server_thread callback (r # rs) s =
     (if sr_stopping r then ([], s)
      else let (code, told, s1) = receive_request callback (sr_armed r) (sr_deadline r) (sr_received r) s in
           if code = - 1 then ([], s1)
           else let (rest, s2) = server_thread callback rs s1 in (told # rest, s2))"

text \<open>The start: the steps that may fail, in order, with the error they give, and what is undone then.\<close>

datatype ui_start_step = Start_Memory | Start_Mutex | Start_Channel | Start_Dispatch | Start_Attach | Start_Thread

datatype ui_undo = Undo_Channel | Undo_Dispatch | Undo_Name | Undo_Mutex | Undo_Memory

fun ui_undone :: "ui_start_step \<Rightarrow> ui_undo list" where
  "ui_undone Start_Memory = []"
| "ui_undone Start_Mutex = [Undo_Memory]"
| "ui_undone Start_Channel = [Undo_Mutex, Undo_Memory]"
| "ui_undone Start_Dispatch = [Undo_Channel, Undo_Mutex, Undo_Memory]"
| "ui_undone Start_Attach = [Undo_Dispatch, Undo_Mutex, Undo_Memory]"
| "ui_undone Start_Thread = [Undo_Name, Undo_Mutex, Undo_Memory]"

text \<open>On the left the error (\<open>None\<close> for \<open>EINVAL\<close>) and what was undone; on the right the server runs.\<close>

definition central_ui_server_start ::
  "string \<Rightarrow> bool \<Rightarrow> (ui_start_step \<times> int) option \<Rightarrow> (int option \<times> ui_undo list) + unit" where
  "central_ui_server_start name has_callback failing =
     (if \<not> (valid_name name \<and> has_callback) then Inl (None, [])
      else case failing of
        Some (step, error) \<Rightarrow> Inl (Some error, ui_undone step)
      | None \<Rightarrow> Inr ())"

section \<open>The client\<close>

datatype ui_failure = Ui_EINVAL | Ui_System int | Ui_EPROTO | Ui_EMSGSIZE

text \<open>How the kernel ends the request: one of the calls before or with the send fails with an error number, or the
  server replies with a status and some bytes, which are written over the reply buffer.\<close>

datatype ui_sent = Ui_Send_Failed int | Ui_Sent int "char list"

definition ui_request_message :: "string \<Rightarrow> ui_request" where
  "ui_request_message request =
     \<lparr>uq_type = UI_MESSAGE_TYPE, uq_version = UI_PROTOCOL_VERSION,
      uq_text = overlay (request @ [NUL]) (replicate CENTRAL_UI_REQUEST_SIZE NUL)\<rparr>"

definition ui_response_buffer :: "char list" where
  "ui_response_buffer = replicate UI_RESPONSE_BYTES (CHR 0xA5)"

definition ui_response_accepted :: "int \<Rightarrow> ui_response \<Rightarrow> bool" where
  "ui_response_accepted result r \<longleftrightarrow>
     \<not> (result \<noteq> int UI_RESPONSE_BYTES \<or> ur_magic r \<noteq> UI_RESPONSE_MAGIC \<or> ur_version r \<noteq> UI_PROTOCOL_VERSION \<or>
        ur_reserved r \<noteq> 0 \<or> ur_trailer r \<noteq> UI_RESPONSE_MAGIC \<or>
        CENTRAL_UI_RESPONSE_SIZE \<le> unat (ur_length r) \<or> ur_text r ! unat (ur_length r) \<noteq> NUL \<or>
        length (cstr (ur_text r)) \<noteq> unat (ur_length r))"

definition central_ui_client_request ::
  "string \<Rightarrow> string \<Rightarrow> nat \<Rightarrow> (ui_request \<Rightarrow> ui_sent) \<Rightarrow> ui_failure + (string \<times> int)" where
  "central_ui_client_request name request capacity send =
     (if \<not> valid_name name \<or> capacity = 0 \<or> \<not> valid_text (take CENTRAL_UI_REQUEST_SIZE (request @ [NUL]))
      then Inl Ui_EINVAL
      else case send (ui_request_message request) of
        Ui_Send_Failed error \<Rightarrow> Inl (Ui_System error)
      | Ui_Sent result bytes \<Rightarrow>
          let response = ui_response_of (overlay bytes ui_response_buffer) in
          if \<not> ui_response_accepted result response then Inl Ui_EPROTO
          else if capacity \<le> unat (ur_length response) then Inl Ui_EMSGSIZE
          else Inr (take (unat (ur_length response)) (ur_text response), sint (ur_status response)))"

section \<open>Round trip\<close>

lemma length_put32 [simp]: "length (put32 w) = 4"
  by (simp add: put32_def)

lemma get16_at: "length xs = i \<Longrightarrow> get16 (xs @ put16 w @ ys) i = w"
  by (auto simp: get16_def put16_def nth_append)

lemma halves: "(word_of_nat (unat (word_of_nat (unat w mod 65536) :: u16) + 65536 * unat (word_of_nat (unat w div 65536) :: u16)) :: u32) = w"
proof -
  have "unat w < 4294967296" using unsigned_less [of w, where ?'a = nat] by simp
  then have "unat (word_of_nat (unat w mod 65536) :: u16) = unat w mod 65536"
    "unat (word_of_nat (unat w div 65536) :: u16) = unat w div 65536"
    by (simp_all add: unat_of_nat less_mult_imp_div_less)
  then show ?thesis by simp
qed

lemma get32_at:
  assumes "length xs = i"
  shows "get32 (xs @ put32 w @ ys) i = w"
proof -
  have "get16 (xs @ put32 w @ ys) i = word_of_nat (unat w mod 65536)"
    using get16_at [OF assms, of "word_of_nat (unat w mod 65536)" "put16 (word_of_nat (unat w div 65536)) @ ys"]
    by (simp add: put32_def)
  moreover have "get16 (xs @ put32 w @ ys) (i + 2) = word_of_nat (unat w div 65536)"
    using get16_at [of "xs @ put16 (word_of_nat (unat w mod 65536))" "i + 2" "word_of_nat (unat w div 65536)" ys] assms
    by (simp add: put32_def)
  ultimately show ?thesis by (simp only: get32_def halves)
qed

lemma get32_high: "get16 d (i + 2) = word_of_nat (unat (get32 d i) div 65536)"
proof -
  have "unat (get16 d i) < 65536" "unat (get16 d (i + 2)) < 65536" by (rule unat_u16_lt)+
  moreover have "unat (get32 d i) = (unat (get16 d i) + 65536 * unat (get16 d (i + 2))) mod 4294967296"
    by (simp only: get32_def unat_of_nat) simp
  ultimately have "unat (get32 d i) div 65536 = unat (get16 d (i + 2))" by simp
  then show ?thesis by (simp only:) simp
qed

lemma length_response: "length (ur_text r) = CENTRAL_UI_RESPONSE_SIZE \<Longrightarrow> length (ui_response_bytes r) = UI_RESPONSE_BYTES"
  by (simp add: ui_response_bytes_def UI_RESPONSE_BYTES_def)

lemma response_of_bytes:
  assumes "length (ur_text r) = CENTRAL_UI_RESPONSE_SIZE"
  shows "ui_response_of (ui_response_bytes r) = r"
proof -
  let ?a = "put32 (ur_magic r)" and ?b = "put16 (ur_version r)" and ?c = "put16 (ur_reserved r)" and ?d = "put32 (ur_status r)"
    and ?e = "put32 (ur_length r)" and ?t = "ur_text r" and ?f = "put32 (ur_trailer r)"
  have "get32 (ui_response_bytes r) 0 = ur_magic r" using get32_at [of "[]" 0] by (simp add: ui_response_bytes_def)
  moreover have "get16 (ui_response_bytes r) 4 = ur_version r" using get16_at [of ?a 4] by (simp add: ui_response_bytes_def)
  moreover have "get16 (ui_response_bytes r) 6 = ur_reserved r"
    using get16_at [of "?a @ ?b" 6] by (simp add: ui_response_bytes_def)
  moreover have "get32 (ui_response_bytes r) 8 = ur_status r"
    using get32_at [of "?a @ ?b @ ?c" 8] by (simp add: ui_response_bytes_def)
  moreover have "get32 (ui_response_bytes r) 12 = ur_length r"
    using get32_at [of "?a @ ?b @ ?c @ ?d" 12] by (simp add: ui_response_bytes_def)
  moreover have "take CENTRAL_UI_RESPONSE_SIZE (drop 16 (ui_response_bytes r)) = ?t"
    using assms by (simp add: ui_response_bytes_def)
  moreover have "get32 (ui_response_bytes r) (16 + CENTRAL_UI_RESPONSE_SIZE) = ur_trailer r"
    using get32_at [of "?a @ ?b @ ?c @ ?d @ ?e @ ?t" "16 + CENTRAL_UI_RESPONSE_SIZE" "ur_trailer r" "[]"] assms
    by (simp add: ui_response_bytes_def)
  ultimately show ?thesis by (simp add: ui_response_of_def)
qed

lemma valid_text_cstr: "valid_text d \<Longrightarrow> list_all (\<lambda>c. c \<noteq> NUL \<and> (CHR '' '' \<le> c \<or> c = CHR 0x09) \<and> c \<le> CHR ''~'') (cstr d) \<and>
    length (cstr d) < length d"
  by (induction d) (auto simp: cstr_def)

lemma valid_text_prefix: "valid_text xs \<Longrightarrow> valid_text (xs @ ys)"
  by (induction xs) auto

lemma cstr_has_nul: "has_nul d \<Longrightarrow> length (cstr d) < length d \<and> d ! length (cstr d) = NUL"
  by (induction d) (auto simp: cstr_def has_nul_def)

lemma cstr_take: "take (length (cstr d)) d = cstr d"
  by (simp add: cstr_def takeWhile_eq_take [symmetric])

text \<open>The outcome of a callback as the client is to see it.\<close>

definition ui_outcome :: "int \<times> char list \<Rightarrow> string \<times> int" where
  "ui_outcome result = (if has_nul (snd result) then (cstr (snd result), fst result) else (ui_overrun_text, - 1))"

lemma overrun_text: "NUL \<notin> set ui_overrun_text" "length ui_overrun_text = 46"
  by (simp_all add: ui_overrun_text_def)

lemma respond_accepted:
  assumes "length (snd result) = CENTRAL_UI_RESPONSE_SIZE" "- (2 ^ 31) \<le> fst result" "fst result < 2 ^ 31"
  shows "length (ur_text (ui_respond result)) = CENTRAL_UI_RESPONSE_SIZE"
    "ui_response_accepted (int UI_RESPONSE_BYTES) (ui_respond result)"
    "(take (unat (ur_length (ui_respond result))) (ur_text (ui_respond result)), sint (ur_status (ui_respond result))) = ui_outcome result"
    "unat (ur_length (ui_respond result)) < CENTRAL_UI_RESPONSE_SIZE"
proof -
  define status where "status = (if has_nul (snd result) then fst result else - 1)"
  define buffer where "buffer = (if has_nul (snd result) then snd result else overlay (ui_overrun_text @ [NUL]) (snd result))"
  have r: "ui_respond result = \<lparr>ur_magic = UI_RESPONSE_MAGIC, ur_version = UI_PROTOCOL_VERSION, ur_reserved = 0,
      ur_status = word_of_int status, ur_length = word_of_nat (length (cstr buffer)), ur_text = buffer,
      ur_trailer = UI_RESPONSE_MAGIC\<rparr>"
    by (simp add: ui_respond_def status_def buffer_def Let_def split_beta)
  have len: "length buffer = CENTRAL_UI_RESPONSE_SIZE"
    using assms(1) by (simp add: buffer_def overrun_text(2) CENTRAL_UI_RESPONSE_SIZE_def)
  have nul: "has_nul buffer" by (simp add: buffer_def overlay_def has_nul_def)
  have small: "length (cstr buffer) < CENTRAL_UI_RESPONSE_SIZE" and nul_at: "buffer ! length (cstr buffer) = NUL"
    using cstr_has_nul [OF nul] len by simp_all
  have l: "unat (word_of_nat (length (cstr buffer)) :: u32) = length (cstr buffer)"
    using small by (simp add: unat_of_nat CENTRAL_UI_RESPONSE_SIZE_def)
  have st: "sint (word_of_int status :: u32) = status"
    using assms(2,3) by (simp add: signed_of_int status_def signed_take_bit_int_eq_self)
  show "length (ur_text (ui_respond result)) = CENTRAL_UI_RESPONSE_SIZE" by (simp add: r len)
  show "ui_response_accepted (int UI_RESPONSE_BYTES) (ui_respond result)"
    using small nul_at by (simp add: ui_response_accepted_def r l not_le)
  show "unat (ur_length (ui_respond result)) < CENTRAL_UI_RESPONSE_SIZE" using small by (simp add: r l)
  have "cstr (overlay (ui_overrun_text @ [NUL]) (snd result)) = ui_overrun_text"
    using cstr_append_nul [OF overrun_text(1)] by (simp add: overlay_def)
  then have "(cstr buffer, status) = ui_outcome result" by (simp add: ui_outcome_def buffer_def status_def)
  then show "(take (unat (ur_length (ui_respond result))) (ur_text (ui_respond result)), sint (ur_status (ui_respond result)))
      = ui_outcome result"
    by (simp add: r l st cstr_take)
qed

text \<open>A request of the client delivered to the server, and the reply to the client.\<close>

definition ui_delivered :: "ui_request \<Rightarrow> ui_received" where
  "ui_delivered q = Ui_Message \<lparr>um_msglen = int UI_REQUEST_BYTES, um_srcmsglen = int UI_REQUEST_BYTES,
     um_dstmsglen = int UI_RESPONSE_BYTES, um_connect = None, um_request = q\<rparr>"

definition ui_replied :: "int \<Rightarrow> ui_answer \<Rightarrow> ui_sent" where
  "ui_replied error answer =
     (case answer of Ui_Reply r \<Rightarrow> Ui_Sent (int UI_RESPONSE_BYTES) (ui_response_bytes r) | _ \<Rightarrow> Ui_Send_Failed error)"

definition ui_exchange ::
  "(string \<Rightarrow> 's \<Rightarrow> (int \<times> char list) \<times> 's) \<Rightarrow> int \<Rightarrow> string \<Rightarrow> string \<Rightarrow> nat \<Rightarrow> 's \<Rightarrow>
   ui_failure + (string \<times> int)" where
  "ui_exchange callback error name request capacity s =
     central_ui_client_request name request capacity
       (\<lambda>q. ui_replied error (fst (snd (receive_request callback True True (ui_delivered q) s))))"

lemma request_text:
  assumes "NUL \<notin> set request" "valid_text (take CENTRAL_UI_REQUEST_SIZE (request @ [NUL]))"
  shows "valid_text (uq_text (ui_request_message request))" "cstr (uq_text (ui_request_message request)) = request"
proof -
  have "length (cstr (take CENTRAL_UI_REQUEST_SIZE (request @ [NUL]))) < length (take CENTRAL_UI_REQUEST_SIZE (request @ [NUL]))"
    using valid_text_cstr [OF assms(2)] by simp
  moreover have "cstr (take n (request @ [NUL])) = take n request" if "n \<le> length request" for n
    using that assms(1) by (auto simp: cstr_def takeWhile_eq_all_conv dest: in_set_takeD)
  ultimately have "length request < CENTRAL_UI_REQUEST_SIZE" by (cases "CENTRAL_UI_REQUEST_SIZE \<le> length request") auto
  then have t: "take CENTRAL_UI_REQUEST_SIZE (request @ [NUL]) = request @ [NUL]" by simp
  show "valid_text (uq_text (ui_request_message request))"
    using valid_text_prefix [OF assms(2) [unfolded t]] by (simp add: ui_request_message_def overlay_def)
  show "cstr (uq_text (ui_request_message request)) = request"
    using cstr_append_nul [OF assms(1)] by (simp add: ui_request_message_def overlay_def)
qed

text \<open>The display gets what the core answered. A request that the client accepts reaches the callback of the core
  unchanged, and the display gets exactly the text and the status of the callback, byte for byte through the response
  buffer; a text that fills the whole buffer without an end comes back as the error text with the status -1.\<close>

theorem display_answer_exact:
  assumes "valid_name name" "NUL \<notin> set request" "valid_text (take CENTRAL_UI_REQUEST_SIZE (request @ [NUL]))"
    "callback request s = (result, s1)" "length (snd result) = CENTRAL_UI_RESPONSE_SIZE"
    "- (2 ^ 31) \<le> fst result" "fst result < 2 ^ 31"
  shows "ui_exchange callback error name request CENTRAL_UI_RESPONSE_SIZE s = Inr (ui_outcome result)"
proof -
  note q = request_text [OF assms(2,3)] and a = respond_accepted [OF assms(5-7)]
  have "receive_request callback True True (ui_delivered (ui_request_message request)) s = (0, Ui_Reply (ui_respond result), s1)"
    using q assms(4)
    by (simp add: receive_request_def ui_delivered_def ui_request_accepted_def ui_request_message_def [of request]
        UI_REQUEST_BYTES_def Let_def)
  moreover have "ui_response_of (overlay (ui_response_bytes (ui_respond result)) ui_response_buffer) = ui_respond result"
    using response_of_bytes [OF a(1)] length_response [OF a(1)] by (simp add: overlay_def ui_response_buffer_def)
  moreover have "CENTRAL_UI_RESPONSE_SIZE \<noteq> 0" by (simp add: CENTRAL_UI_RESPONSE_SIZE_def)
  ultimately show ?thesis using assms(1,3) a(2-4)
    by (simp add: ui_exchange_def central_ui_client_request_def ui_replied_def Let_def not_le)
qed

definition sample_core :: "string \<Rightarrow> string list \<Rightarrow> (int \<times> char list) \<times> string list" where
  "sample_core request log = ((0, request @ replicate (CENTRAL_UI_RESPONSE_SIZE - length request) NUL), request # log)"

lemma display_answer_exact_witness:
  "ui_exchange sample_core 2 ''core_ui'' ''status'' CENTRAL_UI_RESPONSE_SIZE [] = Inr (''status'', 0)"
proof -
  have v: "valid_name ''core_ui''" "NUL \<notin> set ''status''" by code_simp+
  have t: "valid_text (take CENTRAL_UI_REQUEST_SIZE (''status'' @ [NUL]))" by code_simp
  define n where "n = CENTRAL_UI_RESPONSE_SIZE - 7"
  have n: "CENTRAL_UI_RESPONSE_SIZE - 6 = Suc n" by (simp add: n_def CENTRAL_UI_RESPONSE_SIZE_def)
  have six: "length ''status'' = 6" by simp
  have c: "sample_core ''status'' [] = ((0, ''status'' @ NUL # replicate n NUL), [''status''])"
    by (simp only: sample_core_def six n replicate_Suc)
  have l: "length (''status'' @ NUL # replicate n NUL) = CENTRAL_UI_RESPONSE_SIZE" using n by simp
  have o: "ui_outcome (0, ''status'' @ NUL # replicate n NUL) = (''status'', 0)"
    by (simp add: ui_outcome_def has_nul_def cstr_def)
  show ?thesis using display_answer_exact [where callback = sample_core and s = "[]" and error = 2, OF v t c] l by (simp only: fst_conv snd_conv o) simp
qed

section \<open>Replies cut short\<close>

text \<open>A reply of the core that was cut short is never shown. The client fills its buffer before it sends; whatever
  status the kernel gives and whatever bytes came, when they are fewer than a whole response the request fails
  with a protocol error.\<close>

theorem short_response_refused:
  assumes "valid_name name" "valid_text (take CENTRAL_UI_REQUEST_SIZE (request @ [NUL]))" "0 < capacity"
    "send (ui_request_message request) = Ui_Sent result bytes" "length bytes < UI_RESPONSE_BYTES"
  shows "central_ui_client_request name request capacity send = Inl Ui_EPROTO"
proof -
  let ?d = "overlay bytes ui_response_buffer"
  have "?d ! (UI_RESPONSE_BYTES - 1) = CHR 0xA5"
    using assms(5) nth_overlay_beyond [of bytes "UI_RESPONSE_BYTES - 1" ui_response_buffer]
    by (simp add: ui_response_buffer_def)
  then have "?d ! Suc (16 + CENTRAL_UI_RESPONSE_SIZE + 2) = CHR 0xA5"
    by (simp add: UI_RESPONSE_BYTES_def CENTRAL_UI_RESPONSE_SIZE_def)
  then have "get16 ?d (16 + CENTRAL_UI_RESPONSE_SIZE + 2) = le16 (?d ! (16 + CENTRAL_UI_RESPONSE_SIZE + 2)) (CHR 0xA5)"
    by (simp only: get16_def)
  moreover have "(0x4355 :: u16) = le16 CHR 0x55 CHR 0x43" by (simp add: le16_def char_u8_def)
  ultimately have "get16 ?d (16 + CENTRAL_UI_RESPONSE_SIZE + 2) \<noteq> 0x4355" by (simp only: le16_inject) simp
  then have "get32 ?d (16 + CENTRAL_UI_RESPONSE_SIZE) \<noteq> UI_RESPONSE_MAGIC"
    using get32_high [of ?d "16 + CENTRAL_UI_RESPONSE_SIZE"] by (auto simp: UI_RESPONSE_MAGIC_def)
  then have "ur_trailer (ui_response_of ?d) \<noteq> UI_RESPONSE_MAGIC" by (simp add: ui_response_of_def)
  then have "\<not> ui_response_accepted result (ui_response_of ?d)" by (simp add: ui_response_accepted_def)
  with assms show ?thesis by (simp add: central_ui_client_request_def Let_def)
qed

lemma short_response_refused_witness:
  "central_ui_client_request ''core_ui'' ''status'' 80 (\<lambda>_. Ui_Sent (int UI_RESPONSE_BYTES) ''short'') = Inl Ui_EPROTO"
proof (rule short_response_refused)
  show "valid_name ''core_ui''" "valid_text (take CENTRAL_UI_REQUEST_SIZE (''status'' @ [NUL]))" by code_simp+
  show "length ''short'' < UI_RESPONSE_BYTES" by (simp add: UI_RESPONSE_BYTES_def CENTRAL_UI_RESPONSE_SIZE_def)
qed simp_all

section \<open>What reaches the callback\<close>

text \<open>A callback that keeps the requests it was given, newest last.\<close>

definition recording :: "(string \<Rightarrow> int \<times> char list) \<Rightarrow> string \<Rightarrow> string list \<Rightarrow> (int \<times> char list) \<times> string list" where
  "recording answer request log = (answer request, log @ [request])"

definition clean_request :: "string \<Rightarrow> bool" where
  "clean_request r \<longleftrightarrow> length r < CENTRAL_UI_REQUEST_SIZE \<and> list_all (\<lambda>c. (CHR '' '' \<le> c \<or> c = CHR 0x09) \<and> c \<le> CHR ''~'') r"

definition round_sized :: "ui_server_round \<Rightarrow> bool" where
  "round_sized r \<longleftrightarrow>
     (case sr_received r of Ui_Message i \<Rightarrow> length (uq_text (um_request i)) = CENTRAL_UI_REQUEST_SIZE | _ \<Rightarrow> True)"

lemma clean_cstr: "valid_text d \<Longrightarrow> length d = CENTRAL_UI_REQUEST_SIZE \<Longrightarrow> clean_request (cstr d)"
  using valid_text_cstr [of d] by (auto simp: clean_request_def list_all_iff)

lemma received_clean:
  assumes "receive_request (recording answer) armed deadline received log = (code, told, log1)"
    "\<forall>i. received = Ui_Message i \<longrightarrow> length (uq_text (um_request i)) = CENTRAL_UI_REQUEST_SIZE"
  shows "log1 = log \<or> (\<exists>r. clean_request r \<and> log1 = log @ [r])"
  using assms clean_cstr
  by (auto simp: receive_request_def recording_def ui_request_accepted_def Let_def split: if_splits ui_received.splits option.splits)

lemma server_clean:
  "\<forall>r \<in> set rounds. round_sized r \<Longrightarrow> list_all clean_request log \<Longrightarrow>
   list_all clean_request (snd (server_thread (recording answer) rounds log))"
proof (induction rounds arbitrary: log)
  case (Cons r rs)
  obtain code told log1 where e:
    "receive_request (recording answer) (sr_armed r) (sr_deadline r) (sr_received r) log = (code, told, log1)"
    by (cases "receive_request (recording answer) (sr_armed r) (sr_deadline r) (sr_received r) log")
  have "\<forall>i. sr_received r = Ui_Message i \<longrightarrow> length (uq_text (um_request i)) = CENTRAL_UI_REQUEST_SIZE"
    using Cons.prems(1) by (auto simp: round_sized_def)
  from received_clean [OF e this] Cons.prems(2) have "list_all clean_request log1" by auto
  with Cons.IH [of log1] Cons.prems e show ?case by (auto simp: Let_def split_beta)
qed simp

text \<open>C37: The core carries out clean requests only. Whatever messages arrive at the channel, of whatever lengths and
  types, the callback is given only terminated texts of at most 255 printable characters and tabs.\<close>

theorem ui_requests_clean:
  assumes "\<forall>r \<in> set rounds. round_sized r"
  shows "list_all clean_request (snd (server_thread (recording answer) rounds []))"
  by (rule server_clean [OF assms]) simp

definition sample_round :: "ui_request \<Rightarrow> ui_server_round" where
  "sample_round q = \<lparr>sr_stopping = False, sr_armed = True, sr_deadline = True, sr_received = ui_delivered q\<rparr>"

lemma round_sized_sample: "length request < CENTRAL_UI_REQUEST_SIZE \<Longrightarrow> round_sized (sample_round (ui_request_message request))"
  by (simp add: round_sized_def sample_round_def ui_delivered_def ui_request_message_def)

text \<open>Of a good request and one with a control character only the first reaches the callback.\<close>

lemma ui_requests_clean_witness:
  "snd (server_thread (recording (\<lambda>_. (0, [NUL])))
     (map sample_round [ui_request_message ''status'', ui_request_message [CHR 0x1B]]) []) = [''status''] \<and>
   list_all clean_request (snd (server_thread (recording (\<lambda>_. (0, [NUL])))
     (map sample_round [ui_request_message ''status'', ui_request_message [CHR 0x1B]]) []))"
proof -
  have s: "\<forall>r \<in> set (map sample_round [ui_request_message ''status'', ui_request_message [CHR 0x1B]]). round_sized r"
    using round_sized_sample [of "''status''"] round_sized_sample [of "[CHR 0x1B]"] by (simp add: CENTRAL_UI_REQUEST_SIZE_def)
  have v: "valid_text (uq_text (ui_request_message ''status''))" "cstr (uq_text (ui_request_message ''status'')) = ''status''"
    by (rule request_text; code_simp)+
  have w: "\<not> valid_text (uq_text (ui_request_message [CHR 0x1B]))"
    by (simp add: ui_request_message_def overlay_def less_char_def)
  have "snd (server_thread (recording (\<lambda>_. (0, [NUL])))
     (map sample_round [ui_request_message ''status'', ui_request_message [CHR 0x1B]]) []) = [''status'']"
    using v w by (simp add: sample_round_def receive_request_def ui_delivered_def ui_request_accepted_def recording_def
        ui_request_message_def [of "''status''"] ui_request_message_def [of "[CHR 0x1B]"] UI_REQUEST_BYTES_def Let_def)
  with ui_requests_clean [OF s, of "\<lambda>_. (0, [NUL])"] show ?thesis by blast
qed

end
