(* ===== verification/Central_Views.thy ===== *)
theory Central_Views
  imports Central_Ui_Ipc
begin

text \<open>
  The views of the Central core, the text \<^verbatim>\<open>central_controller.c\<close> renders for the console and the display:
  the live map, the dashboard, the histories and the schedule. A view is the list of texts it hands to
  \<open>output\<close>, in order. The conversion of a floating point number (\<open>%.1f\<close> and the like, of nanoseconds over
  a billion) is a parameter \<open>secs\<close> of width, precision and nanoseconds.
\<close>

section \<open>Bounded output\<close>

text \<open>One call of \<open>output\<close> into a buffer of \<open>capacity\<close> bytes: the text so far and whether it was truncated.\<close>

definition output_text :: "nat \<Rightarrow> string \<Rightarrow> string \<times> bool \<Rightarrow> string \<times> bool" where
  "output_text capacity t out =
     (case out of (buffer, truncated) \<Rightarrow>
        if length buffer < capacity \<and> t \<noteq> [] then
          let left = capacity - length buffer in (buffer @ take (left - 1) t, truncated \<or> left \<le> length t)
        else out)"

definition output_marker :: string where
  "output_marker = CHR 0x0A # ''OUTPUT TRUNCATED; inspect the event log.'' @ [CHR 0x0A]"

text \<open>What \<open>ui_command\<close> leaves in a zeroed response buffer after the outputs of a command, and its result.\<close>

definition ui_rendered :: "nat \<Rightarrow> int \<Rightarrow> string list \<Rightarrow> int \<times> char list" where
  "ui_rendered capacity result ts =
     (let (buffer, truncated) = fold (output_text capacity) ts ([], False);
          full = overlay (buffer @ [NUL]) (replicate capacity NUL)
      in if truncated
         then (- 1, if length output_marker + 1 \<le> capacity
                    then take (capacity - (length output_marker + 1)) full @ output_marker @ [NUL] else full)
         else (result, full))"

section \<open>Names and rows\<close>

definition fault_name :: "nat \<Rightarrow> string" where
  "fault_name value = (if value \<le> 5
     then [''NONE'', ''LIGHT FAULT'', ''SENSOR FAULT'', ''COMM FAULT'', ''GATE FAULT'', ''CONFLICTING GREENS''] ! value
     else ''UNKNOWN'')"

definition severity_name :: "u8 \<Rightarrow> string" where
  "severity_name value =
     (if value = severity_code SEV_LOW then ''LOW'' else if value = severity_code SEV_MEDIUM then ''MEDIUM''
      else if value = severity_code SEV_CRITICAL then ''CRITICAL'' else ''UNKNOWN'')"

definition phase_name :: "nat \<Rightarrow> string" where
  "phase_name value =
     (if value \<le> 4 then [''NS GREEN'', ''NS YELLOW'', ''EW GREEN'', ''EW YELLOW'', ''RAIL HOLD''] ! value else ''UNKNOWN'')"

definition light_name :: "nat \<Rightarrow> string" where
  "light_name value = (if value \<le> 3 then [''OFF'', ''RED'', ''YELLOW'', ''GREEN''] ! value else ''UNKNOWN'')"

text \<open>The nanoseconds behind \<open>age_seconds\<close>.\<close>

definition age_ns :: "u64 \<Rightarrow> u64 \<Rightarrow> u64" where
  "age_ns now received = (if received \<le> now then now - received else 0)"

abbreviation (input) UI_INNER_WIDTH :: nat where "UI_INNER_WIDTH \<equiv> 104"

text \<open>\<open>%-ns\<close> and \<open>%ns\<close>\<close>

definition pad_right :: "nat \<Rightarrow> string \<Rightarrow> string" where
  "pad_right n s = s @ replicate (n - length s) CHR '' ''"

definition pad_left :: "nat \<Rightarrow> string \<Rightarrow> string" where
  "pad_left n s = replicate (n - length s) CHR '' '' @ s"

definition ui_border :: string where
  "ui_border = ''+'' @ replicate (UI_INNER_WIDTH + 2) CHR ''-'' @ ''+'' @ [CHR 0x0A]"

definition ui_row :: "string \<Rightarrow> string" where
  "ui_row content = ''| '' @ pad_right UI_INNER_WIDTH (take UI_INNER_WIDTH (take 511 content)) @ '' |'' @ [CHR 0x0A]"

definition ui_panel :: "string \<Rightarrow> string list" where
  "ui_panel title = [ui_border, ui_row title, ui_border]"

definition ui_connection :: "central_peer_status \<Rightarrow> bool \<Rightarrow> string" where
  "ui_connection peer online =
     (if \<not> pr_connected peer then ''DISCONNECTED'' else if online then ''CONNECTED'' else ''LOST'')"

definition ui_health :: "central_monitor \<Rightarrow> u16 \<Rightarrow> nat \<Rightarrow> string" where
  "ui_health m source i =
     (let health = central_monitor_health m source i in
      if 0 < health then ''HEALTHY'' else if health = 0 then ''DEGRADED'' else ''UNKNOWN'')"

section \<open>The live map\<close>

definition map_lamps :: "nat \<Rightarrow> string" where
  "map_lamps s =
     (if 3 < s then ''{?}{?}{?}''
      else [CHR ''{'', if s = 1 then CHR ''O'' else CHR ''o'', CHR ''}'', CHR ''{'', if s = 2 then CHR ''O'' else CHR ''o'',
            CHR ''}'', CHR ''{'', if s = 3 then CHR ''O'' else CHR ''o'', CHR ''}''])"

definition map_lamp_labels :: "nat \<Rightarrow> string" where
  "map_lamp_labels s =
     (if 3 < s then ''?  ?  ?''
      else [if s = 1 then CHR ''R'' else CHR ''r'', CHR '' '', CHR '' '', if s = 2 then CHR ''Y'' else CHR ''y'',
            CHR '' '', CHR '' '', if s = 3 then CHR ''G'' else CHR ''g''])"

definition map_ped_state :: "u8 \<Rightarrow> u8 \<Rightarrow> string" where
  "map_ped_state walk request = (if walk \<noteq> 0 then ''[WALK]'' else if request \<noteq> 0 then ''[REQ ]'' else ''[STOP]'')"

definition map_train_state :: "nat \<Rightarrow> string" where
  "map_train_state s = (if s \<le> 3 then [''NONE'', ''APPROACHING'', ''AT CROSSING'', ''CLEAR''] ! s else ''UNKNOWN'')"

definition map_gate_state :: "nat \<Rightarrow> string" where
  "map_gate_state s = (if s \<le> 4 then [''OPEN'', ''CLOSING'', ''CLOSED'', ''OPENING'', ''FAULT''] ! s else ''UNKNOWN'')"

definition map_crossing_col :: "nat list" where
  "map_crossing_col = [21, 48, 75]"

text \<open>\<open>memcpy\<close> into a row\<close>

definition write_at :: "nat \<Rightarrow> string \<Rightarrow> string \<Rightarrow> string" where
  "write_at i t row = take i row @ t @ drop (i + length t) row"

definition up_sprite :: string where "up_sprite = ''<[<<<][<<<]''"
definition down_sprite :: string where "down_sprite = ''[>>>][>>>]>''"

definition empty_lane :: "bool \<Rightarrow> string" where
  "empty_lane down =
     (let row = replicate 8 CHR '' '' @ replicate 88 CHR ''.'' @ replicate 8 CHR '' ''
      in if down then write_at 0 ''DN >>>'' row else write_at (UI_INNER_WIDTH - 6) ''<<< UP'' row)"

definition lane_state :: "bool \<Rightarrow> central_crossing_status \<Rightarrow> u8" where
  "lane_state down entry = (if down then rs_down_state (cv_status entry) else rs_up_state (cv_status entry))"

definition lane_start :: "bool \<Rightarrow> bool \<Rightarrow> nat \<Rightarrow> nat" where
  "lane_start down at i =
     (let col = map_crossing_col ! i in
      if down then (if at then col + 1 else col - 3) - 10 else if at then col else col + 3)"

text \<open>The row of a lane and the crossing its train was last reported at, -1 for none.\<close>

definition map_train_lane :: "central_monitor \<Rightarrow> bool \<Rightarrow> int \<Rightarrow> string \<times> int" where
  "map_train_lane m down last_at =
     (let sprite = (if down then down_sprite else up_sprite); row = empty_lane down in
      if \<not> list_all (\<lambda>e. cv_valid e \<and> cv_synchronized e \<and> rs_track_states (cv_status e) \<noteq> 0)
            (take NUM_CROSSINGS (mon_crossings m))
      then (row, - 1)
      else case find (\<lambda>i. lane_state down (mon_crossings m ! i) = train_code TRAIN_APPROACHING \<or>
                          lane_state down (mon_crossings m ! i) = train_code TRAIN_AT_CROSSING)
                  (if down then [0, 1, 2] else [2, 1, 0]) of
        Some i \<Rightarrow>
          let at = (lane_state down (mon_crossings m ! i) = train_code TRAIN_AT_CROSSING)
          in (write_at (lane_start down at i) sprite row, if at then int i else last_at)
      | None \<Rightarrow>
          if last_at < 0 then (row, last_at)
          else
            let next = (if down then last_at + 1 else last_at - 1) in
            if next < 0 \<or> int NUM_CROSSINGS \<le> next then (row, - 1)
            else (write_at ((map_crossing_col ! nat last_at + map_crossing_col ! nat next) div 2 - 5) sprite row, last_at))"

text \<open>The six cards: three cells in a row, each of a prefix, a padded text and a suffix.\<close>

definition card_row :: "string \<Rightarrow> nat \<Rightarrow> string \<Rightarrow> string list \<Rightarrow> string" where
  "card_row lead n tail ts =
     (let cell = (\<lambda>t. ''|'' @ lead @ pad_right n t @ tail @ ''|'') in
      replicate 12 CHR '' '' @ cell (ts ! 0) @ ''     '' @ cell (ts ! 1) @ ''     '' @ cell (ts ! 2))"

definition card_names :: "string list \<Rightarrow> string" where
  "card_names ts = pad_left 24 (ts ! 0) @ pad_left 27 (ts ! 1) @ pad_left 27 (ts ! 2)"

definition map_fields :: "central_intersection_status \<Rightarrow> string list" where
  "map_fields e =
     (if \<not> iv_valid e then [''{?}{?}{?}'', ''?  ?  ?'', ''{?}{?}{?}'', ''?  ?  ?'', ''[----]'', ''[----]'']
      else let s = iv_status e in
        [map_lamps (unat (st_ns_state s)), map_lamp_labels (unat (st_ns_state s)),
         map_lamps (unat (st_ew_state s)), map_lamp_labels (unat (st_ew_state s)),
         map_ped_state (st_pedestrian_ns s) (st_pedestrian_ns_request s),
         map_ped_state (st_pedestrian_ew s) (st_pedestrian_ew_request s)])"

text \<open>The seven rows of text of the three cards whose fields are given.\<close>

definition card_rows :: "string list list \<Rightarrow> string list" where
  "card_rows fs =
     [card_row '' N-S '' 9 ''      '' (map (\<lambda>f. f ! 0) fs),
      card_row ''      '' 7 ''       '' (map (\<lambda>f. f ! 1) fs),
      card_row (replicate 20 CHR '' '') 0 [] [[], [], []],
      card_row '' E-W '' 9 ''      '' (map (\<lambda>f. f ! 2) fs),
      card_row ''      '' 7 ''       '' (map (\<lambda>f. f ! 3) fs),
      card_row '' PED N-S '' 6 ''     '' (map (\<lambda>f. f ! 4) fs),
      card_row '' PED E-W '' 6 ''     '' (map (\<lambda>f. f ! 5) fs)]"

definition map_body :: "string list list \<Rightarrow> string \<Rightarrow> string \<Rightarrow> string list" where
  "map_body f train_up train_down =
     [''Lamp shape stays {o}; active bulb + R/Y/G label use color only | railway lanes show Train-reported state'',
      [], card_names [''I1'', ''I3'', ''I5''],
      ''            +--------------------+     +--------------------+     +--------------------+''] @
     card_rows [f ! 0, f ! 2, f ! 4] @
     [''            +---------+----------+     +---------+----------+     +---------+----------+'',
      ''                      |                          |                          |'',
      ''        =============P1=========================P2=========================P3==================='',
      train_up, train_down,
      ''        ========================================================================================'',
      ''                      |                          |                          |'',
      ''            +---------+----------+     +---------+----------+     +---------+----------+''] @
     card_rows [f ! 1, f ! 3, f ! 5] @
     [''            +--------------------+     +--------------------+     +--------------------+'',
      card_names [''I2'', ''I4'', ''I6''], []]"

definition map_crossing_row :: "central_monitor \<Rightarrow> bool \<Rightarrow> nat \<Rightarrow> string" where
  "map_crossing_row m train_online i =
     (let e = mon_crossings m ! i; link = pad_right 4 (if train_online then ''UP'' else ''DOWN'');
          row = (\<lambda>train gate health. ''P'' @ show_nat (i + 1) @ ''  '' @ pad_right 12 train @ '' | GATE '' @ pad_right 8 gate @
                   '' | HEALTH '' @ pad_right 8 health @ '' | LINK '' @ link)
      in if \<not> cv_valid e then row ''WAITING'' ''--'' ''UNKNOWN''
         else row (map_train_state (unat (rs_train_state (cv_status e)))) (map_gate_state (unat (rs_gate_state (cv_status e))))
                (ui_health m (controller_code CONTROLLER_TRAIN) i))"

definition display_map :: "central_monitor \<Rightarrow> u64 \<Rightarrow> int \<times> int \<Rightarrow> string list \<times> int \<times> int" where
  "display_map m now lanes =
     (let local_online = central_peer_online m (controller_code CONTROLLER_LOCAL) now;
          train_online = central_peer_online m (controller_code CONTROLLER_TRAIN) now;
          f = map map_fields (take NUM_INTERSECTIONS (mon_intersections m));
          (train_up, up_at) = map_train_lane m False (fst lanes);
          (train_down, down_at) = map_train_lane m True (snd lanes)
      in (ui_panel ''LIVE TRAFFIC MAP  |  SCHEMATIC VIEW - I1..I6 / P1..P3'' @
          map ui_row (map_body f train_up train_down) @
          ui_panel ''RAILWAY CROSSINGS  |  LIVE STATE'' @
          map (\<lambda>i. ui_row (map_crossing_row m train_online i)) [0..<NUM_CROSSINGS] @
          ui_panel ''SYSTEM STATUS  |  DISTRIBUTED HEALTH'' @
          [ui_row (''LOCAL '' @ pad_right 12 (ui_connection (mon_peers m ! 0) local_online) @ '' | TRAIN '' @
             pad_right 12 (ui_connection (mon_peers m ! 1) train_online) @ '' | SYSTEM '' @
             pad_right 10 (if local_online \<and> train_online then ''HEALTHY'' else ''DEGRADED''))] @
          ui_panel ''LIVE CONTROLS  |  TYPE COMMAND THEN ENTER - MAP CONTINUES'' @
          [ui_row ''[F1-F6] FIXED | [S1-S6] SENSOR | [TU] TRAIN UP | [TD] TRAIN DN | [TB] BOTH | [E] EVENTS | [D] DETAILS'',
           ui_row ''[M] MENU | [H] HELP | [0] QUIT DISPLAY | blank ENTER pauses live refresh'',
           ui_border],
          up_at, down_at))"

section \<open>The dashboard\<close>

text \<open>What a status of an intersection is worth now.\<close>

definition status_freshness :: "central_state \<Rightarrow> u64 \<Rightarrow> nat \<Rightarrow> string" where
  "status_freshness s now i =
     (let m = c_monitor s; e = mon_intersections m ! i; peer = c_local_route s ! i; probe = c_endpoint_probe s ! peer in
      if \<not> c_endpoint_connected s ! peer \<or> now < probe \<or> word_of_nat HEARTBEAT_MISS_LIMIT * CENTRAL_NSEC \<le> now - probe
      then ''OFFLINE''
      else if \<not> iv_synchronized e then ''WAITING UPDATE''
      else if now < iv_received_at e \<or> central_monitor_status_max_age_ns m \<le> now - iv_received_at e then ''STALE''
      else ''CURRENT'')"

definition intersection_row :: "nat \<Rightarrow> string list \<Rightarrow> string" where
  "intersection_row i ts =
     ''I'' @ show_nat (i + 1) @ '' | '' @ pad_right 8 (ts ! 0) @ '' | '' @ pad_right 12 (ts ! 1) @ '' | '' @
     pad_right 6 (ts ! 2) @ '' | '' @ pad_right 6 (ts ! 3) @ '' | '' @ ts ! 4 @ '' | '' @ pad_right 5 (ts ! 5) @ '' | '' @
     pad_right 8 (ts ! 6) @ '' | '' @ pad_right 11 (ts ! 7)"

definition telemetry_rows :: "(nat \<Rightarrow> nat \<Rightarrow> u64 \<Rightarrow> string) \<Rightarrow> u64 \<Rightarrow> central_intersection_status \<Rightarrow> string list" where
  "telemetry_rows secs now e =
     (let t = iv_status e; num = (\<lambda>w. show_nat (unat w)) in
      [''   Detail | Rem:'' @ pad_left 3 (show_nat (unat (st_time_remaining t))) @ ''s | Sensor NS/EW:'' @
         num (st_sensor_ns_count t) @ ''/'' @ num (st_sensor_ew_count t) @ '' | PedReq:'' @
         num (st_pedestrian_ns_request t) @ ''/'' @ num (st_pedestrian_ew_request t) @ '' | Sim:'' @
         (if st_sim_running t \<noteq> 0 then ''RUN'' else ''STOP'') @ '' '' @
         show_two (unat (st_sim_minute_of_day t) div 60) @ '':'' @ show_two (unat (st_sim_minute_of_day t) mod 60) @
         '' | Age:'' @ secs 4 1 (age_ns now (iv_received_at e)) @ ''s'',
       ''          Train P/A/R:'' @ num (st_train_pending t) @ ''/'' @ num (st_train_active t) @ ''/'' @
         num (st_train_recovery_remaining t) @ ''s | Seq:'' @ show_nat (unat (st_status_sequence t)) @ '' | Last cmd:'' @
         show_nat (unat (st_last_command_id t)) @ '' | Fault:'' @
         (if st_fault_active t \<noteq> 0 then fault_name (unat (st_fault_type t)) else ''CLEAR'')])"

definition intersection_rows ::
  "(nat \<Rightarrow> nat \<Rightarrow> u64 \<Rightarrow> string) \<Rightarrow> central_state \<Rightarrow> u64 \<Rightarrow> nat \<Rightarrow> string list" where
  "intersection_rows secs s now i =
     (let e = mon_intersections (c_monitor s) ! i; t = iv_status e;
          health = ui_health (c_monitor s) (controller_code CONTROLLER_LOCAL) i; link = status_freshness s now i in
      if \<not> iv_valid e then
        [intersection_row i [''WAITING'', ''NO REPORT'', ''--'', ''--'', pad_right 9 ''--/--'', ''--'', ''UNKNOWN'', ''NO DATA'']]
      else
        [intersection_row i [mode_name (unat (st_mode t)), phase_name (unat (st_phase t)), light_name (unat (st_ns_state t)),
           light_name (unat (st_ew_state t)),
           (if st_pedestrian_ns t \<noteq> 0 then ''WALK'' else ''STOP'') @ ''/'' @ (if st_pedestrian_ew t \<noteq> 0 then ''WALK'' else ''STOP''),
           if st_railway_preempt t \<noteq> 0 then ''HOLD'' else ''CLEAR'', health, link]] @
        (if st_telemetry_version t \<noteq> 0 then telemetry_rows secs now e
         else [''   Detail | Age:'' @ secs 4 1 (age_ns now (iv_received_at e)) @ ''s | Telemetry:BASIC | Health:'' @ health @
                 '' | Link:'' @ link]))"

text \<open>Indexing with a reported state out of range does not occur: the monitor accepts no such report.\<close>

definition crossing_row :: "(nat \<Rightarrow> nat \<Rightarrow> u64 \<Rightarrow> string) \<Rightarrow> central_monitor \<Rightarrow> u64 \<Rightarrow> bool \<Rightarrow> nat \<Rightarrow> string" where
  "crossing_row secs m now train_online i =
     (let e = mon_crossings m ! i; t = cv_status e;
          row = (\<lambda>train gate fault health age. ''P'' @ show_nat (i + 1) @ '' | '' @ pad_right 12 train @ '' | '' @
                   pad_right 8 gate @ '' | '' @ pad_right 18 fault @ '' | '' @ pad_right 8 health @ '' | '' @ age @ '' | '' @
                   pad_right 6 (if train_online then ''UP'' else ''DOWN''))
      in if \<not> cv_valid e then row ''WAITING'' ''--'' ''UNKNOWN'' ''UNKNOWN'' (pad_right 6 ''--'')
         else row ([''NONE'', ''APPROACHING'', ''AT CROSSING'', ''CLEAR''] ! unat (rs_train_state t))
                ([''OPEN'', ''CLOSING'', ''CLOSED'', ''OPENING'', ''FAULT''] ! unat (rs_gate_state t))
                (fault_name (unat (rs_fault t))) (ui_health m (controller_code CONTROLLER_TRAIN) i)
                (secs 5 1 (age_ns now (cv_received_at e)) @ ''s''))"

definition connection_row :: "string \<Rightarrow> central_monitor \<Rightarrow> u16 \<Rightarrow> nat \<Rightarrow> bool \<Rightarrow> string" where
  "connection_row lead m source peer online =
     lead @ '' | '' @ pad_right 13 (ui_connection (mon_peers m ! peer) online) @ '' | '' @
     pad_right 13 (if online then ''HEARTBEAT OK'' else ''LOST'') @ '' | '' @ pad_right 18 (ui_health m source 0)"

definition recent_events :: "central_state \<Rightarrow> string list" where
  "recent_events s = map (\<lambda>i. c_recent s ! ((c_recent_next s + 8 - c_recent_count s + i) mod 8)) [0..<c_recent_count s]"

text \<open>\<open>to_display\<close> is whether the view goes into a response buffer; \<open>watching\<close> and \<open>tty\<close> concern the console only.\<close>

definition display_ui ::
  "(nat \<Rightarrow> nat \<Rightarrow> u64 \<Rightarrow> string) \<Rightarrow> bool \<Rightarrow> bool \<Rightarrow> bool \<Rightarrow> bool \<Rightarrow> central_state \<Rightarrow> u64 \<Rightarrow> string list" where
  "display_ui secs to_display is_watching tty is_global s now =
     (let m = c_monitor s;
          local_online = central_peer_online m (controller_code CONTROLLER_LOCAL) now;
          train_online = central_peer_online m (controller_code CONTROLLER_TRAIN) now
      in (if \<not> to_display \<and> is_watching \<and> tty then [(CHR 0x1B # ''[2J'') @ (CHR 0x1B # ''[H'')] else []) @
         ui_panel ''CENTRAL CONTROL ROOM  |  LIVE SUPERVISORY DASHBOARD'' @
         [ui_row (''Node: VM3  | Mode: '' @ pad_right 6 (if is_global then ''GLOBAL'' else ''LOCAL'') @
            '' | System: ONLINE | View: '' @ pad_right 9 (if is_watching then ''LIVE VIEW'' else ''SNAPSHOT'') @
            '' | Build: central-20260913-local-simulation''),
          ui_row (''Railway: '' @ pad_right 8 (if train_online then ''ACTIVE'' else ''STANDBY'') @ '' | Local: '' @
            pad_right 12 (ui_connection (mon_peers m ! 0) local_online) @ '' | Train: '' @
            pad_right 12 (ui_connection (mon_peers m ! 1) train_online) @ '' | Refresh: 1.0s | Status limit: '' @
            secs 0 1 (central_monitor_status_max_age_ns m) @ ''s''),
          ui_row ''Central process: OPERATIONAL | Qnet/GNS transport handled independently | Operator UI: READY''] @
         ui_panel ''INTERSECTIONS  |  SIGNALS / SENSORS / RAILWAY PRE-EMPTION'' @
         [ui_row ''ID | MODE     | PHASE        | NS     | EW     | PED NS/EW | RAIL  | HEALTH   | LINK'',
          ui_row ''---+----------+--------------+--------+--------+-----------+-------+----------+-------------''] @
         concat (map (\<lambda>i. map ui_row (intersection_rows secs s now i)) [0..<NUM_INTERSECTIONS]) @
         ui_panel ''RAILWAY / CROSSINGS  |  TRAIN CONTROL AND GATE SAFETY'' @
         [ui_row ''ID | TRAIN STATE  | GATE     | FAULT              | HEALTH   | AGE    | LINK'',
          ui_row ''---+--------------+----------+--------------------+----------+--------+--------''] @
         map (\<lambda>i. ui_row (crossing_row secs m now train_online i)) [0..<NUM_CROSSINGS] @
         ui_panel ''CONNECTIONS  |  DISTRIBUTED SYSTEM HEALTH'' @
         [ui_row ''ENDPOINT           | LINK          | CONTACT       | HEALTH'',
          ui_row ''-------------------+---------------+---------------+--------------------'',
          ui_row (connection_row ''LOCAL CONTROLLERS '' m (controller_code CONTROLLER_LOCAL) 0 local_online),
          ui_row (connection_row ''TRAIN CONTROLLER  '' m (controller_code CONTROLLER_TRAIN) 1 train_online)] @
         ui_panel ''RECENT EVENTS  |  ROLLING ACTIVITY FEED'' @
         (if c_recent_count s = 0 then [ui_row ''No events received yet.''] else []) @
         map ui_row (recent_events s) @
         (if c_dropped_events s \<noteq> 0 then [ui_row (''Dropped log records: '' @ show_nat (c_dropped_events s))] else []) @
         (if c_log_failed s then [ui_row ''EVENT LOG FAILED: new events are not being saved.''] else []) @
         ui_panel ''CONTROLS  |  QUICK KEYS'' @
         [ui_row ''[L] LIVE MAP   [D] LIVE DETAILS   [S] STATUS   [E] EVENTS   [F] FAULTS   [C] HISTORY'',
          ui_row ''[M] MENU       [H] FULL HELP                             [0] QUIT DISPLAY'',
          ui_row ''Live map refresh 0.5s; details refresh 1.0s; commands remain Central supervisory requests.'',
          ui_border] @
         (if \<not> to_display \<and> is_watching
          then [''Live view: press Enter to return to the command prompt.'' @ [CHR 0x0A]] else []))"

section \<open>Histories and schedule\<close>

definition command_lines :: "(nat \<Rightarrow> nat \<Rightarrow> u64 \<Rightarrow> string) \<Rightarrow> u64 \<Rightarrow> command_record \<Rightarrow> string list" where
  "command_lines secs now r =
     (let stop = (if hr_sent_at r \<noteq> 0 then hr_sent_at r else if hr_finished_at r \<noteq> 0 then hr_finished_at r else now) in
      [pad_right 8 (show_nat (unat (hr_id r))) @ '' '' @
         (if hr_peer r = 1 then ''Train '' @ pad_right 6 ''1'' else ''I'' @ pad_right 6 (show_nat (hr_target r + 1))) @ '' '' @
         pad_right 12 (request_name (hr_state r)) @ '' '' @ hr_description r @ [CHR 0x0A],
       ''    '' @ hr_detail r @ ''; queued '' @ secs 0 3 (age_ns stop (hr_queued_at r)) @ ''s''] @
      (if hr_sent_at r \<noteq> 0
       then [''; IPC '' @ secs 0 3 (age_ns (if hr_finished_at r \<noteq> 0 then hr_finished_at r else now) (hr_sent_at r)) @ ''s'']
       else []) @
      [''; age '' @ secs 0 1 (age_ns now (hr_queued_at r)) @ ''s'' @ [CHR 0x0A]])"

definition print_command_history :: "(nat \<Rightarrow> nat \<Rightarrow> u64 \<Rightarrow> string) \<Rightarrow> u64 \<Rightarrow> central_state \<Rightarrow> string list" where
  "print_command_history secs now s =
     [''Command  Target  State        Request'' @ [CHR 0x0A]] @
     concat (map (\<lambda>i. let r = c_commands s ! ((c_command_next s + i) mod COMMAND_HISTORY_SIZE)
                      in if hr_id r \<noteq> 0 then command_lines secs now r else []) [0..<COMMAND_HISTORY_SIZE]) @
     [''ACCEPTED confirms receipt; status shows reported operation. Train v1 does not report command BUSY/results.'' @
        [CHR 0x0A]]"

text \<open>\<open>clock\<close> gives the reading of the clock for each alert.\<close>

definition print_faults :: "(nat \<Rightarrow> nat \<Rightarrow> u64 \<Rightarrow> string) \<Rightarrow> (nat \<Rightarrow> nat \<Rightarrow> u64) \<Rightarrow> central_state \<Rightarrow> string list" where
  "print_faults secs clock s =
     (''Fault alerts awaiting a clear notification'' @ [CHR 0x0A]) #
     concat (map (\<lambda>i. concat (map (\<lambda>j.
       if c_fault_active s ! i ! j then
         let f = c_faults s ! i ! j in
         [[if i \<noteq> 0 then CHR ''P'' else CHR ''I''] @ show_nat (j + 1) @ '' type '' @ show_nat (unat (fm_fault_type f)) @
            '' severity '' @ show_nat (unat (fm_severity f)) @ '' ('' @ fault_name (unat (fm_fault_type f)) @ '', '' @
            severity_name (fm_severity f) @ '') age '' @ secs 0 1 (age_ns (clock i j) (c_fault_received_at s ! i ! j)) @ ''s: '' @
            clean_description (fm_description f) @ [CHR 0x0A]]
       else []) [0..<if i \<noteq> 0 then NUM_CROSSINGS else NUM_INTERSECTIONS])) [0..<2])"

definition print_events :: "central_state \<Rightarrow> string list" where
  "print_events s =
     map (\<lambda>t. t @ [CHR 0x0A]) (recent_events s) @
     [''Log records dropped: '' @ show_nat (c_dropped_events s) @ (if c_log_failed s then ''; EVENT LOG FAILED'' else []) @
        [CHR 0x0A]]"

definition print_schedule :: "u64 \<Rightarrow> central_state \<Rightarrow> string list" where
  "print_schedule now s =
     [''Daily schedule '' @ (if c_schedule_enabled s then ''ENABLED'' else ''DISABLED'') @ ''; target QNX local clock/timezone.'' @
        [CHR 0x0A]] @
     concat (map (\<lambda>e.
       [show_two (se_minute_of_day e div 60) @ '':'' @ show_two (se_minute_of_day e mod 60) @ '' '' @
          pad_right 6 (mode_name (unat (se_mode e))) @ '' '' @ (if se_target e = INTERSECTION_ALL then ''all'' else ''I'')] @
       (if se_target e \<noteq> INTERSECTION_ALL then [show_nat (se_target e + 1)] else []) @ [[CHR 0x0A]]) (c_schedule s)) @
     map (\<lambda>i. ''I'' @ show_nat (i + 1) @ '' operator hold '' @
            (if central_policy_operator_active (c_policy s) i now then ''ACTIVE'' else ''NONE'') @ ''; last scheduled intent '' @
            (if c_scheduled_mode s ! i < 0 then ''NONE'' else mode_name (nat (c_scheduled_mode s ! i))) @ [CHR 0x0A])
       [0..<NUM_INTERSECTIONS] @
     [''Operator intent is recorded separately from reported operation.'' @ [CHR 0x0A] @
      ''Rejected/uncertain operator requests hold automation until schedule-resume.'' @ [CHR 0x0A] @
      ''Temporary suppression starts at receipt; Local must enforce its own expiry.'' @ [CHR 0x0A] @
      ''Schedule requests are not replayed automatically after reconnect.'' @ [CHR 0x0A]]"

definition print_help :: "string list" where
  "print_help =
     [concat (map (\<lambda>t. t @ [CHR 0x0A])
       [''Commands:'', ''  mode-fixed [I1..I6|all]'', ''  mode-sensor [I1..I6|all]'',
        ''  mode-temp <I1..I6|all> <fixed|sensor> <seconds>'', ''  mode-revert <I1..I6|all>'',
        ''  sim-start <I1..I6|all> | sim-stop <I1..I6|all>'', ''  sim-time <I1..I6|all> <HH:MM>'',
        ''  coordinate <I1..I6|all> <NS|EW> <offset 0..63>'',
        ''  coordinate-at <delay 1..3600s> <I1..I6|all> <NS|EW> <offset 0..63>'',
        ''  train-cmd <train-up|train-down|train P# up/down|noexit P# up/down>'',
        ''  train-cmd <reset P#|scale 1..100|status>'', ''  schedule | schedule-resume <I1..I6|all> | version'',
        ''  map | status | commands | faults | events | help | quit'', ''  watch  (legacy live detailed status)'',
        ''Queued commands expire after 5 seconds. ACCEPTED means receipt only.'']),
      concat (map (\<lambda>t. t @ [CHR 0x0A])
       [''Train commands simulate sensor/fault events; Train owns gate safety.'',
        ''Local sim commands require the new Local simulation handler; legacy ACKs do not confirm them.'',
        ''sim-stop stops generated traffic inputs; Local light control continues.'',
        ''Use Local simulated time for traffic demos with Central --schedule disabled.'',
        ''Direct p#-fault is blocked: the current Train remote handler can deadlock.'',
        ''Current Local stores validated coordination offsets and applies them at a safe phase boundary.'',
        ''coordinate-at sets a Central dispatch time; v1 has no shared activation epoch.''])]"

text \<open>The view a command shows in a response buffer; \<open>build\<close> is the date and time of the build.\<close>

definition view_texts ::
  "(nat \<Rightarrow> nat \<Rightarrow> u64 \<Rightarrow> string) \<Rightarrow> (nat \<Rightarrow> nat \<Rightarrow> u64) \<Rightarrow> string \<Rightarrow> bool \<Rightarrow> bool \<Rightarrow> central_state \<Rightarrow> u64 \<Rightarrow> int \<times> int \<Rightarrow> view \<Rightarrow>
   string list \<times> int \<times> int" where
  "view_texts secs clock build is_watching is_global s now lanes v =
     (case v of
        View_Map \<Rightarrow> display_map (c_monitor s) now lanes
      | View_Status \<Rightarrow> (display_ui secs True is_watching False is_global s now, lanes)
      | View_Watch \<Rightarrow> (display_ui secs True True False is_global s now, lanes)
      | View_Commands \<Rightarrow> (print_command_history secs now s, lanes)
      | View_Faults \<Rightarrow> (print_faults secs clock s, lanes)
      | View_Events \<Rightarrow> (print_events s, lanes)
      | View_Help \<Rightarrow> (print_help, lanes)
      | View_Version \<Rightarrow> ([''central-20260913-local-simulation ('' @ build @ '')'' @ [CHR 0x0A]], lanes)
      | View_Schedule \<Rightarrow> (print_schedule now s, lanes))"

section \<open>Outputs add up\<close>

lemma output_step:
  assumes "0 < capacity"
  shows "output_text capacity t (take (capacity - 1) u, capacity \<le> length u) =
    (take (capacity - 1) (u @ t), capacity \<le> length (u @ t))"
proof (cases "t = []")
  case False
  then have t: "0 < length t" by simp
  show ?thesis
  proof (cases "capacity \<le> length u")
    case True
    with assms t show ?thesis by (auto simp: output_text_def Let_def)
  next
    case no: False
    then have "take (capacity - 1) u = u" by simp
    with no assms t show ?thesis by (auto simp: output_text_def Let_def)
  qed
qed (simp add: output_text_def)

lemma outputs_exact:
  assumes "0 < capacity"
  shows "fold (output_text capacity) ts (take (capacity - 1) u, capacity \<le> length u) =
    (take (capacity - 1) (u @ concat ts), capacity \<le> length (u @ concat ts))"
proof (induction ts arbitrary: u)
  case (Cons t ts)
  from Cons.IH [of "u @ t"] show ?case by (simp only: fold_simps output_step [OF assms] concat.simps append_assoc)
qed simp

lemma rendered_fits:
  assumes "length (concat ts) < capacity"
  shows "ui_rendered capacity result ts = (result, concat ts @ NUL # replicate (capacity - Suc (length (concat ts))) NUL)"
proof -
  have "fold (output_text capacity) ts ([], False) = (concat ts, False)"
    using outputs_exact [of capacity ts "[]"] assms by simp
  then show ?thesis using assms by (simp add: ui_rendered_def overlay_def)
qed

section \<open>Rows of equal width\<close>

text \<open>A line of a panel: 108 printable characters and the line break.\<close>

definition box_line :: "string \<Rightarrow> bool" where
  "box_line l \<longleftrightarrow> (\<exists>r. l = r @ [CHR 0x0A] \<and> length r = UI_INNER_WIDTH + 4 \<and> list_all printable r)"

definition line_sized :: "string \<Rightarrow> bool" where
  "line_sized l \<longleftrightarrow> length l = UI_INNER_WIDTH + 5"

lemma box_line_sized: "box_line l \<Longrightarrow> line_sized l"
  by (auto simp: box_line_def line_sized_def)

lemma printable_code: "32 \<le> (of_char c :: nat) \<Longrightarrow> printable c"
  by (simp add: printable_def less_eq_char_def)

lemma printable_blanks [simp]: "list_all printable (replicate n CHR '' '')"
  by (simp add: list_all_iff)

lemma printable_pad [simp]:
  "list_all printable (pad_right n s) = list_all printable s" "list_all printable (pad_left n s) = list_all printable s"
  by (simp_all add: pad_right_def pad_left_def)

lemma printable_number [simp]: "list_all printable (show_nat n)"
proof -
  have "printable c" if "c \<in> set (show_nat n)" for c
    using show_nat_is_digit [OF that] by (intro printable_code) (simp add: is_digit_def less_eq_char_def)
  then show ?thesis by (simp add: list_all_iff)
qed

lemma row_box: "list_all printable c \<Longrightarrow> box_line (ui_row c)"
  by (auto simp: box_line_def ui_row_def pad_right_def printable_take intro!: exI [of _ "''| '' @ _ @ '' |''"])
    (simp_all add: printable_code)

lemma row_sized: "line_sized (ui_row c)"
  by (simp add: line_sized_def ui_row_def pad_right_def)

lemma border_box: "box_line ui_border"
proof -
  have "ui_border = (''+'' @ replicate (UI_INNER_WIDTH + 2) CHR ''-'' @ ''+'') @ [CHR 0x0A]" by (simp only: ui_border_def append_assoc)
  moreover have "list_all printable (''+'' @ replicate (UI_INNER_WIDTH + 2) CHR ''-'' @ ''+'')"
    by (auto simp: list_all_iff printable_code)
  moreover have "length (''+'' @ replicate (UI_INNER_WIDTH + 2) CHR ''-'' @ ''+'') = UI_INNER_WIDTH + 4" by simp
  ultimately show ?thesis unfolding box_line_def by blast
qed

lemma panel_box: "list_all printable t \<Longrightarrow> list_all box_line (ui_panel t)"
  by (simp add: ui_panel_def border_box row_box)

lemma panel_sized: "list_all line_sized (ui_panel t)"
  by (simp add: ui_panel_def row_sized box_line_sized [OF border_box])

lemma length_panel: "length (ui_panel t) = 3"
  by (simp add: ui_panel_def)

lemma sized_concat: "list_all line_sized ls \<Longrightarrow> length (concat ls) = 109 * length ls"
  by (induction ls) (simp_all add: line_sized_def)

section \<open>The live map\<close>

lemma map_texts_printable [simp]:
  "list_all printable (map_lamps s)" "list_all printable (map_lamp_labels s)" "list_all printable (map_ped_state w r)"
  "list_all printable (map_train_state s)" "list_all printable (map_gate_state s)"
  "list_all printable (ui_connection p b)" "list_all printable (ui_health m c i)"
  by (simp_all add: map_lamps_def map_lamp_labels_def map_ped_state_def map_train_state_def map_gate_state_def
      ui_connection_def ui_health_def Let_def printable_code nth_Cons' del: printable_chars)

definition fields_ok :: "string list \<Rightarrow> bool" where
  "fields_ok f \<longleftrightarrow> length f = 6 \<and> list_all (list_all printable) f"

lemma fields_ok: "fields_ok (map_fields e)"
  by (simp add: fields_ok_def map_fields_def Let_def printable_code del: printable_chars)

lemma fields_nth: "fields_ok f \<Longrightarrow> i < 6 \<Longrightarrow> list_all printable (f ! i)"
  by (simp add: fields_ok_def list_all_length)

lemma card_row_printable:
  "list_all printable lead \<Longrightarrow> list_all printable tail \<Longrightarrow> list_all (list_all printable) ts \<Longrightarrow> length ts = 3 \<Longrightarrow>
   list_all printable (card_row lead n tail ts)"
  by (cases ts rule: list.exhaust; cases "tl ts"; cases "tl (tl ts)") (simp_all add: card_row_def printable_code)

lemma write_at_printable: "list_all printable t \<Longrightarrow> list_all printable row \<Longrightarrow> list_all printable (write_at i t row)"
  by (auto simp: write_at_def list_all_iff dest: in_set_takeD in_set_dropD)

lemma length_write_at: "i + length t \<le> length row \<Longrightarrow> length (write_at i t row) = length row"
  by (simp add: write_at_def)

lemma sprite_facts [simp]:
  "list_all printable up_sprite" "list_all printable down_sprite" "length up_sprite = 11" "length down_sprite = 11"
  by (simp_all add: up_sprite_def down_sprite_def printable_code del: printable_chars)

lemma empty_lane_ok: "list_all printable (empty_lane down) \<and> length (empty_lane down) = UI_INNER_WIDTH"
proof -
  let ?row = "replicate 8 CHR '' '' @ replicate 88 CHR ''.'' @ replicate 8 CHR '' ''"
  have r: "list_all printable ?row" "length ?row = UI_INNER_WIDTH" by (simp_all add: list_all_iff printable_code)
  have d: "list_all printable ''DN >>>''" "list_all printable ''<<< UP''" by (simp_all add: printable_code)
  show ?thesis using write_at_printable [OF d(1) r(1)] write_at_printable [OF d(2) r(1)] r(2)
    by (simp add: empty_lane_def Let_def length_write_at)
qed
lemma lane_start_bound: "i < NUM_CROSSINGS \<Longrightarrow> lane_start down at i + 11 \<le> UI_INNER_WIDTH"
  by (auto simp: lane_start_def map_crossing_col_def Let_def less_Suc_eq numeral_3_eq_3 nth_Cons')

lemma route_crossings: "i \<in> set (if down then [0, 1, 2] else [2, 1, 0]) \<Longrightarrow> i < NUM_CROSSINGS"
  by (auto split: if_splits)

definition lane_ok :: "int \<Rightarrow> bool" where
  "lane_ok last_at \<longleftrightarrow> - 1 \<le> last_at \<and> last_at < int NUM_CROSSINGS"

lemma between_bound:
  assumes "0 \<le> a" "a < int NUM_CROSSINGS" "0 \<le> b" "b < int NUM_CROSSINGS"
  shows "(map_crossing_col ! nat a + map_crossing_col ! nat b) div 2 - 5 + 11 \<le> UI_INNER_WIDTH"
proof -
  have "map_crossing_col ! nat x \<le> 75" if "0 \<le> x" "x < int NUM_CROSSINGS" for x
  proof -
    have "nat x = 0 \<or> nat x = 1 \<or> nat x = 2" using that by auto
    then show ?thesis by (auto simp: map_crossing_col_def)
  qed
  from this [OF assms(1,2)] this [OF assms(3,4)] show ?thesis by simp
qed

lemma lane_row_ok:
  assumes "lane_ok last_at"
  shows "list_all printable (fst (map_train_lane m down last_at)) \<and> length (fst (map_train_lane m down last_at)) = UI_INNER_WIDTH
    \<and> lane_ok (snd (map_train_lane m down last_at))"
proof -
  define sprite where "sprite = (if down then down_sprite else up_sprite)"
  have s: "list_all printable sprite" "length sprite = 11" by (simp_all add: sprite_def)
  note e = empty_lane_ok [of down]
  have w: "list_all printable (write_at i sprite (empty_lane down)) \<and> length (write_at i sprite (empty_lane down)) = UI_INNER_WIDTH"
    if "i + 11 \<le> UI_INNER_WIDTH" for i
    using that write_at_printable [OF s(1)] e s(2) by (simp add: length_write_at)
  define found where "found = find (\<lambda>i. lane_state down (mon_crossings m ! i) = train_code TRAIN_APPROACHING \<or>
      lane_state down (mon_crossings m ! i) = train_code TRAIN_AT_CROSSING) (if down then [0, 1, 2] else [2, 1, 0])"
  have f: "i < NUM_CROSSINGS" if "found = Some i" for i
    using find_SomeD [OF that [unfolded found_def]] route_crossings by blast
  show ?thesis
  proof (cases found)
    case None
    then show ?thesis
      using assms e w [OF between_bound] unfolding map_train_lane_def sprite_def [symmetric] found_def [symmetric]
      by (auto simp: Let_def lane_ok_def)
  next
    case (Some i)
    then show ?thesis
      using assms e w [OF lane_start_bound [OF f [OF Some]]] f [OF Some]
      unfolding map_train_lane_def sprite_def [symmetric] found_def [symmetric]
      by (auto simp: Let_def lane_ok_def)
  qed
qed

text \<open>What the lane of a track is drawn from, read off the reports: the state of the track's train at a crossing, and
  whether every crossing has a valid, current report that tells the tracks apart.\<close>

definition train_reported :: "central_monitor \<Rightarrow> bool \<Rightarrow> nat \<Rightarrow> train_state \<Rightarrow> bool" where
  "train_reported m down i st \<longleftrightarrow>
     (if down then rs_down_state (cv_status (mon_crossings m ! i)) = train_code st
      else rs_up_state (cv_status (mon_crossings m ! i)) = train_code st)"

definition tracks_reported :: "central_monitor \<Rightarrow> bool" where
  "tracks_reported m \<longleftrightarrow>
     (\<forall>i < 3. cv_valid (mon_crossings m ! i) \<and> cv_synchronized (mon_crossings m ! i) \<and>
        rs_track_states (cv_status (mon_crossings m ! i)) \<noteq> 0)"

text \<open>The empty lane, and one with a train from column \<open>k\<close> on.\<close>

definition bare_lane :: "bool \<Rightarrow> string" where
  "bare_lane down = (if down then ''DN >>>  '' @ replicate 88 CHR ''.'' @ ''        ''
     else ''        '' @ replicate 88 CHR ''.'' @ ''  <<< UP'')"

definition lane_with_train :: "bool \<Rightarrow> nat \<Rightarrow> string" where
  "lane_with_train down k =
     take k (bare_lane down) @ (if down then ''[>>>][>>>]>'' else ''<[<<<][<<<]'') @ drop (k + 11) (bare_lane down)"

lemma bare_lane: "empty_lane down = bare_lane down"
proof -
  have "take 98 (replicate 8 CHR '' '' @ replicate 88 CHR ''.'' @ replicate 8 CHR '' '') =
      replicate 8 CHR '' '' @ replicate 88 CHR ''.'' @ replicate 2 CHR '' ''"
    "drop 6 (replicate 8 CHR '' '' @ replicate 88 CHR ''.'' @ replicate 8 CHR '' '') =
      replicate 2 CHR '' '' @ replicate 88 CHR ''.'' @ replicate 8 CHR '' ''" by simp_all
  moreover have "replicate 2 CHR '' '' = ''  ''" "replicate 8 CHR '' '' = ''        ''" by (simp_all add: numeral_eq_Suc)
  ultimately show ?thesis
    by (cases down) (simp_all only: empty_lane_def bare_lane_def Let_def write_at_def if_True if_False, simp_all)
qed

lemma lane_drawn: "write_at k (if down then down_sprite else up_sprite) (empty_lane down) = lane_with_train down k"
  by (simp add: write_at_def lane_with_train_def bare_lane up_sprite_def down_sprite_def eval_nat_numeral)

lemma tracks_listed:
  assumes "length (mon_crossings m) = NUM_CROSSINGS"
  shows "list_all (\<lambda>e. cv_valid e \<and> cv_synchronized e \<and> rs_track_states (cv_status e) \<noteq> 0) (take NUM_CROSSINGS (mon_crossings m)) \<longleftrightarrow>
    tracks_reported m"
  using assms by (simp add: tracks_reported_def list_all_length)

lemma label_columns: "take 2 (drop 21 (map_body f up dn ! 13)) = ''P1''" "take 2 (drop 48 (map_body f up dn ! 13)) = ''P2''"
  "take 2 (drop 75 (map_body f up dn ! 13)) = ''P3''"
  by (simp_all add: map_body_def card_rows_def)


definition railway_at :: "nat \<Rightarrow> central_monitor" where
  "railway_at i =
     (let m = central_monitor_init 0; e = (mon_crossings m ! 0)\<lparr>cv_valid := True, cv_synchronized := True,
            cv_status := (cv_status (mon_crossings m ! 0))\<lparr>rs_track_states := 1\<rparr>\<rparr>
      in m\<lparr>mon_crossings := (replicate NUM_CROSSINGS e)[i := e\<lparr>cv_status := (cv_status e)\<lparr>rs_up_state := 2\<rparr>\<rparr>]\<rparr>)"


lemma body_printable:
  assumes "list_all fields_ok f" "length f = 6" "list_all printable up" "list_all printable down"
  shows "list_all (list_all printable) (map_body f up down)"
proof -
  have f: "fields_ok (f ! i)" if "i < 6" for i using assms(1,2) that by (simp add: list_all_length)
  have cards: "list_all (list_all printable) (card_rows fs)" if "list_all fields_ok fs" "length fs = 3" for fs
  proof -
    have m: "list_all (list_all printable) (map (\<lambda>f. f ! k) fs)" if "k < 6" for k
      using \<open>list_all fields_ok fs\<close> that by (induction fs) (simp_all add: fields_nth)
    show ?thesis unfolding card_rows_def using that(2)
      by (intro list.pred_inject(2) [THEN iffD2] conjI list.pred_inject(1) card_row_printable m) (simp_all add: printable_code)
  qed
  have c: "list_all (list_all printable) (card_rows [f ! 0, f ! 2, f ! 4])" "list_all (list_all printable) (card_rows [f ! 1, f ! 3, f ! 5])"
    by (rule cards; simp add: f)+
  show ?thesis using c assms(3,4) by (simp add: map_body_def card_names_def printable_code)
qed

lemma length_body: "length (map_body f up down) = 29"
  by (simp add: map_body_def card_rows_def)

lemma crossing_row_printable: "list_all printable (map_crossing_row m b i)"
  by (simp add: map_crossing_row_def Let_def printable_code)

definition MAP_LINES :: nat where "MAP_LINES = 48"

lemma live_map_box:
  assumes "length (mon_intersections m) = NUM_INTERSECTIONS" "lane_ok (fst lanes)" "lane_ok (snd lanes)"
  shows "list_all box_line (fst (display_map m now lanes)) \<and> length (fst (display_map m now lanes)) = MAP_LINES \<and>
    lane_ok (fst (snd (display_map m now lanes))) \<and> lane_ok (snd (snd (display_map m now lanes)))"
proof -
  obtain up up_at down down_at where l: "map_train_lane m False (fst lanes) = (up, up_at)"
    "map_train_lane m True (snd lanes) = (down, down_at)" by (metis surj_pair)
  let ?f = "map map_fields (take NUM_INTERSECTIONS (mon_intersections m))"
  have ok: "list_all printable up" "list_all printable down" "lane_ok up_at" "lane_ok down_at"
    using lane_row_ok [OF assms(2), of m False] lane_row_ok [OF assms(3), of m True] by (simp_all add: l)
  have "list_all (list_all printable) (map_body ?f up down)"
    using ok(1,2) assms(1) by (intro body_printable) (simp_all add: list_all_iff fields_ok)
  then have body: "list_all box_line (map ui_row (map_body ?f up down))" by (auto simp: list_all_iff intro: row_box)
  have panels: "list_all box_line (ui_panel ''LIVE TRAFFIC MAP  |  SCHEMATIC VIEW - I1..I6 / P1..P3'')"
    "list_all box_line (ui_panel ''RAILWAY CROSSINGS  |  LIVE STATE'')"
    "list_all box_line (ui_panel ''SYSTEM STATUS  |  DISTRIBUTED HEALTH'')"
    "list_all box_line (ui_panel ''LIVE CONTROLS  |  TYPE COMMAND THEN ENTER - MAP CONTINUES'')"
    by (rule panel_box; simp add: printable_code)+
  have rail: "list_all box_line (map (\<lambda>i. ui_row (map_crossing_row m b i)) [0..<NUM_CROSSINGS])" for b
    unfolding list_all_iff [of box_line] set_map by (auto intro!: row_box crossing_row_printable)
  show ?thesis using ok(3,4) body panels rail
    by (simp add: display_map_def l Let_def row_box crossing_row_printable border_box length_panel length_body MAP_LINES_def
        printable_code)
qed


lemma box_text: "list_all box_line ls \<Longrightarrow> list_all (\<lambda>c. printable c \<or> c = CHR 0x0A) (concat ls)"
  by (induction ls) (auto simp: box_line_def list_all_iff)

lemma printable_not_nul: "printable c \<or> c = CHR 0x0A \<Longrightarrow> c \<noteq> NUL"
  by (auto simp: printable_def less_eq_char_def)

text \<open>The callback of the core for the display: a request that shows a view is answered with the rendered view and
  changes the state as the command does; \<open>other\<close> answers the requests that only print a confirmation. \<open>at\<close> is the
  clock of the view.\<close>

definition core_callback ::
  "(string \<Rightarrow> central_state \<times> int \<times> int \<Rightarrow> (int \<times> char list) \<times> (central_state \<times> int \<times> int)) \<Rightarrow>
   (nat \<Rightarrow> nat \<Rightarrow> u64 \<Rightarrow> string) \<Rightarrow> (nat \<Rightarrow> nat \<Rightarrow> u64) \<Rightarrow> string \<Rightarrow> bool \<Rightarrow> bool \<Rightarrow> string \<Rightarrow> u64 \<Rightarrow> u64 \<Rightarrow> u64 \<Rightarrow> string \<Rightarrow>
   central_state \<times> int \<times> int \<Rightarrow> (int \<times> char list) \<times> (central_state \<times> int \<times> int)" where
  "core_callback other secs clock build is_watching is_global stamp now later at request sl =
     (case ui_command stamp now later False request (fst sl) of
        (result, Console_Show v, s1) \<Rightarrow>
          let (ts, lanes) = view_texts secs clock build is_watching is_global s1 at (snd sl) v
          in (ui_rendered CENTRAL_UI_RESPONSE_SIZE result ts, (s1, lanes))
      | _ \<Rightarrow> other request sl)"

lemma map_command: "ui_command stamp now later False ''map'' s = (0, Console_Show View_Map, s)"
proof -
  have "trim_command (take 255 ''map'') = ''map''" "trim_command ''map'' = ''map''" "view_of ''map'' = Some View_Map" by code_simp+
  then show ?thesis by (simp add: ui_command_def execute_command_def)
qed



section \<open>The dashboard\<close>

lemma rows_sized: "list_all line_sized (map (\<lambda>i. ui_row (g i)) is)" "list_all line_sized (map ui_row ts)"
  by (simp_all add: list_all_iff row_sized)

lemma length_intersection_rows: "length (intersection_rows secs s now i) \<le> 3"
  by (simp add: intersection_rows_def telemetry_rows_def Let_def)

lemma intersections_sized: "list_all line_sized (concat (map (\<lambda>i. map ui_row (g i)) is))"
  by (auto simp: list_all_iff row_sized)

lemma length_intersections:
  "length (concat (map (\<lambda>i. map ui_row (intersection_rows secs s now i)) is)) \<le> 3 * length is"
proof (induction "is")
  case (Cons i "is")
  with length_intersection_rows [of secs s now i] show ?case by simp
qed simp

lemma dashboard_box:
  assumes "c_recent_count s \<le> 8"
  shows "list_all line_sized (display_ui secs True is_watching tty is_global s now) \<and>
    length (display_ui secs True is_watching tty is_global s now) \<le> 70"
proof -
  have n: "length (recent_events s) \<le> 8" using assms by (simp add: recent_events_def)
  have "list_all line_sized (display_ui secs True is_watching tty is_global s now)"
    unfolding display_ui_def Let_def
    by (simp add: panel_sized rows_sized intersections_sized row_sized box_line_sized [OF border_box] del: upt_conv_Cons)
  moreover have "length (display_ui secs True is_watching tty is_global s now) \<le> 70"
    using n length_intersections [of secs s now "[0..<NUM_INTERSECTIONS]"]
    unfolding display_ui_def Let_def by (simp add: length_panel del: upt_conv_Cons)
  ultimately show ?thesis ..
qed

text \<open>The dashboard is never cut short. For every state of Central whose list of recent events has its eight
  entries at most, whatever the status reports, the connections and the conversion of times, the dashboard is at most 70
  lines of the same width, so it fits the response buffer and is answered with the status of the command.\<close>

theorem dashboard_fits:
  assumes "c_recent_count s \<le> 8" "ls = display_ui secs True is_watching tty is_global s now"
  shows "list_all line_sized ls \<and>
    ui_rendered CENTRAL_UI_RESPONSE_SIZE result ls =
      (result, concat ls @ NUL # replicate (CENTRAL_UI_RESPONSE_SIZE - Suc (length (concat ls))) NUL)"
proof -
  have b: "list_all line_sized ls" "length ls \<le> 70" using dashboard_box [OF assms(1)] by (simp_all add: assms(2))
  then have "length (concat ls) < CENTRAL_UI_RESPONSE_SIZE"
    by (simp add: sized_concat CENTRAL_UI_RESPONSE_SIZE_def)
  with b(1) show ?thesis by (simp add: rendered_fits)
qed

lemma dashboard_fits_witness:
  "list_all line_sized (display_ui (\<lambda>_ _ _. ''0.0'') True False False False (central_start (replicate 6 0) 2 5 None) 0)"
proof -
  have "c_recent_count (central_start (replicate 6 0) 2 5 None) \<le> 8" by (simp add: central_start_def)
  from dashboard_fits [OF this refl, of "\<lambda>_ _ _. ''0.0''" False False False 0] show ?thesis by blast
qed


section \<open>Lamps\<close>

text \<open>A bulb on a coloured terminal: its escape sequence when it is lit, dim white when it is not.\<close>

definition bulb :: "bool \<Rightarrow> string \<Rightarrow> string" where
  "bulb lit code = CHR 0x1B # (if lit then code else ''[2;37m'') @ ''{o}'' @ CHR 0x1B # ''[0m''"

lemma lamp_step:
  assumes "c = CHR ''O'' \<or> c = CHR ''o''"
  shows "render_cursor color before slot ([CHR ''{'', c, CHR ''}''] @ rest) =
    painted color (if c = CHR ''O'' then active_colors ! (slot mod 3) else UI_DIM_WHITE) ''{o}'' @
    render_cursor color (Some CHR ''}'') (Suc slot) rest"
proof -
  have "render_piece color before slot ([CHR ''{'', c, CHR ''}''] @ rest) =
      (painted color (if c = CHR ''O'' then active_colors ! (slot mod 3) else UI_DIM_WHITE) ''{o}'', 3, True)"
    using assms by (auto simp: render_piece_def numeral_3_eq_3)
  then show ?thesis by (subst render_cursor.simps) (simp add: Let_def numeral_3_eq_3)
qed

lemma bulb_painted:
  "painted True (if lit then active_colors ! 0 else UI_DIM_WHITE) ''{o}'' = bulb lit ''[1;31m''"
  "painted True (if lit then active_colors ! 1 else UI_DIM_WHITE) ''{o}'' = bulb lit ''[1;33m''"
  "painted True (if lit then active_colors ! 2 else UI_DIM_WHITE) ''{o}'' = bulb lit ''[1;32m''"
  by (simp_all add: painted_def bulb_def active_colors_def UI_RED_def UI_YELLOW_def UI_GREEN_def UI_DIM_WHITE_def UI_RESET_def
      numeral_2_eq_2)

text \<open>C40: The lamps on the screen are the lamps that were reported. Where the map has the three lamps of an approach whose
  light is \<open>l\<close> and the lamps before them on the line came in threes, the display writes three bulbs: the first is lit, in
  bold red (escape code 1;31), exactly when the light is red, the second in bold yellow (1;33) exactly when it is
  yellow, the third in bold green (1;32) exactly when it is green; every other bulb is dim white (2;37).\<close>

theorem lamps_shown_true:
  assumes "slot mod 3 = 0"
  shows "render_cursor True before slot (map_lamps (unat (light_code l)) @ rest) =
    bulb (l = LIGHT_RED) ''[1;31m'' @ bulb (l = LIGHT_YELLOW) ''[1;33m'' @ bulb (l = LIGHT_GREEN) ''[1;32m'' @
    render_cursor True (Some CHR ''}'') (slot + 3) rest"
proof -
  let ?s = "unat (light_code l)"
  let ?c = "\<lambda>k. if ?s = k then CHR ''O'' else CHR ''o''"
  have l: "?s \<le> 3" "l = LIGHT_RED \<longleftrightarrow> ?s = 1" "l = LIGHT_YELLOW \<longleftrightarrow> ?s = 2" "l = LIGHT_GREEN \<longleftrightarrow> ?s = 3"
    by (cases l; simp)+
  have m: "map_lamps ?s @ rest = [CHR ''{'', ?c 1, CHR ''}''] @ [CHR ''{'', ?c 2, CHR ''}''] @ [CHR ''{'', ?c 3, CHR ''}''] @ rest"
    using l(1) by (simp add: map_lamps_def)
  have c: "?c k = CHR ''O'' \<or> ?c k = CHR ''o''" for k by simp
  have slots: "Suc slot mod 3 = 1" "Suc (Suc slot) mod 3 = 2" using assms by presburger+
  have colors: "(if ?c k = CHR ''O'' then x else y) = (if ?s = k then x else y)" for k and x y :: string by simp
  show ?thesis unfolding m lamp_step [OF c] colors slots assms l(2-4) bulb_painted
    by (simp add: numeral_3_eq_3)
qed

lemma render_cursor_Nil: "render_cursor color before slot [] = []"
  by (subst render_cursor.simps) simp

lemma lamps_shown_true_witness:
  "render_cursor True None 0 (map_lamps 3) = bulb False ''[1;31m'' @ bulb False ''[1;33m'' @ bulb True ''[1;32m''"
  using lamps_shown_true [of 0 None LIGHT_GREEN "[]"] by (simp add: render_cursor_Nil)

end
