(* ===== verification/Central_Console.thy ===== *)
theory Central_Console
  imports Central_Views
begin

text \<open>
  Central's own console in \<^verbatim>\<open>central_controller.c\<close>: the colouring of the live dashboard, the loop of \<^verbatim>\<open>main\<close>
  over typed bytes, and the waiting of the peer and schedule threads. What is written is a string; the clock,
  the signal, the result of \<^verbatim>\<open>poll\<close> and the typed bytes are arguments.
\<close>

section \<open>Colouring\<close>

definition UI_DIM :: string where "UI_DIM = ESC # ''[2m''"

definition dim_white :: string where "dim_white = UI_DIM @ ESC # ''[37m''"

definition dim_cyan :: string where "dim_cyan = UI_DIM @ ESC # ''[36m''"

text \<open>The words of the console are those of the display process but two.\<close>

definition console_tokens :: "(string \<times> string) list" where
  "console_tokens = filter (\<lambda>(keyword, _). keyword \<noteq> ''REQ'' \<and> keyword \<noteq> ''PED'') keyword_tokens"

definition ui_keyword_color :: "char option \<Rightarrow> string \<Rightarrow> (nat \<times> string) option" where
  "ui_keyword_color before cursor =
     map_option (\<lambda>(keyword, color). (length keyword, color))
       (find (\<lambda>(keyword, color). keyword_match before cursor keyword) console_tokens)"

definition ui_console_render_label_triplet :: "string \<Rightarrow> string" where
  "ui_console_render_label_triplet cursor =
     painted True (if cursor ! 0 = CHR ''R'' then UI_RED else dim_white) ''R'' @ ''  '' @
     painted True (if cursor ! 3 = CHR ''Y'' then UI_YELLOW else dim_white) ''Y'' @ ''  '' @
     painted True (if cursor ! 6 = CHR ''G'' then UI_GREEN else dim_white) ''G''"

text \<open>One round of the loop of \<open>ui_console_write\<close>: what is written, how far the cursor moves, the lamp slot after it.
  \<open>before\<close> is the character before the cursor, \<open>None\<close> at the start of a line.\<close>

definition console_piece :: "char option \<Rightarrow> nat \<Rightarrow> string \<Rightarrow> string \<times> nat \<times> nat" where
  "console_piece before slot cursor =
     (if before = None \<and> border_line cursor then
        let border = takeWhile (\<lambda>c. c \<noteq> CHR 0x0A) cursor; n = length border; more = n < length cursor
        in (painted True dim_cyan border @ (if more then NL else []), if more then Suc n else n, slot)
      else if hd cursor = CHR 0x0A then (NL, 1, 0)
      else if take 3 cursor = ''{O}'' \<or> take 3 cursor = ''{o}'' then
        (painted True (if cursor ! 1 = CHR ''O'' then active_colors ! (slot mod 3) else dim_white) ''{o}'', 3, Suc slot)
      else if take 3 cursor = ''{?}'' then (painted True UI_YELLOW ''{?}'', 3, Suc slot)
      else if lamp_label_triplet cursor then (ui_console_render_label_triplet cursor, 7, slot)
      else if take 6 cursor = ''DN >>>'' then (painted True UI_GREEN ''DN'' @ '' >>>'', 6, slot)
      else if take 11 cursor = ''<[<<<][<<<]'' \<or> take 11 cursor = ''[>>>][>>>]>'' then
        (painted True UI_ORANGE (take 11 cursor), 11, slot)
      else case ui_keyword_color before cursor of
        Some (len, code) \<Rightarrow> (painted True code (take len cursor), len, slot)
      | None \<Rightarrow> ([hd cursor], 1, slot))"

lemma keyword_tokens_printable: "list_all (\<lambda>(k, code). list_all printable k) keyword_tokens"
  by code_simp

lemma console_tokens_ok: "list_all (\<lambda>(k, code). k \<noteq> [] \<and> list_all printable k) console_tokens"
  using keyword_tokens_ok keyword_tokens_printable by (auto simp: console_tokens_def list_all_iff)

lemma ui_keyword_color_Some:
  assumes "ui_keyword_color before cursor = Some (len, code)"
  shows "0 < len" "len \<le> length cursor" "is_code code" "list_all printable (take len cursor)"
proof -
  from assms obtain k where k: "find (\<lambda>(keyword, color). keyword_match before cursor keyword) console_tokens = Some (k, code)"
    "len = length k" by (auto simp: ui_keyword_color_def)
  then have m: "keyword_match before cursor k" "(k, code) \<in> set console_tokens" by (auto simp: find_Some_iff) (metis nth_mem)
  then have "k \<noteq> []" "list_all printable k" "take (length k) cursor = k" using console_tokens_ok by (auto simp: list_all_iff keyword_match_def)
  moreover from this have "length k \<le> length cursor" by (metis length_take min.cobounded1)
  ultimately show "0 < len" "len \<le> length cursor" "list_all printable (take len cursor)" using k(2) by auto
  show "is_code code" using m(2) token_codes by (auto simp: console_tokens_def)
qed

lemma border_first: "border_line cursor \<Longrightarrow> 0 < length (takeWhile (\<lambda>c. c \<noteq> CHR 0x0A) cursor)"
  by (cases cursor) (auto simp: border_line_def char_at_def split: if_splits)

lemma console_piece_moves: "0 < fst (snd (console_piece before slot cursor))"
  using border_first [of cursor] ui_keyword_color_Some(1) [of before cursor]
  by (auto simp: console_piece_def Let_def split: option.split)

function console_cursor :: "char option \<Rightarrow> nat \<Rightarrow> string \<Rightarrow> string" where
  "console_cursor before slot cursor =
     (if cursor = [] then []
      else
        let (out, n, slot1) = console_piece before slot cursor; c = last (take n cursor)
        in out @ console_cursor (if c = CHR 0x0A then None else Some c) slot1 (drop n cursor))"
  by pat_completeness auto
termination
proof (relation "measure (\<lambda>(_, _, cursor). length cursor)", goal_cases)
  case (2 before slot cursor x out y n slot1 c)
  have "0 < n" using console_piece_moves [of before slot cursor] 2 by (metis fst_conv snd_conv)
  moreover have "cursor \<noteq> []" using 2 by simp
  ultimately show ?case by (cases cursor) auto
qed simp

declare console_cursor.simps [simp del]

definition ui_console_write :: "string \<Rightarrow> string" where
  "ui_console_write text = console_cursor None 0 text"

text \<open>An output on the console; \<open>painting\<close> is whether a dashboard is drawn on a terminal and colour is not turned off.\<close>

definition console_output :: "bool \<Rightarrow> string \<Rightarrow> string" where
  "console_output painting t = (if painting then ui_console_write (take 2047 t) else t)"

section \<open>What the colours leave visible\<close>

lemma shows_dim: "list_all printable t \<Longrightarrow> displays (painted True dim_white t) t" "list_all printable t \<Longrightarrow> displays (painted True dim_cyan t) t"
proof -
  have c: "is_code UI_DIM" "is_code (ESC # ''[37m'')" "is_code (ESC # ''[36m'')"
    by (rule is_codeI [where w = "''[2''"], simp_all add: UI_DIM_def)
      (rule is_codeI [where w = "''[37''"], simp_all, rule is_codeI [where w = "''[36''"], simp_all)
  assume t: "list_all printable t"
  show "displays (painted True dim_white t) t" "displays (painted True dim_cyan t) t"
    using visible_code [OF c(1)] visible_code [OF c(2)] visible_code [OF c(3)] visible_code [OF codes(1)] visible_plain [OF t]
    unfolding displays_def painted_def dim_white_def dim_cyan_def by (simp_all only: if_True append_assoc simp_thms)
qed

definition shown :: "char \<Rightarrow> bool" where "shown c \<longleftrightarrow> printable c \<or> c = CHR 0x0A"

lemma displays_NL: "displays NL NL"
  by (simp add: displays_def)

lemma console_triplet: "displays (ui_console_render_label_triplet cursor) ''R  Y  G''"
proof -
  have "displays (ui_console_render_label_triplet cursor) (''R'' @ ''  '' @ ''Y'' @ ''  '' @ ''G'')"
    unfolding ui_console_render_label_triplet_def
    by (intro displays_append displays_plain; (simp add: shows_dim displays_painted)?)
  then show ?thesis by simp
qed

lemma before_newline: "list_all shown s \<Longrightarrow> list_all printable (takeWhile (\<lambda>c. c \<noteq> CHR 0x0A) s)"
  by (induction s) (auto simp: shown_def)

lemma take_border:
  "takeWhile P s = b \<Longrightarrow> length b < length s \<Longrightarrow> take (Suc (length b)) s = b @ [s ! length b] \<and> \<not> P (s ! length b)"
  using nth_length_takeWhile [of P s] takeWhile_eq_take [of P s] by (auto simp: take_Suc_conv_app_nth)

definition piece_ok :: "string \<Rightarrow> string \<Rightarrow> bool" where
  "piece_ok out covered \<longleftrightarrow> (\<exists>t. displays out t \<and> same_letters t covered)"

lemma piece_okI: "displays out t \<Longrightarrow> same_letters t covered \<Longrightarrow> piece_ok out covered"
  by (auto simp: piece_ok_def)

lemma piece_append: "piece_ok a s \<Longrightarrow> piece_ok b t \<Longrightarrow> piece_ok (a @ b) (s @ t)"
  unfolding piece_ok_def by (metis displays_append map_append same_letters_def)

lemma console_border:
  assumes "list_all shown cursor" "border_line cursor"
  shows "piece_ok (fst (console_piece None slot cursor)) (take (fst (snd (console_piece None slot cursor))) cursor)"
proof -
  let ?b = "takeWhile (\<lambda>c. c \<noteq> CHR 0x0A) cursor"
  have b: "displays (painted True dim_cyan ?b) ?b" by (rule shows_dim(2) [OF before_newline [OF assms(1)]])
  show ?thesis
  proof (cases "length ?b < length cursor")
    case True
    from take_border [OF refl this] have t: "take (Suc (length ?b)) cursor = ?b @ NL" by auto
    have "piece_ok (painted True dim_cyan ?b @ NL) (take (Suc (length ?b)) cursor)"
      unfolding t by (rule piece_okI [OF displays_append [OF b displays_NL] same_refl])
    with True assms(2) show ?thesis by (simp add: console_piece_def Let_def)
  next
    case False
    then have "take (length ?b) cursor = ?b" by (metis takeWhile_eq_take)
    with piece_okI [OF b same_refl] False assms(2) show ?thesis by (simp add: console_piece_def Let_def)
  qed
qed

lemma lamp_piece:
  assumes "take 3 cursor = ''{O}'' \<or> take 3 cursor = ''{o}''"
  shows "piece_ok (painted True (if b then active_colors ! (slot mod 3) else dim_white) ''{o}'') (take 3 cursor)"
proof -
  have "displays (painted True (if b then active_colors ! (slot mod 3) else dim_white) ''{o}'') ''{o}''"
    by (cases b) (simp_all add: shows_dim(1) displays_painted active_code)
  then show ?thesis using assms lamp_upper by (auto intro: piece_okI)
qed

lemma take_shorter: "take 11 s = t \<Longrightarrow> list_all printable t \<Longrightarrow> list_all printable (take 11 s)"
  by simp

lemma console_piece_shows:
  assumes "cursor \<noteq> []" "list_all shown cursor"
  shows "piece_ok (fst (console_piece before slot cursor)) (take (fst (snd (console_piece before slot cursor))) cursor)"
proof (cases "before = None \<and> border_line cursor")
  case True
  then show ?thesis using console_border [OF assms(2)] by simp
next
  case False
  have one: "take 1 cursor = [hd cursor]" using assms(1) by (cases cursor) simp_all
  have trains: "list_all printable ''<[<<<][<<<]''" "list_all printable ''[>>>][>>>]>''" by code_simp+
  have nl: "piece_ok NL (take 1 cursor)" if "hd cursor = CHR 0x0A"
    unfolding one that by (rule piece_okI [OF displays_NL same_refl])
  have unk: "piece_ok (painted True UI_YELLOW ''{?}'') (take 3 cursor)" if "take 3 cursor = ''{?}''"
    unfolding that by (rule piece_okI [OF displays_painted same_refl]) simp_all
  have trip: "piece_ok (ui_console_render_label_triplet cursor) (take 7 cursor)" if "lamp_label_triplet cursor"
    by (rule piece_okI [OF console_triplet]) (use triplet_split(2) [OF that] in \<open>simp add: same_letters_def\<close>)
  have dn: "piece_ok (painted True UI_GREEN ''DN'' @ '' >>>'') (take 6 cursor)" if "take 6 cursor = ''DN >>>''"
  proof -
    have "displays (painted True UI_GREEN ''DN'' @ '' >>>'') (''DN'' @ '' >>>'')"
      by (intro displays_append displays_painted displays_plain) simp_all
    then show ?thesis unfolding that by (intro piece_okI [OF _ same_refl]) simp
  qed
  have tr: "piece_ok (painted True UI_ORANGE (take 11 cursor)) (take 11 cursor)"
    if "take 11 cursor = ''<[<<<][<<<]'' \<or> take 11 cursor = ''[>>>][>>>]>''"
    by (rule piece_okI [OF displays_painted same_refl], simp) (use that trains in auto)
  have word: "piece_ok (painted True code (take len cursor)) (take len cursor)" if "ui_keyword_color before cursor = Some (len, code)" for len code
    by (rule piece_okI [OF displays_painted [OF ui_keyword_color_Some(3,4) [OF that]] same_refl])
  have plain: "piece_ok [hd cursor] (take 1 cursor)" if "hd cursor \<noteq> CHR 0x0A"
    unfolding one by (rule piece_okI [OF displays_plain same_refl]) (use that assms in \<open>cases cursor; simp add: shown_def\<close>)
  show ?thesis
    unfolding console_piece_def if_not_P [OF False]
    using nl lamp_piece unk trip dn tr word plain by (simp split: option.split if_split)
qed

lemma console_cursor_shows: "list_all shown cursor \<Longrightarrow> piece_ok (console_cursor before slot cursor) cursor"
proof (induction before slot cursor rule: console_cursor.induct)
  case (1 before slot cursor)
  show ?case
  proof (cases "cursor = []")
    case True
    then show ?thesis by (subst console_cursor.simps) (simp add: piece_ok_def displays_def same_letters_def)
  next
    case False
    obtain out n slot1 where p: "console_piece before slot cursor = (out, n, slot1)" by (cases "console_piece before slot cursor")
    from console_piece_shows [OF False "1.prems", of before slot] have a: "piece_ok out (take n cursor)" by (simp add: p)
    have "list_all shown (drop n cursor)" using "1.prems" by (auto simp: list_all_iff dest: in_set_dropD)
    from piece_append [OF a "1.IH" [OF False p [symmetric] refl refl refl this]] False
    show ?thesis by (subst console_cursor.simps) (simp add: p Let_def)
  qed
qed

text \<open>Like the display process, the console of Central only adds colour.\<close>

theorem console_shows_text:
  assumes "list_all shown t"
  shows "map to_upper (visible (ui_console_write t)) = map to_upper t"
proof -
  from console_cursor_shows [OF assms, of None 0] obtain v where
    v: "displays (ui_console_write t) v" "same_letters v t" by (auto simp: piece_ok_def ui_console_write_def)
  from v(1) have "visible (ui_console_write t @ []) = v @ visible []" unfolding displays_def by blast
  with v(2) show ?thesis by (simp add: same_letters_def)
qed

section \<open>The loop of the console\<close>

text \<open>What the loop does: it writes, draws the live dashboard, or executes a line and writes what that rendered.\<close>

datatype console_action = Con_Write string | Con_Display | Con_Execute string

record console_loop =
  cl_line :: string
  cl_overflow :: bool
  cl_watching :: bool
  cl_last_display :: u64
  cl_shutdown :: bool

definition console_loop_start :: console_loop where
  "console_loop_start = \<lparr>cl_line = [], cl_overflow = False, cl_watching = False, cl_last_display = 0, cl_shutdown = False\<rparr>"

text \<open>What \<open>execute_command\<close> does to the loop.\<close>

definition console_executed :: "string \<Rightarrow> console_loop \<Rightarrow> console_loop" where
  "console_executed line st =
     (let command = trim_command line in
      if command = ''watch'' then st\<lparr>cl_watching := True\<rparr>
      else if command = ''quit'' \<or> command = ''shutdown'' then st\<lparr>cl_shutdown := True\<rparr>
      else st)"

text \<open>The end of a line; \<open>interrupted\<close> is the flag of the signal, \<open>now\<close> the time after the command.\<close>

definition console_enter :: "bool \<Rightarrow> u64 \<Rightarrow> console_loop \<Rightarrow> console_action list \<times> console_loop" where
  "console_enter interrupted now st =
     (let line = cstr (cl_line st @ [NUL]);
          (actions, st1) =
            (if cl_watching st
             then ([Con_Write (''Live view stopped. Type status to inspect a snapshot.'' @ NL)], st\<lparr>cl_watching := False\<rparr>)
             else if cl_overflow st then ([Con_Write (''Command too long'' @ NL)], st)
             else ([Con_Execute line], console_executed line st));
          st2 = st1\<lparr>cl_line := [], cl_overflow := False\<rparr>
      in if cl_watching st2 then (actions, st2\<lparr>cl_last_display := now\<rparr>)
         else if interrupted then (actions, st2)
         else (actions @ [Con_Write ''> ''], st2))"

definition console_byte :: "bool \<Rightarrow> u64 \<Rightarrow> char \<Rightarrow> console_loop \<Rightarrow> console_action list \<times> console_loop" where
  "console_byte interrupted now b st =
     (if b = CHR 0x0A then console_enter interrupted now st
      else if length (cl_line st) + 1 < 256 then ([], st\<lparr>cl_line := cl_line st @ [b]\<rparr>)
      else ([], st\<lparr>cl_overflow := True\<rparr>))"

text \<open>The bytes of a read, each with the flag before it, the flag after a command and the time.\<close>

fun console_bytes :: "(bool \<times> bool \<times> u64 \<times> char) list \<Rightarrow> console_loop \<Rightarrow> console_action list \<times> console_loop" where
  "console_bytes [] st = ([], st)"
| "console_bytes ((stop, interrupted, now, b) # bs) st =
     (if stop \<or> cl_shutdown st then ([], st)
      else let (as1, st1) = console_byte interrupted now b st; (as2, st2) = console_bytes bs st1 in (as1 @ as2, st2))"

text \<open>What \<open>poll\<close> and \<open>read\<close> give; a console without an input, \<open>--headless\<close>, sees only the first two.\<close>

datatype console_event = Con_Poll_Failed bool | Con_Nothing | Con_Data "(bool \<times> bool \<times> u64 \<times> char) list"
  | Con_End_Of_Input | Con_Read_Failed bool | Con_Broken

text \<open>One round of the loop; the last part is the result of the process when the loop ends.\<close>

definition console_round :: "bool \<Rightarrow> u64 \<Rightarrow> console_event \<Rightarrow> console_loop \<Rightarrow> console_action list \<times> console_loop \<times> bool option" where
  "console_round interrupted now event st =
     (if interrupted \<or> cl_shutdown st then ([], st, Some True)
      else
        let due = cl_watching st \<and> CENTRAL_NSEC \<le> now - cl_last_display st;
            as1 = (if due then [Con_Display] else []);
            st1 = (if due then st\<lparr>cl_last_display := now\<rparr> else st)
        in case event of
          Con_Poll_Failed eintr \<Rightarrow> (as1, st1, if eintr then None else Some False)
        | Con_Nothing \<Rightarrow> (as1, st1, None)
        | Con_Data bytes \<Rightarrow> let (as2, st2) = console_bytes bytes st1 in (as1 @ as2, st2, None)
        | Con_End_Of_Input \<Rightarrow> (as1, st1, Some True)
        | Con_Read_Failed eintr \<Rightarrow> (as1, st1, if eintr then None else Some False)
        | Con_Broken \<Rightarrow> (as1, st1, Some False))"

text \<open>What is written of the outputs of a command.\<close>

definition console_rendered :: "nat \<Rightarrow> string list \<Rightarrow> string" where
  "console_rendered capacity ts =
     (let (buffer, truncated) = fold (output_text capacity) ts ([], False)
      in cstr (buffer @ [NUL]) @ (if truncated then NL @ ''OUTPUT TRUNCATED'' @ NL else []))"

definition executed :: "console_action list \<Rightarrow> string list" where
  "executed actions = concat (map (\<lambda>a. case a of Con_Execute l \<Rightarrow> [l] | _ \<Rightarrow> []) actions)"

lemma console_bytes_append:
  "console_bytes (xs @ ys) st =
     (let (as1, st1) = console_bytes xs st
      in if list_ex (\<lambda>(stop, _). stop) xs then (as1, st1)
         else let (as2, st2) = console_bytes ys st1 in (as1 @ as2, st2))"
  if "\<not> list_ex (\<lambda>(_, _, _, b). b = CHR 0x0A) xs" "\<not> cl_shutdown st"
  using that
proof (induction xs arbitrary: st)
  case (Cons x xs)
  obtain stop i now b where x: "x = (stop, i, now, b)" by (cases x) auto
  have "b \<noteq> CHR 0x0A" using Cons.prems(1) by (simp add: x)
  then have "\<not> cl_shutdown (snd (console_byte i now b st))" using Cons.prems(2) by (simp add: console_byte_def)
  with Cons.IH [of "snd (console_byte i now b st)"] Cons.prems show ?case
    by (simp add: x Let_def split_beta)
qed simp

lemma console_typed:
  assumes "\<not> list_ex (\<lambda>(stop, _, _, b). stop \<or> b = CHR 0x0A) xs" "\<not> cl_shutdown st" "length (cl_line st) \<le> 255"
  shows "console_bytes xs st =
    ([], st\<lparr>cl_line := take 255 (cl_line st @ map (\<lambda>(_, _, _, b). b) xs),
            cl_overflow := (cl_overflow st \<or> 255 < length (cl_line st) + length xs)\<rparr>)"
  using assms
proof (induction xs arbitrary: st)
  case (Cons x xs)
  obtain stop i now b where x: "x = (stop, i, now, b)" by (cases x) auto
  let ?s = "if length (cl_line st) < 255 then st\<lparr>cl_line := cl_line st @ [b]\<rparr> else st\<lparr>cl_overflow := True\<rparr>"
  have step: "console_byte i now b st = ([], ?s)" using Cons.prems(1) by (simp add: x console_byte_def)
  from Cons.IH [of ?s] Cons.prems show ?case by (cases "length (cl_line st) < 255") (simp_all add: x step Let_def)
qed simp

text \<open>A line on Central's console is executed once or not at all: from an empty buffer, the bytes up to the end of
  the line make exactly one command of that line, unless it does not fit the buffer of 256 bytes or the live view
  is on, which the line ends instead; the buffer is empty again.\<close>

theorem console_line_executed_once:
  assumes "\<not> list_ex (\<lambda>(stop, _, _, b). stop \<or> b = CHR 0x0A) xs" "cl_line st = []" "\<not> cl_overflow st" "\<not> cl_shutdown st"
  shows "let (actions, st') = console_bytes (xs @ [(False, interrupted, now, CHR 0x0A)]) st; line = map (\<lambda>(_, _, _, b). b) xs in
    executed actions = (if cl_watching st \<or> 255 < length line then [] else [cstr (line @ [NUL])]) \<and>
    cl_line st' = [] \<and> \<not> cl_overflow st' \<and> (cl_watching st \<longrightarrow> \<not> cl_watching st')"
proof -
  have no_nl: "\<not> list_ex (\<lambda>(_, _, _, b). b = CHR 0x0A) xs" "\<not> list_ex (\<lambda>(stop, _). stop) xs"
    using assms(1) by (auto simp: list_ex_iff)
  let ?line = "map (\<lambda>(_, _, _, b). b) xs"
  let ?st = "st\<lparr>cl_line := take 255 ?line, cl_overflow := (255 < length xs)\<rparr>"
  have "console_bytes xs st = ([], ?st)" using console_typed [OF assms(1,4)] assms(2,3) by simp
  then have "console_bytes (xs @ [(False, interrupted, now, CHR 0x0A)]) st = console_enter interrupted now ?st"
    using console_bytes_append [OF no_nl(1) assms(4)] no_nl(2) assms(4) by (simp add: console_byte_def split_beta)
  then show ?thesis
    by (simp add: console_enter_def console_executed_def executed_def Let_def)
qed

section \<open>Waiting\<close>

text \<open>Whether a peer thread goes on waiting, and until when at most.\<close>

definition peer_waits :: "bool \<Rightarrow> u64 \<Rightarrow> u64 \<Rightarrow> bool \<Rightarrow> central_state \<Rightarrow> nat \<Rightarrow> bool" where
  "peer_waits running now next_tick command_ready s peer \<longleftrightarrow>
     running \<and> now < next_tick \<and> \<not> (command_ready \<and> queue_ready_locked s peer now)"

definition peer_wake :: "u64 \<Rightarrow> bool \<Rightarrow> central_state \<Rightarrow> nat \<Rightarrow> u64" where
  "peer_wake next_tick command_ready s peer =
     (if command_ready
      then fold (\<lambda>i wake. let due = qc_not_before (ring_nth (c_queue s ! peer) i) in if due < wake then due else wake)
             [0..<ring_count (c_queue s ! peer)] next_tick
      else next_tick)"

text \<open>A peer thread of a Local that no intersection is routed to does nothing.\<close>

definition peer_has_work :: "central_state \<Rightarrow> nat \<Rightarrow> bool" where
  "peer_has_work s peer \<longleftrightarrow> peer = 1 \<or> list_ex (\<lambda>t. c_local_route s ! t = peer) [0..<NUM_INTERSECTIONS]"

text \<open>The next release of the schedule thread, five a second.\<close>

definition schedule_release :: "u64 \<Rightarrow> u64 \<Rightarrow> u64" where
  "schedule_release next now = next_release (CENTRAL_NSEC div 5) next now"

lemma fold_least:
  fixes f :: "nat \<Rightarrow> u64"
  shows "fold (\<lambda>i w. let d = f i in if d < w then d else w) is w = Min (insert w (f ` set is))"
proof (induction "is" arbitrary: w)
  case (Cons i "is")
  let ?w = "if f i < w then f i else w"
  have w: "?w = min (f i) w" by (auto simp: min_def dest: less_imp_le)
  have "fold (\<lambda>i w. let d = f i in if d < w then d else w) (i # is) w = Min (insert ?w (f ` set is))"
    using Cons.IH [of ?w] by (simp add: Let_def)
  also have "\<dots> = Min (insert w (f ` set (i # is)))" unfolding w
    by (cases "set is = {}") (simp_all add: min.commute min.left_commute min.assoc)
  finally show ?case .
qed simp

text \<open>A waiting peer thread neither spins nor oversleeps: the time it sleeps until is in the future, not after its next
  release, and not after the release of a command in its queue that it could send.\<close>

theorem peer_wait_exact:
  assumes "peer_waits running now next_tick command_ready s peer"
  shows "now < peer_wake next_tick command_ready s peer \<and> peer_wake next_tick command_ready s peer \<le> next_tick \<and>
    (command_ready \<longrightarrow> (\<forall>i < ring_count (c_queue s ! peer).
      peer_wake next_tick command_ready s peer \<le> qc_not_before (ring_nth (c_queue s ! peer) i)))"
proof (cases command_ready)
  case True
  let ?f = "\<lambda>i. qc_not_before (ring_nth (c_queue s ! peer) i)" and ?n = "ring_count (c_queue s ! peer)"
  have w: "peer_wake next_tick command_ready s peer = Min (insert next_tick (?f ` {0..<?n}))"
    using fold_least [of ?f "[0..<?n]" next_tick] True by (simp add: peer_wake_def)
  have "now < ?f i" if "i < ?n" for i
    using assms that True by (auto simp: peer_waits_def queue_ready_locked_def first_due_def find_None_iff not_le)
  moreover have "now < next_tick" using assms by (simp add: peer_waits_def)
  moreover have "Min (insert next_tick (?f ` {0..<?n})) \<in> insert next_tick (?f ` {0..<?n})" by (rule Min_in) simp_all
  ultimately have "now < Min (insert next_tick (?f ` {0..<?n}))" by auto
  moreover have "Min (insert next_tick (?f ` {0..<?n})) \<le> next_tick" by (rule Min_le) simp_all
  moreover have "Min (insert next_tick (?f ` {0..<?n})) \<le> ?f i" if "i < ?n" for i by (rule Min_le) (use that in simp_all)
  ultimately show ?thesis unfolding w by blast
next
  case False
  with assms show ?thesis by (simp add: peer_waits_def peer_wake_def)
qed

end
