(* ===== verification/Local_Console.thy ===== *)
theory Local_Console
  imports Local_Place "HOL-Library.Multiset"
begin

text \<open>
  The consoles and the launcher of Local: the calls of \<^verbatim>\<open>local_process.c\<close>, the interactive terminal and the
  two separate roles of \<^verbatim>\<open>local_ui.c\<close>, and \<^verbatim>\<open>local_launcher.c\<close>. Output is the string that is written; the
  outcomes of kernel calls are arguments.
\<close>

section \<open>Calls to the core\<close>

definition VM2_TRAIN_NAME :: string where "VM2_TRAIN_NAME = ''vm2_train_controller''"
definition VM3_CENTRAL_NAME :: string where "VM3_CENTRAL_NAME = ''vm3_central_controller''"

text \<open>\<open>armed\<close> is whether the timeout could be set, \<open>name_open\<close> the connection the kernel gives for a path.\<close>

definition open_service :: "bool \<Rightarrow> (string \<Rightarrow> int) \<Rightarrow> string \<Rightarrow> bool \<Rightarrow> int" where
  "open_service armed name_open name global =
     (if \<not> armed then - 1
      else if global then
        (if name = CENTRAL_SERVICE_NAME then name_open (''/net/'' @ VM3_CENTRAL_NAME @ ''/dev/name/local/'' @ name)
         else if name = TRAIN_SERVICE_NAME then name_open (''/net/'' @ VM2_TRAIN_NAME @ ''/dev/name/local/'' @ name)
         else name_open name)
      else name_open name)"

text \<open>Whether the exchange succeeded, and the connection, which a failed send closes. \<open>result\<close> is that of
  \<open>MsgSend\<close>.\<close>

definition exchange :: "bool \<Rightarrow> int \<Rightarrow> int \<Rightarrow> bool \<times> int" where
  "exchange armed result coid =
     (if coid = - 1 \<or> \<not> armed then (False, coid) else if result \<noteq> 0 then (False, - 1) else (True, coid))"

text \<open>What the kernel does in one \<open>core_call\<close>: whether the two timeouts can be set, the connection it gives for a
  name, and the result of \<open>MsgSend\<close> on a connection with the reply.\<close>

record call_env =
  ce_open_armed :: bool
  ce_open :: "string \<Rightarrow> int"
  ce_armed :: bool
  ce_send :: "int \<Rightarrow> core_request \<Rightarrow> int \<times> core_reply"

text \<open>The reply of a successful call, the connection, and what went to \<open>MsgSend\<close>: the connection used and the
  request.\<close>

definition core_call ::
  "call_env \<Rightarrow> string \<Rightarrow> core_request \<Rightarrow> int \<Rightarrow> core_reply option \<times> int \<times> (int \<times> core_request) list" where
  "core_call e name request coid =
     (let c = (if coid = - 1 then open_service (ce_open_armed e) (ce_open e) name False else coid);
          q = request\<lparr>cq_type := CORE_REQUEST\<rparr>;
          (result, reply) = ce_send e c q;
          (ok, c1) = exchange (ce_armed e) result c
      in (if ok then Some reply else None, c1, if c \<noteq> - 1 \<and> ce_armed e then [(c, q)] else []))"

text \<open>What \<open>receive_application\<close> does with a message: it is handed on, answered by the kernel's convention or refused.
  \<open>ty\<close> is the first word, a connect or another system message if it is in the system range.\<close>

datatype application_message = App_None | App_Connected | App_Refused | App_Frame

definition receive_application :: "bool \<Rightarrow> int \<Rightarrow> int \<Rightarrow> int \<Rightarrow> int \<Rightarrow> bool \<Rightarrow> bool \<Rightarrow> application_message" where
  "receive_application armed rcvid capacity srcmsglen msglen connect system =
     (if \<not> armed \<or> rcvid \<le> 0 then App_None
      else if msglen < 2 then App_Refused
      else if connect then App_Connected
      else if system then App_Refused
      else if srcmsglen \<noteq> msglen \<or> capacity < msglen then App_Refused
      else App_Frame)"

definition zero_core_request :: core_request where
  "zero_core_request = \<lparr>cq_type = 0, cq_operation = 0, 
     cq_frame = \<lparr>header = \<lparr>hdr_type = 0, hdr_src = 0, hdr_dst = 0, hdr_reserved = 0,
       hdr_timestamp = replicate TIMESTAMP_SIZE NUL\<rparr>, data = zero_data\<rparr>, cq_command = replicate 64 NUL,
     cq_central_up = 0, cq_train_up = 0, cq_delivered_event = 0\<rparr>"

text \<open>What the receiver of \<^verbatim>\<open>local_comm.c\<close> answers: nothing, an error of the kernel, or the reply of the core.\<close>

datatype comm_answer = Comm_Nothing | Comm_Invalid | Comm_Host_Down | Comm_Reply reply

text \<open>One round of \<open>run_comm\<close>: the answer and the connection to the core. \<open>received\<close> is what
  \<open>receive_application\<close> made of the message.\<close>

definition comm_round :: "call_env \<Rightarrow> string \<Rightarrow> application_message \<Rightarrow> test_message \<Rightarrow> int \<Rightarrow> int \<Rightarrow> int \<Rightarrow> comm_answer \<times> int" where
  "comm_round e core_name received frame srcmsglen dstmsglen core =
     (if received \<noteq> App_Frame then (Comm_Nothing, core)
      else if \<not> comm_frame_accepted frame srcmsglen dstmsglen then (Comm_Invalid, core)
      else
        let (answer, c, _) = core_call e core_name (zero_core_request\<lparr>cq_operation := operation_code CORE_FRAME, cq_frame := frame\<rparr>) core
        in (case answer of None \<Rightarrow> Comm_Host_Down | Some r \<Rightarrow> Comm_Reply (cr_result r), c))"

datatype process_role = Role_Launch | Role_Core | Role_Comm | Role_Input | Role_Display | Role_Ui

definition local_process_run :: "string \<Rightarrow> string \<Rightarrow> (process_role \<times> string) option" where
  "local_process_run role service =
     map_option (\<lambda>r. (r, take (LOCAL_SERVICE_NAME_MAX + 7) (service @ ''_core'')))
       (map_of [(''launch'', Role_Launch), (''core'', Role_Core), (''comm'', Role_Comm), (''io'', Role_Input),
                (''display'', Role_Display), (''ui'', Role_Ui)] role)"

section \<open>The panels\<close>

definition divider :: string where "divider = replicate 60 CHR ''=''"

definition local_phase_name :: "nat \<Rightarrow> string" where
  "local_phase_name p =
     (if p < 5 then [''NS_GREEN'', ''NS_YELLOW'', ''EW_GREEN'', ''EW_YELLOW'', ''RAILWAY_HOLD''] ! p else ''UNKNOWN'')"

definition lamp_name :: "nat \<Rightarrow> string" where
  "lamp_name l = (if l < 4 then [''OFF'', ''RED'', ''YELLOW'', ''GREEN''] ! l else ''UNKNOWN'')"

definition traffic_mode_name :: "nat \<Rightarrow> string" where
  "traffic_mode_name m = (if m < 4 then [''FIXED'', ''SENSOR'', ''RAILWAY'', ''FAILSAFE''] ! m else ''UNKNOWN'')"

definition link_text :: "bool \<Rightarrow> string" where
  "link_text connected =
     (if connected then COLOR_GREEN @ ''CONNECTED'' @ COLOR_RESET else COLOR_RED @ ''DISCONNECTED'' @ COLOR_RESET)"

definition local_lamp_color :: "u8 \<Rightarrow> string" where
  "local_lamp_color l =
     (if l = light_code LIGHT_GREEN then COLOR_GREEN else if l = light_code LIGHT_YELLOW then COLOR_YELLOW
      else if l = light_code LIGHT_RED then COLOR_RED else COLOR_RESET)"

definition blanks :: "nat \<Rightarrow> string" where "blanks n = replicate n CHR '' ''"

definition left_text :: "nat \<Rightarrow> string \<Rightarrow> string" where "left_text n s = s @ blanks (n - length s)"

definition vehicle_text :: "status_msg \<Rightarrow> direction_t \<Rightarrow> nat \<Rightarrow> string" where
  "vehicle_text s direction width =
     (let lamp = (if direction = DIR_NS then st_ns_state s else st_ew_state s);
          seconds = local_vehicle_seconds s direction;
          value = take 19 (lamp_name (unat lamp) @ (if seconds < 0 then '' --'' else '' '' @ show_int seconds @ ''s''))
      in local_lamp_color lamp @ value @ COLOR_RESET @ blanks (width - length value))"

definition walk_text :: "u8 \<Rightarrow> string" where
  "walk_text walk = (if walk \<noteq> 0 then COLOR_GREEN @ ''WALK'' else COLOR_RED @ ''STOP'') @ COLOR_RESET"

definition health_text :: "u8 \<Rightarrow> string" where
  "health_text fault = (if fault \<noteq> 0 then COLOR_RED @ ''FAULT'' else COLOR_GREEN @ ''OK'') @ COLOR_RESET"

text \<open>\<open>None\<close> is the selection of all intersections.\<close>

definition local_heading :: "nat option \<Rightarrow> string" where
  "local_heading selected =
     CHR 0x1B # ''[2J'' @ CHR 0x1B # ''[H'' @ divider @ NL @
     (case selected of None \<Rightarrow> ''                 LOCAL CONTROLLERS I1-I6'' @ NL
      | Some i \<Rightarrow> ''                    LOCAL CONTROLLER I'' @ show_nat (i + 1) @ NL) @
     divider @ NL @
     (if selected = None
      then left_text 3 ''ID'' @ left_text 9 ''MODE'' @ left_text 12 ''NS'' @ left_text 12 ''EW'' @ left_text 8 ''PED N/E'' @
           left_text 9 ''CARS N/E'' @ ''HEALTH'' @ NL @ divider @ NL
      else [])"

definition pedestrian_text :: "string \<Rightarrow> u8 \<Rightarrow> u8 \<Rightarrow> nat \<Rightarrow> string" where
  "pedestrian_text direction walk request remaining =
     ''  '' @ direction @ '' ['' @ walk_text walk @
     (if walk \<noteq> 0 \<and> 5 < remaining then '' '' @ show_nat (remaining - 5) @ '' sec'' else []) @ ''] request ['' @
     (if request \<noteq> 0 then COLOR_YELLOW @ ''PENDING'' else COLOR_RESET @ ''NONE'') @ COLOR_RESET @ '']'' @ NL"

definition pad_two :: "int \<Rightarrow> string" where
  "pad_two n = (if 0 \<le> n \<and> n < 10 then ''0'' @ show_int n else show_int n)"

definition compact_panel :: "status_msg \<Rightarrow> string" where
  "compact_panel s =
     ''I'' @ show_nat (unat (st_intersection_id s) + 1) @ '' '' @ left_text 8 (traffic_mode_name (unat (st_mode s))) @ '' '' @
     vehicle_text s DIR_NS 12 @ vehicle_text s DIR_EW 12 @
     (if st_pedestrian_ns s \<noteq> 0 then COLOR_GREEN @ ''W'' else COLOR_RED @ ''S'') @ COLOR_RESET @ ''/'' @
     (if st_pedestrian_ew s \<noteq> 0 then COLOR_GREEN @ ''W'' else COLOR_RED @ ''S'') @ COLOR_RESET @ ''     '' @
     left_text 2 (show_nat (unat (st_sensor_ns_count s))) @ ''/'' @ left_text 2 (show_nat (unat (st_sensor_ew_count s))) @ ''    '' @
     health_text (st_fault_active s) @ NL"

definition full_panel :: "core_reply \<Rightarrow> string" where
  "full_panel r =
     (let s = cr_status r; sim = cr_sim_seconds r in
      ''Service ['' @ cr_service_name r @ ''] mode ['' @ (if cr_global_mode r then ''GLOBAL'' else ''LOCAL'') @ '']'' @ NL @
      ''Connected to central_controller ['' @ link_text (cr_central_connected r) @ '']'' @ NL @
      ''Connected to train_controller ['' @ link_text (cr_train_connected r) @ '']'' @ NL @ divider @ NL @
      ''Last message receive central ['' @ (if cr_last_recv_central r \<noteq> [] then cr_last_recv_central r else ''N/A'') @ '']'' @ NL @
      ''Last message receive train ['' @ (if cr_last_recv_train r \<noteq> [] then cr_last_recv_train r else ''N/A'') @ '']'' @ NL @
      divider @ NL @
      ''Traffic mode ['' @ traffic_mode_name (unat (st_mode s)) @ '']'' @ NL @ ''Phase ['' @ local_phase_name (unat (st_phase s)) @
      ''] remaining ['' @ show_nat (unat (st_time_remaining s)) @ '' sec]'' @ NL @
      ''Telemetry seq ['' @ show_nat (unat (st_status_sequence s)) @ ''] last command ['' @
      show_nat (unat (st_last_command_id s)) @ ''] health ['' @ health_text (st_fault_active s) @ '']'' @ NL @
      ''Sim time ['' @ pad_two (sim div 3600) @ '':'' @ pad_two (sim div 60 mod 60) @ '':'' @ pad_two (sim mod 60) @ '']'' @ NL @
      ''Vehicle lights:'' @ NL @ ''  NS ['' @ vehicle_text s DIR_NS 0 @ '']'' @ NL @ ''  EW ['' @ vehicle_text s DIR_EW 0 @ '']'' @ NL @
      ''Pedestrian:'' @ NL @
      pedestrian_text ''NS'' (st_pedestrian_ns s) (st_pedestrian_ns_request s) (unat (st_time_remaining s)) @
      pedestrian_text ''EW'' (st_pedestrian_ew s) (st_pedestrian_ew_request s) (unat (st_time_remaining s)) @
      ''Sensors:'' @ NL @ ''  NS cars ['' @ show_nat (unat (st_sensor_ns_count s)) @ '']'' @ NL @ ''  EW cars ['' @
      show_nat (unat (st_sensor_ew_count s)) @ '']'' @ NL @
      ''Train: '' @ (if st_train_active s \<noteq> 0 then COLOR_RED @ ''active''
        else if st_train_pending s \<noteq> 0 then COLOR_YELLOW @ ''pending''
        else if st_railway_preempt s \<noteq> 0 then COLOR_YELLOW @ ''recovery'' else COLOR_GREEN @ ''none active'') @ COLOR_RESET @ NL @
      (if st_fault_active s \<noteq> 0
       then COLOR_RED @ ''Fault type ['' @ show_nat (unat (st_fault_type s)) @ ''] severity ['' @
            show_nat (unat (st_fault_severity s)) @ '']'' @ COLOR_RESET @ NL
       else []) @ divider @ NL)"

definition local_command_text :: string where
  "local_command_text =
     ''View: view I1..I6 | view all'' @ NL @ ''Commands: m mode | n ped-NS | e ped-EW | x sensor-NS'' @ NL @
     ''          z sensor-EW | 1 train-line1 | 2 train-line2'' @ NL @
     ''          p peak | o offpeak | l light | c train-clear'' @ NL @ ''          r reset | q quit'' @ NL @ divider @ NL"

section \<open>The interactive terminal\<close>

text \<open>\<open>tc_selected\<close> is \<open>None\<close> for all intersections.\<close>

record console_t =
  tc_selected :: "nat option"
  tc_connections :: "int list"
  tc_names :: "string list"
  tc_snapshots :: "core_reply list"
  tc_online :: "bool list"
  tc_input :: string
  tc_notice :: string

definition snapshot_request :: core_request where
  "snapshot_request = zero_core_request\<lparr>cq_operation := operation_code CORE_SNAPSHOT\<rparr>"

definition input_request :: "string \<Rightarrow> core_request" where
  "input_request command =
     zero_core_request\<lparr>cq_operation := operation_code CORE_INPUT, cq_command := overlay (take 63 command @ [NUL]) (replicate 64 NUL)\<rparr>"

text \<open>The snapshot of an intersection that is not online is never shown, so a failed call leaves it as it was.\<close>

definition own_snapshot :: "nat \<Rightarrow> core_reply \<Rightarrow> bool" where
  "own_snapshot i r \<longleftrightarrow> reply_status (cr_result r) = 0 \<and> st_intersection_id (cr_status r) = word_of_nat i"

definition refresh_one ::
  "(nat \<Rightarrow> call_env) \<Rightarrow> nat \<Rightarrow> (int \<times> core_request) list \<times> console_t \<Rightarrow> (int \<times> core_request) list \<times> console_t" where
  "refresh_one envs i su =
     (let (sent, ui) = su in
      if tc_selected ui \<noteq> None \<and> tc_selected ui \<noteq> Some i then su
      else
        let (answer, c, m) = core_call (envs i) (tc_names ui ! i) snapshot_request (tc_connections ui ! i)
        in (sent @ m,
            ui\<lparr>tc_connections := (tc_connections ui)[i := c],
               tc_snapshots := (case answer of None \<Rightarrow> tc_snapshots ui | Some r \<Rightarrow> (tc_snapshots ui)[i := r]),
               tc_online := (tc_online ui)[i := (case answer of None \<Rightarrow> False | Some r \<Rightarrow> own_snapshot i r)]\<rparr>))"

text \<open>What is sent, and the console. \<open>seen\<close> is the number of rounds before the process is told to stop.\<close>

definition refresh_snapshots ::
  "nat \<Rightarrow> (nat \<Rightarrow> call_env) \<Rightarrow> console_t \<Rightarrow> (int \<times> core_request) list \<times> console_t" where
  "refresh_snapshots seen envs ui = fold (refresh_one envs) [0..<min seen NUM_INTERSECTIONS] ([], ui)"

definition draw_console :: "console_t \<Rightarrow> string" where
  "draw_console ui =
     local_heading (tc_selected ui) @
     concat (map (\<lambda>i.
       if tc_selected ui \<noteq> None \<and> tc_selected ui \<noteq> Some i then []
       else if tc_online ui ! i then
         (if tc_selected ui = None then compact_panel (cr_status (tc_snapshots ui ! i)) else full_panel (tc_snapshots ui ! i))
       else ''I'' @ show_nat (i + 1) @ '' ['' @ COLOR_RED @ ''OFFLINE'' @ COLOR_RESET @ ''] No current state available.'' @ NL)
       [0..<NUM_INTERSECTIONS]) @
     (if tc_selected ui = None
      then divider @ NL @ ''Pedestrian: W=WALK S=STOP | Select I1-I6 for details'' @ NL else []) @
     local_command_text @ tc_notice ui @ NL @ NL @ ''Message: '' @ tc_input ui"

definition set_notice :: "string \<Rightarrow> console_t \<Rightarrow> console_t" where
  "set_notice t ui = ui\<lparr>tc_notice := take 127 t\<rparr>"

text \<open>Whether the console goes on, what it sent and on which connections, the console. \<open>envs\<close> answers the check of the
  identity, \<open>e\<close> the input.\<close>

definition submit_command ::
  "nat \<Rightarrow> (nat \<Rightarrow> call_env) \<Rightarrow> call_env \<Rightarrow> console_t \<Rightarrow> bool \<times> (int \<times> core_request) list \<times> console_t" where
  "submit_command seen envs e ui =
     (let command = tc_input ui in
      if command = ''q'' \<or> command = ''quit'' \<or> command = ''exit'' then (False, [], ui)
      else case local_ui_parse_view command of
        Some v \<Rightarrow>
          (True, [], set_notice ''View changed.''
             (ui\<lparr>tc_selected := (if v = int INTERSECTION_ALL then None else Some (nat v))\<rparr>))
      | None \<Rightarrow>
          if command = [] then (True, [], ui)
          else if \<not> valid_input command then
            (True, [], set_notice ''Unknown command. Use view I1..I6, view all or a Local input command.'' ui)
          else case tc_selected ui of
            None \<Rightarrow> (True, [], set_notice ''Select an intersection first, for example: view I3'' ui)
          | Some target \<Rightarrow>
              let (sent, ui1) = refresh_snapshots seen envs ui in
              if \<not> tc_online ui1 ! target then
                (True, sent, set_notice (''I'' @ show_nat (target + 1) @ '' is offline or has a different ID; nothing sent.'') ui1)
              else
                let (answer, c, m) = core_call e (tc_names ui1 ! target) (input_request command) (tc_connections ui1 ! target);
                    ui2 = ui1\<lparr>tc_connections := (tc_connections ui1)[target := c]\<rparr>
                in (True, sent @ m,
                    set_notice (case answer of
                        None \<Rightarrow> ''I'' @ show_nat (target + 1) @ '' did not acknowledge; command was not retried.''
                      | Some r \<Rightarrow> ''I'' @ show_nat (target + 1) @ '': '' @
                          (if reply_status (cr_result r) = 0 then ''OK'' else ''Rejected'') @ '' ['' @ command @ '']'') ui2))"

text \<open>A typed character: whether the console goes on, what was sent, whether the refresh is due, the console.\<close>

definition console_key ::
  "nat \<Rightarrow> (nat \<Rightarrow> call_env) \<Rightarrow> call_env \<Rightarrow> char \<Rightarrow> console_t \<Rightarrow> bool \<times> (int \<times> core_request) list \<times> bool \<times> console_t" where
  "console_key seen envs e c ui =
     (if c = CHR 0x0A \<or> c = CHR 0x0D then
        let (running, sent, ui1) = submit_command seen envs e ui in (running, sent, True, ui1\<lparr>tc_input := []\<rparr>)
      else if c = CHR 0x04 \<and> tc_input ui = [] then (False, [], False, ui)
      else if c = CHR 0x08 \<or> c = CHR 0x7F then (True, [], False, ui\<lparr>tc_input := butlast (tc_input ui)\<rparr>)
      else if CHR '' '' \<le> c \<and> c \<le> CHR ''~'' \<and> length (tc_input ui) + 1 < 64 then
        (True, [], False, ui\<lparr>tc_input := tc_input ui @ [c]\<rparr>)
      else (True, [], False, ui))"

definition console_start :: "string \<Rightarrow> nat \<Rightarrow> bool \<Rightarrow> core_reply \<Rightarrow> console_t" where
  "console_start core_name i show_all zero =
     (let names = map (\<lambda>k. ''traffic_local_I'' @ show_nat (k + 1) @ ''_core'') [0..<NUM_INTERSECTIONS] in
      \<lparr>tc_selected = (if show_all then None else Some i), tc_connections = replicate NUM_INTERSECTIONS (- 1),
       tc_names = (if show_all then names else names[i := take (LOCAL_SERVICE_NAME_MAX + 7) core_name]),
       tc_snapshots = replicate NUM_INTERSECTIONS zero, tc_online = replicate NUM_INTERSECTIONS False,
       tc_input = [], tc_notice = ''view I3 | view all | m n e x z 1 2 p o l c r | q exits''\<rparr>)"

section \<open>The separate roles\<close>

text \<open>A round of \<open>run_display\<close>: the connections and what it draws.\<close>

definition run_display :: "string \<Rightarrow> bool \<Rightarrow> (nat \<Rightarrow> call_env) \<Rightarrow> int list \<Rightarrow> int list \<times> string" where
  "run_display core_name display_all envs connections =
     (let count = (if display_all then NUM_INTERSECTIONS else 1);
          name = (\<lambda>i. if display_all then ''traffic_local_I'' @ show_nat (i + 1) @ ''_core'' else core_name);
          calls = map (\<lambda>i. core_call (envs i) (name i) snapshot_request (connections ! i)) [0..<count];
          shown = map (\<lambda>i. case fst (calls ! i) of
              Some r \<Rightarrow> if reply_status (cr_result r) = 0 \<and>
                          (display_all \<longrightarrow> st_intersection_id (cr_status r) = word_of_nat i) then Some r else None
            | None \<Rightarrow> None) [0..<count]
      in (map (fst \<circ> snd) calls,
          local_heading (if display_all then None
             else case shown ! 0 of Some r \<Rightarrow> Some (unat (st_intersection_id (cr_status r))) | None \<Rightarrow> None) @
          concat (map (\<lambda>i. case shown ! i of
              Some r \<Rightarrow> if display_all then compact_panel (cr_status r) else full_panel r
            | None \<Rightarrow>
                if display_all
                then ''I'' @ show_nat (i + 1) @ '' ['' @ COLOR_RED @ ''OFFLINE'' @ COLOR_RESET @ ''] No current state available.'' @ NL
                else core_name @ '': '' @ COLOR_RED @ ''OFFLINE'' @ COLOR_RESET @ ''; no current lamp state'' @ NL)
            [0..<count])))"

text \<open>A line of \<open>run_input\<close>, as \<open>fgets\<close> gives it: whether the loop goes on, what was sent, what is printed, the
  connection.\<close>

definition run_input :: "call_env \<Rightarrow> string \<Rightarrow> string \<Rightarrow> int \<Rightarrow> bool \<times> (int \<times> core_request) list \<times> string \<times> int" where
  "run_input e core_name text core =
     (let line = takeWhile (\<lambda>c. c \<noteq> CHR 0x0D \<and> c \<noteq> CHR 0x0A) (cstr text) in
      if line = ''q'' \<or> line = ''quit'' then (False, [], [], core)
      else if line = [] then (True, [], [], core)
      else if 64 \<le> length line then (True, [], ''Command too long'' @ NL, core)
      else if \<not> valid_input line then (True, [], ''Unknown input command'' @ NL, core)
      else
        let (answer, c, sent) = core_call e core_name (input_request line) core
        in (True, sent,
            (case answer of
               None \<Rightarrow> ''Core unavailable; command not acknowledged (not retried)''
             | Some r \<Rightarrow> if reply_status (cr_result r) = 0 then ''OK'' else ''Rejected'') @ NL, c))"

section \<open>The launcher\<close>

datatype child_event = Child_Terminated int | Child_Killed int | Child_Reaped int

text \<open>The rounds of waiting of \<open>stop_children\<close>; \<open>gone k p\<close> is whether \<open>waitpid\<close> finds child \<open>p\<close> ended in round \<open>k\<close>.\<close>

fun stop_rounds :: "(nat \<Rightarrow> int \<Rightarrow> bool) \<Rightarrow> nat \<Rightarrow> nat \<Rightarrow> int list \<Rightarrow> child_event list \<times> int list" where
  "stop_rounds gone k 0 alive = ([], alive)"
| "stop_rounds gone k (Suc n) alive =
     (let ended = filter (gone k) alive; left = filter (\<lambda>p. \<not> gone k p) alive in
      if left = [] then (map Child_Reaped ended, [])
      else let (es, rest) = stop_rounds gone (Suc k) n left in (map Child_Reaped ended @ es, rest))"

definition stop_children :: "(nat \<Rightarrow> int \<Rightarrow> bool) \<Rightarrow> int list \<Rightarrow> child_event list" where
  "stop_children gone children =
     (let (es, left) = stop_rounds gone 0 30 children in
      map Child_Terminated children @ es @ concat (map (\<lambda>p. [Child_Killed p, Child_Reaped p]) left))"

text \<open>The parent's side of \<open>start_child\<close>: \<open>pid\<close> is the result of \<open>fork\<close>, \<open>opens k\<close> the connection of the attempt \<open>k\<close> to
  reach the child, \<open>seen\<close> the number of attempts before the launcher is told to stop.\<close>

definition start_child :: "int \<Rightarrow> (nat \<Rightarrow> int) \<Rightarrow> nat \<Rightarrow> bool" where
  "start_child pid opens seen \<longleftrightarrow> pid \<noteq> - 1 \<and> list_ex (\<lambda>k. opens k \<noteq> - 1) [0..<min 30 seen]"

record launch_env =
  le_locked :: bool
  le_core_up :: "nat \<Rightarrow> bool"
  le_service_up :: "nat \<Rightarrow> bool"
  le_pid :: "string \<Rightarrow> nat \<Rightarrow> int"
  le_opens :: "string \<Rightarrow> nat \<Rightarrow> nat \<Rightarrow> int"
  le_seen :: "string \<Rightarrow> nat \<Rightarrow> nat"
  le_running :: "nat \<Rightarrow> bool"
  le_ui :: "bool option"
  le_gone :: "nat \<Rightarrow> int \<Rightarrow> bool"

definition launch_roles :: "(string \<times> nat) list" where
  "launch_roles = concat (map (\<lambda>i. [(''core'', i), (''comm'', i)]) [0..<NUM_INTERSECTIONS])"

text \<open>The loop that starts the processes: whether it came through, the table \<open>children\<close> of the launcher, and beside it
  \<open>forked\<close>, the processes that exist because \<open>fork\<close> made them. It ends early when the launcher is told to stop, which
  it looks at before each intersection.\<close>

fun start_roles :: "launch_env \<Rightarrow> (string \<times> nat) list \<Rightarrow> int list \<Rightarrow> int list \<Rightarrow> bool \<times> int list \<times> int list" where
  "start_roles e [] children forked = (True, children, forked)"
| "start_roles e ((role, i) # rest) children forked =
     (if role = ''core'' \<and> \<not> le_running e i then (True, children, forked)
      else
        let pid = le_pid e role i; forked1 = (if pid \<noteq> - 1 then forked @ [pid] else forked);
            started = start_child pid (le_opens e role i) (le_seen e role i);
            children1 = (if 0 < pid then children @ [pid] else children)
        in if started then start_roles e rest children1 forked1
           else (False, children1, forked1))"

text \<open>The exit of the launcher, the processes it made, what it did to its children in the end. \<open>le_ui\<close> is the result of
  the console, \<open>None\<close> when it is told to stop before.\<close>

definition run_launcher :: "launch_env \<Rightarrow> bool \<times> int list \<times> child_event list" where
  "run_launcher e =
     (if \<not> le_locked e then (False, [], [])
      else if list_ex (\<lambda>i. le_core_up e i \<or> le_service_up e i) [0..<NUM_INTERSECTIONS]
      then (False, [], stop_children (le_gone e) [])
      else
        let (ok, children, forked) = start_roles e launch_roles [] []
        in (ok \<and> le_ui e = Some True, forked, stop_children (le_gone e) children))"

section \<open>What the launcher leaves behind\<close>

definition reaped :: "child_event list \<Rightarrow> int list" where
  "reaped es = concat (map (\<lambda>e. case e of Child_Reaped p \<Rightarrow> [p] | _ \<Rightarrow> []) es)"

lemma reaped_simps [simp]:
  "reaped [] = []" "reaped (es @ fs) = reaped es @ reaped fs" "reaped (map Child_Reaped ps) = ps"
  "reaped (map Child_Terminated ps) = []" "reaped (concat (map (\<lambda>p. [Child_Killed p, Child_Reaped p]) ps)) = ps"
  by (induction ps) (simp_all add: reaped_def)

lemma stop_rounds_all: "stop_rounds gone k n alive = (es, left) \<Longrightarrow> mset (reaped es @ left) = mset alive"
proof (induction n arbitrary: k alive es left)
  case (Suc n)
  let ?left = "filter (\<lambda>p. \<not> gone k p) alive" and ?ended = "filter (gone k) alive"
  have m: "mset ?ended + mset ?left = mset alive" by (simp only: mset_filter) (rule multiset_partition [symmetric])
  show ?case
  proof (cases "?left = []")
    case True
    with Suc.prems m show ?thesis by (auto simp: Let_def)
  next
    case False
    obtain fs rest where r: "stop_rounds gone (Suc k) n ?left = (fs, rest)" by (cases "stop_rounds gone (Suc k) n ?left")
    from Suc.IH [OF r] m False Suc.prems r show ?thesis by (auto simp: Let_def add.assoc)
  qed
qed simp

lemma stop_children_all: "mset (reaped (stop_children gone children)) = mset children"
  using stop_rounds_all [of gone 0 30 children] by (cases "stop_rounds gone 0 30 children") (simp add: stop_children_def)

text \<open>The table of the launcher has every process it made.\<close>

lemma start_roles_bound:
  assumes "\<forall>role i. le_pid e role i = - 1 \<or> 0 < le_pid e role i" "start_roles e roles children children = (ok, children', forked)"
  shows "forked = children' \<and> length children' \<le> length roles + length children"
  using assms(2)
proof (induction roles arbitrary: children)
  case (Cons r roles)
  obtain role i where r: "r = (role, i)" by (cases r)
  let ?pid = "le_pid e role i"
  have pid: "?pid \<noteq> - 1 \<longleftrightarrow> 0 < ?pid" using assms(1) [rule_format, of role i] by auto
  show ?case
  proof (cases "role = ''core'' \<and> \<not> le_running e i")
    case True
    with Cons.prems r show ?thesis by auto
  next
    case False
    let ?c = "if 0 < ?pid then children @ [?pid] else children"
    have len: "length ?c \<le> Suc (length children)" by simp
    from Cons.prems have *: "(if start_child ?pid (le_opens e role i) (le_seen e role i) then start_roles e roles ?c ?c
        else (False, ?c, ?c)) = (ok, children', forked)"
      unfolding r start_roles.simps(2) if_not_P [OF False] Let_def pid .
    show ?thesis
    proof (cases "start_child ?pid (le_opens e role i) (le_seen e role i)")
      case True
      with * have "start_roles e roles ?c ?c = (ok, children', forked)" by simp
      from Cons.IH [OF this] len show ?thesis by simp
    next
      case False
      with * len show ?thesis by auto
    qed
  qed
qed simp

text \<open>C19: The launcher leaves no process behind. Whatever fails and whenever it is told to stop, every process that
  \<open>fork\<close> made for it has been collected exactly once before it ends, also one whose service never opened. There are at most
  twelve of them, as many as its table has room for, and none at all when a controller is already running or
  another launcher holds the lock. For the parent \<open>fork\<close> fails with -1 or gives a positive process number.\<close>

theorem launcher_collects_children:
  assumes "\<forall>role i. le_pid e role i = - 1 \<or> 0 < le_pid e role i" "run_launcher e = (ok, forked, events)"
  shows "mset (reaped events) = mset forked \<and> length forked \<le> 2 * NUM_INTERSECTIONS \<and>
    (\<not> le_locked e \<or> (\<exists>i < NUM_INTERSECTIONS. le_core_up e i \<or> le_service_up e i) \<longrightarrow> forked = [])"
proof -
  have r: "length launch_roles = 2 * NUM_INTERSECTIONS" by code_simp
  have x: "list_ex P [0..<n] \<longleftrightarrow> (\<exists>i < n. P i)" for P and n :: nat by (auto simp: list_ex_iff)
  have n: "reaped (stop_children gone []) = []" for gone using stop_children_all [of gone "[]"] by simp
  obtain started children forked' where st: "start_roles e launch_roles [] [] = (started, children, forked')"
    by (cases "start_roles e launch_roles [] []")
  show ?thesis using assms(2) start_roles_bound [OF assms(1) st] r n
    unfolding run_launcher_def x st by (auto simp: stop_children_all split: if_splits)
qed

definition one_failing :: launch_env where
  "one_failing = \<lparr>le_locked = True, le_core_up = (\<lambda>_. False), le_service_up = (\<lambda>_. False),
     le_pid = (\<lambda>role i. 100 + 2 * int i + (if role = ''core'' then 0 else 1)), le_opens = (\<lambda>role i k. if i = 1 then - 1 else 3),
     le_seen = (\<lambda>_ _. 30), le_running = (\<lambda>_. True), le_ui = None, le_gone = (\<lambda>k p. p = 100)\<rparr>"

lemma launcher_collects_children_witness:
  "run_launcher one_failing = (False, [100, 101, 102], map Child_Terminated [100, 101, 102] @
     [Child_Reaped 100, Child_Killed 101, Child_Reaped 101, Child_Killed 102, Child_Reaped 102]) \<and>
   mset (reaped (map Child_Terminated [100, 101, 102] @
     [Child_Reaped 100, Child_Killed 101, Child_Reaped 101, Child_Killed 102, Child_Reaped 102])) = mset [100, 101, 102 :: int]"
proof -
  have k: "run_launcher one_failing = (False, [100, 101, 102], map Child_Terminated [100, 101, 102] @
     [Child_Reaped 100, Child_Killed 101, Child_Reaped 101, Child_Killed 102, Child_Reaped 102])" by code_simp
  have "\<forall>role i. le_pid one_failing role i = - 1 \<or> 0 < le_pid one_failing role i" by (simp add: one_failing_def)
  from launcher_collects_children [OF this k] k show ?thesis by blast
qed

section \<open>What the console sends\<close>

lemma refresh_other: "tc_selected (snd su) = Some i \<Longrightarrow> k \<noteq> i \<Longrightarrow> refresh_one envs k su = su"
  by (simp add: refresh_one_def split_beta)

lemma refresh_selected_same: "tc_selected (snd (refresh_one envs k su)) = tc_selected (snd su)"
  by (simp add: refresh_one_def Let_def split_beta)

lemma refresh_list_other: "tc_selected (snd su) = Some i \<Longrightarrow> i \<notin> set ks \<Longrightarrow> fold (refresh_one envs) ks su = su"
  by (induction ks arbitrary: su) (simp_all add: refresh_other)

lemma refresh_selected:
  assumes "tc_selected ui = Some i" "i < NUM_INTERSECTIONS"
  shows "refresh_snapshots NUM_INTERSECTIONS envs ui = refresh_one envs i ([], ui)"
proof -
  have "[0..<NUM_INTERSECTIONS] = [0..<i] @ i # [Suc i..<NUM_INTERSECTIONS]"
    using assms(2) upt_add_eq_append [of 0 i "NUM_INTERSECTIONS - i"] by (simp add: upt_conv_Cons del: upt_Suc)
  then show ?thesis
    by (simp add: refresh_snapshots_def refresh_list_other assms(1) refresh_selected_same del: upt_Suc)
qed

text \<open>The answer of a core process with the state \<open>c\<close>, on every connection.\<close>

definition core_answers :: "u64 \<Rightarrow> string \<Rightarrow> core_state \<Rightarrow> int \<Rightarrow> core_request \<Rightarrow> int \<times> core_reply" where
  "core_answers after now c coid q = (0, fst (request_part after now q c))"

text \<open>An accepted frame reaches the handlers of the core once, and its sender gets their reply; without the core the
  sender gets an error and never a reply.\<close>

theorem comm_round_relays:
  assumes "comm_frame_accepted frame srcmsglen dstmsglen" "ce_send e = core_answers after now c"
    "local_dispatch_message now frame (core_local c) = (rc, r, s)"
  shows "fst (comm_round e core_name App_Frame frame srcmsglen dstmsglen core) =
    (if ce_armed e \<and> (core \<noteq> - 1 \<or> ce_open_armed e \<and> ce_open e core_name \<noteq> - 1)
     then Comm_Reply (r\<lparr>reply_status := (if rc \<noteq> 0 then - 1 else reply_status r), reply_timestamp := now\<rparr>)
     else Comm_Host_Down)"
proof -
  let ?q = "zero_core_request\<lparr>cq_operation := operation_code CORE_FRAME, cq_frame := frame, cq_type := CORE_REQUEST\<rparr>"
  have "fst (core_operation_step now ?q (core_local c)) = (if rc \<noteq> 0 then r\<lparr>reply_status := - 1\<rparr> else r)"
    using assms(3) by (simp add: core_operation_step_def Let_def)
  then have "cr_result (fst (request_part after now ?q c)) =
      r\<lparr>reply_status := (if rc \<noteq> 0 then - 1 else reply_status r), reply_timestamp := now\<rparr>"
    by (simp add: request_part_def fill_core_reply_def Let_def split_beta)
  then show ?thesis
    using assms(1,2) by (auto simp: comm_round_def core_call_def exchange_def open_service_def core_answers_def Let_def)
qed

lemma view_index:
  assumes "local_ui_parse_view t = Some v" "v \<noteq> int INTERSECTION_ALL"
  shows "0 \<le> v \<and> v < int NUM_INTERSECTIONS"
proof -
  from assms have "CHR ''1'' \<le> t ! 6" "t ! 6 \<le> CHR ''6''" "v = of_char (t ! 6) - of_char CHR ''1''"
    by (auto simp: local_ui_parse_view_def split: if_splits)
  moreover from this(1,2) have "(49 :: nat) \<le> of_char (t ! 6)" "of_char (t ! 6) \<le> (54 :: nat)" by (simp_all add: less_eq_char_def)
  then have "(49 :: int) \<le> of_char (t ! 6)" "of_char (t ! 6) \<le> (54 :: int)"
    using of_nat_of_char [where 'a = int, of "t ! 6"] by linarith+
  ultimately show ?thesis by simp
qed

definition console_ok :: "console_t \<Rightarrow> bool" where
  "console_ok ui \<longleftrightarrow> length (tc_online ui) = NUM_INTERSECTIONS \<and> length (tc_connections ui) = NUM_INTERSECTIONS \<and>
     (\<forall>i. tc_selected ui = Some i \<longrightarrow> i < NUM_INTERSECTIONS)"

text \<open>Where connections lead: \<open>owner c\<close> is the core at the other end of the connection \<open>c\<close>. The name service leads a name to
  the core of its intersection or nowhere, and so do the connections of a console.\<close>

definition leads_to :: "(int \<Rightarrow> nat option) \<Rightarrow> nat \<Rightarrow> int \<Rightarrow> bool" where
  "leads_to owner i c \<longleftrightarrow> c = - 1 \<or> owner c = Some i"

definition names_served :: "(int \<Rightarrow> nat option) \<Rightarrow> string list \<Rightarrow> call_env \<Rightarrow> bool" where
  "names_served owner names e \<longleftrightarrow> (\<forall>i < NUM_INTERSECTIONS. leads_to owner i (ce_open e (names ! i)))"

definition console_wired :: "(int \<Rightarrow> nat option) \<Rightarrow> console_t \<Rightarrow> bool" where
  "console_wired owner ui \<longleftrightarrow> console_ok ui \<and> (\<forall>i < NUM_INTERSECTIONS. leads_to owner i (tc_connections ui ! i))"

text \<open>What a send does to the cores: the core at the other end serves the request and its reply arrives, or the sender
  sees an error, whether the core has served the request or not.\<close>

definition carried ::
  "u64 \<Rightarrow> string \<Rightarrow> (int \<Rightarrow> nat option) \<Rightarrow> int \<Rightarrow> core_request \<Rightarrow> int \<times> core_reply \<Rightarrow> (nat \<Rightarrow> core_state) \<Rightarrow> (nat \<Rightarrow> core_state) \<Rightarrow> bool" where
  "carried after now owner c q answer cores cores' \<longleftrightarrow>
     (case owner c of
        None \<Rightarrow> fst answer \<noteq> 0 \<and> cores' = cores
      | Some k \<Rightarrow>
          let served = request_part after now q (cores k) in
          answer = (0, fst served) \<and> cores' = cores(k := snd served) \<or>
          fst answer \<noteq> 0 \<and> (cores' = cores \<or> cores' = cores(k := snd served)))"

lemma core_call_leads:
  assumes "core_call e name request coid = (answer, c1, m)" "leads_to owner i coid" "leads_to owner i (ce_open e name)"
  defines "q \<equiv> request\<lparr>cq_type := CORE_REQUEST\<rparr>"
  shows "leads_to owner i c1 \<and> (\<forall>x \<in> set m. owner (fst x) = Some i) \<and>
    (case answer of Some r \<Rightarrow> \<exists>c. m = [(c, q)] \<and> ce_send e c q = (0, r)
     | None \<Rightarrow> m = [] \<or> (\<exists>c. m = [(c, q)] \<and> fst (ce_send e c q) \<noteq> 0))"
  using assms by (auto simp: core_call_def exchange_def open_service_def leads_to_def Let_def split_beta prod_eq_iff split: if_splits)

definition inputs_of :: "(int \<times> core_request) list \<Rightarrow> (int \<times> core_request) list" where
  "inputs_of sent = filter (\<lambda>(c, q). cq_operation q = operation_code CORE_INPUT) sent"

lemma inputs_of_simps:
  "inputs_of (xs @ ys) = inputs_of xs @ inputs_of ys" "inputs_of [] = []"
  "inputs_of [(c, snapshot_request\<lparr>cq_type := t\<rparr>)] = []" "inputs_of [(c, input_request x\<lparr>cq_type := t\<rparr>)] = [(c, input_request x\<lparr>cq_type := t\<rparr>)]"
  by (simp_all add: inputs_of_def snapshot_request_def input_request_def)

text \<open>The parts of a submission that sends an input.\<close>

lemma submit_sent:
  assumes wired: "console_wired owner ui" and served: "\<forall>j. names_served owner (tc_names ui) (envs j)" "names_served owner (tc_names ui) e"
    and sub: "submit_command NUM_INTERSECTIONS envs e ui = (running, sent, ui')" and input: "inputs_of sent \<noteq> []"
  defines "q \<equiv> input_request (tc_input ui)\<lparr>cq_type := CORE_REQUEST\<rparr>"
  obtains i c c0 r0 where "tc_selected ui = Some i" "i < NUM_INTERSECTIONS" "valid_input (tc_input ui)"
    "owner c0 = Some i" "ce_send (envs i) c0 (snapshot_request\<lparr>cq_type := CORE_REQUEST\<rparr>) = (0, r0)" "own_snapshot i r0"
    "sent = [(c0, snapshot_request\<lparr>cq_type := CORE_REQUEST\<rparr>), (c, q)]" "owner c = Some i" "console_wired owner ui'"
    "tc_notice ui' = take 127 (if fst (ce_send e c q) \<noteq> 0
        then ''I'' @ show_nat (i + 1) @ '' did not acknowledge; command was not retried.''
        else ''I'' @ show_nat (i + 1) @ '': '' @ (if reply_status (cr_result (snd (ce_send e c q))) = 0 then ''OK'' else ''Rejected'') @
          '' ['' @ tc_input ui @ '']'')"
proof -
  from sub input obtain i where i: "tc_selected ui = Some i" "valid_input (tc_input ui)"
    by (auto simp: submit_command_def Let_def inputs_of_simps split: if_splits option.splits)
  have quiet: "\<not> (tc_input ui = ''q'' \<or> tc_input ui = ''quit'' \<or> tc_input ui = ''exit'')" "local_ui_parse_view (tc_input ui) = None"
    "tc_input ui \<noteq> []"
    using sub input by (auto simp: submit_command_def Let_def inputs_of_simps split: if_splits option.splits)
  have n: "i < NUM_INTERSECTIONS" "i < length (tc_online ui)" "i < length (tc_connections ui)" "leads_to owner i (tc_connections ui ! i)"
    using wired i(1) by (auto simp: console_wired_def console_ok_def)
  obtain answer0 c0 m0 where call0: "core_call (envs i) (tc_names ui ! i) snapshot_request (tc_connections ui ! i) = (answer0, c0, m0)"
    by (metis surj_pair)
  define ui1 where "ui1 = ui\<lparr>tc_connections := (tc_connections ui)[i := c0],
      tc_snapshots := (case answer0 of None \<Rightarrow> tc_snapshots ui | Some r \<Rightarrow> (tc_snapshots ui)[i := r]),
      tc_online := (tc_online ui)[i := (case answer0 of None \<Rightarrow> False | Some r \<Rightarrow> own_snapshot i r)]\<rparr>"
  have r: "refresh_snapshots NUM_INTERSECTIONS envs ui = (m0, ui1)"
    unfolding refresh_selected [OF i(1) n(1)] by (simp add: refresh_one_def i(1) call0 ui1_def)
  have open0: "leads_to owner i (ce_open (envs i) (tc_names ui ! i))" "leads_to owner i (ce_open e (tc_names ui ! i))"
    using served n(1) by (simp_all add: names_served_def)
  note lead0 = core_call_leads [OF call0 n(4) open0(1)]
  have no0: "inputs_of m0 = []" using lead0 by (auto simp: inputs_of_simps split: option.splits)
  obtain answer c1 m where call: "core_call e (tc_names ui1 ! i) (input_request (tc_input ui)) (tc_connections ui1 ! i) = (answer, c1, m)"
    by (metis surj_pair)
  have on: "tc_online ui1 ! i"
  proof (rule ccontr)
    assume "\<not> tc_online ui1 ! i"
    with sub have "sent = m0" by (simp add: submit_command_def Let_def r i quiet)
    with no0 input show False by simp
  qed
  have res: "sent = m0 @ m" "ui' = set_notice (case answer of
        None \<Rightarrow> ''I'' @ show_nat (i + 1) @ '' did not acknowledge; command was not retried.''
      | Some r \<Rightarrow> ''I'' @ show_nat (i + 1) @ '': '' @ (if reply_status (cr_result r) = 0 then ''OK'' else ''Rejected'') @
          '' ['' @ tc_input ui @ '']'') (ui1\<lparr>tc_connections := (tc_connections ui1)[i := c1]\<rparr>)"
    using sub by (simp_all add: submit_command_def Let_def r i quiet on call)
  have lead_ui1: "leads_to owner i (tc_connections ui1 ! i)" "leads_to owner i (ce_open e (tc_names ui1 ! i))"
    using lead0 n(3) open0(2) by (simp_all add: ui1_def)
  from core_call_leads [OF call lead_ui1]
  have lead: "leads_to owner i c1" "\<forall>x \<in> set m. owner (fst x) = Some i"
    "case answer of Some r \<Rightarrow> \<exists>c. m = [(c, q)] \<and> ce_send e c q = (0, r)
     | None \<Rightarrow> m = [] \<or> (\<exists>c. m = [(c, q)] \<and> fst (ce_send e c q) \<noteq> 0)" unfolding q_def by blast+
  obtain r0 where r0: "answer0 = Some r0" "own_snapshot i r0"
    using on n(2) by (auto simp: ui1_def split: option.splits)
  from lead0 r0(1) obtain d where d: "m0 = [(d, snapshot_request\<lparr>cq_type := CORE_REQUEST\<rparr>)]" "owner d = Some i"
    "ce_send (envs i) d (snapshot_request\<lparr>cq_type := CORE_REQUEST\<rparr>) = (0, r0)" by auto
  have "inputs_of m \<noteq> []" using input no0 res(1) by (simp add: inputs_of_simps)
  then obtain c where c: "m = [(c, q)]" "owner c = Some i" using lead by (auto simp: inputs_of_simps split: option.splits)
  have note_eq: "tc_notice ui' = take 127 (if fst (ce_send e c q) \<noteq> 0
        then ''I'' @ show_nat (i + 1) @ '' did not acknowledge; command was not retried.''
        else ''I'' @ show_nat (i + 1) @ '': '' @ (if reply_status (cr_result (snd (ce_send e c q))) = 0 then ''OK'' else ''Rejected'') @
          '' ['' @ tc_input ui @ '']'')"
    using lead(3) c(1) unfolding res(2) by (cases answer) (simp_all add: set_notice_def)
  have "console_wired owner ui'"
    using wired lead0 lead(1) n(1) unfolding res(2) console_wired_def console_ok_def
    by (simp add: set_notice_def ui1_def nth_list_update)
  with that [OF i(1) n(1) i(2) d(2,3) r0(2) _ c(2) _ note_eq] res(1) d(1) c(1) show thesis by simp
qed

lemma input_text:
  assumes "valid_input t"
  shows "cstr (cq_command (input_request t)) = t"
proof -
  from assms obtain c where t: "t = [c]" "c \<in> set ''mnexz12crpol''" by (cases t) (auto simp: valid_input_def)
  then have "c \<noteq> NUL" by auto
  with t(1) show ?thesis by (simp add: input_request_def overlay_def cstr_def)
qed

text \<open>The notice after an input: its intersection, the verdict and the command.\<close>

definition verdict_notice :: "nat \<Rightarrow> string \<Rightarrow> string \<Rightarrow> string" where
  "verdict_notice i verdict command = take 127 (''I'' @ show_nat (i + 1) @ '': '' @ verdict @ '' ['' @ command @ '']'')"

lemma input_served:
  assumes "valid_input t"
  defines "q \<equiv> input_request t\<lparr>cq_type := CORE_REQUEST\<rparr>"
  shows "core_local (snd (request_part after now q c)) = snd (execute_command t (core_local c))"
    "reply_status (cr_result (fst (request_part after now q c))) = 0 \<longleftrightarrow> fst (execute_command t (core_local c)) = 0"
proof -
  have op: "cq_operation q = operation_code CORE_INPUT" "cstr (cq_command q) = t"
    using input_text [OF assms(1)] by (simp_all add: input_request_def q_def)
  have step: "core_operation_step now q (core_local c) =
      (\<lparr>reply_status = (if fst (execute_command t (core_local c)) = 0 then 0 else - 1), reply_timestamp = [],
        reply_command_id = 0\<rparr>, snd (execute_command t (core_local c)))"
    using assms(1) by (simp add: core_operation_step_def op Let_def split_beta)
  show "core_local (snd (request_part after now q c)) = snd (execute_command t (core_local c))"
    by (simp add: request_part_def step Let_def record_status_def split_beta)
  show "reply_status (cr_result (fst (request_part after now q c))) = 0 \<longleftrightarrow> fst (execute_command t (core_local c)) = 0"
    by (simp add: request_part_def step Let_def fill_core_reply_def split_beta)
qed


lemma console_refresh_ok:
  assumes "console_ok (snd su)"
  shows "console_ok (snd (refresh_one envs k su))"
  using assms by (simp add: console_ok_def refresh_one_def Let_def split_beta)

lemma console_refresh_all_ok: "console_ok ui \<Longrightarrow> console_ok (snd (refresh_snapshots seen envs ui))"
proof -
  have "console_ok (snd su) \<Longrightarrow> console_ok (snd (fold (refresh_one envs) ks su))" for ks su
    by (induction ks arbitrary: su) (simp_all add: console_refresh_ok)
  then show "console_ok ui \<Longrightarrow> ?thesis" by (simp add: refresh_snapshots_def)
qed

text \<open>Whatever is typed, the console keeps a valid selection.\<close>

lemma console_key_ok:
  assumes "console_ok ui"
  shows "console_ok (snd (snd (snd (console_key seen envs e c ui))))"
proof -
  have n: "console_ok (set_notice t u) = console_ok u" for t u by (simp add: console_ok_def set_notice_def)
  have i: "console_ok (u\<lparr>tc_input := t\<rparr>) = console_ok u" for t u by (simp add: console_ok_def)
  have c: "console_ok u \<Longrightarrow> console_ok (u\<lparr>tc_connections := (tc_connections u)[k := x]\<rparr>)" for k x u
    by (simp add: console_ok_def)
  have v: "console_ok (ui\<lparr>tc_selected := (if v = int INTERSECTION_ALL then None else Some (nat v))\<rparr>)"
    if "local_ui_parse_view (tc_input ui) = Some v" for v
    using assms view_index [OF that] by (auto simp: console_ok_def)
  have "console_ok (snd (snd (submit_command seen envs e ui)))"
    using assms console_refresh_all_ok [OF assms] v
    by (simp add: submit_command_def Let_def split_beta n c split: option.splits)
  with assms show ?thesis by (simp add: console_key_def Let_def split_beta i)
qed

lemma console_start_ok: "i < NUM_INTERSECTIONS \<Longrightarrow> console_ok (console_start name i show_all zero)"
  by (simp add: console_ok_def console_start_def Let_def)

definition demo_core :: core_state where
  "demo_core = core_start 5 (local_state_init CONN_MODE_LOCAL 2 None (\<lambda>_. 0))"

definition demo_env :: call_env where
  "demo_env = \<lparr>ce_open_armed = True, ce_open = (\<lambda>n. if n = ''x_core'' then 3 else - 1), ce_armed = True,
     ce_send = core_answers 7 ''12:00'' demo_core\<rparr>"

definition demo_console :: console_t where
  "demo_console = (console_start ''x_core'' 2 False (fst (request_part 7 ''12:00'' snapshot_request demo_core)))\<lparr>tc_input := ''n''\<rparr>"

definition demo_owner :: "int \<Rightarrow> nat option" where
  "demo_owner c = (if c = 3 then Some 2 else None)"


end
