(* ===== verification/Train_Screen.thy ===== *)
theory Train_Screen
  imports Train_Safety "HOL-Library.Sublist"
begin

text \<open>
  What the Train controller writes on its terminal, the drawing functions of \<^verbatim>\<open>ui/train_ui.c\<close>: the menu, the
  status and the command screen as the string that is printed for a display state. The lemmas show that a
  field of the status screen can be read back, and that the screen tells the state of the crossings.
\<close>

section \<open>The screens\<close>

definition clear_screen :: string where "clear_screen = CHR 0x1B # ''[2J'' @ CHR 0x1B # ''[H''"

definition double_line :: string where "double_line = replicate 60 CHR ''='' @ NL"

definition single_line :: string where "single_line = replicate 60 CHR ''-'' @ NL"

abbreviation bold :: "string \<Rightarrow> string" where "bold s \<equiv> COLOR_BOLD @ s @ COLOR_RESET"

abbreviation cyan :: "string \<Rightarrow> string" where "cyan s \<equiv> COLOR_CYAN @ s @ COLOR_RESET"

definition train_heading :: "string \<Rightarrow> string" where
  "train_heading title = double_line @ bold title @ NL @ double_line"

definition connection_status_color :: "connection_status \<Rightarrow> string" where
  "connection_status_color status = (if status = CONN_CONNECTED then COLOR_GREEN else COLOR_RED)"

definition signal_color :: "train_signal \<Rightarrow> string" where
  "signal_color sig = (if sig = SIGNAL_PROCEED then COLOR_GREEN else COLOR_RED)"

definition track_color :: "cx_track_state \<Rightarrow> string" where
  "track_color t = (if t \<noteq> CX_TRACK_NONE then COLOR_YELLOW else [])"

definition gate_color :: "gate_state \<Rightarrow> string" where
  "gate_color g =
     (if g = GATE_FAULT then COLOR_RED else if g = GATE_CLOSED then COLOR_GREEN
      else if g = GATE_CLOSING \<or> g = GATE_OPENING then COLOR_YELLOW else [])"

definition flash_color :: "flash_state \<Rightarrow> string" where
  "flash_color f = (if f = FLASH_ON then COLOR_YELLOW else [])"

definition fault_color :: "crossing_fault \<Rightarrow> string" where
  "fault_color f = (if f \<noteq> CROSSING_FAULT_NONE then COLOR_RED else [])"

text \<open>The rest of a field after its colour: the text, the reset of the colour and the end of the line.\<close>

definition field_end :: "string \<Rightarrow> string" where "field_end s = s @ COLOR_RESET @ '']'' @ NL"

definition train_crossing_block :: "nat \<Rightarrow> crossing_view \<Rightarrow> string" where
  "train_crossing_block i c =
     bold (''CROSSING P'' @ show_nat (i + 1)) @ ''  (affects '' @ crossing_affects (int i) @ '')'' @ NL @
     ''    Track UP (W->S)   : ['' @ track_color (cv_track_up c) @ field_end (track_state_str (cv_track_up c)) @
     ''    Track DOWN (S->W) : ['' @ track_color (cv_track_down c) @ field_end (track_state_str (cv_track_down c)) @
     ''    Boom Gate         : ['' @ gate_color (cv_boom_gate c) @ field_end (gate_state_str (cv_boom_gate c)) @
     ''    Road Flash        : ['' @ flash_color (cv_road_flash c) @ field_end (flash_state_str (cv_road_flash c)) @
     ''    Fault             : ['' @ fault_color (cv_fault c) @ field_end (crossing_fault_str (cv_fault c)) @
     ''    Preempt           : [SENT '' @ cv_preempt_time c @ '']   Clear: [SENT '' @ cv_clear_time c @ '']'' @ NL @
     (if i < NUM_CROSSINGS - 1 then NL else [])"

definition connection_line :: "string \<Rightarrow> connection_status \<Rightarrow> string \<Rightarrow> string" where
  "connection_line name status updated =
     name @ connection_status_color status @ connection_status_str status @ COLOR_RESET @
     '']   Last Updated: ['' @ (if updated \<noteq> [] then updated else no_time) @ '']'' @ NL"

definition train_signal_line :: "train_signal \<Rightarrow> string" where
  "train_signal_line sig = ''Train Signal       : ['' @ signal_color sig @ field_end (signal_str sig)"

definition train_faults_line :: "int \<Rightarrow> string" where
  "train_faults_line n = ''Active Faults : ['' @ (if 0 < n then COLOR_RED else COLOR_GREEN) @ field_end (show_int n)"

definition message_line :: "string \<Rightarrow> string \<Rightarrow> message_info \<Rightarrow> string" where
  "message_line name arrow m =
     name @ mi_timestamp m @ ''] ['' @ mi_type m @ ''] '' @ arrow @ '' ['' @ mi_endpoint m @ '']'' @ NL"

definition display_status_internal :: "train_ui \<Rightarrow> string" where
  "display_status_internal ui =
     train_heading ''                 RAILWAY CONTROLLER STATUS'' @
     bold ''CONNECTIONS'' @ NL @ single_line @
     connection_line ''CENTRAL            : ['' (ui_central_status ui) (ui_central_last_update ui) @
     connection_line ''LOCAL              : ['' (ui_local_status ui) (ui_local_last_update ui) @
     ''Train frequency    : ['' @ frequency_str (ui_frequency ui) @ '']   Time scale: [x'' @
       show_int (ui_time_scale ui) @ '']'' @ NL @
     train_signal_line (ui_signal ui) @ NL @ single_line @
     concat (map (\<lambda>i. train_crossing_block i (ui_crossings ui ! i)) [0..<NUM_CROSSINGS]) @
     NL @ single_line @ bold ''MESSAGES'' @ NL @ single_line @
     message_line ''Last Sent     : ['' ''->'' (ui_last_sent ui) @
     message_line ''Last Received : ['' ''<-'' (ui_last_received ui) @
     train_faults_line (ui_active_faults ui) @ double_line @
     NL @ ''Press '' @ bold ''q'' @ '' + Enter to return to main menu'' @ NL @ bold ''> ''"

definition menu_option :: "string \<Rightarrow> string \<Rightarrow> string" where
  "menu_option key what = ''  '' @ bold key @ ''. '' @ what @ NL"

definition display_menu_internal :: string where
  "display_menu_internal =
     train_heading ''                  TRAIN CONTROLLER MENU'' @ NL @
     menu_option ''1'' ''View Status'' @ menu_option ''2'' ''Send Command'' @ menu_option ''3'' ''Exit'' @ NL @
     double_line @ NL @ bold ''Select option:'' @ '' ''"

definition command_group :: "string \<Rightarrow> (string \<times> string) list \<Rightarrow> string" where
  "command_group title lines =
     ''  '' @ bold (title @ '':'') @ NL @ concat (map (\<lambda>(c, d). ''    '' @ cyan c @ d @ NL) lines) @ NL"

definition display_command_internal :: string where
  "display_command_internal =
     train_heading ''                   COMMAND INPUT'' @ NL @
     command_group ''Connection Commands''
       [(''send-central'', ''  - Send test message to Central''), (''send-local'', ''    - Send test message to Local'')] @
     command_group ''Crossing Simulation''
       [(''train-up'', ''       - Train W->E through P3->P2->P1''), (''train-down'', ''     - Train E->W through P1->P2->P3''),
        (''train-both'', ''     - Start train-up and train-down together''),
        (''train P# dir'', ''   - Single train (e.g., train P1 up)'')] @
     command_group ''Fault Injection''
       [(''p#-fault'', ''       - Inject fault (e.g., p1-fault)''), (''reset P#'', ''       - Reset fault (e.g., reset P1)'')] @
     command_group ''Simulator''
       [(''scale N'', ''        - Set time scale (1-100)''), (''status'', ''         - Show simulator status''),
        (''help'', ''           - Show all simulator commands'')] @
     ''  Press '' @ bold ''q'' @ '' + Enter to return to main menu'' @ NL @ NL @
     double_line @ NL @ bold ''Command:'' @ '' ''"

text \<open>What \<open>train_ui_display\<close> writes; its effect on the state is \<open>Train_Ui.train_ui_display\<close>.\<close>

definition train_screen_text :: "train_ui \<Rightarrow> string" where
  "train_screen_text ui = clear_screen @
     (case ui_current_screen ui of
        UI_SCREEN_MENU \<Rightarrow> display_menu_internal
      | UI_SCREEN_STATUS \<Rightarrow> display_status_internal ui
      | UI_SCREEN_COMMAND \<Rightarrow> display_command_internal)"

section \<open>Reading a field back\<close>

lemmas colours = COLOR_RESET_def COLOR_RED_def COLOR_GREEN_def COLOR_YELLOW_def field_end_def

lemma track_field: "track_color a @ field_end (track_state_str a) @ r = track_color b @ field_end (track_state_str b) @ s
    \<longleftrightarrow> a = b \<and> r = s"
  by (cases a; cases b) (simp_all add: colours track_color_def)

lemma gate_field: "gate_color a @ field_end (gate_state_str a) @ r = gate_color b @ field_end (gate_state_str b) @ s
    \<longleftrightarrow> a = b \<and> r = s"
  by (cases a; cases b) (simp_all add: colours gate_color_def)

lemma flash_field: "flash_color a @ field_end (flash_state_str a) @ r = flash_color b @ field_end (flash_state_str b) @ s
    \<longleftrightarrow> a = b \<and> r = s"
  by (cases a; cases b) (simp_all add: colours flash_color_def)

lemma fault_field: "fault_color a @ field_end (crossing_fault_str a) @ r = fault_color b @ field_end (crossing_fault_str b) @ s
    \<longleftrightarrow> a = b \<and> r = s"
  by (cases a; cases b) (simp_all add: colours fault_color_def)

lemma signal_field: "train_signal_line a = train_signal_line b \<longleftrightarrow> a = b"
  by (cases a; cases b) (simp_all add: colours train_signal_line_def signal_color_def)

text \<open>Two crossings that are drawn alike are in the same state.\<close>

lemma block_tells_view:
  assumes "train_crossing_block i v = train_crossing_block i w"
  shows "cv_track_up v = cv_track_up w \<and> cv_track_down v = cv_track_down w \<and> cv_boom_gate v = cv_boom_gate w \<and>
    cv_road_flash v = cv_road_flash w \<and> cv_fault v = cv_fault w"
  using assms unfolding train_crossing_block_def same_append_eq
  by (simp only: track_field gate_field flash_field fault_field same_append_eq append_assoc)

lemma sublist_skip: "sublist x b \<Longrightarrow> sublist x (a @ b)"
  by (metis append_assoc sublist_def)

lemma sublist_here: "sublist x (x @ b)"
  by (metis append_Nil sublist_def)

lemma sublist_concat: "x \<in> set xs \<Longrightarrow> sublist x (concat xs)"
  by (metis concat.simps(2) concat_append in_set_conv_decomp sublist_appendI)

lemma block_on_screen:
  assumes "i < NUM_CROSSINGS"
  shows "sublist (train_crossing_block i (ui_crossings ui ! i)) (display_status_internal ui)"
proof (rule sublist_order.order_trans)
  let ?bs = "map (\<lambda>i. train_crossing_block i (ui_crossings ui ! i)) [0..<NUM_CROSSINGS]"
  show "sublist (train_crossing_block i (ui_crossings ui ! i)) (concat ?bs)"
    by (rule sublist_concat, subst set_map, rule image_eqI [OF refl]) (use assms in simp)
  show "sublist (concat ?bs) (display_status_internal ui)"
    unfolding display_status_internal_def by (rule sublist_here sublist_skip)+
qed

lemma lines_on_screen:
  "sublist (train_signal_line (ui_signal ui)) (display_status_internal ui)"
  "sublist (train_faults_line (ui_active_faults ui)) (display_status_internal ui)"
  unfolding display_status_internal_def by (rule sublist_here sublist_skip)+



end
