(* ===== verification/Spec2Isabelle.thy ===== *)
theory Spec2Isabelle
  imports Cooperation Central_Console Local_Console Train_Screen
begin

text \<open>
  Verification of the real-time traffic-light system of this repository. The system is three kinds of QNX
  processes that talk by messages: a Local controller at each of six intersections, a Train controller for the
  railway with three level crossings (crossing \<open>i\<close> lies between the intersections \<open>2i\<close> and \<open>2i + 1\<close>), and a
  Central controller from which an operator and a daily schedule command the intersections. Train warns the Locals
  (\<^verbatim>\<open>RAILWAY_PREEMPT\<close>, \<^verbatim>\<open>TRAIN_CLEAR\<close>); Locals and Train report to Central; Central sends mode, coordination and
  simulation commands to Local and text commands to Train.

  \<^bold>\<open>How the code is modelled.\<close> A C struct is a record, an enumeration a datatype with its numeric code, an
  unsigned integer a word of its width, \<open>int\<close> is HOL \<open>int\<close>, a byte array a list of \<open>char\<close>. A function that
  changes static state takes the state and returns it; everything the operating system supplies (the time, the
  text of the time stamp, \<open>rand()\<close>, received frames, the outcome of a send, files) is an argument. What a thread does
  while it holds a mutex is one step, so the threads interleave in any order; only the worker of the
  Central links is split further, into the critical sections of caller and worker.

  \<^bold>\<open>Shared.\<close> \<open>Prelude\<close>: words, decimal text, C strings, updates of lists, the locale \<open>inv_machine\<close> (a step that
  keeps an invariant) which every component interprets on its own step. \<open>Protocol\<close>: \<^verbatim>\<open>common/protocol.h\<close>,
  the codes, the payloads and their byte layout, with the locale \<open>payload_codec\<close> interpreted on all eleven payloads.
  \<open>Communication\<close>: \<^verbatim>\<open>common/communication/*.c\<close>. \<open>Ring\<close>: the ring buffers of Central, refined to lists.

  \<^bold>\<open>Local\<close> (\<^verbatim>\<open>local_intersection_controller/src\<close>). \<open>Local_State\<close>, \<open>Local_Traffic\<close>, \<open>Local_Simulation\<close>,
  \<open>Local_Ipc\<close> and \<open>Local_Core\<close> follow \<^verbatim>\<open>local_state.c\<close>, \<^verbatim>\<open>local_traffic.c\<close> with \<^verbatim>\<open>local_pedestrian.c\<close>,
  \<^verbatim>\<open>local_simulation.c\<close> with \<^verbatim>\<open>local_commands.c\<close>, \<^verbatim>\<open>local_ipc.c\<close>, and \<^verbatim>\<open>local_core.c\<close> with \<^verbatim>\<open>local_comm.c\<close> and the
  arguments of \<^verbatim>\<open>main\<close>; the state is the record \<open>local_state\<close>, one iteration of \<open>run_core\<close> is
  \<open>core_iteration\<close>. \<open>Local_Invariant\<close> proves the invariant of all operations, \<open>Local_Safety\<close> what follows for the
  lamps in every run, \<open>Local_Timing\<close> the 44-second cycle, service of every road and coordination, \<open>Local_Place\<close>
  that an intersection keeps its number. \<open>Local_Console\<close> is \<^verbatim>\<open>local_process.c\<close> (the calls to the core and the receiver of
  \<^verbatim>\<open>local_comm.c\<close> that makes them), \<^verbatim>\<open>local_ui.c\<close> (the panels and the interactive terminal, key by key) and
  \<^verbatim>\<open>local_launcher.c\<close> (the children, from their start to their end); it shows that a typed command reaches the core
  of the selected intersection and that the launcher leaves no child behind.

  \<^bold>\<open>Train\<close> (\<^verbatim>\<open>train_controller/src\<close>). \<open>Crossing\<close> is the state machine of \<^verbatim>\<open>crossing.c\<close>, its callbacks being
  outputs; \<open>Crossing_Safety\<close>, \<open>Crossing_Outputs\<close> and \<open>Crossing_Timers\<close> prove what it keeps, tells and arms.
  \<open>Rail_Sim\<close> is \<^verbatim>\<open>rail_sim.c\<close>, \<open>Rail_Sim_Safety\<close> its queue of events and timers in every run. \<open>Train_Display\<close> and
  \<open>Train_Ui\<close> are the display state of \<^verbatim>\<open>train_ui.c\<close> and what it shows; \<open>Train_Controller\<close> is \<^verbatim>\<open>train_controller.c\<close>,
  one definition per round of each thread; \<open>Train_Safety\<close> its invariant and the outbox as a bounded queue;
  \<open>Train_Screen\<close> the text of the three screens, and that the status screen tells the state of every crossing.

  \<^bold>\<open>Central\<close> (\<^verbatim>\<open>central_controller/src\<close>). \<open>Central_Commands\<close> is \<^verbatim>\<open>commands.c\<close>, \<open>Central_Policy\<close>
  \<^verbatim>\<open>operator_policy.c\<close>, \<open>Central_Monitor\<close> \<^verbatim>\<open>monitor.c\<close>, \<open>Central_Ipc\<close> and \<open>Central_Link\<close> the frames, the receiver and
  the link worker of \<^verbatim>\<open>ipc.c\<close>, \<open>Central_Controller\<close> and \<open>Central_Operator\<close> the critical sections and the
  operator's side of \<^verbatim>\<open>central_controller.c\<close>. \<open>Central_History\<close> proves that the command history, the queues and the
  sends in progress agree after every operation; \<open>Central_Safety\<close> puts the threads together as one machine
  (\<open>central_world\<close>, \<open>central_step\<close>) and proves its invariant from the command line of \<open>main\<close> on;
  \<open>Central_Requests\<close> follows an operator's command into the queues. \<open>Central_Display\<close> is the separate display process of
  \<^verbatim>\<open>central_ui.c\<close>: colouring, quick menu, shortcuts and the loop over typed bytes; \<open>Central_Ui_Ipc\<close> its channel to the
  core, \<^verbatim>\<open>ui_ipc.c\<close>, both ends; \<open>Central_Views\<close> the text of every view of \<^verbatim>\<open>central_controller.c\<close> and the bounded
  response buffer; \<open>Central_Console\<close> Central's own console and until when its threads wait. Their lemmas show that
  colour changes no text, that a typed line is executed or sent once, that the live map fits the response, and that
  lamps and trains on it are those last reported.

  \<^bold>\<open>Together.\<close> \<open>Cooperation\<close> runs the frames one controller builds through the checks and handlers of the
  other; the properties that span controllers stand at the end of this theory.

  \<^bold>\<open>Bounds and fuel.\<close> The two loops whose recursion is not structural carry fuel: \<open>next_id_loop\<close> 71 rounds, one more
  than the 64 records and 6 policy entries that can reserve an identifier (\<open>next_id_terminates\<close>), and
  \<open>free_slot\<close> 64, the size of the history, enough because a slot is free whenever it is called
  (\<open>free_slot_free\<close>). The tokenising loops have termination proofs; the receive loops run on the list of what
  arrives. \<open>central_schedule_load 256\<close> is the size of the line buffer of the code.

  \<^bold>\<open>Hypotheses on the outside.\<close> Clock readings, time-stamp texts, random numbers, received bytes, sizes, send results
  and replies are arbitrary in every theorem, except where a statement names a length of a time-stamp text
  (at most 31 characters, what \<open>get_timestamp\<close> writes) or that a reply's stamp is terminated. The parameter \<open>secs\<close> of
  the views is the conversion of a time span to a decimal number by \<open>printf\<close>, \<open>build\<close> the date of the build; a record
  such as \<open>call_env\<close> or \<open>launch_env\<close> holds the outcomes of the kernel calls of a round.

  \<^bold>\<open>Not modelled.\<close> The creation of threads, mutexes, timers, channels and processes and the setting of the terminal,
  which are calls of the operating system; the short messages that \<^verbatim>\<open>central_controller.c\<close>, \<^verbatim>\<open>train_controller.c\<close>, the
  launcher and the start-up of the processes print beside their work; the help text and banner of \<^verbatim>\<open>central_ui.c\<close>.
\<close>

section \<open>The controllers together\<close>

lemma start_place: "intersection_id (core_local (core_start start (local_state_init cmode 0 svc rnd))) = 0"
  by (simp add: core_start_def local_state_init_def local_init_phase_def local_init_fields_def Let_def place)

definition fixed_I1 :: test_message where
  "fixed_I1 = central_command_set_id 7 (mode_message (mode_code MODE_FIXED) (action_code CMD_SET_MODE) 0)"





text \<open>C6: What Train reports reaches Central's monitor unchanged. The railway status that Train builds for a
  crossing, in any state of the railway, is normalised by Central's receiver to the crossing's index, and its
  handler answers 0 and stores exactly that status as the newest one of the crossing.\<close>

theorem railway_report_monitored:
  assumes "tc = fold train_step evs (train_start cfg m)" "i < NUM_CROSSINGS" "c = crossings (tc_sim tc) ! i"
    "length now \<le> 31" "central_run t file argv es = Some w"
  shows "case central_frame_normalize (Train_Controller.status_frame now c) 48 (controller_code CONTROLLER_CENTRAL) of
      None \<Rightarrow> False
    | Some f \<Rightarrow> (case handle_message stamp at f r (cw_state w) of (result, r', s') \<Rightarrow>
        result = 0 \<and> reply_status r' = 0 \<and> mon_crossings (c_monitor s') ! i =
          \<lparr>cv_valid = True, cv_synchronized = True, cv_received_at = at,
           cv_status = (railway_status_of c)\<lparr>rs_crossing_id := of_nat i\<rparr>\<rparr>)"
proof -
  let ?r = "(railway_status_of c)\<lparr>rs_crossing_id := of_nat i\<rparr>"
  let ?f = "\<lparr>header = tc_header now MSG_RAILWAY_STATUS CONTROLLER_CENTRAL, data = overlay (encode_railway_status ?r) zero_data\<rparr>"
  have c: "cx_id c = of_nat (i + 1)" using crossing_numbers(1) [OF train_run_ok assms(2)] by (simp add: assms(1,3))
  have mon: "monitor_ok (c_monitor (cw_state w))"
    using central_run_ok [OF assms(5)] by (simp add: world_ok_def state_ok_def shape_ok_def)
  have d: "decode_railway_status (data ?f) = ?r" by (simp, rule railway_status_codec.dec_overlay, simp)
  have ty: "hdr_type (header ?f) = msg_code MSG_RAILWAY_STATUS" by (simp add: tc_header_def)
  have "i = 0 \<or> i = 1 \<or> i = 2" using assms(2) by auto
  then have u: "unat (rs_crossing_id ?r) = i" by auto
  note h = handle_railway_report [OF mon ty, unfolded d u, OF train_report_valid [OF assms(2)], of stamp at r]
  show ?thesis unfolding train_report_normal [OF assms(4) c assms(2)] option.case using h
    by (cases "handle_message stamp at ?f r (cw_state w)") (simp only: fst_conv snd_conv prod.case simp_thms)
qed

lemma railway_report_monitored_witness:
  "\<exists>w. central_run [] (\<lambda>_. None) [] [] = Some w \<and>
     central_frame_normalize (Train_Controller.status_frame [] (crossings (tc_sim (train_start default_rail_config CONN_MODE_LOCAL)) ! 0))
       48 (controller_code CONTROLLER_CENTRAL) \<noteq> None"
proof -
  obtain w where w: "central_run [] (\<lambda>_. None) [] [] = Some w" by (rule plain_run)
  have "(0 :: nat) < NUM_CROSSINGS" "length [] \<le> 31" by simp_all
  from railway_report_monitored [where evs = "[]" and cfg = default_rail_config and m = CONN_MODE_LOCAL and stamp = "[]" and at = 0 and r = zero_reply, OF refl this(1) refl this(2) w]
    w show ?thesis by (auto split: option.splits)
qed

text \<open>C5: What Local reports reaches Central's monitor unchanged. The status frame of an intersection in any state
  it can reach is accepted by Central's receiver, and its handler answers 0 and stores exactly that status, lamps,
  phase, timers and counters, as the newest one of the intersection.\<close>

theorem local_report_monitored:
  assumes "l = local_run cmode n svc rnd start inputs" "central_run t file argv es = Some w"
  shows "case central_frame_normalize (send_payload now MSG_STATUS_UPDATE (encode_status (fill_status_locked l))) 104
      (controller_code CONTROLLER_CENTRAL) of
      None \<Rightarrow> False
    | Some f \<Rightarrow> (case handle_message stamp at f r (cw_state w) of (result, r', s') \<Rightarrow>
        result = 0 \<and> reply_status r' = 0 \<and> mon_intersections (c_monitor s') ! unat (intersection_id l) =
          \<lparr>iv_valid = True, iv_synchronized = True, iv_received_at = at, iv_status = fill_status_locked l\<rparr>)"
proof -
  have l: "local_inv l" unfolding assms(1) by (rule core_run_inv [OF local_state_init_inv])
  let ?f = "send_payload now MSG_STATUS_UPDATE (encode_status (fill_status_locked l))"
  have mon: "monitor_ok (c_monitor (cw_state w))"
    using central_run_ok [OF assms(2)] by (simp add: world_ok_def state_ok_def shape_ok_def)
  have ty: "hdr_type (header ?f) = msg_code MSG_STATUS_UPDATE" by (simp add: send_payload_def Let_def init_message_def)
  note d = local_report_normal(2) [OF l, of now]
  have u: "st_intersection_id (fill_status_locked l) = intersection_id l" by (simp add: fill_status_locked_def Let_def)
  note h = handle_local_report [OF mon ty, unfolded d u, OF local_report_valid [OF l], of stamp at r]
  show ?thesis unfolding local_report_normal(1) [OF l] option.case using h
    by (cases "handle_message stamp at ?f r (cw_state w)") (simp only: fst_conv snd_conv prod.case simp_thms)
qed

lemma local_report_monitored_witness:
  "\<exists>w. central_run [] (\<lambda>_. None) [] [] = Some w \<and>
     central_frame_normalize (send_payload [] MSG_STATUS_UPDATE (encode_status (fill_status_locked
       (local_run CONN_MODE_LOCAL 0 None (\<lambda>_. 0) 0 [])))) 104 (controller_code CONTROLLER_CENTRAL) \<noteq> None"
proof -
  obtain w where w: "central_run [] (\<lambda>_. None) [] [] = Some w" by (rule plain_run)
  from local_report_monitored [OF refl w, where cmode = CONN_MODE_LOCAL and n = 0 and svc = None and rnd = "\<lambda>_. 0" and
      start = 0 and inputs = "[]" and now = "[]" and stamp = "[]" and at = 0 and r = zero_reply] w show ?thesis by (auto split: option.splits)
qed

end
